(* ===== verification/Prelude.thy ===== *)
theory Prelude
  imports Complex_Main "HOL-Library.AList" "HOL-Library.Multiset" "HOL-Library.List_Lexorder" "HOL-Library.Char_ord"
begin

text \<open>
  Shared ground of the development.

  \<^item> \<open>exn\<close>: the exception classes the platform raises or lets through, one constructor per
    class, with the class tests (\<open>is_value_error\<close>, \<open>is_mcp_gateway_error\<close>, \<dots>) that stand for
    the \<open>except C\<close> clauses of the source.  A fallible call returns \<open>exn + 'a\<close> (\<open>Inl\<close> for the
    exception); a call that also changes state returns \<open>(exn + 'a) \<times> 's\<close>, because a Python
    object keeps the mutations made before a raise.
  \<^item> Insertion-ordered dictionaries are association lists, updated by \<open>AList.update\<close>.
  \<^item> Generic facts on lists that several components use.

  Times and money are real numbers: the rounding of binary floating point is not modelled.
\<close>

named_theorems py_simps "evaluation rules for the string and sequence library"
named_theorems exn_class "membership of exception classes"

section \<open>Exceptions\<close>

datatype exn =
    ValueError string
  | UnknownTenantError string
  | UnsafeKnowledgeDocument string
  | ValidationError
  | LookupError string
  | RuntimeError string
  | TimeoutError
  | MCPToolNotFound string
  | MCPAccessDenied string
  | MCPInvalidArguments string
  | MCPToolFailure string
  | ModelNotAllowed string
  | ModelBudgetExceeded string
  | ModelProviderFailure string
  | PiiBlockedError string "string list"
  | ContentSafetyBlockedError string "(string \<times> int) list"
  | JwtIdentityError string
  | PyJWTError string
  | HTTPException int string "(string \<times> string) list"
  | OtherException string
  | CancelledError

type_synonym 'a outcome = "exn + 'a"

text \<open>\<open>except Exception\<close> catches everything except cancellation, which derives from
  \<open>BaseException\<close> only.\<close>

definition is_exception :: "exn \<Rightarrow> bool" where
  "is_exception e \<longleftrightarrow> e \<noteq> CancelledError"

text \<open>\<open>UnknownTenantError\<close>, \<open>UnsafeKnowledgeDocument\<close> and pydantic's \<open>ValidationError\<close> are
  subclasses of \<open>ValueError\<close>.\<close>

fun is_value_error :: "exn \<Rightarrow> bool" where
  "is_value_error (ValueError _) = True"
| "is_value_error (UnknownTenantError _) = True"
| "is_value_error (UnsafeKnowledgeDocument _) = True"
| "is_value_error ValidationError = True"
| "is_value_error _ = False"

text \<open>The subclasses of \<open>MCPGatewayError\<close> (mcp\_boundary/gateway.py).\<close>

fun is_mcp_gateway_error :: "exn \<Rightarrow> bool" where
  "is_mcp_gateway_error (MCPToolNotFound _) = True"
| "is_mcp_gateway_error (MCPAccessDenied _) = True"
| "is_mcp_gateway_error (MCPInvalidArguments _) = True"
| "is_mcp_gateway_error (MCPToolFailure _) = True"
| "is_mcp_gateway_error _ = False"

text \<open>The subclasses of \<open>ModelGatewayError\<close> (model\_gateway/contracts.py).\<close>

fun is_model_gateway_error :: "exn \<Rightarrow> bool" where
  "is_model_gateway_error (ModelNotAllowed _) = True"
| "is_model_gateway_error (ModelBudgetExceeded _) = True"
| "is_model_gateway_error (ModelProviderFailure _) = True"
| "is_model_gateway_error _ = False"

text \<open>\<open>KeyError\<close> and \<open>IndexError\<close> derive from \<open>LookupError\<close>.\<close>

fun is_lookup_error :: "exn \<Rightarrow> bool" where
  "is_lookup_error (LookupError _) = True"
| "is_lookup_error (OtherException c) = (c = ''KeyError'' \<or> c = ''IndexError'')"
| "is_lookup_error _ = False"

lemma mcp_gateway_error_is_exception [exn_class]:
  "is_mcp_gateway_error e \<Longrightarrow> is_exception e"
  by (cases e) (auto simp: is_exception_def)

lemma model_gateway_error_is_exception [exn_class]:
  "is_model_gateway_error e \<Longrightarrow> is_exception e"
  by (cases e) (auto simp: is_exception_def)

section \<open>Fallible computations\<close>

definition is_ok :: "'e + 'a \<Rightarrow> bool" where
  "is_ok r \<longleftrightarrow> (case r of Inl _ \<Rightarrow> False | Inr _ \<Rightarrow> True)"

lemma is_ok_simps [simp]: "is_ok (Inl e) = False" "is_ok (Inr x) = True"
  by (simp_all add: is_ok_def)

lemma is_ok_iff: "is_ok r \<longleftrightarrow> (\<exists>x. r = Inr x)"
  by (cases r) auto

lemma not_is_ok_iff: "\<not> is_ok r \<longleftrightarrow> (\<exists>e. r = Inl e)"
  by (cases r) auto

text \<open>Run a fallible function over a list, stopping at the first exception (a comprehension
  whose element expression may raise).\<close>

fun map_outcome :: "('a \<Rightarrow> exn + 'b) \<Rightarrow> 'a list \<Rightarrow> exn + 'b list" where
  "map_outcome f [] = Inr []"
| "map_outcome f (x # xs) =
     (case f x of
        Inl e \<Rightarrow> Inl e
      | Inr y \<Rightarrow> (case map_outcome f xs of Inl e \<Rightarrow> Inl e | Inr ys \<Rightarrow> Inr (y # ys)))"

lemma map_outcome_Inr: "map_outcome f xs = Inr ys \<longleftrightarrow> map f xs = map Inr ys"
proof (induction xs arbitrary: ys)
  case Nil
  then show ?case by auto
next
  case (Cons x xs)
  show ?case
  proof (cases "f x")
    case (Inl e)
    then show ?thesis by (cases ys) auto
  next
    case (Inr y)
    then show ?thesis
      using Cons.IH by (cases ys) (auto split: sum.split, metis+)
  qed
qed

lemma map_outcome_pure [simp]: "map_outcome (\<lambda>x. Inr (g x)) xs = Inr (map g xs)"
  by (induction xs) auto

lemma map_outcome_length: "map_outcome f xs = Inr ys \<Longrightarrow> length ys = length xs"
  by (metis map_outcome_Inr length_map)

section \<open>Ordered dictionaries\<close>

lemma keys_update:
  "map fst (AList.update k v d) =
     (if k \<in> set (map fst d) then map fst d else map fst d @ [k])"
  by (induction d) auto

lemma distinct_keys_update [simp]:
  "distinct (map fst d) \<Longrightarrow> distinct (map fst (AList.update k v d))"
  by (simp add: keys_update)

lemma map_of_update: "map_of (AList.update k v d) = (map_of d)(k \<mapsto> v)"
  by (rule update_conv')

lemma set_update_fresh:
  "k \<notin> fst ` set d \<Longrightarrow> AList.update k v d = d @ [(k, v)]"
  by (induction d) auto

lemma map_of_eq_None_keys: "map_of d k = None \<longleftrightarrow> k \<notin> set (map fst d)"
  by (simp add: map_of_eq_None_iff)

section \<open>Lists\<close>

text \<open>Pruning a queue from the left: the loop
  \<open>while q and q[0] is stale: q.popleft()\<close>.\<close>

lemma dropWhile_sorted_filter:
  fixes f :: "'a \<Rightarrow> 'b::linorder"
  assumes "sorted (map f xs)"
  shows "dropWhile (\<lambda>x. f x \<le> c) xs = filter (\<lambda>x. c < f x) xs"
  using assms
proof (induction xs)
  case Nil
  then show ?case by simp
next
  case (Cons x xs)
  show ?case
  proof (cases "f x \<le> c")
    case True
    with Cons show ?thesis by (simp add: not_less)
  next
    case False
    with Cons.prems have "\<forall>y\<in>set xs. c < f y" by (auto simp: not_le)
    then have "filter (\<lambda>x. c < f x) xs = xs" by (simp add: filter_id_conv)
    with False show ?thesis by simp
  qed
qed

lemma sorted_map_append_last:
  "sorted (map f xs) \<Longrightarrow> (\<forall>x\<in>set xs. f x \<le> f y) \<Longrightarrow> sorted (map f (xs @ [y]))"
  by (auto simp: sorted_append)

lemma sum_list_filter_le:
  assumes "\<forall>x\<in>set xs. (0::real) \<le> f x"
  shows "sum_list (map f (filter P xs)) \<le> sum_list (map f xs)"
  using assms by (induction xs) auto

lemma sum_list_map_filter_mono:
  assumes "\<forall>x\<in>set xs. (0::real) \<le> f x" and "\<And>x. x \<in> set xs \<Longrightarrow> P x \<Longrightarrow> Q x"
  shows "sum_list (map f (filter P xs)) \<le> sum_list (map f (filter Q xs))"
  using assms
proof (induction xs)
  case Nil
  then show ?case by simp
next
  case (Cons x xs)
  then have "sum_list (map f (filter P xs)) \<le> sum_list (map f (filter Q xs))"
    by simp
  with Cons.prems show ?case by fastforce
qed

lemma find_Some_iff_mem: "List.find P xs = Some x \<Longrightarrow> x \<in> set xs \<and> P x"
  by (auto simp: find_Some_iff)

lemma find_key_map_of:
  "List.find (\<lambda>x. f x = k) xs = map_of (map (\<lambda>x. (f x, x)) xs) k"
  by (induction xs) auto

lemma set_take_subset_set: "x \<in> set (take n xs) \<Longrightarrow> x \<in> set xs"
  by (rule in_set_takeD)

lemma sorted_key_take: "sorted (map f xs) \<Longrightarrow> sorted (map f (take n xs))"
  by (simp add: take_map [symmetric] sorted_wrt_take)

end
