(* ===== verification/SlidingWindow.thy ===== *)
theory SlidingWindow
  imports Prelude
begin

text \<open>
  The contract shared by the three sliding-window controls of the platform: the HTTP rate limiter
  (gateway/auth.py), the per-tool rate limiter of the MCP gateway (mcp\_boundary/gateway.py) and
  the tenant spend ceiling (model\_gateway/policy.py).  Each keeps, per key, a queue of time-stamped
  charges; a check prunes the charges that have left the window, refuses if the charge would exceed
  the key's capacity and records it otherwise.  A rate limiter charges 1 per request.

  \<open>window_spec\<close> is the abstract specification: it keeps the whole history, never prunes, and
  admits a charge exactly when the charges of its key in the half-open window before it leave room.
  The locale \<open>sliding_window\<close> states the laws of one check and proves that running any list of
  checks with a monotonic clock makes the decisions of the specification; the bound per window and
  the independence of keys are proved once, about the specification.
\<close>

type_synonym charge = "real \<times> real"   \<comment> \<open>time, cost\<close>
type_synonym 'k request = "'k \<times> charge"

section \<open>The abstract specification\<close>

definition in_window :: "real \<Rightarrow> real \<Rightarrow> charge list \<Rightarrow> charge list" where
  "in_window w now h = filter (\<lambda>e. now - w < fst e) h"

definition charged :: "charge list \<Rightarrow> real" where
  "charged h = sum_list (map snd h)"

definition fits :: "real \<Rightarrow> real option \<Rightarrow> charge list \<Rightarrow> charge \<Rightarrow> bool" where
  "fits w cap h e \<longleftrightarrow>
     (case cap of None \<Rightarrow> False | Some c \<Rightarrow> charged (in_window w (fst e) h) + snd e \<le> c)"

fun window_spec ::
  "real \<Rightarrow> ('k \<Rightarrow> real option) \<Rightarrow> ('k \<Rightarrow> charge list) \<Rightarrow> 'k request list \<Rightarrow> bool list" where
  "window_spec w cap h [] = []"
| "window_spec w cap h ((k, e) # rs) =
     (let ok = fits w (cap k) (h k) e
      in ok # window_spec w cap (if ok then h(k := h k @ [e]) else h) rs)"

text \<open>The charges of key \<open>k\<close> among the admitted requests.\<close>

fun admitted :: "'k request list \<Rightarrow> bool list \<Rightarrow> 'k \<Rightarrow> charge list" where
  "admitted ((k', e) # rs) (b # bs) k =
     (if b \<and> k' = k then e # admitted rs bs k else admitted rs bs k)"
| "admitted _ _ k = []"

text \<open>Running a check over a list of requests.\<close>

fun run_checks ::
  "('k \<Rightarrow> charge \<Rightarrow> 's \<Rightarrow> (exn + unit) \<times> 's) \<Rightarrow> 's \<Rightarrow> 'k request list \<Rightarrow> bool list \<times> 's" where
  "run_checks chk s [] = ([], s)"
| "run_checks chk s ((k, e) # rs) =
     (let (r, s') = chk k e s; (bs, s'') = run_checks chk s' rs in (is_ok r # bs, s''))"

text \<open>The requests arrive in the order of the clock.\<close>

fun clocked :: "real \<Rightarrow> 'k request list \<Rightarrow> bool" where
  "clocked t [] = True"
| "clocked t ((k, e) # rs) = (t \<le> fst e \<and> clocked (fst e) rs)"

lemma length_window_spec [simp]: "length (window_spec w cap h rs) = length rs"
  by (induction w cap h rs rule: window_spec.induct) (auto simp: Let_def)

lemma charged_Nil [simp]: "charged [] = 0"
  by (simp add: charged_def)

lemma charged_append [simp]: "charged (g @ h) = charged g + charged h"
  by (simp add: charged_def)

lemma charged_Cons [simp]: "charged (e # h) = snd e + charged h"
  by (simp add: charged_def)

lemma in_window_append [simp]: "in_window w t (g @ h) = in_window w t g @ in_window w t h"
  by (simp add: in_window_def)

lemma in_window_in_window: "t \<le> u \<Longrightarrow> in_window w u (in_window w t h) = in_window w u h"
  by (auto simp: in_window_def intro: filter_cong)

section \<open>The bound per window\<close>

text \<open>The charges in the window \<open>(t - w, t]\<close>.\<close>

definition charged_in :: "real \<Rightarrow> real \<Rightarrow> charge list \<Rightarrow> real" where
  "charged_in w t h = charged (filter (\<lambda>e. t - w < fst e \<and> fst e \<le> t) h)"

definition bounded_by :: "real \<Rightarrow> real \<Rightarrow> charge list \<Rightarrow> bool" where
  "bounded_by w c h \<longleftrightarrow> (\<forall>t. charged_in w t h \<le> c)"

lemma bounded_by_snoc:
  assumes bound: "bounded_by w c h" and cost: "\<forall>e\<in>set h. 0 \<le> snd e \<and> fst e \<le> fst e'"
    and fit: "charged (in_window w (fst e') h) + snd e' \<le> c"
  shows "bounded_by w c (h @ [e'])"
  unfolding bounded_by_def
proof
  fix t
  show "charged_in w t (h @ [e']) \<le> c"
  proof (cases "fst e' \<le> t \<and> t - w < fst e'")
    case True
    have "charged (filter (\<lambda>e. t - w < fst e \<and> fst e \<le> t) h) \<le> charged (in_window w (fst e') h)"
      unfolding charged_def in_window_def using True cost
      by (intro sum_list_map_filter_mono) auto
    with True fit show ?thesis by (simp add: charged_in_def)
  next
    case False
    then have "charged_in w t (h @ [e']) = charged_in w t h"
      by (auto simp: charged_in_def)
    with bound show ?thesis by (simp add: bounded_by_def)
  qed
qed

lemma window_spec_bounded_aux:
  assumes "clocked t rs" and "\<forall>(k, e)\<in>set rs. 0 \<le> snd e" and "cap k = Some c"
    and "bounded_by w c (h k)" and "\<forall>e\<in>set (h k). 0 \<le> snd e \<and> fst e \<le> t"
  shows "bounded_by w c (h k @ admitted rs (window_spec w cap h rs) k)"
  using assms
proof (induction w cap h rs arbitrary: t rule: window_spec.induct)
  case (1 w cap h)
  then show ?case by simp
next
  case (2 w cap h k' e rs)
  have later: "\<forall>x\<in>set (h k). 0 \<le> snd x \<and> fst x \<le> fst e"
    using "2.prems"(1,5) by fastforce
  let ?ok = "fits w (cap k') (h k') e"
  let ?h = "if ?ok then h(k' := h k' @ [e]) else h"
  have bnd: "bounded_by w c (?h k)"
  proof (cases "?ok \<and> k' = k")
    case True
    then show ?thesis
      using bounded_by_snoc[OF "2.prems"(4) later] "2.prems"(3) by (auto simp: fits_def)
  next
    case False
    with "2.prems"(4) show ?thesis by auto
  qed
  have nonneg: "\<forall>x\<in>set (?h k). 0 \<le> snd x \<and> fst x \<le> fst e"
    using later "2.prems"(2) by (auto split: if_splits)
  have "bounded_by w c (?h k @ admitted rs (window_spec w cap ?h rs) k)"
    using "2.prems"(1-3) bnd nonneg by (intro "2.IH"[OF refl, of "fst e"]) simp_all
  then show ?case
    by (cases ?ok; cases "k' = k") (simp_all add: Let_def)
qed

theorem window_spec_bounded:
  assumes "clocked t rs" and "\<forall>(k, e)\<in>set rs. 0 \<le> snd e" and "cap k = Some c" and "0 \<le> c"
  shows "bounded_by w c (admitted rs (window_spec w cap (\<lambda>_. []) rs) k)"
  using window_spec_bounded_aux[where cap = cap and k = k and h = "\<lambda>_. []", OF assms(1-3)] assms(4)
  by (simp add: bounded_by_def charged_in_def)

section \<open>Independence of keys\<close>

text \<open>What happens to key \<open>k\<close> depends only on the requests of key \<open>k\<close>.\<close>

lemma window_spec_isolated_aux:
  assumes "h k = g k"
  shows "admitted rs (window_spec w cap h rs) k =
         admitted (filter (\<lambda>r. fst r = k) rs)
           (window_spec w cap g (filter (\<lambda>r. fst r = k) rs)) k"
  using assms
proof (induction w cap h rs arbitrary: g rule: window_spec.induct)
  case (1 w cap h)
  then show ?case by simp
next
  case (2 w cap h k' e rs)
  show ?case
  proof (cases "k' = k")
    case True
    show ?thesis
    proof (cases "fits w (cap k) (g k) e")
      case ok: True
      from "2.IH"[OF refl, of "g(k := g k @ [e])"] True ok "2.prems" show ?thesis
        by (simp add: Let_def fun_upd_def)
    next
      case refused: False
      from "2.IH"[OF refl, of g] True refused "2.prems" show ?thesis
        by (simp add: Let_def)
    qed
  next
    case False
    then show ?thesis
      using "2.prems" "2.IH"[OF refl, of g]
      by (cases "fits w (cap k') (h k') e") (simp_all add: Let_def fun_upd_def)
  qed
qed

theorem window_spec_isolated:
  assumes "filter (\<lambda>r. fst r = k) rs = filter (\<lambda>r. fst r = k) qs"
  shows "admitted rs (window_spec w cap h rs) k = admitted qs (window_spec w cap h qs) k"
  using window_spec_isolated_aux[where h = h and g = h] assms by metis

section \<open>Exactness\<close>

text \<open>The decision on the last request depends on the admitted charges in its window only.\<close>

lemma window_spec_snoc:
  "window_spec w cap h (rs @ [(k, e)]) =
     window_spec w cap h rs @ [fits w (cap k) (h k @ admitted rs (window_spec w cap h rs) k) e]"
proof (induction w cap h rs rule: window_spec.induct)
  case (1 w cap h)
  then show ?case by simp
next
  case (2 w cap h k' e' rs)
  show ?case
  proof (cases "fits w (cap k') (h k') e'")
    case True
    then show ?thesis
      using "2.IH"[OF refl] by (cases "k' = k") (simp_all add: Let_def fun_upd_def)
  next
    case False
    then show ?thesis using "2.IH"[OF refl] by (simp add: Let_def)
  qed
qed

section \<open>The interface\<close>

text \<open>\<open>ledger s k\<close> is the queue of key \<open>k\<close>; the window and the capacities are part of the state
  and no check changes them.\<close>

definition pruned :: "real \<Rightarrow> real \<Rightarrow> charge list \<Rightarrow> charge list" where
  "pruned w now q = dropWhile (\<lambda>e. fst e \<le> now - w) q"

locale sliding_window =
  fixes check :: "'k \<Rightarrow> charge \<Rightarrow> 's \<Rightarrow> (exn + unit) \<times> 's"
    and ledger :: "'s \<Rightarrow> 'k \<Rightarrow> charge list"
    and window :: "'s \<Rightarrow> real"
    and cap :: "'s \<Rightarrow> 'k \<Rightarrow> real option"
    and chargeable :: "real \<Rightarrow> bool"
    and inv :: "'s \<Rightarrow> bool"
  assumes inv_check: "inv s \<Longrightarrow> inv (snd (check k e s))"
    and window_check: "window (snd (check k e s)) = window s"
    and cap_check: "cap (snd (check k e s)) = cap s"
    and cap_nonneg: "inv s \<Longrightarrow> cap s k = Some c \<Longrightarrow> 0 \<le> c"
    and chargeable_nonneg: "chargeable c \<Longrightarrow> 0 \<le> c"
    and check_decides: "inv s \<Longrightarrow> chargeable (snd e) \<Longrightarrow>
      is_ok (fst (check k e s)) \<longleftrightarrow>
        (case cap s k of None \<Rightarrow> False
         | Some c \<Rightarrow> charged (pruned (window s) (fst e) (ledger s k)) + snd e \<le> c)"
    and check_admits: "inv s \<Longrightarrow> chargeable (snd e) \<Longrightarrow> is_ok (fst (check k e s)) \<Longrightarrow>
      ledger (snd (check k e s)) k = pruned (window s) (fst e) (ledger s k) @ [e]"
    and check_refuses: "inv s \<Longrightarrow> chargeable (snd e) \<Longrightarrow> \<not> is_ok (fst (check k e s)) \<Longrightarrow>
      ledger (snd (check k e s)) k \<in> {ledger s k, pruned (window s) (fst e) (ledger s k)}"
    and check_frame: "k' \<noteq> k \<Longrightarrow> ledger (snd (check k e s)) k' = ledger s k'"
begin

text \<open>The queue of a key and its full history agree on every window that ends at \<open>t\<close> or later.\<close>

definition agrees :: "real \<Rightarrow> 's \<Rightarrow> ('k \<Rightarrow> charge list) \<Rightarrow> bool" where
  "agrees t s h \<longleftrightarrow> (\<forall>k. sorted (map fst (ledger s k)) \<and> (\<forall>e\<in>set (ledger s k). fst e \<le> t) \<and>
      (\<forall>u\<ge>t. pruned (window s) u (ledger s k) = in_window (window s) u (h k)))"

lemma pruned_sorted:
  "sorted (map fst q) \<Longrightarrow> pruned w u q = in_window w u q"
  unfolding pruned_def in_window_def by (rule dropWhile_sorted_filter)

lemma agrees_later: "agrees t s h \<Longrightarrow> t \<le> u \<Longrightarrow> agrees u s h"
  unfolding agrees_def by force

lemma step_agrees:
  fixes k :: 'k
  assumes inv: "inv s" and cost: "chargeable (snd e)" and ag: "agrees t s h" and le: "t \<le> fst e"
  defines "ok \<equiv> is_ok (fst (check k e s))" and "s' \<equiv> snd (check k e s)"
  shows "ok = fits (window s) (cap s k) (h k) e"
    and "agrees (fst e) s' (if ok then h(k := h k @ [e]) else h)"
proof -
  let ?w = "window s"
  from ag le have pr: "\<And>u. fst e \<le> u \<Longrightarrow> pruned ?w u (ledger s k) = in_window ?w u (h k)"
    and so: "sorted (map fst (ledger s k))" and bd: "\<forall>x\<in>set (ledger s k). fst x \<le> fst e"
    by (force simp: agrees_def)+
  have w': "window s' = ?w" unfolding s'_def by (rule window_check)
  show "ok = fits ?w (cap s k) (h k) e"
    unfolding ok_def fits_def check_decides[OF inv cost] pr[OF order_refl] ..
  let ?p = "pruned ?w (fst e) (ledger s k)"
  have sp: "sorted (map fst ?p)" and bp: "\<forall>x\<in>set ?p. fst x \<le> fst e"
    using so bd by (simp_all add: pruned_sorted in_window_def sorted_filter)
  have pp: "pruned ?w u ?p = in_window ?w u (h k)" if "fst e \<le> u" for u
    unfolding pr[OF that, symmetric]
    using in_window_in_window[OF that] pruned_sorted[OF sp] pruned_sorted[OF so] by simp
  have other: "k' \<noteq> k \<Longrightarrow> sorted (map fst (ledger s' k')) \<and>
      (\<forall>x\<in>set (ledger s' k'). fst x \<le> fst e) \<and>
      (\<forall>u\<ge>fst e. pruned ?w u (ledger s' k') = in_window ?w u (h k'))" for k'
    using agrees_later[OF ag le] unfolding s'_def by (simp add: check_frame agrees_def)
  show "agrees (fst e) s' (if ok then h(k := h k @ [e]) else h)"
  proof (cases ok)
    case True
    then have led: "ledger s' k = ?p @ [e]"
      unfolding ok_def s'_def by (rule check_admits[OF inv cost])
    have "sorted (map fst (?p @ [e]))" using sp bp by (auto simp: sorted_append)
    moreover have "pruned ?w u (?p @ [e]) = in_window ?w u (h k @ [e])" if "fst e \<le> u" for u
      using pp[OF that] sp bp by (simp add: pruned_sorted sorted_append)
    ultimately show ?thesis
      using True other bp unfolding agrees_def w' by (auto simp: led)
  next
    case False
    then have "ledger s' k \<in> {ledger s k, ?p}"
      unfolding ok_def s'_def by (rule check_refuses[OF inv cost])
    then have "sorted (map fst (ledger s' k)) \<and> (\<forall>x\<in>set (ledger s' k). fst x \<le> fst e) \<and>
        (\<forall>u\<ge>fst e. pruned ?w u (ledger s' k) = in_window ?w u (h k))"
      using so bd sp bp pr pp by auto
    then have "\<forall>k'. sorted (map fst (ledger s' k')) \<and> (\<forall>x\<in>set (ledger s' k'). fst x \<le> fst e) \<and>
        (\<forall>u\<ge>fst e. pruned ?w u (ledger s' k') = in_window ?w u (h k'))"
      using other by (intro allI) (rename_tac k', case_tac "k' = k", simp_all)
    then show ?thesis using False unfolding agrees_def w' by simp
  qed
qed

text \<open>The refinement: the decisions are those of the specification.\<close>

lemma run_refines_aux:
  assumes "inv s" and "agrees t s h" and "clocked t rs" and "\<forall>r\<in>set rs. chargeable (snd (snd r))"
  shows "fst (run_checks check s rs) = window_spec (window s) (cap s) h rs"
  using assms
proof (induction rs arbitrary: s t h)
  case Nil
  then show ?case by simp
next
  case (Cons r rs)
  obtain k e where r: "r = (k, e)" by (cases r)
  let ?s' = "snd (check k e s)" and ?ok = "is_ok (fst (check k e s))"
  have cost: "chargeable (snd e)" and le: "t \<le> fst e" using Cons.prems by (auto simp: r)
  note step = step_agrees[OF Cons.prems(1) cost Cons.prems(2) le, where k = k]
  have "fst (run_checks check ?s' rs) =
      window_spec (window ?s') (cap ?s') (if ?ok then h(k := h k @ [e]) else h) rs"
    using Cons.prems step(2) by (intro Cons.IH) (auto simp: r inv_check)
  then show ?case
    using step(1) by (simp add: r window_check cap_check split_beta Let_def)
qed

definition fresh :: "'s \<Rightarrow> bool" where
  "fresh s \<longleftrightarrow> (\<forall>k. ledger s k = [])"

lemma fresh_agrees: "fresh s \<Longrightarrow> agrees t s (\<lambda>_. [])"
  by (simp add: fresh_def agrees_def pruned_def in_window_def)

theorem run_refines:
  assumes "inv s" and "\<And>k. ledger s k = []" and "clocked t rs"
    and "\<forall>r\<in>set rs. chargeable (snd (snd r))"
  shows "fst (run_checks check s rs) = window_spec (window s) (cap s) (\<lambda>_. []) rs"
  using assms by (intro run_refines_aux[where t = t] fresh_agrees) (auto simp: fresh_def)

theorem run_bounded:
  assumes "inv s" and "\<And>k. ledger s k = []" and "clocked t rs"
    and "\<forall>r\<in>set rs. chargeable (snd (snd r))" and "cap s k = Some c"
  shows "bounded_by (window s) c (admitted rs (fst (run_checks check s rs)) k)"
  unfolding run_refines[OF assms(1-4)]
  using assms cap_nonneg chargeable_nonneg by (intro window_spec_bounded) auto

theorem run_exact:
  assumes "inv s" and "\<And>k. ledger s k = []" and "clocked t (rs @ [(k, e)])"
    and "\<forall>r\<in>set (rs @ [(k, e)]). chargeable (snd (snd r))" and "clocked t rs"
  shows "fst (run_checks check s (rs @ [(k, e)])) = fst (run_checks check s rs) @
      [fits (window s) (cap s k) (admitted rs (fst (run_checks check s rs)) k) e]"
  using assms by (simp add: run_refines[where t = t] window_spec_snoc)

theorem run_isolated:
  assumes "inv s" and "\<And>k. ledger s k = []" and "clocked t rs" and "clocked t qs"
    and "\<forall>r\<in>set rs. chargeable (snd (snd r))" and "\<forall>r\<in>set qs. chargeable (snd (snd r))"
    and "filter (\<lambda>r. fst r = k) rs = filter (\<lambda>r. fst r = k) qs"
  shows "admitted rs (fst (run_checks check s rs)) k = admitted qs (fst (run_checks check s qs)) k"
  unfolding run_refines[OF assms(1-3,5)] run_refines[OF assms(1,2,4,6)]
  by (rule window_spec_isolated[OF assms(7)])

end

section \<open>Requests and unit charges\<close>

lemma clocked_sorted: "clocked t rs \<longleftrightarrow> sorted (t # map (\<lambda>r. fst (snd r)) rs)"
  by (induction t rs rule: clocked.induct) auto

lemma clocked_ex: "sorted (map (\<lambda>r. fst (snd r)) rs) \<Longrightarrow> \<exists>t. clocked t rs"
  by (cases rs) (auto simp: clocked_sorted)

lemma admitted_subset: "e \<in> set (admitted rs bs k) \<Longrightarrow> (k, e) \<in> set rs"
  by (induction rs bs k rule: admitted.induct) (auto split: if_splits)

lemma charged_ones: "charged (map (\<lambda>t. (t, 1)) ts) = real (length ts)"
  by (induction ts) auto

lemma pruned_ones:
  "pruned w now (map (\<lambda>t. (t, 1)) ts) = map (\<lambda>t. (t, 1)) (dropWhile (\<lambda>t. t \<le> now - w) ts)"
  by (induction ts) (auto simp: pruned_def)

lemma charged_length: "\<forall>e\<in>set es. snd e = 1 \<Longrightarrow> charged es = real (length es)"
  by (induction es) auto

end
