(* ===== verification/PyStr.thy ===== *)
theory PyStr
  imports Prelude "HOL-Library.Sublist"
begin

text \<open>
  The operations of Python's \<open>str\<close> that the platform uses.  A Python string is a \<open>string\<close> whose
  characters are the code points U+0000 to U+00FF, so \<open>length\<close> counts code points as \<open>len\<close>
  does; the character classes (\<open>isspace\<close>, case mapping) are exact on that range, except that the
  three characters whose case mapping leaves the range (micro sign, y with diaeresis and, for
  \<open>casefold\<close>, micro sign again) are left alone; no code of the platform tells them apart from
  their images.
\<close>

section \<open>Characters\<close>

definition code :: "char \<Rightarrow> nat" where
  "code c = of_char c"

text \<open>\<open>str.isspace\<close> on one character; also the class \<open>\s\<close> of \<open>re\<close>.\<close>

definition is_space :: "char \<Rightarrow> bool" where
  "is_space c \<longleftrightarrow> (let n = code c in
     (9 \<le> n \<and> n \<le> 13) \<or> (28 \<le> n \<and> n \<le> 32) \<or> n = 133 \<or> n = 160)"

definition is_digit :: "char \<Rightarrow> bool" where
  "is_digit c \<longleftrightarrow> (let n = code c in 48 \<le> n \<and> n \<le> 57)"

definition is_lower_az :: "char \<Rightarrow> bool" where
  "is_lower_az c \<longleftrightarrow> (let n = code c in 97 \<le> n \<and> n \<le> 122)"

definition is_upper_az :: "char \<Rightarrow> bool" where
  "is_upper_az c \<longleftrightarrow> (let n = code c in 65 \<le> n \<and> n \<le> 90)"

text \<open>The class \<open>\w\<close> of \<open>re\<close> for \<open>str\<close> patterns: alphanumeric or underscore.\<close>

definition is_word :: "char \<Rightarrow> bool" where
  "is_word c \<longleftrightarrow> (let n = code c in
     is_digit c \<or> is_lower_az c \<or> is_upper_az c \<or> n = 95 \<or> n = 170 \<or> n = 178 \<or> n = 179
     \<or> n = 181 \<or> n = 185 \<or> n = 186 \<or> (188 \<le> n \<and> n \<le> 190)
     \<or> (192 \<le> n \<and> n \<noteq> 215 \<and> n \<noteq> 247))"

definition is_upper_latin :: "char \<Rightarrow> bool" where
  "is_upper_latin c \<longleftrightarrow> (let n = code c in
     is_upper_az c \<or> (192 \<le> n \<and> n \<le> 222 \<and> n \<noteq> 215))"

definition is_lower_latin :: "char \<Rightarrow> bool" where
  "is_lower_latin c \<longleftrightarrow> (let n = code c in
     is_lower_az c \<or> (224 \<le> n \<and> n \<le> 254 \<and> n \<noteq> 247))"

definition lower_char :: "char \<Rightarrow> char" where
  "lower_char c = (if is_upper_latin c then char_of (code c + 32) else c)"

definition upper_char :: "char \<Rightarrow> string" where
  "upper_char c =
     (if is_lower_latin c then [char_of (code c - 32)] else if code c = 223 then ''SS'' else [c])"

definition casefold_char :: "char \<Rightarrow> string" where
  "casefold_char c = (if code c = 223 then ''ss'' else [lower_char c])"

section \<open>Strings\<close>

text \<open>\<open>s.lower()\<close>, \<open>s.upper()\<close>, \<open>s.casefold()\<close>.\<close>

definition str_lower :: "string \<Rightarrow> string" where
  "str_lower s = map lower_char s"

definition str_upper :: "string \<Rightarrow> string" where
  "str_upper s = concat (map upper_char s)"

definition casefold :: "string \<Rightarrow> string" where
  "casefold s = concat (map casefold_char s)"

text \<open>\<open>s.strip()\<close>.\<close>

definition lstrip :: "string \<Rightarrow> string" where
  "lstrip s = dropWhile is_space s"

definition strip :: "string \<Rightarrow> string" where
  "strip s = rev (lstrip (rev (lstrip s)))"

text \<open>\<open>s.split()\<close> with no argument: the maximal runs of non-space characters.  \<open>runs P\<close> is the
  list of maximal runs of \<open>P\<close>; it is also \<open>re.findall\<close> of a pattern \<open>[...]+\<close>.\<close>

function runs :: "(char \<Rightarrow> bool) \<Rightarrow> string \<Rightarrow> string list" where
  "runs P [] = []"
| "runs P (c # cs) =
     (if P c then (c # takeWhile P cs) # runs P (dropWhile P cs) else runs P cs)"
  by pat_completeness auto
termination
  by (relation "measure (\<lambda>(P, s). length s)") (auto simp: length_dropWhile_le less_Suc_eq_le)

definition split_ws :: "string \<Rightarrow> string list" where
  "split_ws s = runs (\<lambda>c. \<not> is_space c) s"

text \<open>\<open>s.split(c)\<close> for a one-character separator: never empty, keeps empty fields.\<close>

fun split_on :: "char \<Rightarrow> string \<Rightarrow> string list" where
  "split_on d [] = [[]]"
| "split_on d (c # cs) =
     (if c = d then [] # split_on d cs
      else (case split_on d cs of [] \<Rightarrow> [[c]] | w # ws \<Rightarrow> (c # w) # ws))"

text \<open>\<open>sep.join(parts)\<close>.\<close>

fun join :: "string \<Rightarrow> string list \<Rightarrow> string" where
  "join sep [] = []"
| "join sep [x] = x"
| "join sep (x # y # ys) = x @ sep @ join sep (y # ys)"

text \<open>\<open>s.partition(c)\<close> for a one-character separator: head, whether the separator was found,
  tail.\<close>

definition partition_on :: "char \<Rightarrow> string \<Rightarrow> string \<times> bool \<times> string" where
  "partition_on d s =
     (let h = takeWhile (\<lambda>c. c \<noteq> d) s; t = dropWhile (\<lambda>c. c \<noteq> d) s in
      (case t of [] \<Rightarrow> (s, False, []) | _ # r \<Rightarrow> (h, True, r)))"

text \<open>\<open>s.startswith(p)\<close>, \<open>s.endswith(p)\<close>, \<open>p in s\<close>, \<open>s.removeprefix(p)\<close>, and \<open>s.replace(c, r)\<close>
  for a one-character pattern.\<close>

definition starts_with :: "string \<Rightarrow> string \<Rightarrow> bool" where
  "starts_with p s \<longleftrightarrow> take (length p) s = p"

definition ends_with :: "string \<Rightarrow> string \<Rightarrow> bool" where
  "ends_with p s \<longleftrightarrow> starts_with (rev p) (rev s)"

fun contains :: "string \<Rightarrow> string \<Rightarrow> bool" where
  "contains p [] = (p = [])"
| "contains p (c # cs) = (starts_with p (c # cs) \<or> contains p cs)"

definition remove_prefix :: "string \<Rightarrow> string \<Rightarrow> string" where
  "remove_prefix p s = (if starts_with p s then drop (length p) s else s)"

definition replace_char :: "char \<Rightarrow> string \<Rightarrow> string \<Rightarrow> string" where
  "replace_char d r s = concat (map (\<lambda>c. if c = d then r else [c]) s)"

text \<open>Decimal rendering of a non-negative integer (an f-string field holding an \<open>int\<close>).\<close>

fun show_nat :: "nat \<Rightarrow> string" where
  "show_nat n =
     (if n < 10 then [char_of (48 + n)] else show_nat (n div 10) @ [char_of (48 + n mod 10)])"

declare show_nat.simps [simp del]

definition show_int :: "int \<Rightarrow> string" where
  "show_int i = (if i < 0 then CHR ''-'' # show_nat (nat (- i)) else show_nat (nat i))"

text \<open>\<open>repr(s)\<close>, used by \<open>{name!r}\<close> fields of messages.\<close>

definition hex_digit :: "nat \<Rightarrow> char" where
  "hex_digit n = (if n < 10 then char_of (48 + n) else char_of (87 + n))"

definition repr_char :: "char \<Rightarrow> char \<Rightarrow> string" where
  "repr_char q c =
     (let n = code c in
      if c = q \<or> n = 92 then [char_of (92 :: nat), c]
      else if n = 9 then [char_of (92 :: nat), CHR ''t'']
      else if n = 10 then [char_of (92 :: nat), CHR ''n'']
      else if n = 13 then [char_of (92 :: nat), CHR ''r'']
      else if n < 32 \<or> (127 \<le> n \<and> n \<le> 160) \<or> n = 173
      then [char_of (92 :: nat), CHR ''x'', hex_digit (n div 16), hex_digit (n mod 16)]
      else [c])"

definition quote_for :: "string \<Rightarrow> char" where
  "quote_for s =
     (if char_of (39 :: nat) \<in> set s \<and> CHR 0x22 \<notin> set s then CHR 0x22 else char_of (39 :: nat))"

definition repr_str :: "string \<Rightarrow> string" where
  "repr_str s = (let q = quote_for s in [q] @ concat (map (repr_char q) s) @ [q])"

definition repr_list :: "string list \<Rightarrow> string" where
  "repr_list xs = ''['' @ join '', '' (map repr_str xs) @ '']''"

text \<open>\<open>sorted(set(xs))\<close> and \<open>sorted(xs)\<close> on strings: code point order, which is the order of
  \<open>string\<close> as a list of characters.\<close>

definition sorted_set :: "string list \<Rightarrow> string list" where
  "sorted_set xs = sort (remdups xs)"

text \<open>The declaration \<open>str_strip_whitespace=True\<close> of a pydantic model strips the Unicode
  \<open>White_Space\<close> characters from every string field.\<close>

definition is_white_space :: "char \<Rightarrow> bool" where
  "is_white_space c \<longleftrightarrow> (let n = code c in
     (9 \<le> n \<and> n \<le> 13) \<or> n = 32 \<or> n = 133 \<or> n = 160)"

definition field_strip :: "string \<Rightarrow> string" where
  "field_strip s = rev (dropWhile is_white_space (rev (dropWhile is_white_space s)))"

section \<open>Facts\<close>

lemma lstrip_length: "length (lstrip s) \<le> length s"
  by (simp add: lstrip_def length_dropWhile_le)

lemma strip_length: "length (strip s) \<le> length s"
  using lstrip_length[of s] lstrip_length[of "rev (lstrip s)"] by (simp add: strip_def)

lemma dropWhile_rev_fix:
  assumes "s = [] \<or> \<not> P (hd s)"
  shows "let t = rev (dropWhile P (rev s)) in t = [] \<or> \<not> P (hd t)"
proof (cases "rev (dropWhile P (rev s))")
  case Nil
  then show ?thesis by simp
next
  case (Cons a as)
  obtain u where "rev s = u @ dropWhile P (rev s)"
    by (metis takeWhile_dropWhile_id)
  then have "s = rev (dropWhile P (rev s)) @ rev u"
    by (metis rev_append rev_rev_ident)
  with Cons have "s = a # as @ rev u" by simp
  with assms Cons show ?thesis by simp
qed

lemma dropWhile_idem_fix: "t = [] \<or> \<not> P (hd t) \<Longrightarrow> dropWhile P t = t"
  by (cases t) auto

lemma dropWhile_hd: "dropWhile P t = [] \<or> \<not> P (hd (dropWhile P t))"
  using hd_dropWhile by blast

lemma trim_both_idem:
  "(let t = rev (dropWhile P (rev (dropWhile P s))) in
     rev (dropWhile P (rev (dropWhile P t))) = t)"
proof -
  let ?u = "dropWhile P s"
  let ?t = "rev (dropWhile P (rev ?u))"
  have "?t = [] \<or> \<not> P (hd ?t)"
    using dropWhile_rev_fix[of ?u P] dropWhile_hd[of P s] by (simp add: Let_def)
  then have "dropWhile P ?t = ?t" by (rule dropWhile_idem_fix)
  moreover have "dropWhile P (rev ?t) = rev ?t"
    using dropWhile_hd[of P "rev ?u"] by (auto intro: dropWhile_idem_fix)
  ultimately show ?thesis by simp
qed

lemma strip_idem [simp]: "strip (strip s) = strip s"
  using trim_both_idem[of is_space s] by (simp add: strip_def lstrip_def Let_def)

lemma field_strip_idem [simp]: "field_strip (field_strip s) = field_strip s"
  using trim_both_idem[of is_white_space s] by (simp add: field_strip_def Let_def)

lemma field_strip_plain: "\<forall>c\<in>set s. \<not> is_white_space c \<Longrightarrow> field_strip s = s"
proof -
  assume clean: "\<forall>c\<in>set s. \<not> is_white_space c"
  have dw: "dropWhile is_white_space xs = xs" if "\<forall>c\<in>set xs. \<not> is_white_space c" for xs
    using that by (cases xs) auto
  show ?thesis using dw[of s] dw[of "rev s"] clean by (simp add: field_strip_def)
qed

lemma split_on_not_Nil [simp]: "split_on d s \<noteq> []"
  by (cases s) (auto split: list.splits)

lemma split_on_no_sep: "w \<in> set (split_on d s) \<Longrightarrow> d \<notin> set w"
  by (induction s arbitrary: w) (auto split: list.splits if_splits)

text \<open>\<open>sep.join(s.split(sep)) == s\<close>.\<close>

lemma join_Cons: "ws \<noteq> [] \<Longrightarrow> join sep (w # ws) = w @ sep @ join sep ws"
  by (cases ws) auto

lemma join_split_on: "join [d] (split_on d s) = s"
proof (induction s)
  case Nil
  then show ?case by simp
next
  case (Cons c cs)
  obtain w ws where ws: "split_on d cs = w # ws" by (cases "split_on d cs") auto
  with Cons show ?case by (cases ws) auto
qed

lemma split_on_append_sep:
  "d \<notin> set w \<Longrightarrow> split_on d (w @ d # s) = w # split_on d s"
  by (induction w) (auto split: list.splits)

lemma split_on_plain: "d \<notin> set w \<Longrightarrow> split_on d w = [w]"
  by (induction w) auto

lemma split_on_join:
  "ws \<noteq> [] \<Longrightarrow> (\<forall>w\<in>set ws. d \<notin> set w) \<Longrightarrow> split_on d (join [d] ws) = ws"
proof (induction ws)
  case Nil
  then show ?case by simp
next
  case (Cons w ws)
  then show ?case
    by (cases ws) (auto simp: split_on_plain split_on_append_sep)
qed

lemma runs_elem: "w \<in> set (runs P s) \<Longrightarrow> w \<noteq> [] \<and> (\<forall>c\<in>set w. P c)"
proof (induction P s rule: runs.induct)
  case (1 P)
  then show ?case by simp
next
  case (2 P c cs)
  then show ?case by (cases "P c") (auto dest: set_takeWhileD)
qed

lemma code_lower: "code (lower_char c) = (if is_upper_latin c then code c + 32 else code c)"
proof -
  have "code c + 32 < 256" if "is_upper_latin c"
    using that by (auto simp: is_upper_latin_def is_upper_az_def Let_def)
  then show ?thesis by (auto simp: lower_char_def code_def of_char_of take_bit_eq_mod)
qed

text \<open>\<open>runs\<close> finds exactly the maximal runs.\<close>

definition maximal_run :: "(char \<Rightarrow> bool) \<Rightarrow> string \<Rightarrow> string \<Rightarrow> bool" where
  "maximal_run P w s \<longleftrightarrow>
     (\<exists>x y. s = x @ w @ y \<and> w \<noteq> [] \<and> list_all P w \<and> (x = [] \<or> \<not> P (last x)) \<and> (y = [] \<or> \<not> P (hd y)))"

lemma takeWhile_run: "list_all P u \<Longrightarrow> y = [] \<or> \<not> P (hd y) \<Longrightarrow> takeWhile P (u @ y) = u"
  by (cases y) (auto simp: list_all_iff takeWhile_append)

lemma maximal_run_append:
  assumes "u \<noteq> []" and "list_all P u" and "rest = [] \<or> \<not> P (hd rest)"
  shows "maximal_run P w (u @ rest) \<longleftrightarrow> w = u \<or> maximal_run P w rest"
proof
  assume "maximal_run P w (u @ rest)"
  then obtain x y where s: "u @ rest = x @ w @ y" and w: "w \<noteq> []" "list_all P w" "y = [] \<or> \<not> P (hd y)"
    and x: "x = [] \<or> \<not> P (last x)" unfolding maximal_run_def by blast
  show "w = u \<or> maximal_run P w rest"
  proof (cases "x = []")
    case True
    with takeWhile_run[OF w(2,3)] takeWhile_run[OF assms(2,3)] s show ?thesis by simp
  next
    case False
    from s obtain x' where "x = u @ x' \<and> rest = x' @ w @ y \<or> u = x @ x' \<and> x' @ rest = w @ y"
      unfolding append_eq_append_conv2 by metis
    then show ?thesis
    proof
      assume x': "x = u @ x' \<and> rest = x' @ w @ y"
      with x False have "x' = [] \<or> \<not> P (last x')" by (cases "x' = []") auto
      with x' w show ?thesis unfolding maximal_run_def by blast
    next
      assume "u = x @ x' \<and> x' @ rest = w @ y"
      with assms(2) have "P (last x)" using False by (auto simp: list_all_iff)
      with x False show ?thesis by blast
    qed
  qed
next
  assume "w = u \<or> maximal_run P w rest"
  then show "maximal_run P w (u @ rest)"
  proof
    assume "w = u"
    with assms show ?thesis unfolding maximal_run_def by (intro exI[of _ "[]"] exI[of _ rest]) simp
  next
    assume "maximal_run P w rest"
    then obtain x y where s: "rest = x @ w @ y" and w: "w \<noteq> []" "list_all P w" "y = [] \<or> \<not> P (hd y)"
      and x: "x = [] \<or> \<not> P (last x)" unfolding maximal_run_def by blast
    have "x \<noteq> []" using assms(3) s w(1,2) by (auto simp: list_all_iff hd_append)
    with s w x show ?thesis
      unfolding maximal_run_def by (intro exI[of _ "u @ x"] exI[of _ y]) simp
  qed
qed

lemma runs_iff: "w \<in> set (runs P s) \<longleftrightarrow> maximal_run P w s"
proof (induction P s rule: runs.induct)
  case (1 P)
  then show ?case by (simp add: maximal_run_def)
next
  case (2 P c cs)
  show ?case
  proof (cases "P c")
    case True
    have rest: "dropWhile P cs = [] \<or> \<not> P (hd (dropWhile P cs))" using hd_dropWhile by blast
    have all: "list_all P (c # takeWhile P cs)" using True by (auto simp: list_all_iff dest: set_takeWhileD)
    have "maximal_run P w ((c # takeWhile P cs) @ dropWhile P cs) \<longleftrightarrow>
        w = c # takeWhile P cs \<or> maximal_run P w (dropWhile P cs)"
      by (rule maximal_run_append[OF _ all rest]) simp
    with 2(1)[OF True] True show ?thesis by simp
  next
    case False
    have "maximal_run P w (c # cs) \<longleftrightarrow> maximal_run P w cs"
    proof
      assume "maximal_run P w (c # cs)"
      then obtain x y where s: "c # cs = x @ w @ y" and w: "w \<noteq> []" "list_all P w" "y = [] \<or> \<not> P (hd y)"
        and x: "x = [] \<or> \<not> P (last x)" unfolding maximal_run_def by blast
      with False obtain x' where x': "x = c # x'" by (cases x; cases w) auto
      with x have "x' = [] \<or> \<not> P (last x')" by (cases "x' = []") auto
      with s x' w show "maximal_run P w cs" unfolding maximal_run_def by auto
    next
      assume "maximal_run P w cs"
      then obtain x y where s: "cs = x @ w @ y" and w: "w \<noteq> []" "list_all P w" "y = [] \<or> \<not> P (hd y)"
        and x: "x = [] \<or> \<not> P (last x)" unfolding maximal_run_def by blast
      from x False have "\<not> P (last (c # x))" by auto
      with s w have "c # cs = (c # x) @ w @ y \<and> w \<noteq> [] \<and> list_all P w \<and> (c # x = [] \<or> \<not> P (last (c # x))) \<and>
          (y = [] \<or> \<not> P (hd y))" by simp
      then show "maximal_run P w (c # cs)" unfolding maximal_run_def by blast
    qed
    with 2(2)[OF False] False show ?thesis by simp
  qed
qed

lemma sorted_set_set [simp]: "set (sorted_set xs) = set xs"
  by (simp add: sorted_set_def)

lemma sorted_set_sorted [simp]: "sorted (sorted_set xs)" "distinct (sorted_set xs)"
  by (simp_all add: sorted_set_def)

lemma sorted_set_cong: "set xs = set ys \<Longrightarrow> sorted_set xs = sorted_set ys"
  by (rule sorted_distinct_set_unique) auto

lemma sorted_set_Nil [simp]: "sorted_set [] = []"
  by (simp add: sorted_set_def)

lemma show_nat_digits: "\<forall>c\<in>set (show_nat n). is_digit c"
proof (induction n rule: show_nat.induct)
  case (1 n)
  have digit: "is_digit (char_of (48 + k))" if "k < 10" for k :: nat
    using that by (simp add: is_digit_def code_def of_char_of)
  show ?case
  proof (cases "n < 10")
    case True
    with digit show ?thesis by (subst show_nat.simps) simp
  next
    case False
    with "1.IH" digit[of "n mod 10"] show ?thesis by (subst show_nat.simps) auto
  qed
qed

lemma show_nat_not_Nil [simp]: "show_nat n \<noteq> []"
  by (subst show_nat.simps) simp

text \<open>Reading the digits back, so that rendering is injective (distinct numbers give distinct
  identifiers).\<close>

definition read_nat :: "string \<Rightarrow> nat" where
  "read_nat s = foldl (\<lambda>a c. 10 * a + (code c - 48)) 0 s"

lemma read_show_nat [simp]: "read_nat (show_nat n) = n"
proof (induction n rule: show_nat.induct)
  case (1 n)
  show ?case
  proof (cases "n < 10")
    case True
    then show ?thesis
      by (subst show_nat.simps) (simp add: read_nat_def code_def of_char_of)
  next
    case False
    with 1 have "foldl (\<lambda>a c. 10 * a + (code c - 48)) 0 (show_nat (n div 10)) = n div 10"
      by (simp add: read_nat_def)
    with False show ?thesis
      by (subst show_nat.simps) (simp add: read_nat_def code_def of_char_of)
  qed
qed

lemma show_nat_inj: "show_nat m = show_nat n \<longleftrightarrow> m = n"
  by (metis read_show_nat)

lemma starts_with_append [simp]: "starts_with p (p @ s)"
  by (simp add: starts_with_def)

lemma starts_with_iff: "starts_with p s \<longleftrightarrow> (\<exists>r. s = p @ r)"
proof
  assume "starts_with p s"
  then have "s = p @ drop (length p) s"
    by (metis append_take_drop_id starts_with_def)
  then show "\<exists>r. s = p @ r" by blast
qed auto

lemma contains_iff: "contains p s \<longleftrightarrow> (\<exists>a b. s = a @ p @ b)"
proof (induction s)
  case Nil
  then show ?case by auto
next
  case (Cons c cs)
  show ?case
  proof
    assume "contains p (c # cs)"
    then consider "starts_with p (c # cs)" | "contains p cs" by auto
    then show "\<exists>a b. c # cs = a @ p @ b"
    proof cases
      case 1
      then show ?thesis by (auto simp: starts_with_iff intro: exI[of _ "[]"])
    next
      case 2
      with Cons.IH obtain a b where "cs = a @ p @ b" by blast
      then have "c # cs = (c # a) @ p @ b" by simp
      then show ?thesis by blast
    qed
  next
    assume "\<exists>a b. c # cs = a @ p @ b"
    then obtain a b where ab: "c # cs = a @ p @ b" by blast
    show "contains p (c # cs)"
    proof (cases a)
      case Nil
      with ab have "starts_with p (c # cs)" by (simp only: starts_with_iff) simp
      then show ?thesis by simp
    next
      case (Cons x xs)
      with ab have "cs = xs @ p @ b" by simp
      with Cons.IH show ?thesis by auto
    qed
  qed
qed

lemma remove_prefix_append [simp]: "remove_prefix p (p @ s) = s"
  by (simp add: remove_prefix_def)

end
