(* ===== verification/RateLimit.thy ===== *)
theory RateLimit
  imports SlidingWindow PyStr
begin

text \<open>
  The process-local HTTP rate limiter of gateway/auth.py (\<open>InMemoryRateLimiter\<close>) and the two
  dependencies that call it.  The dictionary \<open>_requests\<close> is a \<open>defaultdict\<close>, hence a total function
  with the empty queue for a key that was never seen; \<open>now\<close> is the reading of
  \<open>time.monotonic()\<close>.
\<close>

section \<open>Callers\<close>

record principal =
  p_subject :: string
  p_roles :: "string set"

section \<open>The limiter\<close>

record rate_limiter =
  rl_limit :: int
  rl_window :: int
  rl_requests :: "string \<Rightarrow> real list"

definition new_rate_limiter :: "int \<Rightarrow> int \<Rightarrow> rate_limiter" where
  "new_rate_limiter limit window_seconds =
     \<lparr>rl_limit = limit, rl_window = window_seconds, rl_requests = (\<lambda>_. [])\<rparr>"

definition rl_check :: "real \<Rightarrow> string \<Rightarrow> rate_limiter \<Rightarrow> (exn + unit) \<times> rate_limiter" where
  "rl_check now key l =
     (let requests = dropWhile (\<lambda>t. t \<le> now - of_int (rl_window l)) (rl_requests l key)
      in if int (length requests) \<ge> rl_limit l
         then (Inl (HTTPException 429 ''Rate limit exceeded''
                      [(''Retry-After'', show_int (rl_window l))]),
               l\<lparr>rl_requests := (rl_requests l)(key := requests)\<rparr>)
         else (Inr (), l\<lparr>rl_requests := (rl_requests l)(key := requests @ [now])\<rparr>))"

definition enforce_rate_limit ::
  "real \<Rightarrow> principal \<Rightarrow> rate_limiter \<Rightarrow> (exn + principal) \<times> rate_limiter" where
  "enforce_rate_limit now p l =
     (case rl_check now (p_subject p) l of
        (Inl e, l') \<Rightarrow> (Inl e, l')
      | (Inr _, l') \<Rightarrow> (Inr p, l'))"

definition demo_key :: "string option \<Rightarrow> string" where
  "demo_key client_host =
     ''demo-ip:'' @ (case client_host of None \<Rightarrow> ''unknown'' | Some h \<Rightarrow> h)"

definition enforce_demo_rate_limit ::
  "real \<Rightarrow> string option \<Rightarrow> rate_limiter \<Rightarrow> (exn + unit) \<times> rate_limiter" where
  "enforce_demo_rate_limit now client_host l = rl_check now (demo_key client_host) l"

section \<open>The limiter meets the sliding-window contract\<close>

definition rl_ledger :: "rate_limiter \<Rightarrow> string \<Rightarrow> charge list" where
  "rl_ledger l key = map (\<lambda>t. (t, 1)) (rl_requests l key)"

definition rl_ok :: "rate_limiter \<Rightarrow> bool" where
  "rl_ok l \<longleftrightarrow> 0 \<le> rl_limit l"

definition rl_charge :: "string \<Rightarrow> charge \<Rightarrow> rate_limiter \<Rightarrow> (exn + unit) \<times> rate_limiter" where
  "rl_charge key e l = rl_check (fst e) key l"

lemma rl_check_ok_iff:
  "is_ok (fst (rl_check now key l)) \<longleftrightarrow>
     int (length (dropWhile (\<lambda>t. t \<le> now - of_int (rl_window l)) (rl_requests l key))) < rl_limit l"
  by (simp add: rl_check_def Let_def)

interpretation rl: sliding_window rl_charge rl_ledger "\<lambda>l. of_int (rl_window l)"
  "\<lambda>l _. Some (of_int (rl_limit l))" "\<lambda>c. c = 1" rl_ok
proof (unfold_locales, goal_cases)
  case (1 l key e)
  then show ?case by (simp add: rl_ok_def rl_charge_def rl_check_def Let_def)
next
  case (2 key e l)
  then show ?case by (simp add: rl_charge_def rl_check_def Let_def)
next
  case (3 key e l)
  then show ?case by (simp add: rl_charge_def rl_check_def Let_def)
next
  case (4 l key c)
  then show ?case by (auto simp: rl_ok_def)
next
  case (5 c)
  then show ?case by simp
next
  case (6 l e key)
  then show ?case
    by (simp add: rl_charge_def rl_check_ok_iff rl_ledger_def pruned_ones charged_ones) linarith
next
  case (7 l e key)
  then show ?case
    by (cases e) (auto simp: rl_charge_def rl_check_def rl_ledger_def pruned_ones Let_def)
next
  case (8 l e key)
  then show ?case
    by (auto simp: rl_charge_def rl_check_def rl_ledger_def pruned_ones Let_def)
next
  case (9 key' key e l)
  then show ?case by (simp add: rl_charge_def rl_check_def rl_ledger_def Let_def)
qed

section \<open>Runs of requests\<close>

text \<open>A request is a key and a clock reading.\<close>

definition rl_requests_of :: "(string \<times> real) list \<Rightarrow> string request list" where
  "rl_requests_of qs = map (\<lambda>(k, t). (k, t, 1)) qs"

definition rl_run :: "rate_limiter \<Rightarrow> (string \<times> real) list \<Rightarrow> bool list \<times> rate_limiter" where
  "rl_run l qs = run_checks rl_charge l (rl_requests_of qs)"

text \<open>The times at which requests of \<open>key\<close> were admitted.\<close>

definition rl_admitted :: "rate_limiter \<Rightarrow> (string \<times> real) list \<Rightarrow> string \<Rightarrow> real list" where
  "rl_admitted l qs key = map fst (admitted (rl_requests_of qs) (fst (rl_run l qs)) key)"

lemma admitted_snd_one:
  "\<forall>e\<in>set (admitted (rl_requests_of qs) bs k). snd e = 1"
proof (induction qs arbitrary: bs)
  case Nil
  then show ?case by (simp add: rl_requests_of_def)
next
  case (Cons q qs)
  then show ?case
    by (cases bs; cases q) (auto simp: rl_requests_of_def)
qed

lemma clocked_rl:
  "clocked t (rl_requests_of qs) \<longleftrightarrow> sorted (t # map snd qs)"
proof (induction qs arbitrary: t)
  case Nil
  then show ?case by (simp add: rl_requests_of_def)
next
  case (Cons q qs)
  then show ?case by (cases q) (auto simp: rl_requests_of_def)
qed

lemma clocked_rl_ge: "sorted (map snd qs) \<Longrightarrow> \<exists>t. clocked t (rl_requests_of qs)"
  by (cases qs) (auto simp: clocked_rl)

lemma rl_new_fresh [simp]: "rl_ledger (new_rate_limiter n w) k = []"
  by (simp add: rl_ledger_def new_rate_limiter_def)

lemma rl_new_sel [simp]:
  "rl_limit (new_rate_limiter n w) = n" "rl_window (new_rate_limiter n w) = w"
  by (simp_all add: new_rate_limiter_def)

lemma rl_chargeable [simp]: "r \<in> set (rl_requests_of qs) \<Longrightarrow> snd (snd r) = 1"
  by (auto simp: rl_requests_of_def)

lemma rl_admitted_bounded:
  assumes "sorted (map snd qs)" and "0 \<le> n"
  shows "int (length (filter (\<lambda>u. t - of_int w < u \<and> u \<le> t)
           (rl_admitted (new_rate_limiter n w) qs key))) \<le> n"
proof -
  let ?l = "new_rate_limiter n w"
  let ?a = "admitted (rl_requests_of qs) (fst (rl_run ?l qs)) key"
  obtain t0 where "clocked t0 (rl_requests_of qs)" using clocked_rl_ge[OF assms(1)] by blast
  then have "bounded_by (of_int w) (of_int n) ?a"
    unfolding rl_run_def using rl.run_bounded[where s = ?l and t = t0 and k = key] assms(2)
    by (simp add: rl_ok_def)
  then have "charged_in (of_int w) t ?a \<le> of_int n" by (simp add: bounded_by_def)
  moreover have "charged_in (of_int w) t ?a =
      real (length (filter (\<lambda>e. t - of_int w < fst e \<and> fst e \<le> t) ?a))"
    unfolding charged_in_def using admitted_snd_one[of qs "fst (rl_run ?l qs)" key]
    by (intro charged_length) auto
  moreover have "length (filter (\<lambda>u. t - of_int w < u \<and> u \<le> t) (map fst ?a)) =
      length (filter (\<lambda>e. t - of_int w < fst e \<and> fst e \<le> t) ?a)"
    by (simp add: filter_map o_def)
  ultimately show ?thesis unfolding rl_admitted_def by linarith
qed

text \<open>C1: whatever keys and clock readings the requests carry, a limiter with limit n and window w
  admits at most n requests of one key in any interval of w seconds, also an interval that starts
  and ends between requests.  The clock is monotonic, so the readings are sorted.\<close>

theorem rate_limit_bound:
  assumes "sorted (map snd qs)" and "0 \<le> n"
  shows "int (length (filter (\<lambda>u. t - of_int w < u \<and> u \<le> t)
           (rl_admitted (new_rate_limiter n w) qs key))) \<le> n"
  using assms by (rule rl_admitted_bounded)

lemma rl_admitted_demo:
  "rl_admitted (new_rate_limiter 2 60)
     [(''ann'', 0), (''ann'', 1), (''bob'', 1), (''ann'', 2), (''ann'', 61)] ''ann'' = [0, 1, 61]"
  by (simp add: rl_admitted_def rl_run_def rl_requests_of_def rl_charge_def rl_check_def
      new_rate_limiter_def Let_def)

theorem rate_limit_bound_witness:
  "sorted (map snd [(''ann'', 0::real), (''ann'', 1), (''bob'', 1), (''ann'', 2), (''ann'', 61)]) \<and>
   rl_admitted (new_rate_limiter 2 60)
     [(''ann'', 0), (''ann'', 1), (''bob'', 1), (''ann'', 2), (''ann'', 61)] ''ann'' = [0, 1, 61] \<and>
   int (length (filter (\<lambda>u. 61 - of_int 60 < u \<and> u \<le> 61)
     (rl_admitted (new_rate_limiter 2 60)
       [(''ann'', 0), (''ann'', 1), (''bob'', 1), (''ann'', 2), (''ann'', 61)] ''ann''))) \<le> 2"
proof (intro conjI)
  show srt: "sorted (map snd [(''ann'', 0::real), (''ann'', 1), (''bob'', 1), (''ann'', 2), (''ann'', 61)])"
    by simp
  show "int (length (filter (\<lambda>u. 61 - of_int 60 < u \<and> u \<le> 61)
     (rl_admitted (new_rate_limiter 2 60)
       [(''ann'', 0), (''ann'', 1), (''bob'', 1), (''ann'', 2), (''ann'', 61)] ''ann''))) \<le> 2"
    using rate_limit_bound[OF srt, of 2 61 60 "''ann''"] by simp
qed (rule rl_admitted_demo)

text \<open>No caller can use up, or learn from, the allowance of another: which requests of a key
  are admitted is the same in any two request sequences that have the same requests of that key.\<close>

theorem rate_limit_isolated:
  assumes "sorted (map snd qs)" and "sorted (map snd rs)"
    and "filter (\<lambda>r. fst r = key) qs = filter (\<lambda>r. fst r = key) rs"
    and "0 \<le> n"
  shows "rl_admitted (new_rate_limiter n w) qs key = rl_admitted (new_rate_limiter n w) rs key"
proof -
  have flt: "filter (\<lambda>r. fst r = key) (rl_requests_of qs) = rl_requests_of (filter (\<lambda>r. fst r = key) qs)"
    for qs
    by (induction qs) (auto simp: rl_requests_of_def)
  have "fst (rl_run (new_rate_limiter n w) qs) =
      window_spec (of_int w) (\<lambda>_. Some (of_int n)) (\<lambda>_. []) (rl_requests_of qs)"
    if "sorted (map snd qs)" for qs
    using rl.run_refines[of "new_rate_limiter n w"] clocked_rl_ge[OF that] assms(4)
    by (auto simp: rl_run_def rl_ok_def)
  with assms(1,2) show ?thesis
    unfolding rl_admitted_def
    using window_spec_isolated[where k = key and rs = "rl_requests_of qs" and qs = "rl_requests_of rs"]
      flt assms(3) by simp
qed

theorem rate_limit_isolated_witness:
  "rl_admitted (new_rate_limiter 2 60)
     [(''ann'', 0), (''ann'', 1), (''bob'', 1), (''ann'', 2), (''ann'', 61)] ''ann'' =
   rl_admitted (new_rate_limiter 2 60) [(''ann'', 0), (''ann'', 1), (''ann'', 2), (''ann'', 61)] ''ann''"
  by (rule rate_limit_isolated) simp_all

text \<open>A request is refused only for want of room: after any run, a request at time \<open>t\<close> is admitted
  exactly when fewer than n of the admitted requests of its key lie in the last w seconds.\<close>

theorem rate_limit_exact:
  assumes "sorted (map snd (qs @ [(key, t)]))" and "0 \<le> n"
  shows "fst (rl_run (new_rate_limiter n w) (qs @ [(key, t)])) =
     fst (rl_run (new_rate_limiter n w) qs) @
       [int (length (filter (\<lambda>u. t - of_int w < u) (rl_admitted (new_rate_limiter n w) qs key))) < n]"
proof -
  let ?l = "new_rate_limiter n w" and ?rs = "rl_requests_of qs"
  let ?a = "admitted ?rs (fst (rl_run ?l qs)) key"
  have app: "rl_requests_of (qs @ [(key, t)]) = ?rs @ [(key, t, 1)]" by (simp add: rl_requests_of_def)
  obtain t0 where t0: "clocked t0 (?rs @ [(key, t, 1)])"
    using clocked_rl_ge[OF assms(1)] by (auto simp: app)
  moreover from t0 have "clocked t0 ?rs"
    using clocked_rl[of t0 qs] clocked_rl[of t0 "qs @ [(key, t)]"] by (simp add: app sorted_append)
  ultimately have "fst (rl_run ?l (qs @ [(key, t)])) =
      fst (rl_run ?l qs) @ [fits (of_int w) (Some (of_int n)) ?a (t, 1)]"
    unfolding rl_run_def app
    using rl.run_exact[of ?l t0 ?rs key "(t, 1)"] assms(2) by (auto simp: rl_ok_def)
  moreover have "charged (in_window (of_int w) t ?a) = real (length (in_window (of_int w) t ?a))"
    using admitted_snd_one[of qs "fst (rl_run ?l qs)" key]
    by (intro charged_length) (auto simp: in_window_def)
  moreover have "length (filter (\<lambda>u. t - of_int w < u) (map fst ?a)) = length (in_window (of_int w) t ?a)"
    by (simp add: filter_map in_window_def o_def)
  ultimately show ?thesis
    unfolding rl_admitted_def fits_def by simp linarith
qed

theorem rate_limit_exact_witness:
  "fst (rl_run (new_rate_limiter 2 60) ([(''ann'', 0), (''ann'', 1), (''ann'', 2)] @ [(''ann'', 61)])) =
   [True, True, False, True]"
proof -
  have "rl_admitted (new_rate_limiter 2 60) [(''ann'', 0), (''ann'', 1), (''ann'', 2)] ''ann'' = [0, 1]"
    and "fst (rl_run (new_rate_limiter 2 60) [(''ann'', 0), (''ann'', 1), (''ann'', 2)]) = [True, True, False]"
    by (simp_all add: rl_admitted_def rl_run_def rl_requests_of_def rl_charge_def rl_check_def
        new_rate_limiter_def Let_def)
  then show ?thesis
    using rate_limit_exact[of "[(''ann'', 0), (''ann'', 1), (''ann'', 2)]" "''ann''" 61 2 60] by simp
qed

section \<open>The key spaces of the two dependencies\<close>

lemma demo_key_eq: "demo_key (Some h) = s \<longleftrightarrow> s = ''demo-ip:'' @ h"
  by (auto simp: demo_key_def)

text \<open>The comment on \<open>enforce_demo_rate_limit\<close> says that the prefix keeps its keys disjoint
  from the subject keys.  It does so only for subjects that do not start with the prefix: one
  authenticated request of the subject \<open>demo-ip:10.0.0.9\<close> uses up the allowance (here 1) of the
  demo routes for the address 10.0.0.9.\<close>

theorem demo_key_collision:
  "fst (enforce_demo_rate_limit 1 (Some ''10.0.0.9'') (new_rate_limiter 1 60)) = Inr () \<and>
   (let (r, l) = enforce_rate_limit 0 \<lparr>p_subject = ''demo-ip:10.0.0.9'', p_roles = {}\<rparr>
        (new_rate_limiter 1 60)
    in is_ok r \<and> \<not> is_ok (fst (enforce_demo_rate_limit 1 (Some ''10.0.0.9'') l)))"
  by (simp add: enforce_demo_rate_limit_def enforce_rate_limit_def rl_check_def demo_key_def
      new_rate_limiter_def Let_def)

end
