(* ===== verification/PyVal.thy ===== *)
theory PyVal
  imports PyStr
begin

text \<open>
  Dynamically typed values: what \<open>dict[str, object]\<close>, \<open>json.loads\<close> and a decoded token hold.  A
  dictionary keeps its insertion order.  \<open>json_dumps\<close> is \<open>json.dumps\<close> with \<open>sort_keys=True\<close>,
  \<open>separators=(",", ":")\<close> and \<open>default=str\<close>: \<open>POther\<close> is an object that \<open>json\<close> cannot encode, given
  by its \<open>str()\<close>; a float is given by its \<open>repr\<close>.  A tuple is written like a list, but
  \<open>isinstance(value, list)\<close> tells them apart; parsed JSON and YAML never contain one.
\<close>

datatype pyval =
    PNone
  | PBool bool
  | PInt int
  | PFloat string
  | PStr string
  | PList "pyval list"
  | PTuple "pyval list"
  | PDict "(string \<times> pyval) list"
  | POther string

text \<open>\<open>bool(value)\<close>.\<close>

fun truthy :: "pyval \<Rightarrow> bool" where
  "truthy PNone = False"
| "truthy (PBool b) = b"
| "truthy (PInt n) = (n \<noteq> 0)"
| "truthy (PFloat r) = (r \<noteq> ''0.0'' \<and> r \<noteq> ''-0.0'')"
| "truthy (PStr s) = (s \<noteq> [])"
| "truthy (PList xs) = (xs \<noteq> [])"
| "truthy (PTuple xs) = (xs \<noteq> [])"
| "truthy (PDict d) = (d \<noteq> [])"
| "truthy (POther s) = True"

text \<open>\<open>a or b\<close> and \<open>d.get(k)\<close>.\<close>

definition py_or :: "pyval \<Rightarrow> pyval \<Rightarrow> pyval" where
  "py_or a b = (if truthy a then a else b)"

definition dict_get :: "(string \<times> pyval) list \<Rightarrow> string \<Rightarrow> pyval" where
  "dict_get d k = (case map_of d k of None \<Rightarrow> PNone | Some v \<Rightarrow> v)"

fun as_str :: "pyval \<Rightarrow> string option" where
  "as_str (PStr s) = Some s"
| "as_str _ = None"

lemma as_str_iff: "as_str v = Some s \<longleftrightarrow> v = PStr s"
  by (cases v) auto

section \<open>JSON text\<close>

text \<open>\<open>json.dumps\<close> escapes the quote, the backslash and everything outside the range from space
  to tilde (\<open>ensure_ascii\<close>).\<close>

definition json_char :: "char \<Rightarrow> string" where
  "json_char c =
     (let n = code c; b = char_of (92 :: nat) in
      if n = 34 then [b, CHR 0x22]
      else if n = 92 then [b, b]
      else if n = 10 then [b, CHR ''n'']
      else if n = 13 then [b, CHR ''r'']
      else if n = 9 then [b, CHR ''t'']
      else if n = 12 then [b, CHR ''f'']
      else if n = 8 then [b, CHR ''b'']
      else if n < 32 \<or> 126 < n
      then [b, CHR ''u'', CHR ''0'', CHR ''0'', hex_digit (n div 16), hex_digit (n mod 16)]
      else [c])"

definition json_str :: "string \<Rightarrow> string" where
  "json_str s = [CHR 0x22] @ concat (map json_char s) @ [CHR 0x22]"

fun json_dumps :: "pyval \<Rightarrow> string" where
  "json_dumps PNone = ''null''"
| "json_dumps (PBool b) = (if b then ''true'' else ''false'')"
| "json_dumps (PInt n) = show_int n"
| "json_dumps (PFloat r) = r"
| "json_dumps (PStr s) = json_str s"
| "json_dumps (PList xs) = ''['' @ join '','' (map json_dumps xs) @ '']''"
| "json_dumps (PTuple xs) = ''['' @ join '','' (map json_dumps xs) @ '']''"
| "json_dumps (PDict d) =
     ''{'' @ join '',''
       (map (\<lambda>(k, v). json_str k @ '':'' @ v)
         (sort_key fst (map (\<lambda>(k, v). (k, json_dumps v)) d))) @ ''}''"
| "json_dumps (POther s) = json_str s"

text \<open>The text of a dictionary does not depend on the order in which its keys were inserted.\<close>

lemma filter_single: "distinct xs \<Longrightarrow> k \<in> set xs \<Longrightarrow> filter (\<lambda>x. x = k) xs = [k]"
  by (induction xs) (auto simp: filter_empty_conv)

lemma sort_key_fst_perm:
  fixes xs ys :: "('a::linorder \<times> 'b) list"
  assumes "mset xs = mset ys" and "distinct (map fst xs)"
  shows "sort_key fst xs = sort_key fst ys"
proof (rule properties_for_sort_key)
  show "mset (sort_key fst ys) = mset xs" using assms(1) by simp
  show "sorted (map fst (sort_key fst ys))" by simp
  have inj: "inj_on fst (set xs)" using assms(2) by (simp add: distinct_map)
  fix k assume "k \<in> set (sort_key fst ys)"
  then have k: "k \<in> set xs" using assms(1) by (metis set_sort mset_eq_setD)
  have "set ys = set xs" using assms(1) by (metis mset_eq_setD)
  then have "filter (\<lambda>x. fst k = fst x) zs = filter (\<lambda>x. x = k) zs" if "set zs \<subseteq> set xs" for zs
    using inj k that by (intro filter_cong) (auto dest: inj_onD)
  moreover have "distinct ys" "distinct xs"
    using assms by (metis distinct_map mset_eq_imp_distinct_iff)+
  ultimately show "filter (\<lambda>x. fst k = fst x) (sort_key fst ys) = filter (\<lambda>x. fst k = fst x) xs"
    using k \<open>set ys = set xs\<close> by (simp add: filter_single)
qed

lemma json_dumps_perm:
  assumes "mset d = mset e" and "distinct (map fst d)"
  shows "json_dumps (PDict d) = json_dumps (PDict e)"
proof -
  let ?f = "\<lambda>(k :: string, v). (k, json_dumps v)"
  have "mset (map ?f d) = mset (map ?f e)" using assms(1) by (simp only: mset_map)
  moreover have "fst \<circ> ?f = fst" by auto
  then have "distinct (map fst (map ?f d))" using assms(2) by (simp only: map_map)
  ultimately have "sort_key fst (map ?f d) = sort_key fst (map ?f e)"
    by (intro sort_key_fst_perm)
  then show ?thesis by simp
qed

section \<open>Numbers from text\<close>

text \<open>\<open>int(s)\<close> for a string: surrounding white space, an optional sign, decimal digits with single
  underscores between them, at most 4300 digits; \<open>None\<close> is \<open>ValueError\<close>.\<close>

definition parse_int :: "string \<Rightarrow> int option" where
  "parse_int s =
     (let t = strip s;
          ds = (case t of [] \<Rightarrow> [] | c # r \<Rightarrow> if c = CHR ''-'' \<or> c = CHR ''+'' then r else t);
          groups = split_on (CHR ''_'') ds;
          n = int (read_nat (concat groups))
      in if list_all (\<lambda>g. g \<noteq> [] \<and> list_all is_digit g) groups \<and> length (concat groups) \<le> 4300
         then Some (if take 1 t = ''-'' then - n else n)
         else None)"

text \<open>\<open>int(v)\<close>: a float is truncated by \<open>trunc\<close>; \<open>None\<close> stands for \<open>ValueError\<close>, \<open>TypeError\<close> and
  \<open>OverflowError\<close>.\<close>

fun to_int :: "(string \<Rightarrow> int option) \<Rightarrow> pyval \<Rightarrow> int option" where
  "to_int trunc (PInt n) = Some n"
| "to_int trunc (PBool b) = Some (if b then 1 else 0)"
| "to_int trunc (PFloat r) = trunc r"
| "to_int trunc (PStr s) = parse_int s"
| "to_int trunc _ = None"

end
