(* ===== verification/RemoteAuth.thy ===== *)
theory RemoteAuth
  imports PyVal
begin

text \<open>
  Verification of the access tokens of remote MCP servers (mcp\_boundary/remote\_auth.py).
  \<open>decode\<close> is \<open>jwt.decode\<close> (public key, audience, issuer, token); \<open>trunc\<close> is \<open>int()\<close> on a float.
  The four exception classes that \<open>verify_token\<close> catches are the PyJWT errors, \<open>KeyError\<close>,
  \<open>TypeError\<close> and \<open>ValueError\<close>; the claim lookups and conversions raise only those.  An \<open>OverflowError\<close>
  of \<open>int(exp)\<close>, for an infinite float, comes from \<open>jwt.decode\<close> itself, which converts the claim to check it.
\<close>

record token_verifier =
  tv_public_key :: string
  tv_issuer :: string
  tv_audience :: string

definition new_token_verifier :: "string \<Rightarrow> string \<Rightarrow> string \<Rightarrow> exn + token_verifier" where
  "new_token_verifier public_key_pem issuer audience =
     (if strip public_key_pem = [] \<or> \<not> starts_with ''https://'' issuer
      then Inl (ValueError ''A public key and HTTPS issuer are required'')
      else Inr \<lparr>tv_public_key = public_key_pem, tv_issuer = issuer, tv_audience = audience\<rparr>)"

record access_token =
  at_token :: string
  at_client_id :: string
  at_scopes :: "string list"
  at_expires_at :: int
  at_resource :: string
  at_subject :: string
  at_jti :: pyval

fun parse_scopes :: "pyval \<Rightarrow> string list" where
  "parse_scopes (PStr s) =
     take 50 (sorted_set (filter (\<lambda>x. 0 < length x \<and> length x \<le> 128) (split_ws s)))"
| "parse_scopes (PList xs) =
     take 50 (sorted_set (filter (\<lambda>x. 0 < length x \<and> length x \<le> 128) (List.map_filter as_str xs)))"
| "parse_scopes _ = []"

fun caught :: "exn \<Rightarrow> bool" where
  "caught (PyJWTError _) = True"
| "caught (OtherException c) = (c = ''KeyError'' \<or> c = ''TypeError'')"
| "caught e = is_value_error e"

definition token_of_claims ::
  "(string \<Rightarrow> int option) \<Rightarrow> token_verifier \<Rightarrow> string \<Rightarrow> (string \<times> pyval) list
    \<Rightarrow> access_token option" where
  "token_of_claims trunc v token claims =
     (let scopes = parse_scopes (dict_get claims ''scope'') in
      case map_of claims ''sub'' of
        None \<Rightarrow> None
      | Some subject \<Rightarrow>
          let client_id = (case map_of claims ''client_id'' of None \<Rightarrow> subject | Some c \<Rightarrow> c) in
          case (as_str subject, as_str client_id) of
            (Some s, Some c) \<Rightarrow>
              if s = [] then None
              else (case Option.bind (map_of claims ''exp'') (to_int trunc) of
                      None \<Rightarrow> None
                    | Some expiry \<Rightarrow>
                        (case map_of claims ''jti'' of
                           None \<Rightarrow> None
                         | Some jti \<Rightarrow>
                             Some \<lparr>at_token = token, at_client_id = c, at_scopes = scopes,
                               at_expires_at = expiry, at_resource = tv_audience v,
                               at_subject = s, at_jti = jti\<rparr>))
          | _ \<Rightarrow> None)"

definition verify_token ::
  "(string \<Rightarrow> string \<Rightarrow> string \<Rightarrow> string \<Rightarrow> exn + (string \<times> pyval) list) \<Rightarrow> (string \<Rightarrow> int option)
    \<Rightarrow> token_verifier \<Rightarrow> string \<Rightarrow> exn + access_token option" where
  "verify_token decode trunc v token =
     (case decode (tv_public_key v) (tv_audience v) (tv_issuer v) token of
        Inl e \<Rightarrow> if caught e then Inr None else Inl e
      | Inr claims \<Rightarrow> Inr (token_of_claims trunc v token claims))"

lemma parse_scopes_bounds:
  "length (parse_scopes v) \<le> 50" "sorted (parse_scopes v)" "distinct (parse_scopes v)"
  "\<forall>x\<in>set (parse_scopes v). x \<noteq> [] \<and> length x \<le> 128"
proof -
  have srt: "sorted (take 50 (sorted_set xs))" for xs
    using sorted_wrt_take[OF sorted_set_sorted(1)] by blast
  have "length (parse_scopes v) \<le> 50 \<and> sorted (parse_scopes v) \<and> distinct (parse_scopes v) \<and>
      (\<forall>x\<in>set (parse_scopes v). x \<noteq> [] \<and> length x \<le> 128)"
    by (cases v) (auto simp: srt dest!: in_set_takeD)
  then show "length (parse_scopes v) \<le> 50" "sorted (parse_scopes v)" "distinct (parse_scopes v)"
    "\<forall>x\<in>set (parse_scopes v). x \<noteq> [] \<and> length x \<le> 128" by blast+
qed

text \<open>C10: an access token is issued only for claims that the JWT library verified for this key,
  audience and issuer; it names a non-empty subject and carries at most 50 distinct scopes in
  sorted order, each of 1 to 128 characters.\<close>

theorem access_token_sound:
  assumes "verify_token decode trunc v token = Inr (Some t)"
  shows "(\<exists>claims. decode (tv_public_key v) (tv_audience v) (tv_issuer v) token = Inr claims \<and>
            map_of claims ''sub'' = Some (PStr (at_subject t)) \<and>
            map_of claims ''jti'' = Some (at_jti t) \<and>
            at_scopes t = parse_scopes (dict_get claims ''scope'')) \<and>
    at_token t = token \<and> at_resource t = tv_audience v \<and> at_subject t \<noteq> [] \<and>
    length (at_scopes t) \<le> 50 \<and> sorted (at_scopes t) \<and> distinct (at_scopes t) \<and>
    (\<forall>x\<in>set (at_scopes t). x \<noteq> [] \<and> length x \<le> 128)"
proof -
  from assms obtain claims where
    d: "decode (tv_public_key v) (tv_audience v) (tv_issuer v) token = Inr claims" and
    t: "token_of_claims trunc v token claims = Some t"
    by (auto simp: verify_token_def split: sum.splits if_splits)
  from t have "map_of claims ''sub'' = Some (PStr (at_subject t)) \<and>
      map_of claims ''jti'' = Some (at_jti t) \<and> at_token t = token \<and> at_subject t \<noteq> [] \<and>
      at_resource t = tv_audience v \<and> at_scopes t = parse_scopes (dict_get claims ''scope'')"
    by (auto simp: token_of_claims_def Let_def as_str_iff split: option.splits if_splits)
  with d parse_scopes_bounds show ?thesis by simp
qed

theorem access_token_sound_witness:
  "at_scopes (the (case verify_token
     (\<lambda>_ _ _ _. Inr [(''sub'', PStr ''svc''), (''exp'', PInt 99), (''jti'', PStr ''j''),
        (''scope'', PList [PStr ''write'', PInt 3, PStr ''read'', PStr ''write''])])
     (\<lambda>_. None) \<lparr>tv_public_key = ''k'', tv_issuer = ''https://i'', tv_audience = ''a''\<rparr> ''t'' of
       Inr x \<Rightarrow> x | Inl _ \<Rightarrow> None)) = [''read'', ''write'']"
proof -
  let ?claims = "[(''sub'', PStr ''svc''), (''exp'', PInt 99), (''jti'', PStr ''j''),
        (''scope'', PList [PStr ''write'', PInt 3, PStr ''read'', PStr ''write''])]"
  let ?v = "\<lparr>tv_public_key = ''k'', tv_issuer = ''https://i'', tv_audience = ''a''\<rparr>"
  obtain t where t: "verify_token (\<lambda>_ _ _ _. Inr ?claims) (\<lambda>_. None) ?v ''t'' = Inr (Some t)"
    by (simp add: verify_token_def token_of_claims_def)
  have "parse_scopes (dict_get ?claims ''scope'') = [''read'', ''write'']"
    by (simp add: dict_get_def sorted_set_def List.map_filter_def)
  with access_token_sound[OF t] t show ?thesis by simp
qed

end
