(* ===== verification/PyRegex.thy ===== *)
theory PyRegex
  imports PyStr
begin

text \<open>
  The fragment of the \<open>re\<close> module that the platform's patterns use, as a backtracking matcher.
  A position is a pair (text before it, reversed; text after it).  \<open>rmatch r p\<close> is the list of the
  end positions of a match of \<open>r\<close> at \<open>p\<close>, in the order in which \<open>re\<close> tries them (greedy
  repetition first, left alternative first); the match \<open>re\<close> reports is its head.  Repetition is
  provided for single-character classes only, which is all the patterns need.
\<close>

type_synonym rpos = "string \<times> string"

datatype regex =
    Lit string                              \<comment> \<open>literal text\<close>
  | LitI string                             \<comment> \<open>literal text under \<open>IGNORECASE\<close>\<close>
  | Many "char \<Rightarrow> bool" nat "nat option"    \<comment> \<open>\<open>[...]{m,n}\<close>, no upper bound for \<open>None\<close>\<close>
  | Opt regex                               \<comment> \<open>\<open>r?\<close>\<close>
  | Alt regex regex
  | Cat regex regex
  | WordB                                   \<comment> \<open>\<open>\b\<close>\<close>

definition eq_ignore_case :: "char \<Rightarrow> char \<Rightarrow> bool" where
  "eq_ignore_case c d \<longleftrightarrow> lower_char c = lower_char d"

fun lit_at :: "(char \<Rightarrow> char \<Rightarrow> bool) \<Rightarrow> string \<Rightarrow> rpos \<Rightarrow> rpos list" where
  "lit_at eq [] p = [p]"
| "lit_at eq (x # xs) (b, []) = []"
| "lit_at eq (x # xs) (b, c # cs) = (if eq x c then lit_at eq xs (c # b, cs) else [])"

definition word_at :: "string \<Rightarrow> bool" where
  "word_at s \<longleftrightarrow> (case s of [] \<Rightarrow> False | c # _ \<Rightarrow> is_word c)"

definition many_bound :: "nat \<Rightarrow> nat option \<Rightarrow> nat" where
  "many_bound k n = (case n of None \<Rightarrow> k | Some m \<Rightarrow> min k m)"

fun rmatch :: "regex \<Rightarrow> rpos \<Rightarrow> rpos list" where
  "rmatch (Lit s) p = lit_at (=) s p"
| "rmatch (LitI s) p = lit_at eq_ignore_case s p"
| "rmatch (Many P m n) (b, a) =
     (let k = many_bound (length (takeWhile P a)) n in
      map (\<lambda>i. (rev (take i a) @ b, drop i a)) (rev [m..<Suc k]))"
| "rmatch (Opt r) p = rmatch r p @ [p]"
| "rmatch (Alt r s) p = rmatch r p @ rmatch s p"
| "rmatch (Cat r s) p = concat (map (rmatch s) (rmatch r p))"
| "rmatch WordB (b, a) = (if word_at b \<noteq> word_at a then [(b, a)] else [])"

text \<open>\<open>pattern.search(s)\<close>: the leftmost position with a match; \<open>None\<close>, or the start and end
  positions.\<close>

fun search_from :: "regex \<Rightarrow> string \<Rightarrow> string \<Rightarrow> (rpos \<times> rpos) option" where
  "search_from r b [] =
     (case rmatch r (b, []) of [] \<Rightarrow> None | q # _ \<Rightarrow> Some ((b, []), q))"
| "search_from r b (c # cs) =
     (case rmatch r (b, c # cs) of
        [] \<Rightarrow> search_from r (c # b) cs
      | q # _ \<Rightarrow> Some ((b, c # cs), q))"

definition span_text :: "rpos \<Rightarrow> rpos \<Rightarrow> string" where
  "span_text p q = take (length (snd p) - length (snd q)) (snd p)"

text \<open>\<open>pattern.search(s).group(0)\<close>, or \<open>None\<close>.\<close>

definition search :: "regex \<Rightarrow> string \<Rightarrow> string option" where
  "search r s = map_option (\<lambda>(p, q). span_text p q) (search_from r [] s)"

definition found :: "regex \<Rightarrow> string \<Rightarrow> bool" where
  "found r s \<longleftrightarrow> search_from r [] s \<noteq> None"

text \<open>\<open>pattern.fullmatch(s)\<close>; also a pattern anchored with \<open>^\<close> and \<open>$\<close> at both ends, where \<open>$\<close>
  is the end of the text.\<close>

definition full_match :: "regex \<Rightarrow> string \<Rightarrow> bool" where
  "full_match r s \<longleftrightarrow> list_ex (\<lambda>q. snd q = []) (rmatch r ([], s))"

text \<open>\<open>pattern.findall(s)\<close> and \<open>pattern.sub("", s)\<close> for a pattern whose matches are never empty:
  the non-overlapping matches from left to right, and the text outside them.\<close>

function scan :: "regex \<Rightarrow> string \<Rightarrow> string \<Rightarrow> string list \<times> string" where
  "scan r b [] = ([], [])"
| "scan r b (c # cs) =
     (case rmatch r (b, c # cs) of
        [] \<Rightarrow> (let (ms, rest) = scan r (c # b) cs in (ms, c # rest))
      | (b', a') # _ \<Rightarrow>
          if length a' < Suc (length cs)
          then (let (ms, rest) = scan r b' a' in (span_text (b, c # cs) (b', a') # ms, rest))
          else (let (ms, rest) = scan r (c # b) cs in (ms, c # rest)))"
  by pat_completeness auto
termination
  by (relation "measure (\<lambda>(r, b, a). length a)") auto

definition find_all :: "regex \<Rightarrow> string \<Rightarrow> string list" where
  "find_all r s = fst (scan r [] s)"

definition sub_empty :: "regex \<Rightarrow> string \<Rightarrow> string" where
  "sub_empty r s = snd (scan r [] s)"

section \<open>What a match consumes\<close>

definition advances :: "rpos \<Rightarrow> string \<Rightarrow> rpos \<Rightarrow> bool" where
  "advances p u q \<longleftrightarrow> snd p = u @ snd q \<and> fst q = rev u @ fst p"

lemma advances_Nil [simp]: "advances p [] q \<longleftrightarrow> q = p"
  by (cases p, cases q) (auto simp: advances_def)

lemma advances_trans: "advances p u q \<Longrightarrow> advances q v r \<Longrightarrow> advances p (u @ v) r"
  by (auto simp: advances_def)

lemma advances_det: "advances p u q \<Longrightarrow> advances p u r \<Longrightarrow> q = r"
  by (cases q, cases r) (auto simp: advances_def)

lemma lit_at_eq: "q \<in> set (lit_at (=) s p) \<longleftrightarrow> advances p s q"
proof (induction s arbitrary: p)
  case Nil
  then show ?case by auto
next
  case (Cons x xs)
  then show ?case
    by (cases p; cases "snd p") (auto simp: advances_def)
qed

lemma rmatch_Many_iff:
  "q \<in> set (rmatch (Many P m n) p) \<longleftrightarrow>
     (\<exists>u. advances p u q \<and> list_all P u \<and> m \<le> length u \<and>
          (case n of None \<Rightarrow> True | Some k \<Rightarrow> length u \<le> k))"
  (is "?L \<longleftrightarrow> ?R")
proof -
  obtain b a where p: "p = (b, a)" by force
  show ?thesis
  proof
    assume ?L
    then obtain i where i: "m \<le> i" "i \<le> many_bound (length (takeWhile P a)) n"
      and q: "q = (rev (take i a) @ b, drop i a)"
      by (auto simp: p Let_def less_Suc_eq_le)
    then have "i \<le> length (takeWhile P a)"
      by (auto simp: many_bound_def split: option.splits)
    then have "list_all P (take i a)" and "i \<le> length a"
      by (metis list_all_iff set_takeWhileD takeWhile_eq_take take_take min.absorb1 in_set_takeD
            length_takeWhile_le order_trans)+
    with i q have "advances p (take i a) q \<and> list_all P (take i a) \<and> m \<le> length (take i a) \<and>
        (case n of None \<Rightarrow> True | Some k \<Rightarrow> length (take i a) \<le> k)"
      by (auto simp: p advances_def many_bound_def split: option.splits)
    then show ?R by blast
  next
    assume ?R
    then obtain u where u: "advances p u q" "list_all P u" "m \<le> length u"
      "(case n of None \<Rightarrow> True | Some k \<Rightarrow> length u \<le> k)" by blast
    then have a: "a = u @ snd q" and q: "q = (rev u @ b, snd q)"
      by (auto simp: p advances_def prod_eq_iff)
    have "length u \<le> length (takeWhile P a)"
      using u(2) by (auto simp: a list_all_iff takeWhile_append2)
    with u(4) have "length u \<le> many_bound (length (takeWhile P a)) n"
      by (auto simp: many_bound_def split: option.splits)
    moreover have "take (length u) a = u" "drop (length u) a = snd q" by (simp_all add: a)
    ultimately show ?L
      using u(3) q by (force simp: p Let_def less_Suc_eq_le image_iff)
  qed
qed

lemma rmatch_Cat_iff:
  "q \<in> set (rmatch (Cat r s) p) \<longleftrightarrow> (\<exists>m \<in> set (rmatch r p). q \<in> set (rmatch s m))"
  by auto

lemma lit_at_advances: "q \<in> set (lit_at eq s p) \<Longrightarrow> \<exists>u. advances p u q \<and> length u = length s"
proof (induction eq s p arbitrary: q rule: lit_at.induct)
  case (1 eq p)
  then show ?case by auto
next
  case (2 eq x xs b)
  then show ?case by simp
next
  case (3 eq x xs b c cs)
  then have "eq x c" "q \<in> set (lit_at eq xs (c # b, cs))" by (auto split: if_splits)
  with "3.IH" obtain u where "advances (c # b, cs) u q" "length u = length xs" by blast
  then have "advances (b, c # cs) (c # u) q \<and> length (c # u) = length (x # xs)"
    by (auto simp: advances_def)
  then show ?case by blast
qed

lemma rmatch_advances: "q \<in> set (rmatch r p) \<Longrightarrow> \<exists>u. advances p u q"
proof (induction r arbitrary: p q)
  case (Lit s)
  then show ?case by (auto dest: lit_at_advances)
next
  case (LitI s)
  then show ?case by (auto dest: lit_at_advances)
next
  case (Many P m n)
  then show ?case by (auto simp only: rmatch_Many_iff)
next
  case (Opt r)
  then consider "q \<in> set (rmatch r p)" | "q = p" by auto
  then show ?case using Opt.IH by cases (blast, metis advances_Nil)
next
  case (Alt r s)
  then show ?case by (metis Un_iff rmatch.simps(5) set_append)
next
  case (Cat r s)
  then obtain m where "m \<in> set (rmatch r p)" "q \<in> set (rmatch s m)"
    by (auto simp only: rmatch_Cat_iff)
  with Cat.IH show ?case by (meson advances_trans)
next
  case WordB
  then show ?case by (cases p) (auto split: if_splits intro: exI[of _ "[]"])
qed

section \<open>Search and full match\<close>

text \<open>A search returns a piece of the text that the pattern really matches in its context.\<close>

lemma search_from_sound:
  "search_from r b a = Some (p, q) \<Longrightarrow>
     q \<in> set (rmatch r p) \<and> (\<exists>u. advances (b, a) u p)"
proof (induction r b a rule: search_from.induct)
  case (1 r b)
  then show ?case by (auto split: list.splits intro: exI[of _ "[]"])
next
  case (2 r b c cs)
  show ?case
  proof (cases "rmatch r (b, c # cs)")
    case Nil
    with 2 obtain u where "q \<in> set (rmatch r p)" "advances (c # b, cs) u p" by auto
    then have "q \<in> set (rmatch r p) \<and> advances (b, c # cs) (c # u) p"
      by (auto simp: advances_def)
    then show ?thesis by blast
  next
    case (Cons x xs)
    with "2.prems" show ?thesis by (auto intro: exI[of _ "[]"])
  qed
qed

lemma search_from_complete:
  "advances (b, a) u p \<Longrightarrow> rmatch r p \<noteq> [] \<Longrightarrow> search_from r b a \<noteq> None"
proof (induction r b a arbitrary: u rule: search_from.induct)
  case (1 r b)
  then have "p = (b, [])" by (cases p) (auto simp: advances_def)
  with 1 show ?case by (auto split: list.splits)
next
  case (2 r b c cs)
  show ?case
  proof (cases "rmatch r (b, c # cs)")
    case Nil
    with "2.prems" have "u \<noteq> []" by (cases p) (auto simp: advances_def)
    with "2.prems"(1) obtain v where "advances (c # b, cs) v p"
      by (cases u) (auto simp: advances_def)
    with Nil 2 show ?thesis by auto
  next
    case (Cons x xs)
    then show ?thesis by simp
  qed
qed

lemma found_iff:
  "found r s \<longleftrightarrow> (\<exists>pre u post. s = pre @ u @ post \<and>
      (rev u @ rev pre, post) \<in> set (rmatch r (rev pre, u @ post)))"
proof
  assume "found r s"
  then obtain p q where "search_from r [] s = Some (p, q)" by (auto simp: found_def)
  then obtain v where q: "q \<in> set (rmatch r p)" and v: "advances ([], s) v p"
    using search_from_sound by blast
  obtain u where u: "advances p u q" using rmatch_advances[OF q] by blast
  from u v have "s = v @ u @ snd q" "p = (rev v, u @ snd q)" "q = (rev u @ rev v, snd q)"
    by (auto simp: advances_def prod_eq_iff)
  with q show "\<exists>pre u post. s = pre @ u @ post \<and>
      (rev u @ rev pre, post) \<in> set (rmatch r (rev pre, u @ post))"
    by metis
next
  assume "\<exists>pre u post. s = pre @ u @ post \<and>
      (rev u @ rev pre, post) \<in> set (rmatch r (rev pre, u @ post))"
  then obtain pre u post where s: "s = pre @ u @ post"
    and m: "(rev u @ rev pre, post) \<in> set (rmatch r (rev pre, u @ post))" by blast
  have "advances ([], s) pre (rev pre, u @ post)" by (simp add: advances_def s)
  with m show "found r s" unfolding found_def
    by (metis search_from_complete empty_iff empty_set)
qed

lemma search_Some:
  assumes "search r s = Some t"
  obtains pre post where "s = pre @ t @ post"
    and "(rev t @ rev pre, post) \<in> set (rmatch r (rev pre, t @ post))"
proof -
  from assms obtain p q where pq: "search_from r [] s = Some (p, q)" and t: "t = span_text p q"
    by (auto simp: search_def)
  from pq obtain v where q: "q \<in> set (rmatch r p)" and v: "advances ([], s) v p"
    using search_from_sound by blast
  obtain u where u: "advances p u q" using rmatch_advances[OF q] by blast
  then have "t = u" by (auto simp: t span_text_def advances_def)
  with u v have "s = v @ t @ snd q" "p = (rev v, t @ snd q)" "q = (rev t @ rev v, snd q)"
    by (auto simp: advances_def prod_eq_iff)
  with q show ?thesis by (metis that)
qed

lemma search_eq_None: "search r s = None \<longleftrightarrow> \<not> found r s"
  unfolding search_def found_def by (cases "search_from r [] s") auto

lemma full_match_iff: "full_match r s \<longleftrightarrow> (rev s, []) \<in> set (rmatch r ([], s))"
proof -
  have "q = (rev s, [])" if "q \<in> set (rmatch r ([], s))" "snd q = []" for q
    using rmatch_advances[OF that(1)] that(2) by (cases q) (auto simp: advances_def)
  then show ?thesis unfolding full_match_def list_ex_iff by (metis snd_conv)
qed

lemma full_match_Many:
  "full_match (Many P m n) s \<longleftrightarrow>
     list_all P s \<and> m \<le> length s \<and> (case n of None \<Rightarrow> True | Some k \<Rightarrow> length s \<le> k)"
  unfolding full_match_iff rmatch_Many_iff by (auto simp: advances_def)

lemma rmatch_Many_at:
  "(rev u @ b, a) \<in> set (rmatch (Many P m n) (b, u @ a)) \<longleftrightarrow>
     list_all P u \<and> m \<le> length u \<and> (case n of None \<Rightarrow> True | Some k \<Rightarrow> length u \<le> k)"
  unfolding rmatch_Many_iff by (auto simp: advances_def)

text \<open>A literal prefix followed by another pattern.\<close>

lemma rmatch_Lit_Cat:
  "q \<in> set (rmatch (Cat (Lit l) r) p) \<longleftrightarrow>
     (\<exists>m. advances p l m \<and> q \<in> set (rmatch r m))"
  unfolding rmatch_Cat_iff rmatch.simps(1) by (meson lit_at_eq)

lemma full_match_Lit_Many:
  "full_match (Cat (Lit l) (Many P m n)) s \<longleftrightarrow>
     (\<exists>d. s = l @ d \<and> list_all P d \<and> m \<le> length d \<and>
          (case n of None \<Rightarrow> True | Some k \<Rightarrow> length d \<le> k))"
  unfolding full_match_iff rmatch_Lit_Cat rmatch_Many_iff
  by (auto simp: advances_def split: option.splits)

section \<open>What a pattern reads\<close>

text \<open>A pattern that reads the texts of \<open>P\<close>, wherever it stands.\<close>

definition reads :: "regex \<Rightarrow> (string \<Rightarrow> bool) \<Rightarrow> bool" where
  "reads r P \<longleftrightarrow> (\<forall>p q. q \<in> set (rmatch r p) \<longleftrightarrow> (\<exists>u. advances p u q \<and> P u))"

lemma advances_append: "advances p (u @ v) q \<longleftrightarrow> (\<exists>m. advances p u m \<and> advances m v q)"
  by (cases p, cases q) (auto simp: advances_def)

lemma reads_Many:
  "reads (Many P m n) (\<lambda>u. list_all P u \<and> m \<le> length u \<and> (case n of None \<Rightarrow> True | Some k \<Rightarrow> length u \<le> k))"
  unfolding reads_def rmatch_Many_iff by blast

lemma reads_Lit: "reads (Lit l) ((=) l)"
  unfolding reads_def rmatch.simps(1) lit_at_eq by blast

lemma reads_Cat: "reads r P \<Longrightarrow> reads r' Q \<Longrightarrow> reads (Cat r r') (\<lambda>w. \<exists>u v. w = u @ v \<and> P u \<and> Q v)"
  unfolding reads_def
proof (intro allI)
  fix p q
  assume r: "\<forall>p q. q \<in> set (rmatch r p) \<longleftrightarrow> (\<exists>u. advances p u q \<and> P u)"
    and r': "\<forall>p q. q \<in> set (rmatch r' p) \<longleftrightarrow> (\<exists>u. advances p u q \<and> Q u)"
  have "q \<in> set (rmatch (Cat r r') p) \<longleftrightarrow> (\<exists>m. (\<exists>u. advances p u m \<and> P u) \<and> (\<exists>v. advances m v q \<and> Q v))"
    unfolding rmatch_Cat_iff using r r' by blast
  also have "\<dots> \<longleftrightarrow> (\<exists>u v. advances p (u @ v) q \<and> P u \<and> Q v)"
    unfolding advances_append by blast
  finally show "q \<in> set (rmatch (Cat r r') p) \<longleftrightarrow> (\<exists>w. advances p w q \<and> (\<exists>u v. w = u @ v \<and> P u \<and> Q v))"
    by blast
qed

section \<open>Scanning\<close>

text \<open>\<open>sub\<close> and \<open>findall\<close> split the text: what is kept and what is found have together the length
  of the text.\<close>

lemma scan_length:
  "length (concat (fst (scan r b a))) + length (snd (scan r b a)) = length a"
proof (induction r b a rule: scan.induct)
  case (1 r b)
  then show ?case by simp
next
  case (2 r b c cs)
  have adv: "length a' \<le> Suc (length cs)"
    if "rmatch r (b, c # cs) = (b', a') # qs" for b' a' qs
  proof -
    have "(b', a') \<in> set (rmatch r (b, c # cs))" using that by simp
    then obtain u where "advances (b, c # cs) u (b', a')" using rmatch_advances by blast
    then have "length (u @ a') = Suc (length cs)"
      by (metis advances_def length_Cons snd_conv)
    then show ?thesis by simp
  qed
  have IH1: "length (concat (fst (scan r (c # b) cs))) + length (snd (scan r (c # b) cs)) = length cs"
    if "rmatch r (b, c # cs) = [] \<or>
        (\<exists>b' a' qs. rmatch r (b, c # cs) = (b', a') # qs \<and> \<not> length a' < Suc (length cs))"
    using that "2.IH"(1,3) by fastforce
  have IH2: "length (concat (fst (scan r b' a'))) + length (snd (scan r b' a')) = length a'"
    if "rmatch r (b, c # cs) = (b', a') # qs" "length a' < Suc (length cs)" for b' a' qs
    using that "2.IH"(2) by fastforce
  show ?case
  proof (cases "rmatch r (b, c # cs)")
    case Nil
    with IH1 show ?thesis by (simp add: split_beta)
  next
    case (Cons q qs)
    obtain b' a' where q: "q = (b', a')" by force
    show ?thesis
    proof (cases "length a' < Suc (length cs)")
      case True
      with IH2 adv Cons q show ?thesis by (simp add: split_beta span_text_def)
    next
      case False
      with IH1 Cons q show ?thesis by (simp add: split_beta)
    qed
  qed
qed

end
