(* ===== verification/Http.thy ===== *)
theory Http
  imports PyRegex PyVal
begin

text \<open>
  The HTTP edge: the security middleware (gateway/middleware.py), the metrics it counts
  (metrics.py) and the redaction of log fields (gateway/logging.py).

  The application behind the middleware is a parameter: \<open>call_next\<close> maps the request and the
  request id to a response or an exception (\<open>TimeoutError\<close> also when \<open>asyncio.timeout\<close> expires).
  \<open>uuid\<close>, the two clock readings and \<open>round2\<close> (rounding to two decimals) are parameters as well.
\<close>

section \<open>Metrics\<close>

text \<open>A counter maps label values to the number of increments, a histogram to its observations.\<close>

type_synonym counter = "string list \<Rightarrow> nat"

type_synonym histogram = "string list \<Rightarrow> real list"

definition inc :: "string list \<Rightarrow> counter \<Rightarrow> counter" where
  "inc labels c = c(labels := c labels + 1)"

definition observe :: "string list \<Rightarrow> real \<Rightarrow> histogram \<Rightarrow> histogram" where
  "observe labels v h = h(labels := h labels @ [v])"

definition safe_error_codes :: "string list" where
  "safe_error_codes =
     [''none'', ''MODEL_PROVIDER_FAILURE'', ''SPECIALIST_FAILURE'', ''CUSTOMER_ID_REQUIRED'',
      ''CUSTOMER_TOOL_FAILURE'', ''TRANSACTION_ID_REQUIRED'', ''PAYMENT_TOOL_FAILURE'',
      ''CUSTOMER_TRANSACTION_MISMATCH'', ''POLICY_TOOL_FAILURE'', ''POLICY_NOT_FOUND'']"

definition safe_error_code :: "string option \<Rightarrow> string" where
  "safe_error_code value =
     (case value of
        None \<Rightarrow> ''other''
      | Some v \<Rightarrow> if v \<in> set safe_error_codes then v else ''other'')"

section \<open>Requests and responses\<close>

record http_request =
  rq_method :: string
  rq_path :: string
  rq_request_id :: "string option"
  rq_content_length :: "string option"

record http_response =
  rs_status :: int
  rs_headers :: "(string \<times> string) list"
  rs_body :: string

text \<open>\<open>response.headers[k] = v\<close>: header names are lower case, the first entry of that name is
  replaced, further ones are dropped, a missing one is appended.\<close>

fun set_header :: "string \<Rightarrow> string \<Rightarrow> (string \<times> string) list \<Rightarrow> (string \<times> string) list" where
  "set_header k v [] = [(k, v)]"
| "set_header k v ((k', v') # hs) =
     (if k' = k then (k, v) # filter (\<lambda>(n, _). n \<noteq> k) hs else (k', v') # set_header k v hs)"

definition security_headers :: "(string \<times> string) list" where
  "security_headers =
     [(''x-content-type-options'', ''nosniff''),
      (''x-frame-options'', ''DENY''),
      (''referrer-policy'', ''no-referrer''),
      (''permissions-policy'', ''camera=(), microphone=(), geolocation=()''),
      (''cache-control'', ''no-store''),
      (''content-security-policy'',
        ''default-src '' @ repr_str ''none'' @ ''; frame-ancestors '' @ repr_str ''none'')]"

definition secure_response :: "http_response \<Rightarrow> string \<Rightarrow> http_response" where
  "secure_response response request_id =
     response\<lparr>rs_headers :=
       fold (\<lambda>(k, v). set_header k v) ((''x-request-id'', request_id) # security_headers)
         (rs_headers response)\<rparr>"

definition id_char :: "char \<Rightarrow> bool" where
  "id_char c \<longleftrightarrow> is_upper_az c \<or> is_lower_az c \<or> is_digit c \<or> c \<in> {CHR ''.'', CHR ''_'', CHR ''-''}"

definition request_id_pattern :: regex where
  "request_id_pattern = Many id_char 1 (Some 128)"

definition known_metric_routes :: "string list" where
  "known_metric_routes =
     [''/health/live'', ''/health/ready'', ''/metrics'', ''/api/v1/platform/info'',
      ''/api/v1/workflows/route'', ''/api/v1/workflows/investigate'', ''/api/v1/skills'']"

definition body_too_large :: "int \<Rightarrow> string \<Rightarrow> bool" where
  "body_too_large max_body_bytes content_length =
     (case parse_int content_length of None \<Rightarrow> True | Some n \<Rightarrow> max_body_bytes < n)"

definition json_response :: "int \<Rightarrow> string \<Rightarrow> http_response" where
  "json_response status detail =
     \<lparr>rs_status = status, rs_headers = [(''content-type'', ''application/json'')],
      rs_body = json_dumps (PDict [(''detail'', PStr detail)])\<rparr>"

text \<open>What the middleware leaves behind: the two metrics and the \<open>request_completed\<close> events.\<close>

record edge_log =
  el_requests :: counter
  el_duration :: histogram
  el_events :: "(string \<times> pyval) list list"

definition choose_request_id :: "string \<Rightarrow> http_request \<Rightarrow> string" where
  "choose_request_id uuid rq =
     (let h = (case rq_request_id rq of None \<Rightarrow> [] | Some h \<Rightarrow> h) in
      if full_match request_id_pattern h then h else uuid)"

definition completed_event ::
  "string \<Rightarrow> http_request \<Rightarrow> int \<Rightarrow> string \<Rightarrow> (string \<times> pyval) list" where
  "completed_event request_id rq status duration =
     [(''request_id'', PStr request_id), (''method'', PStr (rq_method rq)),
      (''path'', PStr (rq_path rq)), (''status_code'', PInt status),
      (''duration_ms'', PFloat duration)]"

definition dispatch ::
  "int \<Rightarrow> (real \<Rightarrow> real) \<Rightarrow> (real \<Rightarrow> string) \<Rightarrow> string \<Rightarrow> real \<Rightarrow> real
    \<Rightarrow> (http_request \<Rightarrow> string \<Rightarrow> exn + http_response) \<Rightarrow> http_request \<Rightarrow> edge_log
    \<Rightarrow> (exn + http_response) \<times> edge_log" where
  "dispatch max_body_bytes round2 repr uuid started ended call_next rq el =
     (let request_id = choose_request_id uuid rq in
      if (case rq_content_length rq of None \<Rightarrow> False | Some cl \<Rightarrow> cl \<noteq> [] \<and> body_too_large max_body_bytes cl)
      then (Inr (secure_response
              (json_response 413 ''Request body exceeds the configured limit'') request_id), el)
      else
        case (case call_next rq request_id of
                Inl TimeoutError \<Rightarrow> Inr (json_response 504 ''Request processing timed out'')
              | r \<Rightarrow> r) of
          Inl e \<Rightarrow> (Inl e, el)
        | Inr response \<Rightarrow>
            let duration_ms = round2 ((ended - started) * 1000);
                metric_route = (if rq_path rq \<in> set known_metric_routes then rq_path rq
                                else ''unmatched'');
                el' = (if metric_route \<noteq> ''/metrics''
                        then el\<lparr>el_requests := inc [rq_method rq, metric_route,
                                   show_int (rs_status response)] (el_requests el),
                                 el_duration := observe [rq_method rq, metric_route]
                                   (duration_ms / 1000) (el_duration el)\<rparr>
                        else el)
            in (Inr (secure_response response request_id),
                el'\<lparr>el_events := el_events el' @
                  [completed_event request_id rq (rs_status response) (repr duration_ms)]\<rparr>))"

section \<open>Redaction\<close>

definition redacted_keys :: "string list" where
  "redacted_keys = [''authorization'', ''cookie'', ''password'', ''secret'', ''token'']"

definition sensitive :: "string \<Rightarrow> bool" where
  "sensitive key \<longleftrightarrow> str_lower key \<in> set redacted_keys"

fun redact :: "pyval \<Rightarrow> pyval" where
  "redact (PDict d) =
     PDict (map (\<lambda>(k, v). (k, if sensitive k then PStr ''[REDACTED]'' else redact v)) d)"
| "redact (PList xs) = PList (map redact xs)"
| "redact v = v"

text \<open>The payload of \<open>JsonFormatter.format\<close>, before it is written as JSON.\<close>

definition log_payload ::
  "string \<Rightarrow> string \<Rightarrow> string \<Rightarrow> string \<Rightarrow> (string \<times> pyval) list option \<Rightarrow> string option
    \<Rightarrow> (string \<times> pyval) list" where
  "log_payload timestamp level logger message event_fields exc =
     (let payload = [(''timestamp'', PStr timestamp), (''level'', PStr level),
                     (''logger'', PStr logger), (''message'', PStr message)];
          payload = (case event_fields of
                       None \<Rightarrow> payload
                     | Some f \<Rightarrow>
                         (case redact (PDict f) of
                            PDict g \<Rightarrow> fold (\<lambda>(k, v). AList.update k v) g payload
                          | _ \<Rightarrow> payload))
      in case exc of None \<Rightarrow> payload | Some t \<Rightarrow> AList.update ''exception'' (PStr t) payload)"

section \<open>Facts on headers\<close>

definition headers_of :: "string \<Rightarrow> (string \<times> string) list \<Rightarrow> string list" where
  "headers_of k hs = map snd (filter (\<lambda>(n, _). n = k) hs)"

lemma headers_of_set_same [simp]: "headers_of k (set_header k v hs) = [v]"
  by (induction k v hs rule: set_header.induct) (auto simp: headers_of_def filter_empty_conv)

lemma headers_of_set_other [simp]:
  assumes "k' \<noteq> k"
  shows "headers_of k' (set_header k v hs) = headers_of k' hs"
  using assms
proof (induction k v hs rule: set_header.induct)
  case (1 k v)
  then show ?case by (simp add: headers_of_def)
next
  case (2 k v n w hs)
  have "filter (\<lambda>(x, _). x = k') (filter (\<lambda>(x, _). x \<noteq> k) hs) = filter (\<lambda>(x, _). x = k') hs"
    using 2(2) by (induction hs) auto
  with 2 show ?case by (cases "n = k") (auto simp: headers_of_def)
qed

lemma headers_of_secure:
  "(k, v) \<in> set ((''x-request-id'', rid) # security_headers) \<Longrightarrow>
     headers_of k (rs_headers (secure_response r rid)) = [v]"
  by (auto simp: secure_response_def security_headers_def)

lemma secure_response_body [simp]:
  "rs_body (secure_response r rid) = rs_body r" "rs_status (secure_response r rid) = rs_status r"
  by (simp_all add: secure_response_def)

lemma choose_request_id_safe:
  "choose_request_id uuid rq = uuid \<or>
     (list_all id_char (choose_request_id uuid rq) \<and>
      choose_request_id uuid rq \<noteq> [] \<and> length (choose_request_id uuid rq) \<le> 128)"
  by (auto simp: choose_request_id_def Let_def request_id_pattern_def full_match_Many
      list_all_iff split: option.splits)

text \<open>Every response that leaves the middleware, also the 413 and the 504 it makes itself,
  carries each security header exactly once with the fixed value, whatever headers the route had
  set, and one \<open>X-Request-ID\<close>: the caller's if it consists of 1 to 128 safe characters, else the
  fresh one.  The application is not called when the declared length is over the limit or not a
  number.\<close>

theorem responses_secured:
  assumes "dispatch max_body round2 repr uuid t0 t1 call_next rq el = (Inr response, el')"
  shows "(\<forall>(k, v)\<in>set security_headers. headers_of k (rs_headers response) = [v]) \<and>
    (\<exists>rid. headers_of ''x-request-id'' (rs_headers response) = [rid] \<and>
       (rid = uuid \<or> list_all id_char rid \<and> rid \<noteq> [] \<and> length rid \<le> 128)) \<and>
    (\<forall>cl. rq_content_length rq = Some cl \<and> cl \<noteq> [] \<and>
        (parse_int cl = None \<or> (\<exists>n. parse_int cl = Some n \<and> max_body < n))
      \<longrightarrow> rs_status response = 413 \<and> el' = el)"
proof -
  let ?rid = "choose_request_id uuid rq"
  obtain r0 where r0: "response = secure_response r0 ?rid"
    using assms by (auto simp: dispatch_def Let_def split: option.splits sum.splits exn.splits if_splits)
  have "rs_status response = 413 \<and> el' = el"
    if "rq_content_length rq = Some cl" "cl \<noteq> []"
      "parse_int cl = None \<or> (\<exists>n. parse_int cl = Some n \<and> max_body < n)" for cl
    using assms that by (auto simp: dispatch_def body_too_large_def json_response_def)
  with headers_of_secure[of _ _ ?rid r0] choose_request_id_safe[of uuid rq] r0
  show ?thesis by fastforce
qed

definition sample_rq :: http_request where
  "sample_rq = \<lparr>rq_method = ''POST'', rq_path = ''/api/v1/skills'', rq_request_id = Some ''r 1'',
     rq_content_length = Some ''2048''\<rparr>"

lemma sample_dispatch:
  "\<exists>response. dispatch 1024 id (\<lambda>_. ''0'') ''u-1'' 0 1 (\<lambda>_ _. Inl TimeoutError) sample_rq
     \<lparr>el_requests = (\<lambda>_. 0), el_duration = (\<lambda>_. []), el_events = []\<rparr> =
     (Inr response, \<lparr>el_requests = (\<lambda>_. 0), el_duration = (\<lambda>_. []), el_events = []\<rparr>)"
proof -
  have "parse_int ''2048'' = Some 2048"
    by (simp add: parse_int_def strip_def lstrip_def is_space_def code_def is_digit_def read_nat_def)
  then show ?thesis by (simp add: dispatch_def sample_rq_def body_too_large_def)
qed

theorem responses_secured_witness:
  "\<exists>response. fst (dispatch 1024 id (\<lambda>_. ''0'') ''u-1'' 0 1 (\<lambda>_ _. Inl TimeoutError) sample_rq
     \<lparr>el_requests = (\<lambda>_. 0), el_duration = (\<lambda>_. []), el_events = []\<rparr>) = Inr response \<and>
     headers_of ''x-frame-options'' (rs_headers response) = [''DENY'']"
proof -
  obtain response where r: "dispatch 1024 id (\<lambda>_. ''0'') ''u-1'' 0 1 (\<lambda>_ _. Inl TimeoutError) sample_rq
     \<lparr>el_requests = (\<lambda>_. 0), el_duration = (\<lambda>_. []), el_events = []\<rparr> =
     (Inr response, \<lparr>el_requests = (\<lambda>_. 0), el_duration = (\<lambda>_. []), el_events = []\<rparr>)"
    using sample_dispatch by blast
  from responses_secured[OF r] r show ?thesis by (auto simp: security_headers_def)
qed

section \<open>Facts on redaction\<close>

text \<open>A key that names a credential: one of five words, each letter small or capital.\<close>

definition names_credential :: "string \<Rightarrow> bool" where
  "names_credential k \<longleftrightarrow>
     (\<exists>w\<in>{''authorization'', ''cookie'', ''password'', ''secret'', ''token''}.
        list_all2 (\<lambda>c x. x = c \<or> code x + 32 = code c) w k)"

text \<open>The place of a value in another: keys of dictionaries and positions in lists.  No step leads into
  a tuple.\<close>

datatype place_step = Key string | Item nat

fun value_at :: "pyval \<Rightarrow> place_step list \<Rightarrow> pyval option" where
  "value_at v [] = Some v"
| "value_at (PDict d) (Key k # ps) = Option.bind (map_of d k) (\<lambda>v. value_at v ps)"
| "value_at (PList xs) (Item i # ps) = (if i < length xs then value_at (xs ! i) ps else None)"
| "value_at v (p # ps) = None"

fun credential_step :: "place_step \<Rightarrow> bool" where
  "credential_step (Key k) = names_credential k"
| "credential_step (Item i) = False"

text \<open>What stands at a place: the keys of a dictionary, the length of a list, any other value itself.\<close>

datatype place_node = DictNode "string list" | ListNode nat | Leaf pyval

fun node_of :: "pyval \<Rightarrow> place_node" where
  "node_of (PDict d) = DictNode (map fst d)"
| "node_of (PList xs) = ListNode (length xs)"
| "node_of v = Leaf v"

lemma lower_char_small:
  assumes "is_lower_az c"
  shows "lower_char x = c \<longleftrightarrow> x = c \<or> code x + 32 = code c"
proof -
  have c: "97 \<le> code c" "code c \<le> 122" using assms by (simp_all add: is_lower_az_def Let_def)
  have eq: "y = z \<longleftrightarrow> code y = code z" for y z :: char by (simp add: code_def)
  show ?thesis
    unfolding eq code_lower using c by (auto simp: is_upper_latin_def is_upper_az_def Let_def)
qed

lemma str_lower_word:
  "list_all is_lower_az w \<Longrightarrow>
     str_lower k = w \<longleftrightarrow> list_all2 (\<lambda>c x. x = c \<or> code x + 32 = code c) w k"
proof (induction w arbitrary: k)
  case (Cons c w)
  then show ?case by (cases k) (auto simp: str_lower_def lower_char_small)
qed (auto simp: str_lower_def)

lemma sensitive_iff: "sensitive k \<longleftrightarrow> names_credential k"
proof -
  have "str_lower k = w \<longleftrightarrow> list_all2 (\<lambda>c x. x = c \<or> code x + 32 = code c) w k" if "w \<in> set redacted_keys" for w
    using that by (intro str_lower_word) (auto simp: redacted_keys_def is_lower_az_def code_def)
  moreover have "set redacted_keys = {''authorization'', ''cookie'', ''password'', ''secret'', ''token''}"
    by (simp add: redacted_keys_def)
  ultimately show ?thesis
    unfolding sensitive_def names_credential_def by (metis (no_types, lifting))
qed

lemma map_of_redacted:
  "map_of (map (\<lambda>(k, v). (k, if P k then m else f v)) d) k =
     map_option (\<lambda>v. if P k then m else f v) (map_of d k)"
  by (induction d) auto

lemma redact_node: "node_of (redact v) = node_of v"
  by (cases v) (auto simp: comp_def split_beta)

text \<open>C9: redaction is determined place by place.  Below a key that names a credential, in any letter
  case, nothing is left; at such a key stands the mark; and every other place holds what it held:
  the same keys, as many items, the same leaf.  Places lead through dictionaries and lists, so a
  tuple is a leaf and what it holds is passed on unchanged.\<close>

theorem redact_complete:
  "map_option node_of (value_at (redact v) ps) =
     (if list_ex credential_step (butlast ps) then None
      else if ps \<noteq> [] \<and> credential_step (last ps)
      then map_option (\<lambda>_. Leaf (PStr ''[REDACTED]'')) (value_at v ps)
      else map_option node_of (value_at v ps))"
proof (induction v ps rule: value_at.induct)
  case (1 v)
  then show ?case by (simp add: redact_node)
next
  case (2 d k ps)
  then show ?case
    by (cases "map_of d k"; cases ps) (auto simp: map_of_redacted sensitive_iff redact_node)
next
  case (3 xs i ps)
  then show ?case by (cases ps) (auto simp: redact_node)
qed (auto simp: map_of_redacted)

text \<open>A tuple hides a credential from the redaction.\<close>

lemma redact_misses_tuples:
  "redact (PDict [(''attempts'', PTuple [PDict [(''password'', PStr p)]])]) =
     PDict [(''attempts'', PTuple [PDict [(''password'', PStr p)]])]"
proof -
  have "\<not> sensitive ''attempts''" by code_simp
  then show ?thesis by simp
qed

end
