(* ===== verification/Config.thy ===== *)
theory Config
  imports PyStr
begin

text \<open>
  The typed runtime settings (gateway/config.py): the fields with their defaults, the declared
  bounds, and the validator that runs after them.  Reading environment variables and the
  \<open>.env\<close> file is done by pydantic-settings and is not modelled: a \<open>settings\<close> value is what that
  produced.  The dash of one message is written as a hyphen.  \<open>None\<close> and the empty string are both falsy in the source, which \<open>given\<close> captures.
\<close>

datatype app_env = LocalEnv | TestEnv | DevelopmentEnv | StagingEnv | ProductionEnv

datatype log_level = DEBUG | INFO | WARNING | ERROR | CRITICAL

datatype routing_provider = MockRouting

datatype model_gateway_provider = MockProvider | AzureOpenAIProvider

datatype content_safety_backend = MockSafety | AzureSafety

datatype rag_backend = LocalRag | AzureSearchRag

datatype state_backend = SqliteBackend | PostgresqlBackend | RedisBackend

record settings =
  st_app_name :: string
  st_app_env :: app_env
  st_log_level :: log_level
  st_api_prefix :: string
  st_cors_allowed_origins :: "string list"
  st_max_request_body_bytes :: int
  st_request_timeout_seconds :: real
  st_rate_limit_requests :: int
  st_rate_limit_window_seconds :: int
  st_model_provider :: routing_provider
  st_max_workflow_steps :: int
  st_model_gateway_provider :: model_gateway_provider
  st_model_gateway_allowlist :: "string list"
  st_model_gateway_timeout_seconds :: real
  st_model_gateway_max_attempts :: int
  st_model_gateway_daily_budget_gbp :: real
  st_azure_openai_endpoint :: "string option"
  st_azure_openai_api_version :: string
  st_pii_protection_enabled :: bool
  st_pii_mask_entities :: "string list"
  st_pii_block_entities :: "string list"
  st_pii_score_threshold :: real
  st_content_safety_enabled :: bool
  st_content_safety_provider :: content_safety_backend
  st_content_safety_endpoint :: "string option"
  st_content_safety_thresholds :: "(string \<times> int) list"
  st_rag_provider :: rag_backend
  st_azure_search_endpoint :: "string option"
  st_azure_search_index_name :: string
  st_rag_synthesis_model :: string
  st_rag_groundedness_minimum_term_overlap :: real
  st_mcp_tool_timeout_seconds :: real
  st_mcp_max_attempts :: int
  st_mcp_rate_limit :: int
  st_mcp_rate_window_seconds :: int
  st_state_database_path :: string
  st_state_backend :: state_backend
  st_state_connection_url :: "string option"
  st_otel_export_enabled :: bool
  st_otel_exporter_otlp_endpoint :: string
  st_metrics_enabled :: bool
  st_jwt_jwks_uri :: "string option"
  st_jwt_issuer :: "string option"
  st_jwt_audience :: "string option"
  st_jwt_tenant_claim :: string

definition default_settings :: settings where
  "default_settings =
     \<lparr>st_app_name = ''Enterprise GenAI Agent Gateway'',
      st_app_env = LocalEnv,
      st_log_level = INFO,
      st_api_prefix = ''/api/v1'',
      st_cors_allowed_origins = [''http://localhost:3000''],
      st_max_request_body_bytes = 1048576,
      st_request_timeout_seconds = 30,
      st_rate_limit_requests = 60,
      st_rate_limit_window_seconds = 60,
      st_model_provider = MockRouting,
      st_max_workflow_steps = 8,
      st_model_gateway_provider = MockProvider,
      st_model_gateway_allowlist = [''mock-deterministic''],
      st_model_gateway_timeout_seconds = 20,
      st_model_gateway_max_attempts = 2,
      st_model_gateway_daily_budget_gbp = 5,
      st_azure_openai_endpoint = None,
      st_azure_openai_api_version = ''2024-10-21'',
      st_pii_protection_enabled = True,
      st_pii_mask_entities = [''PERSON'', ''EMAIL_ADDRESS'', ''PHONE_NUMBER'', ''IP_ADDRESS''],
      st_pii_block_entities = [''CREDIT_CARD'', ''IBAN_CODE'', ''US_SSN'', ''UK_SORT_CODE''],
      st_pii_score_threshold = 1 / 2,
      st_content_safety_enabled = True,
      st_content_safety_provider = MockSafety,
      st_content_safety_endpoint = None,
      st_content_safety_thresholds =
        [(''Hate'', 4), (''SelfHarm'', 4), (''Sexual'', 4), (''Violence'', 4)],
      st_rag_provider = LocalRag,
      st_azure_search_endpoint = None,
      st_azure_search_index_name = ''novabank-policy-chunks'',
      st_rag_synthesis_model = ''mock-deterministic'',
      st_rag_groundedness_minimum_term_overlap = 1 / 2,
      st_mcp_tool_timeout_seconds = 2,
      st_mcp_max_attempts = 2,
      st_mcp_rate_limit = 30,
      st_mcp_rate_window_seconds = 60,
      st_state_database_path = '':memory:'',
      st_state_backend = SqliteBackend,
      st_state_connection_url = None,
      st_otel_export_enabled = False,
      st_otel_exporter_otlp_endpoint = ''http://127.0.0.1:4317'',
      st_metrics_enabled = True,
      st_jwt_jwks_uri = None,
      st_jwt_issuer = None,
      st_jwt_audience = None,
      st_jwt_tenant_claim = ''roles''\<rparr>"

section \<open>Field bounds\<close>

definition fields_valid :: "settings \<Rightarrow> bool" where
  "fields_valid s \<longleftrightarrow>
     1024 \<le> st_max_request_body_bytes s \<and> st_max_request_body_bytes s \<le> 10485760 \<and>
     0 < st_request_timeout_seconds s \<and> st_request_timeout_seconds s \<le> 120 \<and>
     1 \<le> st_rate_limit_requests s \<and> st_rate_limit_requests s \<le> 10000 \<and>
     1 \<le> st_rate_limit_window_seconds s \<and> st_rate_limit_window_seconds s \<le> 3600 \<and>
     1 \<le> st_max_workflow_steps s \<and> st_max_workflow_steps s \<le> 50 \<and>
     0 < st_model_gateway_timeout_seconds s \<and> st_model_gateway_timeout_seconds s \<le> 120 \<and>
     1 \<le> st_model_gateway_max_attempts s \<and> st_model_gateway_max_attempts s \<le> 3 \<and>
     0 < st_model_gateway_daily_budget_gbp s \<and> st_model_gateway_daily_budget_gbp s \<le> 10000 \<and>
     0 \<le> st_pii_score_threshold s \<and> st_pii_score_threshold s \<le> 1 \<and>
     0 \<le> st_rag_groundedness_minimum_term_overlap s \<and>
     st_rag_groundedness_minimum_term_overlap s \<le> 1 \<and>
     0 < st_mcp_tool_timeout_seconds s \<and> st_mcp_tool_timeout_seconds s \<le> 30 \<and>
     1 \<le> st_mcp_max_attempts s \<and> st_mcp_max_attempts s \<le> 3 \<and>
     1 \<le> st_mcp_rate_limit s \<and> st_mcp_rate_limit s \<le> 1000 \<and>
     1 \<le> st_mcp_rate_window_seconds s \<and> st_mcp_rate_window_seconds s \<le> 3600 \<and>
     1 \<le> length (st_state_database_path s) \<and> length (st_state_database_path s) \<le> 500 \<and>
     1 \<le> length (st_jwt_tenant_claim s)"

section \<open>The security validator\<close>

definition given :: "string option \<Rightarrow> bool" where
  "given v \<longleftrightarrow> (case v of None \<Rightarrow> False | Some s \<Rightarrow> s \<noteq> [])"

definition deployed :: "app_env \<Rightarrow> bool" where
  "deployed e \<longleftrightarrow> e = StagingEnv \<or> e = ProductionEnv"

definition validate_security_boundaries :: "settings \<Rightarrow> exn + settings" where
  "validate_security_boundaries s =
     (if ''*'' \<in> set (st_cors_allowed_origins s)
      then Inl (ValueError ''Wildcard CORS origins are not permitted'')
      else if \<not> starts_with ''/'' (st_api_prefix s)
      then Inl (ValueError (''API_PREFIX must start with '' @ repr_str ''/''))
      else if st_state_backend s \<noteq> SqliteBackend \<and> st_state_connection_url s = None
      then Inl (ValueError ''STATE_CONNECTION_URL is required for PostgreSQL or Redis'')
      else if deployed (st_app_env s) \<and> st_state_backend s = SqliteBackend
      then Inl (ValueError ''SQLite state is not permitted in staging or production'')
      else if deployed (st_app_env s) \<and>
              \<not> (given (st_jwt_jwks_uri s) \<and> given (st_jwt_issuer s) \<and> given (st_jwt_audience s))
      then Inl (ValueError (''JWT_JWKS_URI, JWT_ISSUER, and JWT_AUDIENCE are all required in staging ''
        @ ''or production - local-header identity (X-Local-User/X-Local-Tenant) is ''
        @ ''local/test only''))
      else if st_model_gateway_provider s = AzureOpenAIProvider \<and> \<not> given (st_azure_openai_endpoint s)
      then Inl (ValueError ''AZURE_OPENAI_ENDPOINT is required when MODEL_GATEWAY_PROVIDER=azure_openai'')
      else if st_model_gateway_allowlist s = []
      then Inl (ValueError ''MODEL_GATEWAY_ALLOWLIST must not be empty'')
      else if set (st_pii_mask_entities s) \<inter> set (st_pii_block_entities s) \<noteq> {}
      then Inl (ValueError ''An entity type cannot appear in both PII mask and block lists'')
      else if st_content_safety_provider s = AzureSafety \<and> \<not> given (st_content_safety_endpoint s)
      then Inl (ValueError ''CONTENT_SAFETY_ENDPOINT is required when CONTENT_SAFETY_PROVIDER=azure'')
      else if st_rag_provider s = AzureSearchRag \<and> \<not> given (st_azure_search_endpoint s)
      then Inl (ValueError ''AZURE_SEARCH_ENDPOINT is required when RAG_PROVIDER=azure_search'')
      else Inr s)"

text \<open>Constructing \<open>Settings\<close>: the field bounds first, then the validator; pydantic reports either
  failure as a \<open>ValidationError\<close>.\<close>

definition load_settings :: "settings \<Rightarrow> exn + settings" where
  "load_settings s =
     (if \<not> fields_valid s then Inl ValidationError
      else case validate_security_boundaries s of Inl _ \<Rightarrow> Inl ValidationError | Inr s' \<Rightarrow> Inr s')"

definition jwt_configured :: "settings \<Rightarrow> bool" where
  "jwt_configured s \<longleftrightarrow>
     given (st_jwt_jwks_uri s) \<and> given (st_jwt_issuer s) \<and> given (st_jwt_audience s)"

section \<open>What accepted settings guarantee\<close>

definition secure :: "settings \<Rightarrow> bool" where
  "secure s \<longleftrightarrow>
     ''*'' \<notin> set (st_cors_allowed_origins s) \<and>
     (st_state_backend s \<noteq> SqliteBackend \<longrightarrow> st_state_connection_url s \<noteq> None) \<and>
     (deployed (st_app_env s) \<longrightarrow> st_state_backend s \<noteq> SqliteBackend \<and> jwt_configured s) \<and>
     (st_model_gateway_provider s = AzureOpenAIProvider \<longrightarrow> given (st_azure_openai_endpoint s)) \<and>
     st_model_gateway_allowlist s \<noteq> [] \<and>
     set (st_pii_mask_entities s) \<inter> set (st_pii_block_entities s) = {} \<and>
     (st_content_safety_provider s = AzureSafety \<longrightarrow> given (st_content_safety_endpoint s)) \<and>
     (st_rag_provider s = AzureSearchRag \<longrightarrow> given (st_azure_search_endpoint s))"

lemma validate_secure: "validate_security_boundaries s = Inr s' \<Longrightarrow> s' = s \<and> secure s"
  unfolding validate_security_boundaries_def secure_def jwt_configured_def
  by (auto split: if_splits)

lemma load_settings_Inr:
  "load_settings s = Inr s' \<longleftrightarrow> s' = s \<and> fields_valid s \<and> validate_security_boundaries s = Inr s"
  by (auto simp: load_settings_def dest: validate_secure split: if_splits sum.splits)

lemma load_settings_secure: "load_settings s = Inr s' \<Longrightarrow> s' = s \<and> fields_valid s \<and> secure s"
  by (auto simp: load_settings_Inr dest: validate_secure)

lemma load_default_settings: "load_settings default_settings = Inr default_settings"
  by (simp add: load_settings_def fields_valid_def validate_security_boundaries_def
      default_settings_def deployed_def starts_with_def)

text \<open>A sample production configuration, accepted by the validator.\<close>

definition production_settings :: settings where
  "production_settings = default_settings
     \<lparr>st_app_env := ProductionEnv, st_state_backend := PostgresqlBackend,
      st_state_connection_url := Some ''postgresql://db/approvals'',
      st_jwt_jwks_uri := Some ''https://login.example/keys'',
      st_jwt_issuer := Some ''https://login.example'', st_jwt_audience := Some ''api://agents''\<rparr>"

lemma load_production_settings: "load_settings production_settings = Inr production_settings"
  by (simp add: load_settings_def fields_valid_def validate_security_boundaries_def
      production_settings_def default_settings_def deployed_def given_def starts_with_def)

end
