(* ===== verification/Tenancy.thy ===== *)
theory Tenancy
  imports PyRegex
begin

text \<open>
  Tenant configuration bundles and their registry (tenancy/models.py, tenancy/registry.py,
  tenancy/context.py).  \<open>bundle_valid\<close> collects the constraints that the fields of \<open>TenantBundle\<close>
  declare; parsing YAML and decoding a mapping into typed, stripped fields belong to the yaml and pydantic
  packages and are parameters of \<open>build_default_tenant_registry\<close>.
\<close>

section \<open>Bundles\<close>

datatype model_tier = Cheap | Mid | Strong

datatype risk_tier = LowRisk | MediumRisk | HighRisk

record memory_policy =
  mp_approval_state_ttl_days :: int
  mp_persists :: "string list"
  mp_does_not_persist :: "string list"

record tenant_bundle =
  tb_name :: string
  tb_system_prompt :: string
  tb_allowed_skills :: "string set"
  tb_model_tier :: model_tier
  tb_memory_policy :: memory_policy
  tb_entitlements :: "string set"
  tb_token_budget_gbp :: real
  tb_risk_tier :: risk_tier
  tb_cost_centre :: string

record tenant_context =
  tc_tenant :: string
  tc_bundle :: tenant_bundle

text \<open>The pattern \<open>^[a-z][a-z0-9-]{2,63}$\<close> of tenant and skill names.\<close>

definition slug_char :: "char \<Rightarrow> bool" where
  "slug_char c \<longleftrightarrow> is_lower_az c \<or> is_digit c \<or> c = CHR ''-''"

definition slug_pattern :: "nat \<Rightarrow> nat \<Rightarrow> regex" where
  "slug_pattern m n = Cat (Many is_lower_az 1 (Some 1)) (Many slug_char m (Some n))"

definition memory_policy_valid :: "memory_policy \<Rightarrow> bool" where
  "memory_policy_valid m \<longleftrightarrow>
     1 \<le> mp_approval_state_ttl_days m \<and> mp_approval_state_ttl_days m \<le> 365 \<and>
     mp_persists m \<noteq> [] \<and> mp_does_not_persist m \<noteq> []"

definition bundle_valid :: "tenant_bundle \<Rightarrow> bool" where
  "bundle_valid b \<longleftrightarrow>
     full_match (slug_pattern 2 63) (tb_name b) \<and>
     1 \<le> length (tb_system_prompt b) \<and> length (tb_system_prompt b) \<le> 2000 \<and>
     tb_allowed_skills b \<noteq> {} \<and>
     memory_policy_valid (tb_memory_policy b) \<and>
     tb_entitlements b \<noteq> {} \<and>
     0 < tb_token_budget_gbp b \<and> tb_token_budget_gbp b \<le> 10000 \<and>
     1 \<le> length (tb_cost_centre b) \<and> length (tb_cost_centre b) \<le> 100"

section \<open>The registry\<close>

type_synonym tenant_registry = "(string \<times> tenant_bundle) list"

fun index_bundles ::
  "tenant_registry \<Rightarrow> tenant_bundle list \<Rightarrow> exn + tenant_registry" where
  "index_bundles indexed [] = Inr indexed"
| "index_bundles indexed (b # bs) =
     (if tb_name b \<in> set (map fst indexed)
      then Inl (ValueError (''Duplicate tenant bundle: '' @ tb_name b))
      else index_bundles (AList.update (tb_name b) b indexed) bs)"

definition new_tenant_registry :: "tenant_bundle list \<Rightarrow> exn + tenant_registry" where
  "new_tenant_registry bundles =
     (case index_bundles [] bundles of
        Inl e \<Rightarrow> Inl e
      | Inr indexed \<Rightarrow>
          if indexed = []
          then Inl (ValueError ''Tenant registry must contain at least one bundle'')
          else Inr indexed)"

definition tr_get :: "tenant_registry \<Rightarrow> string \<Rightarrow> exn + tenant_bundle" where
  "tr_get r name =
     (case map_of r name of
        None \<Rightarrow> Inl (UnknownTenantError (''No config bundle for tenant '' @ repr_str name))
      | Some b \<Rightarrow> Inr b)"

definition tr_names :: "tenant_registry \<Rightarrow> string set" where
  "tr_names r = set (map fst r)"

text \<open>\<open>Path.suffix\<close> of a file name.\<close>

definition path_suffix :: "string \<Rightarrow> string" where
  "path_suffix name =
     (let after = takeWhile (\<lambda>c. c \<noteq> CHR ''.'') (rev name);
          i = length name - length after
      in if CHR ''.'' \<in> set name \<and> 1 < i \<and> after \<noteq> [] then CHR ''.'' # rev after else [])"

text \<open>The loop over the directory, sorted by file name.  \<open>load\<close> is \<open>yaml.safe_load\<close> of the text,
  \<open>decode\<close> the conversion of the payload to typed fields; a failure of \<open>model_validate\<close> is
  reported as a \<open>ValueError\<close> that names the file.\<close>

fun load_bundles ::
  "(string \<Rightarrow> exn + 'y) \<Rightarrow> ('y \<Rightarrow> exn + tenant_bundle) \<Rightarrow> (exn \<Rightarrow> string)
    \<Rightarrow> (string \<times> string) list \<Rightarrow> exn + tenant_bundle list" where
  "load_bundles load decode message [] = Inr []"
| "load_bundles load decode message ((name, body) # files) =
     (if path_suffix name \<notin> {''.yaml'', ''.yml''} then load_bundles load decode message files
      else case load body of
        Inl e \<Rightarrow> Inl e
      | Inr payload \<Rightarrow>
          let validated = (case decode payload of
                Inl e \<Rightarrow> Inl e
              | Inr b \<Rightarrow> if bundle_valid b then Inr b else Inl ValidationError)
          in case validated of
               Inl e \<Rightarrow>
                 if is_exception e
                 then Inl (ValueError (''Invalid tenant bundle '' @ name @ '': '' @ message e))
                 else Inl e
             | Inr b \<Rightarrow>
                 (case load_bundles load decode message files of
                    Inl e \<Rightarrow> Inl e
                  | Inr bs \<Rightarrow> Inr (b # bs)))"

definition build_default_tenant_registry ::
  "(string \<Rightarrow> exn + 'y) \<Rightarrow> ('y \<Rightarrow> exn + tenant_bundle) \<Rightarrow> (exn \<Rightarrow> string)
    \<Rightarrow> string \<Rightarrow> (string \<times> string) list option \<Rightarrow> exn + tenant_registry" where
  "build_default_tenant_registry load decode message config_dir contents =
     (case contents of
        None \<Rightarrow> Inl (ValueError (''Tenant config directory does not exist: '' @ config_dir))
      | Some files \<Rightarrow>
          (case load_bundles load decode message (sort_key fst files) of
             Inl e \<Rightarrow> Inl e
           | Inr bundles \<Rightarrow> new_tenant_registry bundles))"

section \<open>Properties of the registry\<close>

lemma index_bundles_Inr:
  assumes "distinct (map fst d)"
  shows "index_bundles d bs = Inr r \<longleftrightarrow>
    distinct (map fst d @ map tb_name bs) \<and> r = d @ map (\<lambda>b. (tb_name b, b)) bs"
  using assms
proof (induction bs arbitrary: d)
  case Nil
  then show ?case by auto
next
  case (Cons b bs)
  show ?case
  proof (cases "tb_name b \<in> set (map fst d)")
    case True
    then show ?thesis by auto
  next
    case False
    then have upd: "AList.update (tb_name b) b d = d @ [(tb_name b, b)]"
      by (intro set_update_fresh) auto
    with False Cons.prems have "distinct (map fst (d @ [(tb_name b, b)]))" by auto
    from Cons.IH[OF this] False upd show ?thesis by auto
  qed
qed

lemma new_tenant_registry_Inr:
  "new_tenant_registry bs = Inr r \<longleftrightarrow>
     distinct (map tb_name bs) \<and> bs \<noteq> [] \<and> r = map (\<lambda>b. (tb_name b, b)) bs"
  unfolding new_tenant_registry_def
  using index_bundles_Inr[of "[]" bs] by (auto split: sum.splits)

text \<open>A well-formed registry maps each name to the bundle of that name.\<close>

definition registry_wf :: "tenant_registry \<Rightarrow> bool" where
  "registry_wf r \<longleftrightarrow> r \<noteq> [] \<and> distinct (map fst r) \<and> (\<forall>(n, b)\<in>set r. tb_name b = n)"

lemma new_tenant_registry_wf: "new_tenant_registry bs = Inr r \<Longrightarrow> registry_wf r"
  by (auto simp: new_tenant_registry_Inr registry_wf_def o_def)

lemma tr_get_Inr: "tr_get r n = Inr b \<longleftrightarrow> map_of r n = Some b"
  by (auto simp: tr_get_def split: option.splits)

lemma tr_get_known: "n \<in> tr_names r \<Longrightarrow> \<exists>b. tr_get r n = Inr b"
  by (auto simp: tr_get_Inr tr_names_def) (metis map_of_eq_None_iff fst_conv image_eqI not_None_eq)

lemma tr_get_unknown: "n \<notin> tr_names r \<Longrightarrow> \<exists>m. tr_get r n = Inl (UnknownTenantError m)"
  by (auto simp: tr_get_def tr_names_def map_of_eq_None_iff split: option.splits
      dest: map_of_SomeD)

lemma tr_get_name: "registry_wf r \<Longrightarrow> tr_get r n = Inr b \<Longrightarrow> tb_name b = n"
  by (auto simp: tr_get_Inr registry_wf_def dest!: map_of_SomeD)

lemma load_bundles_valid:
  "load_bundles load decode message files = Inr bs \<Longrightarrow> \<forall>b\<in>set bs. bundle_valid b"
proof (induction files arbitrary: bs)
  case Nil
  then show ?case by simp
next
  case (Cons f files)
  obtain name body where f: "f = (name, body)" by (cases f)
  show ?case
  proof (cases "path_suffix name \<in> {''.yaml'', ''.yml''}")
    case False
    with Cons f show ?thesis by simp
  next
    case True
    with Cons.prems f obtain p b bs' where "load body = Inr p" "decode p = Inr b" "bundle_valid b"
      "load_bundles load decode message files = Inr bs'" "bs = b # bs'"
      by (auto simp: Let_def split: sum.splits if_splits)
    with Cons.IH show ?thesis by simp
  qed
qed

text \<open>What startup guarantees: every bundle that a request can be resolved to satisfies the
  declared schema and carries the name under which it was found.\<close>

lemma build_default_tenant_registry_wf:
  assumes "build_default_tenant_registry load decode message dir contents = Inr r"
  shows "registry_wf r" and "\<forall>(n, b)\<in>set r. bundle_valid b"
proof -
  from assms obtain files bs where
    bs: "load_bundles load decode message (sort_key fst files) = Inr bs" and
    r: "new_tenant_registry bs = Inr r"
    by (auto simp: build_default_tenant_registry_def split: option.splits sum.splits)
  from r show "registry_wf r" by (rule new_tenant_registry_wf)
  from load_bundles_valid[OF bs] r show "\<forall>(n, b)\<in>set r. bundle_valid b"
    by (auto simp: new_tenant_registry_Inr)
qed

text \<open>C5: a registry that startup accepts resolves a name exactly when a bundle file declares it,
  and then to the bundle of that name, which satisfies the declared schema; every other name is
  refused with \<open>UnknownTenantError\<close>.\<close>

theorem tenant_registry_sound:
  assumes "build_default_tenant_registry load decode message dir contents = Inr r"
  shows "(case tr_get r n of
            Inr b \<Rightarrow> n \<in> tr_names r \<and> tb_name b = n \<and> bundle_valid b
          | Inl e \<Rightarrow> n \<notin> tr_names r \<and> (\<exists>m. e = UnknownTenantError m))"
proof (cases "n \<in> tr_names r")
  case True
  then obtain b where b: "tr_get r n = Inr b" using tr_get_known by blast
  moreover have "bundle_valid b"
    using build_default_tenant_registry_wf(2)[OF assms] b
    by (auto simp: tr_get_Inr dest!: map_of_SomeD)
  ultimately show ?thesis
    using True tr_get_name[OF build_default_tenant_registry_wf(1)[OF assms]] by simp
next
  case False
  with tr_get_unknown[OF False] show ?thesis by auto
qed

text \<open>Two declared tenants, for the witnesses.\<close>

definition sample_bundle :: "string \<Rightarrow> tenant_bundle" where
  "sample_bundle n =
     \<lparr>tb_name = n, tb_system_prompt = ''Be brief.'', tb_allowed_skills = {''account-lookup''},
      tb_model_tier = Cheap,
      tb_memory_policy = \<lparr>mp_approval_state_ttl_days = 30, mp_persists = [''approval''],
        mp_does_not_persist = [''prompt'']\<rparr>,
      tb_entitlements = {''retail.operations''}, tb_token_budget_gbp = 5, tb_risk_tier = LowRisk,
      tb_cost_centre = ''CC-1''\<rparr>"

definition sample_registry :: tenant_registry where
  "sample_registry =
     [(''retail-banking'', sample_bundle ''retail-banking''), (''wealth'', sample_bundle ''wealth'')]"

lemma sample_registry_wf: "registry_wf sample_registry"
  by (simp add: registry_wf_def sample_registry_def sample_bundle_def)

lemma sample_bundle_valid:
  "n \<in> {''retail-banking'', ''wealth''} \<Longrightarrow> bundle_valid (sample_bundle n)"
  by (elim insertE emptyE)
    (simp_all add: bundle_valid_def sample_bundle_def memory_policy_valid_def slug_pattern_def
      full_match_def many_bound_def slug_char_def is_lower_az_def is_digit_def code_def)

lemma sample_registry_loads:
  "build_default_tenant_registry Inr (Inr \<circ> sample_bundle) (\<lambda>_. []) ''config/tenants''
     (Some [(''b.yml'', ''wealth''), (''README.md'', []), (''a.yaml'', ''retail-banking'')]) =
   Inr sample_registry"
  using sample_bundle_valid
  by (simp add: build_default_tenant_registry_def path_suffix_def Let_def new_tenant_registry_def
      sample_registry_def sample_bundle_def)

theorem tenant_registry_sound_witness:
  "(case tr_get sample_registry ''wealth'' of
      Inr b \<Rightarrow> ''wealth'' \<in> tr_names sample_registry \<and> tb_name b = ''wealth'' \<and> bundle_valid b
    | Inl e \<Rightarrow> False) \<and>
   (\<exists>m. tr_get sample_registry ''treasury'' = Inl (UnknownTenantError m))"
  using tenant_registry_sound[OF sample_registry_loads, of "''wealth''"]
    tenant_registry_sound[OF sample_registry_loads, of "''treasury''"]
  by (auto simp: sample_registry_def tr_get_def split: sum.splits)

end
