(* ===== verification/Auth.thy ===== *)
theory Auth
  imports Config Tenancy RateLimit PyVal
begin

text \<open>
  Caller identity and tenant resolution at the gateway edge: gateway/jwt\_identity.py
  (\<open>EntraIdentityResolver\<close>) and the dependencies of gateway/auth.py that authenticate, authorize
  and resolve the tenant.

  PyJWT is not part of the repository.  \<open>jwt_library\<close> holds the two calls that are made: the
  signing key of a token (the JWKS lookup) and \<open>jwt.decode\<close> with that key, an audience and an
  issuer (the algorithm and the list of required claims are constants of the source).  Nothing is
  assumed of them: a token counts as verified when \<open>jwt.decode\<close> returned its claims.

  The headers of a request are \<open>auth_headers\<close>; \<open>request.state.jwt_identity\<close> is the threaded
  \<open>jwt_identity option\<close>.
\<close>

section \<open>Resolving a bearer token\<close>

record jwt_identity =
  ji_principal :: principal
  ji_tenant :: string

record 'key jwt_library =
  signing_key :: "string \<Rightarrow> exn + 'key"
  jwt_decode :: "'key \<Rightarrow> string \<Rightarrow> string \<Rightarrow> string \<Rightarrow> exn + (string \<times> pyval) list"

record identity_resolver =
  er_issuer :: string
  er_audience :: string
  er_registry :: tenant_registry
  er_tenant_claim :: string

definition new_identity_resolver ::
  "string \<Rightarrow> string \<Rightarrow> string \<Rightarrow> tenant_registry \<Rightarrow> string \<Rightarrow> exn + identity_resolver" where
  "new_identity_resolver jwks_uri issuer audience registry tenant_claim =
     (if jwks_uri = [] \<or> issuer = [] \<or> audience = []
      then Inl (ValueError ''jwks_uri, issuer, and audience are all required'')
      else Inr \<lparr>er_issuer = issuer, er_audience = audience, er_registry = registry,
                er_tenant_claim = tenant_claim\<rparr>)"

fun extract_role_list :: "pyval \<Rightarrow> string list" where
  "extract_role_list (PStr s) = filter (\<lambda>s. s \<noteq> []) [s]"
| "extract_role_list (PList xs) = filter (\<lambda>s. s \<noteq> []) (List.map_filter as_str xs)"
| "extract_role_list _ = []"

definition verified_claims ::
  "'key jwt_library \<Rightarrow> identity_resolver \<Rightarrow> string \<Rightarrow> exn + (string \<times> pyval) list" where
  "verified_claims jwt r token =
     (case (case signing_key jwt token of
              Inl e \<Rightarrow> Inl e
            | Inr key \<Rightarrow> jwt_decode jwt key (er_audience r) (er_issuer r) token) of
        Inl (PyJWTError m) \<Rightarrow> Inl (JwtIdentityError (''invalid bearer token: '' @ m))
      | Inl e \<Rightarrow> Inl e
      | Inr claims \<Rightarrow> Inr claims)"

definition resolve_claims ::
  "identity_resolver \<Rightarrow> (string \<times> pyval) list \<Rightarrow> exn + jwt_identity" where
  "resolve_claims r claims =
     (let claimed_roles = extract_role_list (dict_get claims (er_tenant_claim r));
          tenant_matches = sorted_set (filter (\<lambda>n. n \<in> tr_names (er_registry r)) claimed_roles);
          subject = py_or (py_or (dict_get claims ''preferred_username'') (dict_get claims ''oid''))
            (dict_get claims ''sub'')
      in case tenant_matches of
           [tenant_name] \<Rightarrow>
             (case as_str subject of
                None \<Rightarrow> Inl (JwtIdentityError ''token carries no usable subject claim'')
              | Some s \<Rightarrow>
                  if s = [] then Inl (JwtIdentityError ''token carries no usable subject claim'')
                  else Inr \<lparr>ji_principal = \<lparr>p_subject = s,
                              p_roles = set claimed_roles - set tenant_matches\<rparr>,
                            ji_tenant = tenant_name\<rparr>)
         | _ \<Rightarrow> Inl (JwtIdentityError (''token '' @ repr_str (er_tenant_claim r)
                  @ '' claim must contain exactly one known tenant name; found ''
                  @ repr_list tenant_matches)))"

definition resolve ::
  "'key jwt_library \<Rightarrow> identity_resolver \<Rightarrow> string \<Rightarrow> exn + jwt_identity" where
  "resolve jwt r token =
     (case verified_claims jwt r token of Inl e \<Rightarrow> Inl e | Inr claims \<Rightarrow> resolve_claims r claims)"

section \<open>Dependencies of the routes\<close>

record auth_headers =
  ah_user :: "string option"
  ah_roles :: string
  ah_authorization :: "string option"
  ah_tenant :: "string option"

type_synonym request_identity = "jwt_identity option"

definition unauthorized :: "string \<Rightarrow> string \<Rightarrow> exn" where
  "unauthorized detail scheme = HTTPException 401 detail [(''WWW-Authenticate'', scheme)]"

definition local_env :: "settings \<Rightarrow> bool" where
  "local_env s \<longleftrightarrow> st_app_env s = LocalEnv \<or> st_app_env s = TestEnv"

definition resolve_jwt_bearer ::
  "(string \<Rightarrow> exn + jwt_identity) \<Rightarrow> string option \<Rightarrow> request_identity
    \<Rightarrow> (exn + unit) \<times> request_identity" where
  "resolve_jwt_bearer resolver authorization st =
     (case authorization of
        None \<Rightarrow> (Inl (unauthorized ''A Bearer token is required'' ''Bearer''), st)
      | Some a \<Rightarrow>
          if \<not> starts_with ''Bearer '' a
          then (Inl (unauthorized ''A Bearer token is required'' ''Bearer''), st)
          else (case resolver (strip (remove_prefix ''Bearer '' a)) of
                  Inl (JwtIdentityError m) \<Rightarrow> (Inl (unauthorized m ''Bearer''), st)
                | Inl e \<Rightarrow> (Inl e, st)
                | Inr identity \<Rightarrow> (Inr (), Some identity)))"

definition provider_unconfigured :: exn where
  "provider_unconfigured = HTTPException 503 ''Production identity provider is not configured'' []"

definition get_principal ::
  "settings \<Rightarrow> (string \<Rightarrow> exn + jwt_identity) \<Rightarrow> auth_headers \<Rightarrow> request_identity
    \<Rightarrow> (exn + principal) \<times> request_identity" where
  "get_principal s resolver h st =
     (if local_env s
      then (case ah_user h of
              None \<Rightarrow> (Inl (unauthorized ''Local identity header is required'' ''Local''), st)
            | Some user \<Rightarrow>
                if strip user = []
                then (Inl (unauthorized ''Local identity header is required'' ''Local''), st)
                else (Inr \<lparr>p_subject = strip user,
                           p_roles = set (filter (\<lambda>r. r \<noteq> [])
                             (map strip (split_on (CHR '','') (ah_roles h))))\<rparr>, st))
      else if \<not> jwt_configured s then (Inl provider_unconfigured, st)
      else (case resolve_jwt_bearer resolver (ah_authorization h) st of
              (Inl e, st') \<Rightarrow> (Inl e, st')
            | (Inr _, st') \<Rightarrow>
                (case st' of
                   None \<Rightarrow> (Inl (OtherException ''AttributeError''), st')
                 | Some i \<Rightarrow> (Inr (ji_principal i), st'))))"

definition get_tenant_context ::
  "settings \<Rightarrow> tenant_registry \<Rightarrow> auth_headers \<Rightarrow> request_identity \<Rightarrow> exn + tenant_context" where
  "get_tenant_context s registry h st =
     (if local_env s
      then (case ah_tenant h of
              None \<Rightarrow> Inl (HTTPException 400 ''X-Local-Tenant header is required'' [])
            | Some tenant \<Rightarrow>
                if strip tenant = []
                then Inl (HTTPException 400 ''X-Local-Tenant header is required'' [])
                else (case tr_get registry (strip tenant) of
                        Inl (UnknownTenantError m) \<Rightarrow> Inl (HTTPException 400 m [])
                      | Inl e \<Rightarrow> Inl e
                      | Inr bundle \<Rightarrow> Inr \<lparr>tc_tenant = strip tenant, tc_bundle = bundle\<rparr>))
      else if \<not> jwt_configured s then Inl provider_unconfigured
      else (case st of
              None \<Rightarrow> Inl (OtherException ''AttributeError'')
            | Some identity \<Rightarrow>
                (case tr_get registry (ji_tenant identity) of
                   Inl e \<Rightarrow> Inl e
                 | Inr bundle \<Rightarrow> Inr \<lparr>tc_tenant = ji_tenant identity, tc_bundle = bundle\<rparr>)))"

definition require_roles :: "string set \<Rightarrow> principal \<Rightarrow> exn + principal" where
  "require_roles required p =
     (if required - p_roles p \<noteq> {}
      then Inl (HTTPException 403 ''Caller does not have the required role'' [])
      else Inr p)"

text \<open>A route that declares both \<open>AuthenticatedPrincipal\<close> and \<open>TenantScoped\<close>: FastAPI runs
  \<open>get_principal\<close> once per request and before \<open>get_tenant_context\<close>, which depends on it.\<close>

definition authenticate ::
  "settings \<Rightarrow> (string \<Rightarrow> exn + jwt_identity) \<Rightarrow> tenant_registry \<Rightarrow> auth_headers
    \<Rightarrow> exn + principal \<times> tenant_context" where
  "authenticate s resolver registry h =
     (case get_principal s resolver h None of
        (Inl e, _) \<Rightarrow> Inl e
      | (Inr p, st) \<Rightarrow>
          (case get_tenant_context s registry h st of Inl e \<Rightarrow> Inl e | Inr t \<Rightarrow> Inr (p, t)))"

section \<open>Token resolution\<close>

lemma extract_role_list_nonempty: "s \<in> set (extract_role_list v) \<Longrightarrow> s \<noteq> []"
  by (cases v) (auto split: if_splits)

lemma singleton_list_iff: "distinct xs \<Longrightarrow> xs = [x] \<longleftrightarrow> set xs = {x}"
  by (cases xs) (auto simp: subset_singleton_iff)

lemma resolve_claims_Inr:
  "resolve_claims r claims = Inr i \<longleftrightarrow>
     (let roles = set (extract_role_list (dict_get claims (er_tenant_claim r))) in
      roles \<inter> tr_names (er_registry r) = {ji_tenant i} \<and>
      p_roles (ji_principal i) = roles - {ji_tenant i} \<and>
      p_subject (ji_principal i) \<noteq> [] \<and>
      py_or (py_or (dict_get claims ''preferred_username'') (dict_get claims ''oid''))
        (dict_get claims ''sub'') = PStr (p_subject (ji_principal i)))"
proof -
  define subject where "subject = py_or (py_or (dict_get claims ''preferred_username'') (dict_get claims ''oid''))
      (dict_get claims ''sub'')"
  define roles where "roles = extract_role_list (dict_get claims (er_tenant_claim r))"
  define xs where "xs = sorted_set (filter (\<lambda>n. n \<in> tr_names (er_registry r)) roles)"
  have xs: "xs = [n] \<longleftrightarrow> set roles \<inter> tr_names (er_registry r) = {n}" for n
  proof -
    have "distinct xs" "set xs = set roles \<inter> tr_names (er_registry r)" by (auto simp: xs_def)
    then show ?thesis using singleton_list_iff[of xs n] by simp
  qed
  have "resolve_claims r claims = Inr i \<longleftrightarrow>
      xs = [ji_tenant i] \<and> (\<exists>u. as_str subject = Some u \<and> u \<noteq> [] \<and>
        ji_principal i = \<lparr>p_subject = u, p_roles = set roles - set xs\<rparr>)"
    unfolding resolve_claims_def Let_def subject_def[symmetric] roles_def[symmetric] xs_def[symmetric]
    by (cases i) (auto split: list.split option.split)
  also have "\<dots> \<longleftrightarrow> set roles \<inter> tr_names (er_registry r) = {ji_tenant i} \<and>
      p_roles (ji_principal i) = set roles - {ji_tenant i} \<and> p_subject (ji_principal i) \<noteq> [] \<and>
      subject = PStr (p_subject (ji_principal i))"
    unfolding xs[symmetric] by (cases "ji_principal i") (auto simp: as_str_iff)
  finally show ?thesis by (simp only: Let_def subject_def roles_def)
qed

lemma resolve_claims_Inl: "resolve_claims r claims = Inl e \<Longrightarrow> \<exists>m. e = JwtIdentityError m"
  by (auto simp: resolve_claims_def Let_def split: list.splits option.splits if_splits)

lemma resolve_Inr:
  "resolve jwt r token = Inr i \<longleftrightarrow>
     (\<exists>claims. verified_claims jwt r token = Inr claims \<and> resolve_claims r claims = Inr i)"
  by (auto simp: resolve_def split: sum.splits)

lemma verified_claims_Inr:
  "verified_claims jwt r token = Inr claims \<longleftrightarrow>
     (\<exists>key. signing_key jwt token = Inr key \<and>
        jwt_decode jwt key (er_audience r) (er_issuer r) token = Inr claims)"
  by (auto simp: verified_claims_def split: sum.splits exn.splits)

lemma resolve_tenant_known: "resolve jwt r token = Inr i \<Longrightarrow> ji_tenant i \<in> tr_names (er_registry r)"
  by (auto simp: resolve_Inr resolve_claims_Inr Let_def)

section \<open>The two identity modes\<close>

lemma resolve_jwt_bearer_Inr:
  "resolve_jwt_bearer resolver authorization st = (Inr u, st') \<longleftrightarrow>
     (\<exists>a i. authorization = Some a \<and> starts_with ''Bearer '' a \<and>
        resolver (strip (remove_prefix ''Bearer '' a)) = Inr i \<and> st' = Some i)"
proof (cases authorization)
  case (Some a)
  show ?thesis
  proof (cases "resolver (strip (remove_prefix ''Bearer '' a))")
    case (Inl e)
    then show ?thesis by (cases e) (simp_all add: Some resolve_jwt_bearer_def)
  qed (auto simp: Some resolve_jwt_bearer_def)
qed (simp add: resolve_jwt_bearer_def)

lemma get_principal_jwt_mode:
  assumes "\<not> local_env s"
  shows "get_principal s resolver h st = (Inr p, st') \<longleftrightarrow>
     jwt_configured s \<and> (\<exists>i. resolve_jwt_bearer resolver (ah_authorization h) st = (Inr (), Some i) \<and>
        p = ji_principal i \<and> st' = Some i)"
proof -
  obtain r st1 where b: "resolve_jwt_bearer resolver (ah_authorization h) st = (r, st1)" by fastforce
  show ?thesis
  proof (cases r)
    case (Inl e)
    then show ?thesis by (simp add: get_principal_def assms b)
  next
    case (Inr u)
    then have "st1 \<noteq> None" using resolve_jwt_bearer_Inr[of resolver "ah_authorization h" st u st1] b by auto
    then show ?thesis using Inr by (auto simp: get_principal_def assms b)
  qed
qed

lemma get_tenant_context_jwt_mode:
  assumes "\<not> local_env s" and "jwt_configured s"
  shows "get_tenant_context s registry h (Some i) = Inr t \<longleftrightarrow>
     tc_tenant t = ji_tenant i \<and> tr_get registry (ji_tenant i) = Inr (tc_bundle t)"
  using assms by (cases t) (auto simp: get_tenant_context_def split: sum.splits)

lemma authenticate_Inr:
  "authenticate s resolver registry h = Inr (p, t) \<longleftrightarrow>
     (\<exists>st. get_principal s resolver h None = (Inr p, st) \<and> get_tenant_context s registry h st = Inr t)"
  by (auto simp: authenticate_def split: prod.splits sum.splits)

lemma authenticate_jwt_mode:
  assumes "\<not> local_env s"
  shows "authenticate s resolver registry h = Inr (p, t) \<longleftrightarrow>
     jwt_configured s \<and>
     (\<exists>a i. ah_authorization h = Some a \<and> starts_with ''Bearer '' a \<and>
        resolver (strip (remove_prefix ''Bearer '' a)) = Inr i \<and> p = ji_principal i \<and>
        tc_tenant t = ji_tenant i \<and> tr_get registry (ji_tenant i) = Inr (tc_bundle t))"
  unfolding authenticate_Inr get_principal_jwt_mode[OF assms] resolve_jwt_bearer_Inr
  using get_tenant_context_jwt_mode[OF assms] by auto

lemma authenticate_local_mode:
  assumes "local_env s"
  shows "authenticate s resolver registry h = Inr (p, t) \<longleftrightarrow>
     (\<exists>u n. ah_user h = Some u \<and> strip u \<noteq> [] \<and> ah_tenant h = Some n \<and> strip n \<noteq> [] \<and>
        p = \<lparr>p_subject = strip u, p_roles = set (filter (\<lambda>r. r \<noteq> [])
               (map strip (split_on (CHR '','') (ah_roles h))))\<rparr> \<and>
        tc_tenant t = strip n \<and> tr_get registry (strip n) = Inr (tc_bundle t))"
  using assms
  by (cases t) (auto simp: authenticate_def get_principal_def get_tenant_context_def
      split: option.splits sum.splits exn.splits if_splits)

lemma ex_identity:
  "(\<exists>i. Q i \<and> p = ji_principal i \<and> n = ji_tenant i \<and> R (ji_tenant i)) \<longleftrightarrow>
     Q \<lparr>ji_principal = p, ji_tenant = n\<rparr> \<and> R n"
proof
  assume "\<exists>i. Q i \<and> p = ji_principal i \<and> n = ji_tenant i \<and> R (ji_tenant i)"
  then obtain i where "Q i" "p = ji_principal i" "n = ji_tenant i" "R (ji_tenant i)" by blast
  then show "Q \<lparr>ji_principal = p, ji_tenant = n\<rparr> \<and> R n" by (cases i) simp
qed auto

text \<open>C6: outside local and test, a caller is accepted exactly when the \<open>Authorization\<close> header
  carries a bearer token that \<open>jwt.decode\<close> verified, whose role claim names exactly one known
  tenant, and that has a subject.  The tenant, the subject and the platform roles are then those of
  the token, the tenant's own name is not among the roles, and the bundle is the one registered
  under that name.\<close>

theorem jwt_identity_sound:
  assumes "\<not> local_env s" and "registry_wf registry" and "er_registry r = registry"
  shows "authenticate s (resolve jwt r) registry h = Inr (p, t) \<longleftrightarrow>
    jwt_configured s \<and>
    (\<exists>a token key claims.
       ah_authorization h = Some a \<and> starts_with ''Bearer '' a \<and>
       token = strip (remove_prefix ''Bearer '' a) \<and>
       signing_key jwt token = Inr key \<and>
       jwt_decode jwt key (er_audience r) (er_issuer r) token = Inr claims \<and>
       (let roles = set (extract_role_list (dict_get claims (er_tenant_claim r))) in
        roles \<inter> tr_names registry = {tc_tenant t} \<and> p_roles p = roles - {tc_tenant t}) \<and>
       p_subject p \<noteq> [] \<and>
       py_or (py_or (dict_get claims ''preferred_username'') (dict_get claims ''oid''))
         (dict_get claims ''sub'') = PStr (p_subject p) \<and>
       tr_get registry (tc_tenant t) = Inr (tc_bundle t))"
proof -
  note ex = ex_identity[where Q = "\<lambda>i. resolve jwt r token = Inr i" and p = p and n = "tc_tenant t"
      and R = "\<lambda>n. tr_get registry n = Inr (tc_bundle t)" for token, symmetric]
  have *: "authenticate s (resolve jwt r) registry h = Inr (p, t) \<longleftrightarrow>
     jwt_configured s \<and>
     (\<exists>a. ah_authorization h = Some a \<and> starts_with ''Bearer '' a \<and>
        resolve jwt r (strip (remove_prefix ''Bearer '' a)) =
          Inr \<lparr>ji_principal = p, ji_tenant = tc_tenant t\<rparr> \<and>
        tr_get registry (tc_tenant t) = Inr (tc_bundle t))"
    unfolding authenticate_jwt_mode[OF assms(1)] ex by blast
  have token: "resolve jwt r token = Inr \<lparr>ji_principal = p, ji_tenant = tc_tenant t\<rparr> \<longleftrightarrow>
     (\<exists>key claims. signing_key jwt token = Inr key \<and>
        jwt_decode jwt key (er_audience r) (er_issuer r) token = Inr claims \<and>
        resolve_claims r claims = Inr \<lparr>ji_principal = p, ji_tenant = tc_tenant t\<rparr>)" for token
    unfolding resolve_Inr verified_claims_Inr by blast
  have pull: "((\<exists>x y. A x \<and> B x y \<and> C y) \<and> D) \<longleftrightarrow> (\<exists>x y. A x \<and> B x y \<and> C y \<and> D)" for A B C D
    by blast
  show ?thesis
    unfolding * token pull resolve_claims_Inr Let_def assms(3) jwt_identity.select_convs
    by (simp only: ex_simps simp_thms conj_assoc)
qed

text \<open>A library that knows one token, for the witnesses.\<close>

definition sample_jwt :: "unit jwt_library" where
  "sample_jwt =
     \<lparr>signing_key = (\<lambda>_. Inr ()),
      jwt_decode = (\<lambda>_ aud iss token.
        if token = ''tok'' \<and> aud = ''api://agents'' \<and> iss = ''https://login.example''
        then Inr [(''sub'', PStr ''u-17''),
                  (''roles'', PList [PStr ''agent.invoke'', PStr ''retail-banking''])]
        else Inl (PyJWTError ''Signature verification failed''))\<rparr>"

definition sample_resolver :: identity_resolver where
  "sample_resolver = \<lparr>er_issuer = ''https://login.example'', er_audience = ''api://agents'',
     er_registry = sample_registry, er_tenant_claim = ''roles''\<rparr>"

definition sample_headers :: auth_headers where
  "sample_headers = \<lparr>ah_user = Some ''mallory'', ah_roles = ''platform.viewer'',
     ah_authorization = Some ''Bearer tok'', ah_tenant = Some ''wealth''\<rparr>"

lemmas sample_defs = sample_jwt_def sample_bundle_def sample_registry_def sample_resolver_def
  sample_headers_def production_settings_def default_settings_def local_env_def jwt_configured_def
  given_def

lemma bearer_tok: "starts_with ''Bearer '' ''Bearer tok''" "strip (remove_prefix ''Bearer '' ''Bearer tok'') = ''tok''"
  by (simp_all add: starts_with_def remove_prefix_def strip_def lstrip_def is_space_def code_def)

theorem jwt_identity_sound_witness:
  "authenticate production_settings (resolve sample_jwt sample_resolver) sample_registry
      sample_headers =
   Inr (\<lparr>p_subject = ''u-17'', p_roles = {''agent.invoke''}\<rparr>,
        \<lparr>tc_tenant = ''retail-banking'', tc_bundle = sample_bundle ''retail-banking''\<rparr>)"
proof -
  have e: "\<not> local_env production_settings" "er_registry sample_resolver = sample_registry"
    by (simp_all add: sample_defs)
  show ?thesis
    unfolding jwt_identity_sound[OF e(1) sample_registry_wf e(2)]
    using bearer_tok
    by (auto simp: sample_defs dict_get_def py_or_def tr_names_def tr_get_def as_str_iff
        List.map_filter_def)
qed

lemma deployed_mode:
  assumes "load_settings raw = Inr s" and "deployed (st_app_env s)"
  shows "\<not> local_env s" and "jwt_configured s"
  using load_settings_secure[OF assms(1)] assms(2)
  by (auto simp: secure_def deployed_def local_env_def)

definition pyjwt_only :: "'key jwt_library \<Rightarrow> bool" where
  "pyjwt_only jwt \<longleftrightarrow>
     (\<forall>token e. signing_key jwt token = Inl e \<longrightarrow> (\<exists>m. e = PyJWTError m)) \<and>
     (\<forall>key aud iss token e. jwt_decode jwt key aud iss token = Inl e \<longrightarrow> (\<exists>m. e = PyJWTError m))"

lemma resolve_Inl:
  "pyjwt_only jwt \<Longrightarrow> resolve jwt r token = Inl e \<Longrightarrow> \<exists>m. e = JwtIdentityError m"
  using resolve_claims_Inl
  by (fastforce simp: pyjwt_only_def resolve_def verified_claims_def split: sum.splits exn.splits)

text \<open>C7: with settings that startup accepts for staging or production, the local headers
  (\<open>X-Local-User\<close>, \<open>X-Local-Roles\<close>, \<open>X-Local-Tenant\<close>) change nothing: two requests with the same
  \<open>Authorization\<close> header authenticate alike.  As long as PyJWT fails only with its own exceptions,
  every refusal is a 401 that asks for a bearer token, never a 500 for an unknown tenant.\<close>

theorem deployed_trusts_token_only:
  assumes "load_settings raw = Inr s" and "deployed (st_app_env s)"
    and "er_registry r = registry" and "pyjwt_only jwt"
    and "ah_authorization h = ah_authorization h'"
  shows "authenticate s (resolve jwt r) registry h = authenticate s (resolve jwt r) registry h' \<and>
    (case authenticate s (resolve jwt r) registry h of
       Inl e \<Rightarrow> \<exists>m. e = unauthorized m ''Bearer'' | Inr _ \<Rightarrow> True)"
proof -
  note mode = deployed_mode[OF assms(1,2)] and err = resolve_Inl[OF assms(4)]
  have known: "\<exists>b. tr_get registry (ji_tenant i) = Inr b" if "resolve jwt r token = Inr i" for i token
    using resolve_tenant_known[OF that] assms(3) tr_get_known by simp
  have ctx: "get_tenant_context s registry h = get_tenant_context s registry h'"
    using mode(1) by (simp add: get_tenant_context_def fun_eq_iff)
  have pr: "get_principal s (resolve jwt r) h = get_principal s (resolve jwt r) h'"
    using mode assms(5) by (simp add: get_principal_def fun_eq_iff)
  have "authenticate s (resolve jwt r) registry h = authenticate s (resolve jwt r) registry h'"
    unfolding authenticate_def ctx pr ..
  moreover have "\<exists>m. e = unauthorized m ''Bearer''"
    if "authenticate s (resolve jwt r) registry h = Inl e" for e
    using that mode err known
    by (fastforce simp: authenticate_def get_principal_def get_tenant_context_def
        resolve_jwt_bearer_def split: option.splits sum.splits exn.splits if_splits)
  ultimately show ?thesis by (auto split: sum.splits)
qed

lemma sample_pyjwt_only: "pyjwt_only sample_jwt"
  by (simp add: pyjwt_only_def sample_jwt_def)

theorem deployed_trusts_token_only_witness:
  "authenticate production_settings (resolve sample_jwt sample_resolver) sample_registry
     sample_headers =
   authenticate production_settings (resolve sample_jwt sample_resolver) sample_registry
     (sample_headers\<lparr>ah_user := None, ah_tenant := Some ''retail-banking''\<rparr>)"
  using deployed_trusts_token_only[OF load_production_settings _ _ sample_pyjwt_only,
      of sample_resolver sample_registry sample_headers
        "sample_headers\<lparr>ah_user := None, ah_tenant := Some ''retail-banking''\<rparr>"]
  by (simp add: sample_defs deployed_def)

end
