(* ===== verification/Ingestion.thy ===== *)
theory Ingestion
  imports PyRegex
begin

text \<open>
  Knowledge documents (rag/models.py) and their ingestion (rag/ingestion.py): size limit, decoding,
  normalization, control characters, front matter, prompt-injection patterns, role list, and the
  declared constraints of \<open>KnowledgeDocument\<close>.

  \<open>decode\<close> is \<open>bytes.decode("utf-8")\<close>, \<open>nfkc\<close> is \<open>unicodedata.normalize("NFKC", s)\<close> and
  \<open>sha256\<close> is the hex digest of the raw bytes.  A byte string is a \<open>string\<close>.
\<close>

section \<open>Documents\<close>

record knowledge_document =
  kd_document_id :: string
  kd_title :: string
  kd_version :: string
  kd_classification :: string
  kd_allowed_roles :: "string set"
  kd_content :: string
  kd_provenance_sha256 :: string

definition document_id_pattern :: regex where
  "document_id_pattern =
     Cat (Lit ''POL-'') (Cat (Many is_upper_az 1 None) (Cat (Lit ''-'') (Many is_digit 3 (Some 3))))"

definition version_pattern :: regex where
  "version_pattern = Cat (Many is_digit 1 None) (Cat (Lit ''.'') (Many is_digit 1 None))"

definition hex_char :: "char \<Rightarrow> bool" where
  "hex_char c \<longleftrightarrow> is_digit c \<or> (97 \<le> code c \<and> code c \<le> 102)"

definition sha256_pattern :: regex where
  "sha256_pattern = Many hex_char 64 (Some 64)"

definition classifications :: "string list" where
  "classifications = [''public-synthetic'', ''internal-synthetic'']"

definition document_valid :: "knowledge_document \<Rightarrow> bool" where
  "document_valid d \<longleftrightarrow>
     full_match document_id_pattern (kd_document_id d) \<and>
     1 \<le> length (kd_title d) \<and> length (kd_title d) \<le> 200 \<and>
     full_match version_pattern (kd_version d) \<and>
     kd_classification d \<in> set classifications \<and>
     20 \<le> length (kd_content d) \<and> length (kd_content d) \<le> 50000 \<and>
     full_match sha256_pattern (kd_provenance_sha256 d)"

text \<open>\<open>KnowledgeDocument(...)\<close>: strip every string, then check.\<close>

definition new_knowledge_document :: "knowledge_document \<Rightarrow> exn + knowledge_document" where
  "new_knowledge_document d =
     (let d' = \<lparr>kd_document_id = field_strip (kd_document_id d),
                kd_title = field_strip (kd_title d),
                kd_version = field_strip (kd_version d),
                kd_classification = kd_classification d,
                kd_allowed_roles = field_strip ` kd_allowed_roles d,
                kd_content = field_strip (kd_content d),
                kd_provenance_sha256 = field_strip (kd_provenance_sha256 d)\<rparr>
      in if document_valid d' then Inr d' else Inl ValidationError)"

section \<open>Parsing\<close>

definition max_document_bytes :: nat where
  "max_document_bytes = 50000"

definition required_headers :: "string list" where
  "required_headers = [''id'', ''title'', ''version'', ''classification'', ''allowed_roles'']"

definition ws0 :: regex where
  "ws0 = Many is_space 0 None"

definition ws1 :: regex where
  "ws1 = Many is_space 1 None"

definition any_of :: "string list \<Rightarrow> regex" where
  "any_of ws = foldr (\<lambda>w r. Alt (LitI w) r) (butlast ws) (LitI (last ws))"

definition injection_patterns :: "regex list" where
  "injection_patterns =
     [Cat (LitI ''ignore '') (Cat (Opt (any_of [''all '', ''any ''])) 
        (Cat (any_of [''previous'', ''prior'']) (LitI '' instructions''))),
      Cat (LitI ''reveal '') (Cat (Opt (LitI ''the ''))
        (Cat (any_of [''system'', ''developer'']) (LitI '' prompt''))),
      Cat WordB (Cat (any_of [''system'', ''assistant'', ''developer'']) (Cat ws0 (Lit '':''))),
      Cat (Lit ''<'') (Cat ws0 (Cat (any_of [''script'', ''iframe'', ''object'']) WordB)),
      Cat WordB (Cat (any_of [''call'', ''invoke'', ''execute'']) (Cat ws1
        (Cat (Opt (Cat (LitI ''the'') ws1)) (Cat (LitI ''tool'') WordB))))]"

text \<open>\<open>str.splitlines()\<close>.\<close>

definition is_line_break :: "char \<Rightarrow> bool" where
  "is_line_break c \<longleftrightarrow>
     (10 \<le> code c \<and> code c \<le> 13) \<or> (28 \<le> code c \<and> code c \<le> 30) \<or> code c = 133"

function splitlines :: "string \<Rightarrow> string list" where
  "splitlines s =
     (if s = [] then []
      else case dropWhile (\<lambda>c. \<not> is_line_break c) s of
          [] \<Rightarrow> [s]
        | c # r \<Rightarrow> takeWhile (\<lambda>c. \<not> is_line_break c) s #
            splitlines (if code c = 13 \<and> take 1 r = [char_of (10 :: nat)] then tl r else r))"
  by pat_completeness auto
termination
proof (relation "measure length")
  fix s :: string and c r
  assume d: "dropWhile (\<lambda>c. \<not> is_line_break c) s = c # r"
  have "length (c # r) \<le> length s" unfolding d[symmetric] by (rule length_dropWhile_le)
  then show "((if code c = 13 \<and> take 1 r = [char_of (10 :: nat)] then tl r else r), s) \<in> measure length"
    by auto
qed auto

declare splitlines.simps [simp del]

text \<open>The loop over the header lines.\<close>

fun parse_headers :: "(string \<times> string) list \<Rightarrow> string list \<Rightarrow> exn + (string \<times> string) list" where
  "parse_headers headers [] = Inr headers"
| "parse_headers headers (line # rest) =
     (let (key, separator, v) = partition_on (CHR '':'') line in
      if \<not> separator \<or> strip key = [] \<or> strip v = [] \<or> strip key \<in> set (map fst headers)
      then Inl (UnsafeKnowledgeDocument ''Document metadata contains an invalid field'')
      else parse_headers (AList.update (strip key) (strip v) headers) rest)"

definition split_document :: "string \<Rightarrow> exn + (string \<times> string) list \<times> string" where
  "split_document document =
     (let lines = splitlines document in
      if length lines < 8 \<or> hd lines \<noteq> ''---''
      then Inl (UnsafeKnowledgeDocument ''Document must start with metadata front matter'')
      else if ''---'' \<notin> set (tl lines)
      then Inl (UnsafeKnowledgeDocument ''Document metadata is not terminated'')
      else case parse_headers [] (takeWhile (\<lambda>l. l \<noteq> ''---'') (tl lines)) of
          Inl e \<Rightarrow> Inl e
        | Inr headers \<Rightarrow>
            let content = strip (join [char_of (10 :: nat)]
                  (tl (dropWhile (\<lambda>l. l \<noteq> ''---'') (tl lines))))
            in if length content < 20
               then Inl (UnsafeKnowledgeDocument ''Document content is too short'')
               else Inr (headers, content))"

definition is_control :: "char \<Rightarrow> bool" where
  "is_control c \<longleftrightarrow> code c < 32 \<or> (127 \<le> code c \<and> code c \<le> 159)"

definition bad_control :: "char \<Rightarrow> bool" where
  "bad_control c \<longleftrightarrow> is_control c \<and> code c \<noteq> 10 \<and> code c \<noteq> 9 \<and> code c \<noteq> 13"

definition role_list :: "string \<Rightarrow> string list" where
  "role_list s = filter (\<lambda>r. r \<noteq> []) (map strip (split_on (CHR '','') s))"

definition header :: "(string \<times> string) list \<Rightarrow> string \<Rightarrow> string" where
  "header headers k = the (map_of headers k)"

definition parse_policy_document ::
  "(string \<Rightarrow> string option) \<Rightarrow> (string \<Rightarrow> string) \<Rightarrow> (string \<Rightarrow> string) \<Rightarrow> string \<Rightarrow> string
    \<Rightarrow> exn + knowledge_document" where
  "parse_policy_document decode nfkc sha256 raw source_name =
     (if length raw > max_document_bytes
      then Inl (UnsafeKnowledgeDocument ''Document exceeds the ingestion size limit'')
      else case decode raw of
        None \<Rightarrow> Inl (UnsafeKnowledgeDocument ''Document must be valid UTF-8'')
      | Some decoded \<Rightarrow>
         (let normalized = nfkc decoded in
          if list_ex bad_control normalized
          then Inl (UnsafeKnowledgeDocument ''Document contains disallowed control characters'')
          else case split_document normalized of
            Inl e \<Rightarrow> Inl e
          | Inr (headers, content) \<Rightarrow>
              if set (map fst headers) \<noteq> set required_headers
              then Inl (UnsafeKnowledgeDocument ''Document metadata schema is invalid'')
              else if list_ex (\<lambda>p. found p content) injection_patterns
              then Inl (UnsafeKnowledgeDocument ''Document contains a prohibited instruction pattern'')
              else let roles = set (role_list (header headers ''allowed_roles'')) in
              if roles = {}
              then Inl (UnsafeKnowledgeDocument ''Document must declare at least one allowed role'')
              else if \<not> ends_with ''.md'' source_name
              then Inl (UnsafeKnowledgeDocument ''Only Markdown policy documents are accepted'')
              else new_knowledge_document
                     \<lparr>kd_document_id = header headers ''id'',
                      kd_title = header headers ''title'',
                      kd_version = header headers ''version'',
                      kd_classification = header headers ''classification'',
                      kd_allowed_roles = roles,
                      kd_content = content,
                      kd_provenance_sha256 = sha256 raw\<rparr>))"

section \<open>What an accepted document satisfies\<close>

lemma white_space_space: "is_white_space c \<Longrightarrow> is_space c"
  by (auto simp: is_white_space_def is_space_def Let_def)

lemma strip_ends: "strip s = [] \<or> \<not> is_space (hd (strip s)) \<and> \<not> is_space (last (strip s))"
proof -
  let ?u = "dropWhile is_space s"
  have s: "strip s = rev (dropWhile is_space (rev ?u))" by (simp add: strip_def lstrip_def)
  have "strip s = [] \<or> \<not> is_space (hd (strip s))"
    using dropWhile_rev_fix[of ?u is_space] dropWhile_hd[of is_space s] by (simp add: s Let_def)
  moreover have "strip s = [] \<or> \<not> is_space (last (strip s))"
    using dropWhile_hd[of is_space "rev ?u"] by (simp add: s last_rev)
  ultimately show ?thesis by blast
qed

lemma field_strip_strip [simp]: "field_strip (strip s) = strip s"
proof (cases "strip s = []")
  case True
  then show ?thesis by (simp add: field_strip_def)
next
  case False
  with strip_ends[of s] have "\<not> is_white_space (hd (strip s))" "\<not> is_white_space (last (strip s))"
    using white_space_space by blast+
  with False have "dropWhile is_white_space (strip s) = strip s"
    "dropWhile is_white_space (rev (strip s)) = rev (strip s)"
    by (auto intro!: dropWhile_idem_fix simp: hd_rev)
  then show ?thesis by (simp add: field_strip_def)
qed

lemma role_list_stripped: "r \<in> set (role_list s) \<Longrightarrow> field_strip r = r \<and> r \<noteq> []"
  by (auto simp: role_list_def)

lemma role_list_nonempty [simp]: "[] \<notin> set (role_list s)"
  by (simp add: role_list_def)

lemma split_document_content:
  "split_document s = Inr (headers, content) \<Longrightarrow> strip content = content \<and> 20 \<le> length content"
  by (auto simp: split_document_def Let_def split: if_splits sum.splits)

lemma new_knowledge_document_Inr:
  "new_knowledge_document d = Inr d' \<Longrightarrow>
     document_valid d' \<and> kd_content d' = field_strip (kd_content d) \<and>
     kd_allowed_roles d' = field_strip ` kd_allowed_roles d \<and>
     kd_provenance_sha256 d' = field_strip (kd_provenance_sha256 d)"
  by (auto simp: new_knowledge_document_def Let_def split: if_splits)

lemma new_knowledge_document_Inl: "new_knowledge_document d = Inl e \<Longrightarrow> e = ValidationError"
  by (auto simp: new_knowledge_document_def Let_def split: if_splits)

lemma parse_headers_Inl: "parse_headers h ls = Inl e \<Longrightarrow> \<exists>m. e = UnsafeKnowledgeDocument m"
  by (induction h ls rule: parse_headers.induct) (auto simp: Let_def split: prod.splits if_splits)

lemma split_document_Inl: "split_document s = Inl e \<Longrightarrow> \<exists>m. e = UnsafeKnowledgeDocument m"
  using parse_headers_Inl by (auto simp: split_document_def Let_def split: if_splits sum.splits)

lemma parse_policy_document_Inl:
  "parse_policy_document decode nfkc sha256 raw name = Inl e \<Longrightarrow> is_value_error e"
  using split_document_Inl new_knowledge_document_Inl
  by (fastforce simp: parse_policy_document_def Let_def split: if_splits option.splits sum.splits prod.splits)

lemma parse_policy_document_Inr:
  assumes "parse_policy_document decode nfkc sha256 raw name = Inr d"
  obtains decoded headers where "length raw \<le> 50000" "decode raw = Some decoded"
    "\<not> list_ex bad_control (nfkc decoded)"
    "split_document (nfkc decoded) = Inr (headers, kd_content d)"
    "set (map fst headers) = set required_headers"
    "\<not> list_ex (\<lambda>p. found p (kd_content d)) injection_patterns"
    "kd_allowed_roles d = set (role_list (header headers ''allowed_roles''))"
    "kd_allowed_roles d \<noteq> {}" "ends_with ''.md'' name"
    "kd_provenance_sha256 d = field_strip (sha256 raw)" "document_valid d"
proof -
  from assms obtain decoded headers content d0 where *: "length raw \<le> 50000" "decode raw = Some decoded"
    "\<not> list_ex bad_control (nfkc decoded)"
    "split_document (nfkc decoded) = Inr (headers, content)"
    "set (map fst headers) = set required_headers"
    "\<not> list_ex (\<lambda>p. found p content) injection_patterns"
    "set (role_list (header headers ''allowed_roles'')) \<noteq> {}" "ends_with ''.md'' name"
    "new_knowledge_document d0 = Inr d" "kd_content d0 = content"
    "kd_allowed_roles d0 = set (role_list (header headers ''allowed_roles''))"
    "kd_provenance_sha256 d0 = sha256 raw"
    by (auto simp: parse_policy_document_def max_document_bytes_def Let_def
        split: if_splits option.splits sum.splits prod.splits)
  note new = new_knowledge_document_Inr[OF *(9)]
  have "kd_content d = content"
    using new *(10) split_document_content[OF *(4)] field_strip_strip[of content] by simp
  moreover have "kd_allowed_roles d = set (role_list (header headers ''allowed_roles''))"
    using new *(11) role_list_stripped by force
  ultimately show thesis using * new by (intro that[of decoded headers]) simp_all
qed

text \<open>C13: a document enters the knowledge base only if its body matches no prompt-injection
  pattern, it declares at least one role, its text has no control character besides tab, line feed
  and carriage return, its fields satisfy the declared schema and its provenance is the digest of
  the raw bytes; anything else is refused with a \<open>ValueError\<close>.\<close>

theorem ingestion_safe:
  "case parse_policy_document decode nfkc sha256 raw name of
     Inl e \<Rightarrow> is_value_error e
   | Inr d \<Rightarrow> document_valid d \<and> \<not> list_ex (\<lambda>p. found p (kd_content d)) injection_patterns \<and>
       kd_allowed_roles d \<noteq> {} \<and> [] \<notin> kd_allowed_roles d \<and>
       kd_provenance_sha256 d = field_strip (sha256 raw) \<and> length raw \<le> 50000 \<and>
       (\<exists>decoded. decode raw = Some decoded \<and> \<not> list_ex bad_control (nfkc decoded) \<and>
          (\<exists>headers. split_document (nfkc decoded) = Inr (headers, kd_content d)))"
proof (cases "parse_policy_document decode nfkc sha256 raw name")
  case (Inl e)
  then show ?thesis using parse_policy_document_Inl by simp
next
  case (Inr d)
  then show ?thesis
    by (rule parse_policy_document_Inr) (use Inr in auto)
qed

end
