(* ===== verification/Chunking.thy ===== *)
theory Chunking
  imports Ingestion
begin

text \<open>
  Splitting a document into overlapping chunks (\<open>chunk_document\<close> in rag/factory.py).  The loop may
  run forever, so it is a \<open>partial_function\<close>: \<open>None\<close> is "does not return".  Positions are integers:
  a negative one counts from the end in a slice and in \<open>rfind\<close>, as in Python.  \<open>emb\<close> is
  \<open>LocalHashEmbedding.embed\<close>.
\<close>

section \<open>Slices\<close>

definition norm_index :: "nat \<Rightarrow> int \<Rightarrow> nat" where
  "norm_index n i = (if i < 0 then nat (i + int n) else min (nat i) n)"

definition py_slice :: "string \<Rightarrow> int \<Rightarrow> int \<Rightarrow> string" where
  "py_slice s a b =
     (let x = norm_index (length s) a; y = norm_index (length s) b in take (y - x) (drop x s))"

text \<open>\<open>s.rfind(c, a, b)\<close>.\<close>

definition py_rfind :: "char \<Rightarrow> string \<Rightarrow> int \<Rightarrow> int \<Rightarrow> int" where
  "py_rfind c s a b =
     (let seg = py_slice s a b; k = length (takeWhile (\<lambda>x. x \<noteq> c) (rev seg)) in
      if k = length seg then -1
      else int (norm_index (length s) a) + int (length seg) - 1 - int k)"

section \<open>Chunks\<close>

record knowledge_chunk =
  kc_chunk_id :: string
  kc_document_id :: string
  kc_title :: string
  kc_version :: string
  kc_classification :: string
  kc_allowed_roles :: "string set"
  kc_text :: string
  kc_provenance_sha256 :: string
  kc_embedding :: "real list"

definition make_chunk :: "(string \<Rightarrow> real list) \<Rightarrow> knowledge_document \<Rightarrow> nat \<Rightarrow> string \<Rightarrow> knowledge_chunk" where
  "make_chunk emb d index text =
     \<lparr>kc_chunk_id = kd_document_id d @ ''#chunk-'' @ show_nat index,
      kc_document_id = kd_document_id d, kc_title = kd_title d, kc_version = kd_version d,
      kc_classification = kd_classification d, kc_allowed_roles = kd_allowed_roles d,
      kc_text = text, kc_provenance_sha256 = kd_provenance_sha256 d, kc_embedding = emb text\<rparr>"

definition window_end :: "string \<Rightarrow> int \<Rightarrow> int \<Rightarrow> int" where
  "window_end content sz start =
     (let e = min (start + sz) (int (length content)) in
      if e < int (length content) \<and> start < py_rfind (CHR '' '') content start e
      then py_rfind (CHR '' '') content start e else e)"

partial_function (option) chunk_loop ::
  "(nat \<Rightarrow> string \<Rightarrow> 'c) \<Rightarrow> string \<Rightarrow> int \<Rightarrow> int \<Rightarrow> int \<Rightarrow> nat \<Rightarrow> 'c list \<Rightarrow> 'c list option" where
  "chunk_loop mk content sz overlap start index chunks =
     (if start < int (length content)
      then let e = window_end content sz start;
               t = strip (py_slice content start e);
               chunks' = (if t \<noteq> [] then chunks @ [mk index t] else chunks);
               index' = (if t \<noteq> [] then index + 1 else index)
           in if e = int (length content) then Some chunks'
              else chunk_loop mk content sz overlap (e - overlap) index' chunks'
      else Some chunks)"

definition chunk_document ::
  "(string \<Rightarrow> real list) \<Rightarrow> int \<Rightarrow> int \<Rightarrow> knowledge_document \<Rightarrow> (exn + knowledge_chunk list) option" where
  "chunk_document emb chunk_size overlap d =
     (if chunk_size < 100 \<or> overlap < 0 \<or> overlap \<ge> chunk_size
      then Some (Inl (ValueError ''Chunking configuration is invalid''))
      else map_option Inr
             (chunk_loop (make_chunk emb d) (kd_content d) chunk_size overlap 0 1 []))"

section \<open>Progress\<close>

lemma norm_index_nonneg [simp]: "0 \<le> i \<Longrightarrow> norm_index n i = min (nat i) n"
  by (simp add: norm_index_def)

lemma py_rfind_bounds:
  assumes "0 \<le> a" and "a \<le> b" and "b \<le> int (length s)" and "py_rfind c s a b \<noteq> -1"
  shows "a \<le> py_rfind c s a b \<and> py_rfind c s a b < b \<and> s ! nat (py_rfind c s a b) = c"
proof -
  let ?seg = "py_slice s a b"
  let ?k = "length (takeWhile (\<lambda>x. x \<noteq> c) (rev ?seg))"
  have len: "length ?seg = nat b - nat a" using assms by (simp add: py_slice_def Let_def)
  have k: "?k < length ?seg"
    using assms(4) length_takeWhile_le[of "\<lambda>x. x \<noteq> c" "rev ?seg"]
    by (auto simp: py_rfind_def Let_def split: if_splits)
  then have r: "py_rfind c s a b = a + int (length ?seg) - 1 - int ?k"
    using assms by (simp add: py_rfind_def Let_def)
  have "rev ?seg ! ?k = c"
    using nth_length_takeWhile[of "\<lambda>x. x \<noteq> c" "rev ?seg"] k by simp
  then have "?seg ! (length ?seg - Suc ?k) = c" using k by (simp add: rev_nth)
  moreover have "?seg ! j = s ! (nat a + j)" if "j < length ?seg" for j
    using that assms by (simp add: py_slice_def Let_def)
  ultimately have "s ! (nat a + (length ?seg - Suc ?k)) = c" using k by simp
  moreover have r': "py_rfind c s a b = a + int (length ?seg - Suc ?k)"
    unfolding r using k by linarith
  moreover have "nat (a + int (length ?seg - Suc ?k)) = nat a + (length ?seg - Suc ?k)"
    using assms(1) by simp
  moreover have "int (length ?seg - Suc ?k) < b - a" using k len assms by linarith
  ultimately show ?thesis by simp
qed

lemma takeWhile_stops: "\<not> P (xs ! i) \<Longrightarrow> length (takeWhile P xs) \<le> i"
proof (rule ccontr)
  assume "\<not> P (xs ! i)" "\<not> length (takeWhile P xs) \<le> i"
  then have "i < length (takeWhile P xs)" by simp
  from nth_mem[OF this] takeWhile_nth[OF this] have "xs ! i \<in> set (takeWhile P xs)" by simp
  from set_takeWhileD[OF this] \<open>\<not> P (xs ! i)\<close> show False by simp
qed

lemma py_rfind_last:
  assumes "0 \<le> a" and "a \<le> b" and "b \<le> int (length s)"
    and "a \<le> j" and "j < b" and "s ! nat j = c"
  shows "j \<le> py_rfind c s a b"
proof -
  let ?seg = "py_slice s a b"
  let ?k = "length (takeWhile (\<lambda>x. x \<noteq> c) (rev ?seg))"
  have len: "length ?seg = nat b - nat a" using assms by (simp add: py_slice_def Let_def)
  let ?i = "length ?seg - Suc (nat j - nat a)"
  have "nat j - nat a < length ?seg" using len assms by linarith
  then have i: "?i < length ?seg" and i': "length ?seg - Suc ?i = nat j - nat a"
    by (auto simp: Suc_diff_Suc)
  have "?seg ! (nat j - nat a) = c" using assms by (simp add: py_slice_def Let_def)
  then have "rev ?seg ! ?i = c" unfolding rev_nth[OF i] i' .
  then have "?k \<le> ?i"
    using takeWhile_stops[where P = "\<lambda>x. x \<noteq> c"] by blast
  then have "?k \<noteq> length ?seg" "py_rfind c s a b = a + int (length ?seg) - 1 - int ?k"
    using i assms by (auto simp: py_rfind_def Let_def)
  then show ?thesis using \<open>?k \<le> ?i\<close> len assms by linarith
qed

text \<open>Every stretch of \<open>n\<close> characters has a space.\<close>

definition spaced :: "nat \<Rightarrow> string \<Rightarrow> bool" where
  "spaced n s \<longleftrightarrow> (\<forall>i. i + n \<le> length s \<longrightarrow> CHR '' '' \<in> set (take n (drop i s)))"

lemma window_end_progress:
  assumes "spaced (nat (sz - overlap - 1)) s" and "0 \<le> start" and "start < int (length s)"
    and "0 \<le> overlap" and "overlap < sz"
  defines "e \<equiv> window_end s sz start"
  shows "start < e" and "e \<le> int (length s)" and "e \<le> start + sz"
    and "e \<noteq> int (length s) \<Longrightarrow> start + overlap < e"
proof -
  let ?n = "int (length s)" and ?e = "min (start + sz) (int (length s))"
  let ?b = "py_rfind (CHR '' '') s start ?e"
  have range: "start \<le> ?e" "?e \<le> ?n" "start < ?e" using assms by auto
  have bnd: "?b \<noteq> -1 \<Longrightarrow> ?b < ?e" using py_rfind_bounds[of start ?e s "CHR '' ''"] assms range by auto
  have cases: "e = ?e \<or> (e = ?b \<and> ?e < ?n \<and> start < ?b)"
    by (auto simp: e_def window_end_def Let_def)
  then show "start < e" "e \<le> ?n" "e \<le> start + sz"
    using range bnd assms(2) by auto
  assume "e \<noteq> ?n"
  then have full: "?e = start + sz" "start + sz < ?n"
    using cases bnd range assms(2) by (auto simp: min_def split: if_splits)
  show "start + overlap < e"
  proof (cases "e = ?e")
    case True
    then show ?thesis using full assms by simp
  next
    case False
    let ?m = "nat (sz - overlap - 1)" and ?i = "nat (start + overlap + 1)"
    have "CHR '' '' \<in> set (take ?m (drop ?i s))"
      using assms(1,2,4,5) full(2) unfolding spaced_def by auto
    then obtain k where k: "k < ?m" "s ! (?i + k) = CHR '' ''" "?i + k < length s"
      by (auto simp: in_set_conv_nth)
    have "int (?i + k) \<le> ?b"
      using k assms(2,4,5) full range by (intro py_rfind_last) (auto simp: nat_add_distrib)
    then show ?thesis using False cases assms(2,4) by auto
  qed
qed

text \<open>The spans that the loop cuts: consecutive ones overlap or touch, and together they cover the
  text from the first start to the end.\<close>

fun spans_cover :: "int \<Rightarrow> int \<Rightarrow> int \<Rightarrow> (int \<times> int) list \<Rightarrow> bool" where
  "spans_cover n sz start [] = False"
| "spans_cover n sz start ((a, b) # rest) =
     (a \<le> start \<and> 0 \<le> a \<and> start < b \<and> b - a \<le> sz \<and> b \<le> n \<and>
      (rest = [] \<and> b = n \<or> spans_cover n sz b rest))"

definition span_texts :: "string \<Rightarrow> (int \<times> int) list \<Rightarrow> string list" where
  "span_texts content spans =
     filter (\<lambda>t. t \<noteq> []) (map (\<lambda>(a, b). strip (py_slice content a b)) spans)"

fun number_from :: "(nat \<Rightarrow> string \<Rightarrow> 'c) \<Rightarrow> nat \<Rightarrow> string list \<Rightarrow> 'c list" where
  "number_from mk i [] = []"
| "number_from mk i (t # ts) = mk i t # number_from mk (i + 1) ts"

lemma spans_cover_mono:
  "spans_cover n sz start spans \<Longrightarrow> start' \<le> start \<Longrightarrow> (\<forall>b. hd spans = b \<longrightarrow> fst b \<le> start') \<Longrightarrow>
     start' < start \<Longrightarrow> spans_cover n sz start' spans"
  by (cases spans) auto

lemma chunk_loop_returns:
  assumes "spaced (nat (sz - overlap - 1)) content" and "0 \<le> overlap" and "overlap < sz"
    and "0 \<le> start" and "start \<le> frm" and "frm < int (length content)"
    and "frm < window_end content sz start"
  shows "\<exists>spans. spans_cover (int (length content)) sz frm spans \<and>
    chunk_loop mk content sz overlap start index chunks =
      Some (chunks @ number_from mk index (span_texts content spans))"
  using assms(4-)
proof (induction "nat (int (length content) - start)" arbitrary: start frm index chunks rule: less_induct)
  case less
  let ?n = "int (length content)" and ?e = "window_end content sz start"
  have start: "start < ?n" using less.prems by simp
  note prog = window_end_progress[OF assms(1) less.prems(1) start assms(2,3)]
  let ?t = "strip (py_slice content start ?e)"
  let ?chunks = "if ?t \<noteq> [] then chunks @ [mk index ?t] else chunks"
  let ?index = "if ?t \<noteq> [] then index + 1 else index"
  show ?case
  proof (cases "?e = ?n")
    case True
    then have "chunk_loop mk content sz overlap start index chunks = Some ?chunks"
      using start by (subst chunk_loop.simps) (simp add: Let_def)
    then show ?thesis
      using True prog less.prems
      by (intro exI[of _ "[(start, ?e)]"]) (auto simp: span_texts_def)
  next
    case False
    have e: "?e < ?n" using prog(2) False by simp
    have p: "start + overlap < ?e" by (rule prog(4)[OF False])
    have step: "chunk_loop mk content sz overlap start index chunks =
        chunk_loop mk content sz overlap (?e - overlap) ?index ?chunks"
      using start False by (subst chunk_loop.simps) (simp add: Let_def)
    have start': "0 \<le> ?e - overlap" "?e - overlap < ?n" using p less.prems(1) e assms(2) by auto
    note prog' = window_end_progress[OF assms(1) start' assms(2,3)]
    have "?e < window_end content sz (?e - overlap)"
      using prog'(2,4) e by (cases "window_end content sz (?e - overlap) = ?n") auto
    then obtain spans where "spans_cover ?n sz ?e spans"
      "chunk_loop mk content sz overlap (?e - overlap) ?index ?chunks =
         Some (?chunks @ number_from mk ?index (span_texts content spans))"
      using less.hyps[of "?e - overlap" ?e ?index ?chunks] p start' e assms(2) start
      by auto
    then show ?thesis
      using step prog less.prems
      by (intro exI[of _ "(start, ?e) # spans"]) (auto simp: span_texts_def)
  qed
qed

lemma spans_cover_all:
  "spans_cover n sz start spans \<Longrightarrow> start \<le> i \<Longrightarrow> i < n \<Longrightarrow> \<exists>(a, b)\<in>set spans. a \<le> i \<and> i < b"
proof (induction n sz start spans rule: spans_cover.induct)
  case (1 n sz start)
  then show ?case by simp
next
  case (2 n sz start a b rest)
  then show ?case by (cases "i < b") auto
qed

lemma spans_cover_size:
  "spans_cover n sz start spans \<Longrightarrow> \<forall>(a, b)\<in>set spans. 0 \<le> a \<and> a < b \<and> b \<le> n \<and> b - a \<le> sz"
  by (induction n sz start spans rule: spans_cover.induct) auto

lemma number_from_length [simp]: "length (number_from mk i ts) = length ts"
  by (induction ts arbitrary: i) auto

lemma number_from_nth:
  "k < length ts \<Longrightarrow> number_from mk i ts ! k = mk (i + k) (ts ! k)"
  by (induction ts arbitrary: i k) (auto simp: nth_Cons split: nat.splits)

text \<open>C14: for a text in which every stretch of \<open>chunk_size - overlap - 1\<close> characters has a space,
  chunking returns; the chunks are cut from spans of at most \<open>chunk_size\<close> characters that leave no
  position of the text out, each chunk has a non-empty stripped text, carries the roles and the
  provenance of its document, and the identifiers number them from 1 without a repetition.\<close>

theorem chunk_document_covers:
  assumes "100 \<le> chunk_size" and "0 \<le> overlap" and "overlap < chunk_size"
    and "spaced (nat (chunk_size - overlap - 1)) (kd_content d)" and "kd_content d \<noteq> []"
  shows "\<exists>chunks spans. chunk_document emb chunk_size overlap d = Some (Inr chunks) \<and>
    map kc_text chunks = span_texts (kd_content d) spans \<and>
    (\<forall>(a, b)\<in>set spans. 0 \<le> a \<and> a < b \<and> b \<le> int (length (kd_content d)) \<and> b - a \<le> chunk_size) \<and>
    (\<forall>i<length (kd_content d). \<exists>(a, b)\<in>set spans. a \<le> int i \<and> int i < b) \<and>
    (\<forall>k<length chunks. kc_chunk_id (chunks ! k) =
       kd_document_id d @ ''#chunk-'' @ show_nat (k + 1)) \<and>
    distinct (map kc_chunk_id chunks) \<and>
    (\<forall>c\<in>set chunks. kc_allowed_roles c = kd_allowed_roles d \<and> kc_document_id c = kd_document_id d \<and>
       kc_provenance_sha256 c = kd_provenance_sha256 d \<and> kc_text c \<noteq> [] \<and>
       kc_embedding c = emb (kc_text c))"
proof -
  let ?s = "kd_content d"
  have "0 < window_end ?s chunk_size 0"
    using window_end_progress(1)[OF assms(4) _ _ assms(2,3), of 0] assms(5) by simp
  then obtain spans where sp: "spans_cover (int (length ?s)) chunk_size 0 spans"
    and run: "chunk_loop (make_chunk emb d) ?s chunk_size overlap 0 1 [] =
      Some (number_from (make_chunk emb d) 1 (span_texts ?s spans))"
    using chunk_loop_returns[OF assms(4,2,3), of 0 0 "make_chunk emb d" 1 "[]"] assms(5) by auto
  define chunks where "chunks = number_from (make_chunk emb d) 1 (span_texts ?s spans)"
  have nth: "chunks ! k = make_chunk emb d (k + 1) (span_texts ?s spans ! k)" if "k < length chunks" for k
    using that by (simp add: chunks_def number_from_nth)
  have len: "length chunks = length (span_texts ?s spans)" by (simp add: chunks_def)
  have ids: "kc_chunk_id (chunks ! k) = kd_document_id d @ ''#chunk-'' @ show_nat (k + 1)"
    if "k < length chunks" for k
    using nth[OF that] by (simp add: make_chunk_def)
  have texts: "map kc_text chunks = span_texts ?s spans"
    using nth len by (intro nth_equalityI) (auto simp: make_chunk_def)
  moreover have "distinct (map kc_chunk_id chunks)"
    using ids by (auto simp: distinct_conv_nth show_nat_inj)
  moreover have "kc_allowed_roles c = kd_allowed_roles d \<and> kc_document_id c = kd_document_id d \<and>
       kc_provenance_sha256 c = kd_provenance_sha256 d \<and> kc_text c \<noteq> [] \<and>
       kc_embedding c = emb (kc_text c)" if c: "c \<in> set chunks" for c
  proof -
    obtain k where k: "k < length chunks" "c = chunks ! k" using c by (auto simp: in_set_conv_nth)
    have "kc_text c \<in> set (span_texts ?s spans)" using c texts by (metis image_eqI list.set_map)
    then have "kc_text c \<noteq> []" by (auto simp: span_texts_def)
    with nth[OF k(1)] k(2) show ?thesis by (simp add: make_chunk_def)
  qed
  moreover have "chunk_document emb chunk_size overlap d = Some (Inr chunks)"
    using run assms(1-3) by (simp add: chunk_document_def chunks_def)
  moreover have "\<exists>(a, b)\<in>set spans. a \<le> int i \<and> int i < b" if "i < length ?s" for i
    using spans_cover_all[OF sp, of "int i"] that by simp
  ultimately show ?thesis
    using spans_cover_size[OF sp] ids by (intro exI[of _ chunks] exI[of _ spans]) auto
qed

text \<open>Whatever the loop returns, each chunk was made by \<open>make_chunk\<close>.\<close>

lemma chunk_loop_made:
  "chunk_loop mk content sz overlap start index chunks = Some r \<Longrightarrow>
     (\<forall>c\<in>set r. c \<in> set chunks \<or> (\<exists>i t. c = mk i t))"
proof (erule chunk_loop.raw_induct[rotated])
  fix rec :: "(nat \<Rightarrow> string \<Rightarrow> 'c) \<Rightarrow> string \<Rightarrow> int \<Rightarrow> int \<Rightarrow> int \<Rightarrow> nat \<Rightarrow> 'c list \<Rightarrow> 'c list option"
    and mk :: "nat \<Rightarrow> string \<Rightarrow> 'c" and content :: string and sz overlap start :: int
    and index :: nat and chunks r :: "'c list"
  assume 1: "\<And>mk content sz overlap start index chunks r.
      rec mk content sz overlap start index chunks = Some r \<Longrightarrow>
      \<forall>c\<in>set r. c \<in> set chunks \<or> (\<exists>i t. c = mk i t)"
    and 2: "(if start < int (length content)
      then let e = window_end content sz start;
               t = strip (py_slice content start e);
               chunks' = (if t \<noteq> [] then chunks @ [mk index t] else chunks);
               index' = (if t \<noteq> [] then index + 1 else index)
           in if e = int (length content) then Some chunks'
              else rec mk content sz overlap (e - overlap) index' chunks'
      else Some chunks) = Some r"
  show "\<forall>c\<in>set r. c \<in> set chunks \<or> (\<exists>i t. c = mk i t)"
    using 2 by (auto simp: Let_def split: if_splits dest!: 1)
qed

lemma chunk_document_made:
  "chunk_document emb chunk_size overlap d = Some (Inr chunks) \<Longrightarrow>
     \<forall>c\<in>set chunks. \<exists>i t. c = make_chunk emb d i t"
  using chunk_loop_made by (fastforce simp: chunk_document_def split: if_splits)

section \<open>A document on which chunking does not return\<close>

text \<open>From a window that hands its own start to the next round there is no way out.\<close>

lemma chunk_loop_not_stuck:
  "chunk_loop mk content sz overlap start index chunks = Some r \<Longrightarrow>
     \<not> (start < int (length content) \<and> window_end content sz start \<noteq> int (length content) \<and>
        window_end content sz start - overlap = start)"
proof (erule chunk_loop.raw_induct[rotated])
  fix rec :: "(nat \<Rightarrow> string \<Rightarrow> 'c) \<Rightarrow> string \<Rightarrow> int \<Rightarrow> int \<Rightarrow> int \<Rightarrow> nat \<Rightarrow> 'c list \<Rightarrow> 'c list option"
    and mk content sz overlap start index chunks r
  assume 1: "\<And>mk content sz overlap start index chunks r.
      rec mk content sz overlap start index chunks = Some r \<Longrightarrow>
      \<not> (start < int (length content) \<and> window_end content sz start \<noteq> int (length content) \<and>
        window_end content sz start - overlap = start)"
    and 2: "(if start < int (length content)
      then let e = window_end content sz start;
               t = strip (py_slice content start e);
               chunks' = (if t \<noteq> [] then chunks @ [mk index t] else chunks);
               index' = (if t \<noteq> [] then index + 1 else index)
           in if e = int (length content) then Some chunks'
              else rec mk content sz overlap (e - overlap) index' chunks'
      else Some chunks) = Some r"
  show "\<not> (start < int (length content) \<and> window_end content sz start \<noteq> int (length content) \<and>
        window_end content sz start - overlap = start)"
  proof
    assume st: "start < int (length content) \<and> window_end content sz start \<noteq> int (length content) \<and>
        window_end content sz start - overlap = start"
    with 2 have "\<exists>i ch. rec mk content sz overlap start i ch = Some r"
      by (auto simp: Let_def split: if_splits)
    then show False using 1 st by blast
  qed
qed

text \<open>The text \<open>ab\<close>, a space, and a word of 700 letters.\<close>

definition unbroken_text :: string where
  "unbroken_text = ''ab '' @ replicate 700 (CHR ''x'')"

definition unbroken_document :: knowledge_document where
  "unbroken_document =
     \<lparr>kd_document_id = ''POL-PAY-009'', kd_title = ''Reference'', kd_version = ''1.0'',
      kd_classification = ''internal-synthetic'', kd_allowed_roles = {''transactions''},
      kd_content = unbroken_text, kd_provenance_sha256 = replicate 64 (CHR ''0'')\<rparr>"


lemma unbroken_windows:
  "length unbroken_text = 703" "window_end unbroken_text 500 0 = 2"
  "window_end unbroken_text 500 (- 78) = - 1" "window_end unbroken_text 500 (- 81) = - 1"
proof -
  show len: "length unbroken_text = 703" by (simp add: unbroken_text_def)
  have x: "takeWhile (\<lambda>x. x \<noteq> CHR '' '') (replicate n (CHR ''x'') @ CHR '' '' # ys) = replicate n (CHR ''x'')" for n ys
    by (induction n) auto
  have "py_slice unbroken_text 0 500 = ''ab '' @ replicate 497 (CHR ''x'')"
    by (simp add: py_slice_def norm_index_def len) (simp add: unbroken_text_def)
  then have "py_rfind (CHR '' '') unbroken_text 0 500 = 2"
    using x[of 497 "''ba''"] by (simp add: py_rfind_def norm_index_def)
  then show "window_end unbroken_text 500 0 = 2" by (simp add: window_end_def len)
  show "window_end unbroken_text 500 (- 78) = - 1" "window_end unbroken_text 500 (- 81) = - 1"
    by (simp_all add: window_end_def len py_rfind_def py_slice_def norm_index_def)
qed

text \<open>C15: chunking a document that satisfies every declared constraint need not return.  After a
  space near the start of a window and a word that fills the rest of it, the next start is
  \<open>end - overlap < 0\<close>; \<open>rfind\<close> then answers -1, which is greater than the start, so the end becomes
  -1 and the start -81 in every further round, and the list of chunks grows for ever.\<close>

theorem chunk_document_diverges:
  "document_valid unbroken_document \<and> chunk_document emb 500 80 unbroken_document = None"
proof
  have "full_match document_id_pattern ''POL-PAY-009''" "full_match version_pattern ''1.0''"
    by (simp_all add: full_match_def document_id_pattern_def version_pattern_def many_bound_def
        is_upper_az_def is_digit_def code_def)
  moreover have "full_match sha256_pattern (replicate 64 (CHR ''0''))"
    by (simp add: sha256_pattern_def full_match_Many hex_char_def is_digit_def code_def
        list_all_iff)
  ultimately show "document_valid unbroken_document"
    by (simp add: document_valid_def unbroken_document_def unbroken_text_def classifications_def)
  let ?mk = "make_chunk emb unbroken_document"
  have stuck: "chunk_loop ?mk unbroken_text 500 80 (- 81) index chunks = None" for index chunks
  proof (rule ccontr)
    assume "chunk_loop ?mk unbroken_text 500 80 (- 81) index chunks \<noteq> None"
    then obtain r where "chunk_loop ?mk unbroken_text 500 80 (- 81) index chunks = Some r" by blast
    from chunk_loop_not_stuck[OF this] show False by (simp add: unbroken_windows)
  qed
  have "chunk_loop ?mk unbroken_text 500 80 (- 78) index chunks = None" for index chunks
    by (subst chunk_loop.simps) (simp add: Let_def unbroken_windows stuck)
  then have "chunk_loop ?mk unbroken_text 500 80 0 1 [] = None"
    by (subst chunk_loop.simps) (simp add: Let_def unbroken_windows)
  then show "chunk_document emb 500 80 unbroken_document = None"
    by (simp add: chunk_document_def unbroken_document_def)
qed

text \<open>A text that is chunked, for the witness: words of nine letters.\<close>

definition spaced_document :: knowledge_document where
  "spaced_document = unbroken_document\<lparr>kd_content := ''Refunds above the limit need an officer.''\<rparr>"

lemma spaced_short: "length s < n \<Longrightarrow> spaced n s"
  by (simp add: spaced_def)

theorem chunk_document_covers_witness:
  "\<exists>chunks. chunk_document (\<lambda>_. []) 500 80 spaced_document = Some (Inr chunks) \<and>
     distinct (map kc_chunk_id chunks) \<and> (\<forall>c\<in>set chunks. kc_allowed_roles c = {''transactions''})"
proof -
  have "spaced (nat (500 - 80 - 1)) (kd_content spaced_document)" "kd_content spaced_document \<noteq> []"
    "kd_allowed_roles spaced_document = {''transactions''}"
    by (simp_all add: spaced_document_def unbroken_document_def spaced_short)
  note facts = this
  have "100 \<le> (500 :: int)" "0 \<le> (80 :: int)" "(80 :: int) < 500" by simp_all
  from chunk_document_covers[OF this facts(1,2), of "\<lambda>_. []"]
  show ?thesis unfolding facts(3) by (elim exE conjE) (intro exI conjI, assumption+, simp)
qed

end
