(* ===== verification/Retrieval.thy ===== *)
theory Retrieval
  imports Chunking Http "HOL-Library.Product_Lexorder"
begin

text \<open>
  Authorized retrieval: the deterministic embedding (rag/embedding.py), the \<open>VectorIndex\<close> contract
  and its local implementation (rag/index.py), and the retriever that every caller goes through
  (rag/retrieval.py).

  \<open>digest\<close> is \<open>sha256(token.encode()).digest()\<close> as a list of byte values, \<open>round6\<close> is rounding to
  six decimals.  The contract is the locale \<open>vector_index\<close>; what the retriever guarantees is proved
  there once, for every backend.
\<close>

section \<open>Embedding\<close>

definition token_char :: "char \<Rightarrow> bool" where
  "token_char c \<longleftrightarrow> is_lower_az c \<or> is_digit c"

definition tokens_of :: "string \<Rightarrow> string list" where
  "tokens_of text = runs token_char (casefold text)"

definition big_endian :: "nat list \<Rightarrow> nat" where
  "big_endian bs = foldl (\<lambda>a b. 256 * a + b) 0 bs"

definition add_token :: "(string \<Rightarrow> nat list) \<Rightarrow> nat \<Rightarrow> string \<Rightarrow> real list \<Rightarrow> real list" where
  "add_token digest dims token vector =
     (let d = digest token; i = big_endian (take 4 d) mod dims;
          sign = (if d ! 4 mod 2 = 0 then 1 else - 1)
      in vector[i := vector ! i + sign])"

definition sum_squares :: "real list \<Rightarrow> real" where
  "sum_squares v = sum_list (map (\<lambda>x. x * x) v)"

definition embed_text :: "(string \<Rightarrow> nat list) \<Rightarrow> nat \<Rightarrow> string \<Rightarrow> real list" where
  "embed_text digest dims text =
     (let vector = fold (add_token digest dims) (tokens_of text) (replicate dims 0);
          magnitude = sqrt (sum_squares vector)
      in if magnitude = 0 then vector else map (\<lambda>x. x / magnitude) vector)"

definition new_local_hash_embedding :: "(string \<Rightarrow> nat list) \<Rightarrow> int \<Rightarrow> exn + (string \<Rightarrow> real list)" where
  "new_local_hash_embedding digest dimensions =
     (if dimensions < 32 then Inl (ValueError ''Embedding dimensions must be at least 32'')
      else Inr (embed_text digest (nat dimensions)))"

section \<open>The local index\<close>

type_synonym local_index = "(string \<times> knowledge_chunk) list"

fun index_add :: "knowledge_chunk list \<Rightarrow> local_index \<Rightarrow> (exn + unit) \<times> local_index" where
  "index_add [] idx = (Inr (), idx)"
| "index_add (c # cs) idx =
     (if kc_chunk_id c \<in> set (map fst idx)
      then (Inl (ValueError (''Duplicate knowledge chunk: '' @ kc_chunk_id c)), idx)
      else index_add cs (AList.update (kc_chunk_id c) c idx))"

definition similarity :: "real list \<Rightarrow> real list \<Rightarrow> exn + real" where
  "similarity left right =
     (if length left \<noteq> length right then Inl (ValueError ''Embedding dimensions do not match'')
      else Inr (sum_list (map2 (*) left right)))"

definition score_chunk :: "real list \<Rightarrow> knowledge_chunk \<Rightarrow> exn + real \<times> knowledge_chunk" where
  "score_chunk q c =
     (case similarity q (kc_embedding c) of Inl e \<Rightarrow> Inl e | Inr s \<Rightarrow> Inr (s, c))"

text \<open>\<open>xs[:limit]\<close>.\<close>

definition py_take :: "int \<Rightarrow> 'a list \<Rightarrow> 'a list" where
  "py_take limit xs = (if limit < 0 then take (length xs - nat (- limit)) xs else take (nat limit) xs)"

definition rank_key :: "real \<times> knowledge_chunk \<Rightarrow> real \<times> string" where
  "rank_key h = (- fst h, kc_chunk_id (snd h))"

definition local_search ::
  "local_index \<Rightarrow> string \<Rightarrow> real list \<Rightarrow> string set \<Rightarrow> int \<Rightarrow> exn + (real \<times> knowledge_chunk) list" where
  "local_search idx query query_embedding caller_roles limit =
     (case map_outcome (score_chunk query_embedding)
             (filter (\<lambda>c. kc_allowed_roles c \<subseteq> caller_roles) (map snd idx)) of
        Inl e \<Rightarrow> Inl e
      | Inr candidates \<Rightarrow>
          Inr (py_take limit (filter (\<lambda>h. 0 < fst h) (sort_key rank_key candidates))))"

section \<open>The retriever\<close>

record citation =
  ci_document_id :: string
  ci_chunk_id :: string
  ci_title :: string
  ci_version :: string
  ci_provenance_sha256 :: string

record retrieval_hit =
  rh_text :: string
  rh_score :: real
  rh_citation :: citation

type_synonym retrieval_result = "retrieval_hit list"

definition cite :: "knowledge_chunk \<Rightarrow> citation" where
  "cite c = \<lparr>ci_document_id = field_strip (kc_document_id c), ci_chunk_id = field_strip (kc_chunk_id c),
     ci_title = field_strip (kc_title c), ci_version = field_strip (kc_version c),
     ci_provenance_sha256 = field_strip (kc_provenance_sha256 c)\<rparr>"

definition new_retrieval_hit :: "(real \<Rightarrow> real) \<Rightarrow> real \<times> knowledge_chunk \<Rightarrow> exn + retrieval_hit" where
  "new_retrieval_hit round6 h =
     (let s = round6 (fst h) in
      if -1 \<le> s \<and> s \<le> 1
      then Inr \<lparr>rh_text = field_strip (kc_text (snd h)), rh_score = s, rh_citation = cite (snd h)\<rparr>
      else Inl ValidationError)"

record rag_metrics =
  rm_retrievals :: counter
  rm_hits :: "nat list"

definition retrieve ::
  "(string \<Rightarrow> real list \<Rightarrow> string set \<Rightarrow> int \<Rightarrow> exn + (real \<times> knowledge_chunk) list)
    \<Rightarrow> (string \<Rightarrow> real list) \<Rightarrow> (real \<Rightarrow> real) \<Rightarrow> string \<Rightarrow> string set \<Rightarrow> int \<Rightarrow> rag_metrics
    \<Rightarrow> (exn + retrieval_result) \<times> rag_metrics" where
  "retrieve srch emb round6 query caller_roles limit m =
     (if strip query = [] \<or> 500 < length query
      then (Inl (ValueError ''Retrieval query length is invalid''), m)
      else if limit < 1 \<or> 5 < limit
      then (Inl (ValueError ''Retrieval result limit is invalid''), m)
      else case srch query (emb query) caller_roles limit of
          Inl e \<Rightarrow> (Inl e, m)
        | Inr ranked \<Rightarrow>
            (case map_outcome (new_retrieval_hit round6) ranked of
               Inl e \<Rightarrow> (Inl e, m)
             | Inr hits \<Rightarrow>
                 (Inr hits,
                  m\<lparr>rm_retrievals := inc [if hits \<noteq> [] then ''hit'' else ''empty''] (rm_retrievals m),
                    rm_hits := rm_hits m @ [length hits]\<rparr>)))"

section \<open>The contract of a vector index\<close>

definition unit_or_zero :: "real list \<Rightarrow> bool" where
  "unit_or_zero v \<longleftrightarrow> sum_squares v \<le> 1"

text \<open>What the retriever uses of a chunk: everything but the embedding, which a remote backend does
  not send back.\<close>

definition public_part :: "knowledge_chunk \<Rightarrow> knowledge_chunk" where
  "public_part c = c\<lparr>kc_embedding := []\<rparr>"

locale vector_index =
  fixes srch :: "'idx \<Rightarrow> string \<Rightarrow> real list \<Rightarrow> string set \<Rightarrow> int \<Rightarrow> exn + (real \<times> knowledge_chunk) list"
    and holds :: "'idx \<Rightarrow> knowledge_chunk set"
    and inv :: "'idx \<Rightarrow> bool"
  assumes search_authorized: "inv i \<Longrightarrow> srch i q e roles limit = Inr hits \<Longrightarrow> (s, c) \<in> set hits \<Longrightarrow>
      kc_allowed_roles c \<subseteq> roles"
    and search_holds: "inv i \<Longrightarrow> srch i q e roles limit = Inr hits \<Longrightarrow> (s, c) \<in> set hits \<Longrightarrow>
      \<exists>c0\<in>holds i. public_part c0 = public_part c"
    and search_limit: "inv i \<Longrightarrow> 1 \<le> limit \<Longrightarrow> srch i q e roles limit = Inr hits \<Longrightarrow>
      int (length hits) \<le> limit"
    and search_score: "inv i \<Longrightarrow> unit_or_zero e \<Longrightarrow> srch i q e roles limit = Inr hits \<Longrightarrow>
      (s, c) \<in> set hits \<Longrightarrow> -1 \<le> s \<and> s \<le> 1"
begin

lemma retrieve_authorized:
  assumes "inv i" and "retrieve (srch i) emb round6 q roles limit m = (Inr hits, m')"
    and "h \<in> set hits"
  shows "\<exists>c\<in>holds i. kc_allowed_roles c \<subseteq> roles \<and> rh_text h = field_strip (kc_text c) \<and>
    rh_citation h = cite c"
proof -
  from assms(2) obtain ranked where r: "srch i q (emb q) roles limit = Inr ranked"
    and hits: "map (new_retrieval_hit round6) ranked = map Inr hits"
    by (auto simp: retrieve_def map_outcome_Inr split: if_splits sum.splits)
  from hits assms(3) have "Inr h \<in> new_retrieval_hit round6 ` set ranked"
    by (metis image_eqI list.set_map)
  then obtain s c where sc: "(s, c) \<in> set ranked" "new_retrieval_hit round6 (s, c) = Inr h"
    by auto
  obtain c0 where c0: "c0 \<in> holds i" "public_part c0 = public_part c"
    using search_holds[OF assms(1) r sc(1)] by blast
  then have "kc_allowed_roles c0 = kc_allowed_roles c" "kc_text c0 = kc_text c" "cite c0 = cite c"
    by (cases c0; cases c; simp add: public_part_def cite_def)+
  with sc(2) c0(1) search_authorized[OF assms(1) r sc(1)] show ?thesis
    by (intro bexI[of _ c0]) (auto simp: new_retrieval_hit_def Let_def split: if_splits)
qed

lemma retrieve_bounded:
  assumes "inv i" and "retrieve (srch i) emb round6 q roles limit m = (Inr hits, m')"
  shows "int (length hits) \<le> limit \<and> limit \<le> 5"
proof -
  from assms(2) obtain ranked where r: "srch i q (emb q) roles limit = Inr ranked"
    and hits: "map (new_retrieval_hit round6) ranked = map Inr hits" and lim: "1 \<le> limit" "limit \<le> 5"
    by (auto simp: retrieve_def map_outcome_Inr split: if_splits sum.splits)
  from hits have "length hits = length ranked" by (metis length_map)
  with search_limit[OF assms(1) lim(1) r] lim show ?thesis by simp
qed

text \<open>Building the hits never fails: a failure is the index's own or a bad argument.\<close>

lemma retrieve_total:
  assumes "inv i" and "unit_or_zero (emb q)" and "\<And>x. -1 \<le> x \<Longrightarrow> x \<le> 1 \<Longrightarrow> -1 \<le> round6 x \<and> round6 x \<le> 1"
    and "strip q \<noteq> []" and "length q \<le> 500" and "1 \<le> limit" and "limit \<le> 5"
    and "srch i q (emb q) roles limit = Inr ranked"
  shows "\<exists>hits m'. retrieve (srch i) emb round6 q roles limit m = (Inr hits, m') \<and>
    length hits = length ranked"
proof -
  have "\<exists>h. new_retrieval_hit round6 x = Inr h" if "x \<in> set ranked" for x
  proof -
    have "-1 \<le> fst x \<and> fst x \<le> 1"
      using search_score[OF assms(1,2,8), of "fst x" "snd x"] that by simp
    with assms(3) show ?thesis by (simp add: new_retrieval_hit_def Let_def)
  qed
  then have "map (new_retrieval_hit round6) ranked = map Inr (map (\<lambda>x. projr (new_retrieval_hit round6 x)) ranked)"
    by (auto simp: sum.case_eq_if) (metis sum.sel(2))
  then have "map_outcome (new_retrieval_hit round6) ranked =
      Inr (map (\<lambda>x. projr (new_retrieval_hit round6 x)) ranked)"
    by (simp only: map_outcome_Inr)
  with assms show ?thesis by (simp add: retrieve_def)
qed

end

section \<open>Embeddings have length at most one\<close>

lemma fold_add_token_length [simp]:
  "length (fold (add_token digest dims) ts v) = length v"
  by (induction ts arbitrary: v) (auto simp: add_token_def Let_def)

lemma embed_text_length [simp]: "length (embed_text digest dims t) = dims"
  by (simp add: embed_text_def Let_def)

lemma sum_squares_nonneg: "0 \<le> sum_squares v"
  unfolding sum_squares_def by (induction v) auto

lemma sum_squares_div: "sum_squares (map (\<lambda>x. x / m) v) = sum_squares v / (m * m)"
  unfolding sum_squares_def by (induction v) (auto simp: add_divide_distrib)

lemma embed_text_unit: "unit_or_zero (embed_text digest dims t)"
proof -
  define v where "v = fold (add_token digest dims) (tokens_of t) (replicate dims 0)"
  show ?thesis
  proof (cases "sum_squares v = 0")
    case True
    then show ?thesis by (simp add: unit_or_zero_def embed_text_def Let_def v_def[symmetric])
  next
    case False
    then have "sum_squares (map (\<lambda>x. x / sqrt (sum_squares v)) v) = 1"
      using sum_squares_nonneg[of v] by (simp add: sum_squares_div)
    with False show ?thesis by (simp add: unit_or_zero_def embed_text_def Let_def v_def[symmetric])
  qed
qed

text \<open>The dot product of two vectors of length at most one lies in [-1, 1].\<close>

lemma dot_bound:
  assumes "length a = length b"
  shows "\<bar>sum_list (map2 (*) a b)\<bar> \<le> (sum_squares a + sum_squares b) / 2"
  using assms
proof (induction a b rule: list_induct2)
  case Nil
  then show ?case by (simp add: sum_squares_def)
next
  case (Cons x xs y ys)
  have "\<bar>x * y\<bar> \<le> (x * x + y * y) / 2"
    using sum_squares_bound[of "\<bar>x\<bar>" "\<bar>y\<bar>"] by (simp add: abs_mult power2_eq_square)
  with Cons.IH show ?case by (simp add: sum_squares_def) (smt (verit) field_sum_of_halves)
qed

lemma similarity_bound:
  assumes "similarity a b = Inr s" and "unit_or_zero a" and "unit_or_zero b"
  shows "-1 \<le> s \<and> s \<le> 1"
proof -
  from assms(1) have "length a = length b" "s = sum_list (map2 (*) a b)"
    by (auto simp: similarity_def split: if_splits)
  with dot_bound[of a b] assms(2,3) show ?thesis by (auto simp: unit_or_zero_def)
qed

section \<open>The local index implements the contract\<close>

definition index_chunks :: "local_index \<Rightarrow> knowledge_chunk set" where
  "index_chunks idx = snd ` set idx"

definition index_inv :: "local_index \<Rightarrow> bool" where
  "index_inv idx \<longleftrightarrow> distinct (map fst idx) \<and> (\<forall>(k, c)\<in>set idx. kc_chunk_id c = k) \<and>
     (\<forall>c\<in>index_chunks idx. unit_or_zero (kc_embedding c))"

lemma local_search_Inr:
  "local_search idx q e roles limit = Inr hits \<longleftrightarrow>
     (\<exists>candidates. map (score_chunk e) (filter (\<lambda>c. kc_allowed_roles c \<subseteq> roles) (map snd idx)) =
        map Inr candidates \<and>
      hits = py_take limit (filter (\<lambda>h. 0 < fst h) (sort_key rank_key candidates)))"
  by (auto simp: local_search_def map_outcome_Inr[symmetric] split: sum.splits)

lemma set_py_take: "x \<in> set (py_take n xs) \<Longrightarrow> x \<in> set xs"
  by (auto simp: py_take_def dest: in_set_takeD split: if_splits)

lemma local_search_hit:
  assumes "local_search idx q e roles limit = Inr hits" and "(s, c) \<in> set hits"
  shows "c \<in> index_chunks idx \<and> kc_allowed_roles c \<subseteq> roles \<and> similarity e (kc_embedding c) = Inr s \<and> 0 < s"
proof -
  obtain candidates where cand: "map (score_chunk e) (filter (\<lambda>c. kc_allowed_roles c \<subseteq> roles) (map snd idx)) =
      map Inr candidates"
    and hits: "hits = py_take limit (filter (\<lambda>h. 0 < fst h) (sort_key rank_key candidates))"
    using assms(1) unfolding local_search_Inr by blast
  from assms(2) have sc: "(s, c) \<in> set candidates" "0 < s"
    by (auto simp: hits dest!: set_py_take)
  then have "Inr (s, c) \<in> score_chunk e ` set (filter (\<lambda>c. kc_allowed_roles c \<subseteq> roles) (map snd idx))"
    using cand by (metis image_eqI list.set_map)
  then obtain c' where "c' \<in> set (filter (\<lambda>c. kc_allowed_roles c \<subseteq> roles) (map snd idx))"
    "Inr (s, c) = score_chunk e c'"
    by (rule imageE)
  with sc show ?thesis by (auto simp: score_chunk_def index_chunks_def split: sum.splits)
qed

interpretation local_index: vector_index local_search index_chunks index_inv
proof (unfold_locales, goal_cases)
  case (1 i q e roles limit hits s c)
  then show ?case using local_search_hit by blast
next
  case (2 i q e roles limit hits s c)
  then show ?case using local_search_hit by blast
next
  case (3 i limit q e roles hits)
  then show ?case by (auto simp: local_search_Inr py_take_def)
next
  case (4 i e q roles limit hits s c)
  with local_search_hit[OF 4(3,4)] similarity_bound show ?case by (auto simp: index_inv_def)
qed

lemma index_add_inv:
  assumes "index_inv idx" and "\<forall>c\<in>set cs. unit_or_zero (kc_embedding c)"
    and "index_add cs idx = (r, idx')"
  shows "index_inv idx' \<and> index_chunks idx \<subseteq> index_chunks idx' \<and>
    index_chunks idx' \<subseteq> index_chunks idx \<union> set cs \<and>
    (is_ok r \<longrightarrow> index_chunks idx' = index_chunks idx \<union> set cs)"
  using assms
proof (induction cs arbitrary: idx)
  case Nil
  then show ?case by auto
next
  case (Cons c cs)
  show ?case
  proof (cases "kc_chunk_id c \<in> set (map fst idx)")
    case True
    with Cons.prems show ?thesis by auto
  next
    case False
    then have upd: "AList.update (kc_chunk_id c) c idx = idx @ [(kc_chunk_id c, c)]"
      by (intro set_update_fresh) auto
    have "index_inv (idx @ [(kc_chunk_id c, c)])"
      using Cons.prems False by (auto simp: index_inv_def index_chunks_def)
    from Cons.IH[OF this] Cons.prems False upd show ?thesis
      by (auto simp: index_chunks_def)
  qed
qed

section \<open>Properties of local retrieval\<close>

text \<open>The result depends on the authorized chunks only.\<close>

lemma local_search_authorized_only:
  "local_search idx q e roles limit =
     local_search (filter (\<lambda>(k, c). kc_allowed_roles c \<subseteq> roles) idx) q e roles limit"
proof -
  have "filter (\<lambda>c. kc_allowed_roles c \<subseteq> roles) (map snd (filter (\<lambda>(k, c). kc_allowed_roles c \<subseteq> roles) idx)) =
      filter (\<lambda>c. kc_allowed_roles c \<subseteq> roles) (map snd idx)"
    by (induction idx) auto
  then show ?thesis by (simp add: local_search_def)
qed

text \<open>C16: a chunk reaches a caller only if the caller holds every role the chunk declares, and the
  answer (hits, scores, citations, errors and metrics) is the same for any two knowledge bases that
  agree on the chunks the caller may see: what it may not see it cannot learn of either.\<close>

theorem retrieval_confined:
  assumes "index_inv idx" and "index_inv idx'"
    and "filter (\<lambda>(k, c). kc_allowed_roles c \<subseteq> roles) idx = filter (\<lambda>(k, c). kc_allowed_roles c \<subseteq> roles) idx'"
  shows "retrieve (local_search idx) emb round6 q roles limit m =
      retrieve (local_search idx') emb round6 q roles limit m \<and>
    (case retrieve (local_search idx) emb round6 q roles limit m of
       (Inl _, _) \<Rightarrow> True
     | (Inr hits, _) \<Rightarrow> int (length hits) \<le> limit \<and>
         (\<forall>h\<in>set hits. \<exists>c\<in>index_chunks idx. kc_allowed_roles c \<subseteq> roles \<and>
            rh_text h = field_strip (kc_text c) \<and> rh_citation h = cite c))"
proof -
  have "local_search idx q e roles limit = local_search idx' q e roles limit" for e
    using local_search_authorized_only[of idx] local_search_authorized_only[of idx'] assms(3) by metis
  then have "retrieve (local_search idx) emb round6 q roles limit m =
      retrieve (local_search idx') emb round6 q roles limit m"
    by (simp add: retrieve_def)
  then show ?thesis
    using local_index.retrieve_authorized[OF assms(1)] local_index.retrieve_bounded[OF assms(1)]
    by (auto split: prod.splits sum.splits)
qed

text \<open>A small knowledge base for the witnesses, with a digest that tells three words apart.\<close>

definition sample_digest :: "string \<Rightarrow> nat list" where
  "sample_digest token =
     (if token = ''refund'' then [0, 0, 0, 1, 0] else if token = ''dispute'' then [0, 0, 0, 2, 0]
      else [0, 0, 0, 3, 1])"

definition sample_chunk :: "string \<Rightarrow> string \<Rightarrow> string \<Rightarrow> knowledge_chunk" where
  "sample_chunk i role t =
     \<lparr>kc_chunk_id = i, kc_document_id = ''POL-REF-002'', kc_title = ''Refunds'', kc_version = ''1.0'',
      kc_classification = ''internal-synthetic'', kc_allowed_roles = {role}, kc_text = t,
      kc_provenance_sha256 = replicate 64 (CHR ''0''), kc_embedding = embed_text sample_digest 32 t\<rparr>"

definition sample_index :: local_index where
  "sample_index =
     [(''A#chunk-1'', sample_chunk ''A#chunk-1'' ''transactions'' ''refund''),
      (''B#chunk-1'', sample_chunk ''B#chunk-1'' ''complaints'' ''refund dispute'')]"

lemma sample_index_inv: "index_inv sample_index" "index_inv (take 1 sample_index)"
  by (simp_all add: index_inv_def sample_index_def index_chunks_def sample_chunk_def embed_text_unit)

theorem retrieval_confined_witness:
  "retrieve (local_search sample_index) (embed_text sample_digest 32) id ''refund'' {''transactions''} 3
     \<lparr>rm_retrievals = (\<lambda>_. 0), rm_hits = []\<rparr> =
   retrieve (local_search (take 1 sample_index)) (embed_text sample_digest 32) id ''refund''
     {''transactions''} 3 \<lparr>rm_retrievals = (\<lambda>_. 0), rm_hits = []\<rparr>"
proof -
  have "filter (\<lambda>(k, c). kc_allowed_roles c \<subseteq> {''transactions''}) sample_index =
      filter (\<lambda>(k, c). kc_allowed_roles c \<subseteq> {''transactions''}) (take 1 sample_index)"
    by (simp add: sample_index_def sample_chunk_def)
  from retrieval_confined[OF sample_index_inv this] show ?thesis by blast
qed

end
