(* ===== verification/Groundedness.thy ===== *)
theory Groundedness
  imports Retrieval
begin

text \<open>
  The deterministic groundedness evaluation of answers (rag/groundedness.py): citations in brackets,
  fabricated citations, term overlap with the evidence.  \<open>round4\<close> is rounding to four decimals.
\<close>

definition stopwords :: "string list" where
  "stopwords =
     [''the'', ''a'', ''an'', ''and'', ''or'', ''of'', ''to'', ''in'', ''on'', ''for'', ''is'', ''are'',
      ''was'', ''were'', ''be'', ''this'', ''that'', ''it'', ''as'', ''by'', ''with'', ''at'', ''from'',
      ''not'', ''does'', ''do'', ''did'', ''if'', ''so'', ''must'', ''may'']"

definition cite_char :: "char \<Rightarrow> bool" where
  "cite_char c \<longleftrightarrow> is_upper_az c \<or> is_lower_az c \<or> is_digit c \<or> c = CHR ''-''"

definition citation_pattern :: regex where
  "citation_pattern =
     Cat (Lit ''['') (Cat (Many cite_char 1 None) (Cat (Lit ''#chunk-'')
       (Cat (Many is_digit 1 None) (Lit '']''))))"

text \<open>\<open>findall\<close> of a pattern with one group returns the group, here the match without its brackets.\<close>

definition citations_in :: "string \<Rightarrow> string list" where
  "citations_in answer = map (\<lambda>m. butlast (tl m)) (find_all citation_pattern answer)"

definition significant_terms :: "string \<Rightarrow> string list" where
  "significant_terms text =
     remdups (filter (\<lambda>t. 2 < length t \<and> t \<notin> set stopwords) (tokens_of text))"

record groundedness_report =
  gr_term_overlap_score :: real
  gr_citations_found :: "string list"
  gr_fabricated_citations :: "string list"
  gr_is_grounded :: bool

definition new_groundedness_evaluator :: "real \<Rightarrow> exn + real" where
  "new_groundedness_evaluator minimum_term_overlap =
     (if \<not> (0 \<le> minimum_term_overlap \<and> minimum_term_overlap \<le> 1)
      then Inl (ValueError ''minimum_term_overlap must be between 0 and 1'')
      else Inr minimum_term_overlap)"

definition term_overlap :: "(real \<Rightarrow> real) \<Rightarrow> string list \<Rightarrow> string list \<Rightarrow> real" where
  "term_overlap round4 answer_terms evidence_terms =
     (if answer_terms \<noteq> []
      then round4 (real (length (filter (\<lambda>t. t \<in> set evidence_terms) answer_terms))
                     / real (length answer_terms))
      else 0)"

definition evaluate_groundedness ::
  "(real \<Rightarrow> real) \<Rightarrow> real \<Rightarrow> string \<Rightarrow> retrieval_result \<Rightarrow> exn + groundedness_report" where
  "evaluate_groundedness round4 minimum_term_overlap answer evidence =
     (let known_chunk_ids = map (\<lambda>h. ci_chunk_id (rh_citation h)) evidence;
          cited = sorted_set (citations_in answer);
          fabricated = sort (filter (\<lambda>c. c \<notin> set known_chunk_ids) cited);
          prose = sub_empty citation_pattern answer;
          answer_terms = significant_terms prose;
          evidence_terms = concat (map (\<lambda>h. significant_terms (rh_text h)) evidence);
          score = term_overlap round4 answer_terms evidence_terms;
          is_grounded = (minimum_term_overlap \<le> score \<and> cited \<noteq> [] \<and> fabricated = [])
      in if 0 \<le> score \<and> score \<le> 1
         then Inr \<lparr>gr_term_overlap_score = score, gr_citations_found = cited,
                   gr_fabricated_citations = fabricated, gr_is_grounded = is_grounded\<rparr>
         else Inl ValidationError)"

section \<open>Matches are pieces of the text\<close>

lemma span_text_advances: "advances p u q \<Longrightarrow> span_text p q = u"
  by (simp add: advances_def span_text_def)

lemma scan_contains: "m \<in> set (fst (scan r b a)) \<Longrightarrow> contains m a"
proof (induction r b a rule: scan.induct)
  case (1 r b)
  then show ?case by simp
next
  case (2 r b c cs)
  show ?case
  proof (cases "rmatch r (b, c # cs)")
    case Nil
    with 2 show ?thesis by (auto simp: Let_def split: prod.splits)
  next
    case (Cons q qs)
    obtain b' a' where q: "q = (b', a')" by (cases q)
    obtain u where u: "advances (b, c # cs) u (b', a')"
      using rmatch_advances[of q r "(b, c # cs)"] Cons q by auto
    then have whole: "c # cs = u @ a'" by (simp add: advances_def)
    show ?thesis
    proof (cases "length a' < Suc (length cs)")
      case True
      with "2.prems" Cons q consider "m = span_text (b, c # cs) (b', a')" | "m \<in> set (fst (scan r b' a'))"
        by (auto simp: Let_def split: prod.splits)
      then show ?thesis
      proof cases
        case 1
        then have "c # cs = [] @ m @ a'" using whole span_text_advances[OF u] by simp
        then show ?thesis unfolding contains_iff by blast
      next
        case 2
        then have "contains m a'" using "2.IH"(2)[OF Cons q[symmetric]] True by blast
        then obtain x y where "a' = x @ m @ y" unfolding contains_iff by blast
        then have "c # cs = (u @ x) @ m @ y" using whole by simp
        then show ?thesis unfolding contains_iff by blast
      qed
    next
      case False
      with "2.prems" Cons q have "m \<in> set (fst (scan r (c # b) cs))"
        by (auto simp: Let_def split: prod.splits)
      with "2.IH"(3)[OF Cons q[symmetric]] False show ?thesis by simp
    qed
  qed
qed

text \<open>A match of the citation pattern is an identifier in brackets.\<close>

lemma scan_match: "m \<in> set (fst (scan r b a)) \<Longrightarrow> \<exists>p q. q \<in> set (rmatch r p) \<and> m = span_text p q"
proof (induction r b a rule: scan.induct)
  case (1 r b)
  then show ?case by simp
next
  case (2 r b c cs)
  show ?case
  proof (cases "rmatch r (b, c # cs)")
    case Nil
    with 2 show ?thesis by (auto simp: Let_def split: prod.splits)
  next
    case (Cons q qs)
    obtain b' a' where q: "q = (b', a')" by (cases q)
    have here: "q \<in> set (rmatch r (b, c # cs))" using Cons by simp
    show ?thesis
    proof (cases "length a' < Suc (length cs)")
      case True
      with "2.prems" Cons q consider "m = span_text (b, c # cs) q" | "m \<in> set (fst (scan r b' a'))"
        by (auto simp: Let_def split: prod.splits)
      then show ?thesis
        using here "2.IH"(2)[OF Cons q[symmetric] True] by cases blast+
    next
      case False
      with "2.prems" Cons q have "m \<in> set (fst (scan r (c # b) cs))"
        by (auto simp: Let_def split: prod.splits)
      with "2.IH"(3)[OF Cons q[symmetric] False] show ?thesis by blast
    qed
  qed
qed

text \<open>What a citation is: letters, digits and hyphens, the word that marks a chunk, and its number.\<close>

definition is_citation :: "string \<Rightarrow> bool" where
  "is_citation c \<longleftrightarrow>
     (\<exists>d n. c = d @ ''#chunk-'' @ n \<and> d \<noteq> [] \<and> list_all cite_char d \<and> n \<noteq> [] \<and> list_all is_digit n)"

definition bracketed_citation :: "string \<Rightarrow> bool" where
  "bracketed_citation u \<longleftrightarrow> (\<exists>c. is_citation c \<and> u = ''['' @ c @ '']'')"

lemma reads_frame:
  assumes "reads p D" and "reads q N"
  shows "reads (Cat (Lit l) (Cat p (Cat (Lit m) (Cat q (Lit r))))) (\<lambda>u. \<exists>d n. D d \<and> N n \<and> u = l @ (d @ m @ n) @ r)"
proof -
  have eq: "(\<lambda>w. \<exists>u v. w = u @ v \<and> l = u \<and> (\<exists>u' v'. v = u' @ v' \<and> D u' \<and> (\<exists>u v. v' = u @ v \<and> m = u \<and>
      (\<exists>u v'. v = u @ v' \<and> N u \<and> r = v')))) = (\<lambda>u. \<exists>d n. D d \<and> N n \<and> u = l @ (d @ m @ n) @ r)"
    (is "?L = ?R")
  proof (rule ext, rule iffI)
    show "?R u" if "?L u" for u
      using that by (elim exE conjE) (intro exI conjI, assumption, assumption, simp)
    show "?L u" if "?R u" for u
    proof -
      from that obtain d n where d: "D d" "N n" "u = l @ d @ m @ n @ r" by auto
      have "\<exists>u v'. n @ r = u @ v' \<and> N u \<and> r = v'" using d(2) by blast
      then have "\<exists>u v. m @ n @ r = u @ v \<and> m = u \<and> (\<exists>u v'. v = u @ v' \<and> N u \<and> r = v')" by blast
      with d(1) have "\<exists>u' v'. d @ m @ n @ r = u' @ v' \<and> D u' \<and> (\<exists>u v. v' = u @ v \<and> m = u \<and>
          (\<exists>u v'. v = u @ v' \<and> N u \<and> r = v'))" by blast
      with d(3) show ?thesis by blast
    qed
  qed
  from reads_Cat[OF reads_Lit[of l] reads_Cat[OF assms(1) reads_Cat[OF reads_Lit[of m] reads_Cat[OF assms(2) reads_Lit[of r]]]]]
  show ?thesis unfolding eq .
qed

lemma reads_plus: "reads (Many P 1 None) (\<lambda>u. u \<noteq> [] \<and> list_all P u)"
proof -
  have "(\<lambda>u. list_all P u \<and> 1 \<le> length u \<and> (case None of None \<Rightarrow> True | Some k \<Rightarrow> length u \<le> k)) = (\<lambda>u. u \<noteq> [] \<and> list_all P u)"
    by (rule ext) (simp add: Suc_le_eq conj_commute)
  with reads_Many[of P 1 None] show ?thesis by simp
qed

lemma reads_citation: "reads citation_pattern bracketed_citation"
proof -
  have eq: "bracketed_citation =
      (\<lambda>u. \<exists>d n. (d \<noteq> [] \<and> list_all cite_char d) \<and> (n \<noteq> [] \<and> list_all is_digit n) \<and> u = ''['' @ (d @ ''#chunk-'' @ n) @ '']'')"
    by (rule ext, unfold bracketed_citation_def is_citation_def) blast
  show ?thesis
    unfolding eq citation_pattern_def by (rule reads_frame[OF reads_plus reads_plus])
qed

lemma citation_ends:
  assumes "bracketed_citation u"
  shows "\<exists>w. u = CHR ''['' # w @ '']'' \<and> CHR ''['' \<notin> set w \<and> CHR '']'' \<notin> set w"
proof -
  obtain d n where u: "u = ''['' @ (d @ ''#chunk-'' @ n) @ '']''" "list_all cite_char d" "list_all is_digit n"
    using assms unfolding bracketed_citation_def is_citation_def by blast
  have "\<not> cite_char (CHR ''['')" "\<not> cite_char (CHR '']'')" "\<not> is_digit (CHR ''['')" "\<not> is_digit (CHR '']'')"
    by code_simp+
  with u(2,3) have "CHR ''['' \<notin> set (d @ ''#chunk-'' @ n)" "CHR '']'' \<notin> set (d @ ''#chunk-'' @ n)"
    by (auto simp: list_all_iff)
  with u(1) show ?thesis by (intro exI[of _ "d @ ''#chunk-'' @ n"]) simp
qed

lemma first_occurrence: "z \<notin> set a \<Longrightarrow> z \<notin> set b \<Longrightarrow> a @ z # c = b @ z # d \<Longrightarrow> a = b"
proof (induction a arbitrary: b)
  case Nil
  then show ?case by (cases b) auto
next
  case (Cons x a)
  then show ?case by (cases b) auto
qed

lemma citation_prefix:
  assumes "bracketed_citation u" and "bracketed_citation w" and "u @ x = w @ y"
  shows "u = w"
proof -
  obtain u' w' where u: "u = CHR ''['' # u' @ '']''" "CHR '']'' \<notin> set u'"
    and w: "w = CHR ''['' # w' @ '']''" "CHR '']'' \<notin> set w'"
    using citation_ends assms(1,2) by meson
  with assms(3) have "u' @ CHR '']'' # x = w' @ CHR '']'' # y" by simp
  with u(2) w(2) have "u' = w'" by (rule first_occurrence)
  with u w show ?thesis by simp
qed

text \<open>No citation begins inside another, so a scan finds every one there is.\<close>

lemma scan_finds:
  "a = pre @ w @ post \<Longrightarrow> bracketed_citation w \<Longrightarrow> w \<in> set (fst (scan citation_pattern b a))"
proof (induction citation_pattern b a arbitrary: pre rule: scan.induct)
  case (1 b)
  then show ?case by (auto simp: bracketed_citation_def)
next
  case (2 b c cs)
  show ?case
  proof (cases "rmatch citation_pattern (b, c # cs)")
    case Nil
    have "pre \<noteq> []"
    proof
      assume "pre = []"
      with "2.prems" have "advances (b, c # cs) w (rev w @ b, post)" by (simp add: advances_def)
      with reads_citation "2.prems"(2) Nil show False unfolding reads_def by (metis empty_iff list.set(1))
    qed
    with "2.prems" obtain pre' where "cs = pre' @ w @ post" by (cases pre) auto
    from "2.hyps"(1)[OF Nil this "2.prems"(2)] Nil show ?thesis by (simp add: split_beta)
  next
    case (Cons q qs)
    obtain b' a' where q: "q = (b', a')" by (cases q)
    have "q \<in> set (rmatch citation_pattern (b, c # cs))" using Cons by simp
    then obtain u where u: "advances (b, c # cs) u q" "bracketed_citation u"
      using reads_citation unfolding reads_def by blast
    then have whole: "c # cs = u @ a'" by (simp add: advances_def q)
    obtain u' where u': "u = CHR ''['' # u' @ '']''" "CHR ''['' \<notin> set u'" using citation_ends[OF u(2)] by blast
    have short: "length a' < Suc (length cs)"
      using arg_cong[OF whole, of length] u'(1) by simp
    have found: "set (fst (scan citation_pattern b (c # cs))) = insert u (set (fst (scan citation_pattern b' a')))"
      using Cons q short span_text_advances[OF u(1)] by (simp add: split_beta)
    from whole "2.prems"(1) have "u @ a' = pre @ w @ post" by simp
    then obtain x where "u = pre @ x \<and> x @ a' = w @ post \<or> pre = u @ x \<and> a' = x @ w @ post"
      unfolding append_eq_append_conv2 by metis
    then show ?thesis
    proof
      assume x: "u = pre @ x \<and> x @ a' = w @ post"
      obtain w' where w': "w = CHR ''['' # w'" using citation_ends[OF "2.prems"(2)] by blast
      have "pre = [] \<or> x = []"
      proof (rule ccontr)
        assume ne: "\<not> (pre = [] \<or> x = [])"
        then obtain y x' where y: "x = y # x'" by (cases x) auto
        with x w' have "x = CHR ''['' # x'" by simp
        moreover obtain y pre' where "pre = y # pre'" using ne by (cases pre) auto
        ultimately have "u' @ '']'' = pre' @ CHR ''['' # x'" using x u'(1) by simp
        moreover have "CHR ''['' \<in> set (pre' @ CHR ''['' # x')" by simp
        ultimately have "CHR ''['' \<in> set (u' @ '']'')" by (simp only:)
        then have "CHR ''['' \<in> set u'" by simp
        with u'(2) show False by blast
      qed
      then show ?thesis
      proof
        assume "pre = []"
        with whole "2.prems" citation_prefix[OF u(2) "2.prems"(2), of a' post] found show ?thesis by simp
      next
        assume "x = []"
        with x "2.hyps"(2)[OF Cons q[symmetric] short, of "[]"] "2.prems"(2) found show ?thesis by simp
      qed
    next
      assume "pre = u @ x \<and> a' = x @ w @ post"
      with "2.hyps"(2)[OF Cons q[symmetric] short, of x] "2.prems"(2) found show ?thesis by simp
    qed
  qed
qed

lemma citations_in_iff: "c \<in> set (citations_in answer) \<longleftrightarrow> is_citation c \<and> contains (''['' @ c @ '']'') answer"
proof
  assume "c \<in> set (citations_in answer)"
  then obtain m where m: "m \<in> set (find_all citation_pattern answer)" "c = butlast (tl m)"
    by (auto simp: citations_in_def)
  obtain p q where "q \<in> set (rmatch citation_pattern p)" "m = span_text p q"
    using scan_match m(1) unfolding find_all_def by blast
  then have "bracketed_citation m" using reads_citation span_text_advances unfolding reads_def by blast
  then have "is_citation c \<and> m = ''['' @ c @ '']''" using m(2) by (auto simp: bracketed_citation_def butlast_append)
  with scan_contains m(1) show "is_citation c \<and> contains (''['' @ c @ '']'') answer" unfolding find_all_def by blast
next
  assume c: "is_citation c \<and> contains (''['' @ c @ '']'') answer"
  then obtain x y where "answer = x @ (''['' @ c @ '']'') @ y" unfolding contains_iff by blast
  then have "''['' @ c @ '']'' \<in> set (find_all citation_pattern answer)"
    unfolding find_all_def using c by (intro scan_finds) (auto simp: bracketed_citation_def)
  then show "c \<in> set (citations_in answer)" by (force simp: citations_in_def image_iff)
qed

text \<open>The terms of a text, by what they are: runs of small letters and digits of the casefolded text, of more
  than two characters, that are no stopword.\<close>

definition term_in :: "string \<Rightarrow> string \<Rightarrow> bool" where
  "term_in x t \<longleftrightarrow> maximal_run (\<lambda>c. is_lower_az c \<or> is_digit c) t (casefold x) \<and> 2 < length t \<and> t \<notin> set stopwords"

lemma significant_terms_set: "set (significant_terms x) = {t. term_in x t}"
  by (auto simp: significant_terms_def term_in_def tokens_of_def token_char_def[abs_def] runs_iff)

text \<open>The share of the terms \<open>A\<close> that are among \<open>E\<close>.\<close>

definition shared_share :: "string set \<Rightarrow> string set \<Rightarrow> real" where
  "shared_share A E = real (card (A \<inter> E)) / real (card A)"

lemma term_overlap_share:
  assumes "distinct a"
  shows "term_overlap round4 a e = (if set a = {} then 0 else round4 (shared_share (set a) (set e)))"
proof -
  have "card (set a \<inter> set e) = length (filter (\<lambda>t. t \<in> set e) a)"
    using distinct_card[of "filter (\<lambda>t. t \<in> set e) a"] assms by (simp add: Int_def)
  with distinct_card[OF assms] show ?thesis by (simp add: term_overlap_def shared_share_def)
qed

lemma term_overlap_range:
  assumes "\<And>x. 0 \<le> x \<Longrightarrow> x \<le> 1 \<Longrightarrow> 0 \<le> round4 x \<and> round4 x \<le> 1"
  shows "0 \<le> term_overlap round4 a e \<and> term_overlap round4 a e \<le> 1"
proof (cases "a = []")
  case True
  then show ?thesis by (simp add: term_overlap_def)
next
  case False
  have "real (length (filter (\<lambda>t. t \<in> set e) a)) / real (length a) \<le> 1"
    using False length_filter_le[of "\<lambda>t. t \<in> set e" a] by (simp add: divide_le_eq)
  with False assms show ?thesis by (simp add: term_overlap_def)
qed

text \<open>C18: as long as rounding stays within [0, 1], an evaluation never fails, and its report is determined.
  The citations are exactly the identifiers of chunks that stand in brackets in the answer, in order
  and without repetition; the fabricated ones are those that no retrieved chunk has.  The score is the
  rounded share of the terms of the answer, without its citations, that occur in the evidence, and 0
  for an answer without terms.  An answer is grounded exactly when it cites something, fabricates
  nothing and its score reaches the minimum.\<close>

theorem groundedness_sound:
  assumes "\<And>x. 0 \<le> x \<Longrightarrow> x \<le> 1 \<Longrightarrow> 0 \<le> round4 x \<and> round4 x \<le> 1"
  shows "\<exists>report. evaluate_groundedness round4 minimum answer evidence = Inr report \<and>
    sorted (gr_citations_found report) \<and> distinct (gr_citations_found report) \<and>
    set (gr_citations_found report) = {c. is_citation c \<and> contains (''['' @ c @ '']'') answer} \<and>
    sorted (gr_fabricated_citations report) \<and> distinct (gr_fabricated_citations report) \<and>
    set (gr_fabricated_citations report) =
      {c. is_citation c \<and> contains (''['' @ c @ '']'') answer} - (\<lambda>h. ci_chunk_id (rh_citation h)) ` set evidence \<and>
    gr_term_overlap_score report =
      (let A = {t. term_in (sub_empty citation_pattern answer) t}; E = {t. \<exists>h\<in>set evidence. term_in (rh_text h) t}
       in if A = {} then 0 else round4 (shared_share A E)) \<and>
    (gr_is_grounded report \<longleftrightarrow>
       (\<exists>c. is_citation c \<and> contains (''['' @ c @ '']'') answer) \<and>
       {c. is_citation c \<and> contains (''['' @ c @ '']'') answer} \<subseteq> (\<lambda>h. ci_chunk_id (rh_citation h)) ` set evidence \<and>
       minimum \<le> gr_term_overlap_score report)"
proof -
  let ?A = "significant_terms (sub_empty citation_pattern answer)"
  let ?E = "concat (map (\<lambda>h. significant_terms (rh_text h)) evidence)"
  define score where "score = term_overlap round4 ?A ?E"
  have range: "0 \<le> score \<and> score \<le> 1" unfolding score_def using assms by (rule term_overlap_range)
  have "set ?A = {t. term_in (sub_empty citation_pattern answer) t}" "distinct ?A"
    "set ?E = {t. \<exists>h\<in>set evidence. term_in (rh_text h) t}"
    by (auto simp: significant_terms_set) (simp add: significant_terms_def)
  then have score: "score = (let A = {t. term_in (sub_empty citation_pattern answer) t};
      E = {t. \<exists>h\<in>set evidence. term_in (rh_text h) t} in if A = {} then 0 else round4 (shared_share A E))"
    unfolding score_def by (simp only: term_overlap_share Let_def)
  let ?cited = "sorted_set (citations_in answer)"
  let ?fab = "sort (filter (\<lambda>c. c \<notin> set (map (\<lambda>h. ci_chunk_id (rh_citation h)) evidence)) ?cited)"
  have cited: "set ?cited = {c. is_citation c \<and> contains (''['' @ c @ '']'') answer}"
    using citations_in_iff by auto
  have none: "?cited = [] \<longleftrightarrow> set ?cited = {}" "?fab = [] \<longleftrightarrow> set ?fab = {}" by (simp_all only: set_empty)
  have "evaluate_groundedness round4 minimum answer evidence =
      Inr \<lparr>gr_term_overlap_score = score, gr_citations_found = ?cited, gr_fabricated_citations = ?fab,
           gr_is_grounded = (minimum \<le> score \<and> ?cited \<noteq> [] \<and> ?fab = [])\<rparr>"
    using range unfolding evaluate_groundedness_def Let_def score_def by simp
  moreover have "(minimum \<le> score \<and> ?cited \<noteq> [] \<and> ?fab = []) \<longleftrightarrow>
      (\<exists>c. is_citation c \<and> contains (''['' @ c @ '']'') answer) \<and>
      {c. is_citation c \<and> contains (''['' @ c @ '']'') answer} \<subseteq> (\<lambda>h. ci_chunk_id (rh_citation h)) ` set evidence \<and>
      minimum \<le> score"
    unfolding none using cited by auto
  moreover have "set ?fab = {c. is_citation c \<and> contains (''['' @ c @ '']'') answer} -
      (\<lambda>h. ci_chunk_id (rh_citation h)) ` set evidence"
    using cited by auto
  ultimately show ?thesis using cited score by simp
qed

text \<open>An answer with one true citation, three of whose four terms are in the evidence.\<close>

definition sample_answer :: string where
  "sample_answer = ''Refund needs approval [A#chunk-1] today.''"

definition sample_evidence :: retrieval_result where
  "sample_evidence = [\<lparr>rh_text = ''A refund needs the approval of a manager.'', rh_score = 1,
     rh_citation = \<lparr>ci_document_id = ''A'', ci_chunk_id = ''A#chunk-1'', ci_title = ''Refunds'', ci_version = ''1.0'',
       ci_provenance_sha256 = ''0''\<rparr>\<rparr>]"

lemma sample_terms:
  "{t. term_in (sub_empty citation_pattern sample_answer) t} = {''refund'', ''needs'', ''approval'', ''today''}"
  "{t. \<exists>h\<in>set sample_evidence. term_in (rh_text h) t} = {''refund'', ''needs'', ''approval'', ''manager''}"
  "{c. is_citation c \<and> contains (''['' @ c @ '']'') sample_answer} = {''A#chunk-1''}"
proof -
  have "set (significant_terms (sub_empty citation_pattern sample_answer)) = {''refund'', ''needs'', ''approval'', ''today''}"
    by code_simp
  then show "{t. term_in (sub_empty citation_pattern sample_answer) t} = {''refund'', ''needs'', ''approval'', ''today''}"
    by (simp only: significant_terms_set)
  have "{t. \<exists>h\<in>set sample_evidence. term_in (rh_text h) t} = set (concat (map (\<lambda>h. significant_terms (rh_text h)) sample_evidence))"
    by (auto simp: significant_terms_set)
  also have "\<dots> = {''refund'', ''needs'', ''approval'', ''manager''}" by code_simp
  finally show "{t. \<exists>h\<in>set sample_evidence. term_in (rh_text h) t} = {''refund'', ''needs'', ''approval'', ''manager''}" .
  have "set (citations_in sample_answer) = {''A#chunk-1''}" by code_simp
  then show "{c. is_citation c \<and> contains (''['' @ c @ '']'') sample_answer} = {''A#chunk-1''}"
    by (simp only: citations_in_iff[symmetric] Collect_mem_eq)
qed

theorem groundedness_sound_witness:
  "\<exists>report. evaluate_groundedness id (1 / 2) sample_answer sample_evidence = Inr report \<and>
     gr_citations_found report = [''A#chunk-1''] \<and> gr_term_overlap_score report = 3 / 4 \<and> gr_is_grounded report"
proof -
  have "\<exists>report. evaluate_groundedness id (1 / 2) sample_answer sample_evidence = Inr report \<and>
    sorted (gr_citations_found report) \<and> distinct (gr_citations_found report) \<and>
    set (gr_citations_found report) = {c. is_citation c \<and> contains (''['' @ c @ '']'') sample_answer} \<and>
    sorted (gr_fabricated_citations report) \<and> distinct (gr_fabricated_citations report) \<and>
    set (gr_fabricated_citations report) = {c. is_citation c \<and> contains (''['' @ c @ '']'') sample_answer} -
      (\<lambda>h. ci_chunk_id (rh_citation h)) ` set sample_evidence \<and>
    gr_term_overlap_score report =
      (let A = {t. term_in (sub_empty citation_pattern sample_answer) t}; E = {t. \<exists>h\<in>set sample_evidence. term_in (rh_text h) t}
       in if A = {} then 0 else id (shared_share A E)) \<and>
    (gr_is_grounded report \<longleftrightarrow>
       (\<exists>c. is_citation c \<and> contains (''['' @ c @ '']'') sample_answer) \<and>
       {c. is_citation c \<and> contains (''['' @ c @ '']'') sample_answer} \<subseteq> (\<lambda>h. ci_chunk_id (rh_citation h)) ` set sample_evidence \<and>
       1 / 2 \<le> gr_term_overlap_score report)"
    by (rule groundedness_sound) simp_all
  then
  obtain report where r: "evaluate_groundedness id (1 / 2) sample_answer sample_evidence = Inr report"
    "distinct (gr_citations_found report)"
    and set: "set (gr_citations_found report) = {c. is_citation c \<and> contains (''['' @ c @ '']'') sample_answer}"
    and score: "gr_term_overlap_score report =
      (let A = {t. term_in (sub_empty citation_pattern sample_answer) t}; E = {t. \<exists>h\<in>set sample_evidence. term_in (rh_text h) t}
       in if A = {} then 0 else id (shared_share A E))"
    and grounded: "gr_is_grounded report \<longleftrightarrow>
       (\<exists>c. is_citation c \<and> contains (''['' @ c @ '']'') sample_answer) \<and>
       {c. is_citation c \<and> contains (''['' @ c @ '']'') sample_answer} \<subseteq> (\<lambda>h. ci_chunk_id (rh_citation h)) ` set sample_evidence \<and>
       1 / 2 \<le> gr_term_overlap_score report"
    by (elim exE conjE)
  have found: "set (gr_citations_found report) = {''A#chunk-1''}" using set by (simp only: sample_terms)
  then have cites: "gr_citations_found report = [''A#chunk-1'']"
    using r(2) by (cases "gr_citations_found report"; cases "tl (gr_citations_found report)") auto
  have "shared_share {''refund'', ''needs'', ''approval'', ''today''} {''refund'', ''needs'', ''approval'', ''manager''} = 3 / 4"
    by (simp add: shared_share_def)
  then have s: "gr_term_overlap_score report = 3 / 4" using score unfolding sample_terms by simp
  have "(\<lambda>h. ci_chunk_id (rh_citation h)) ` set sample_evidence = {''A#chunk-1''}"
    by (simp add: sample_evidence_def)
  moreover have "\<exists>c. is_citation c \<and> contains (''['' @ c @ '']'') sample_answer"
    using sample_terms(3) by blast
  ultimately have "gr_is_grounded report" unfolding grounded sample_terms s by simp
  with r(1) cites s show ?thesis by blast
qed

end
