(* ===== verification/AzureSearch.thy ===== *)
theory AzureSearch
  imports Retrieval Config
begin

text \<open>
  The Azure AI Search backend (rag/azure\_search.py) behind the same \<open>vector_index\<close> contract, and
  the choice of the backend (rag/factory.py).

  The service is not part of the repository.  \<open>search_service\<close> holds the two calls made to it (a
  hybrid query with a \<open>$filter\<close>, the upload of documents) and \<open>admits f roles\<close>, whether the filter
  text \<open>f\<close> admits a document with these \<open>allowed_roles\<close>.  What the code relies on is
  \<open>service_documented\<close>: the documented meaning of \<open>all(r: not search.in(r, list, delimiter))\<close>, that a
  query returns at most \<open>top\<close> stored documents, each admitted by the filter, and that an upload
  stores nothing but the documents given to it.  The index schema
  (\<open>ensure_index\<close>) and the ingestion script are in \<open>IngestAzure\<close>.  A stored document was uploaded from a
  validated chunk whose texts were stripped then, so that validating it again as a \<open>KnowledgeChunk\<close> changes nothing.
\<close>

section \<open>The filter\<close>

definition role_delimiter :: char where
  "role_delimiter = CHR ''|''"

definition known_chunk_roles :: "string list" where
  "known_chunk_roles = [''transactions'', ''customer'', ''complaints'']"

definition quote :: char where
  "quote = CHR 0x27"

definition search_document_key :: "string \<Rightarrow> string" where
  "search_document_key chunk_id = replace_char (CHR ''#'') ''--'' chunk_id"

definition filter_text :: "string \<Rightarrow> string" where
  "filter_text csv = ''allowed_roles/all(r: not search.in(r, '' @ [quote] @ csv @ [quote] @ '', '' @
     [quote, role_delimiter, quote] @ ''))''"

definition build_role_filter :: "string set \<Rightarrow> exn + string" where
  "build_role_filter caller_roles =
     (if \<exists>role\<in>caller_roles. role_delimiter \<in> set role
      then Inl (ValueError (''Role values must not contain '' @ repr_str [role_delimiter]))
      else
        let missing_roles = sort (map (replace_char quote [quote, quote])
              (filter (\<lambda>r. r \<notin> caller_roles) known_chunk_roles))
        in Inr (filter_text (join [role_delimiter] missing_roles)))"

section \<open>The index\<close>

record azure_document =
  ad_search_key :: string
  ad_chunk_id :: string
  ad_document_id :: string
  ad_title :: string
  ad_version :: string
  ad_classification :: string
  ad_allowed_roles :: "string set"
  ad_text :: string
  ad_provenance_sha256 :: string
  ad_embedding :: "real list"

record search_service =
  sv_admits :: "string \<Rightarrow> string set \<Rightarrow> bool"
  sv_query :: "azure_document list \<Rightarrow> string \<Rightarrow> string \<Rightarrow> real list \<Rightarrow> int
    \<Rightarrow> exn + (real \<times> azure_document) list"
  sv_upload :: "azure_document list \<Rightarrow> azure_document list \<Rightarrow> exn + azure_document list"

record azure_index =
  az_dimensions :: nat
  az_service :: search_service
  az_documents :: "azure_document list"

definition new_azure_index ::
  "search_service \<Rightarrow> azure_document list \<Rightarrow> string \<Rightarrow> string \<Rightarrow> int \<Rightarrow> exn + azure_index" where
  "new_azure_index service docs endpoint index_name embedding_dimensions =
     (if endpoint = [] \<or> index_name = []
      then Inl (ValueError ''Azure AI Search endpoint and index_name are required'')
      else if embedding_dimensions < 32
      then Inl (ValueError ''embedding_dimensions must be at least 32'')
      else Inr \<lparr>az_dimensions = nat embedding_dimensions, az_service = service, az_documents = docs\<rparr>)"

definition azure_document_of :: "knowledge_chunk \<Rightarrow> azure_document" where
  "azure_document_of c =
     \<lparr>ad_search_key = search_document_key (kc_chunk_id c), ad_chunk_id = kc_chunk_id c,
      ad_document_id = kc_document_id c, ad_title = kc_title c, ad_version = kc_version c,
      ad_classification = kc_classification c, ad_allowed_roles = kc_allowed_roles c,
      ad_text = kc_text c, ad_provenance_sha256 = kc_provenance_sha256 c,
      ad_embedding = kc_embedding c\<rparr>"

definition azure_chunk_of :: "azure_document \<Rightarrow> knowledge_chunk" where
  "azure_chunk_of d =
     \<lparr>kc_chunk_id = ad_chunk_id d, kc_document_id = ad_document_id d, kc_title = ad_title d,
      kc_version = ad_version d, kc_classification = ad_classification d,
      kc_allowed_roles = ad_allowed_roles d, kc_text = ad_text d,
      kc_provenance_sha256 = ad_provenance_sha256 d, kc_embedding = []\<rparr>"

text \<open>\<open>add\<close>: the role check runs over all chunks before anything is uploaded.  The dash of the
  message is written as a hyphen; \<open>show_roles\<close> is \<open>sorted(...)\<close> of the unknown roles as a text.\<close>

definition azure_add ::
  "(string set \<Rightarrow> string) \<Rightarrow> knowledge_chunk list \<Rightarrow> azure_index \<Rightarrow> (exn + unit) \<times> azure_index" where
  "azure_add show_roles chunks az =
     (if chunks = [] then (Inr (), az)
      else case List.find (\<lambda>c. \<not> kc_allowed_roles c \<subseteq> set known_chunk_roles) chunks of
          Some c \<Rightarrow>
            (Inl (ValueError (''Chunk '' @ repr_str (kc_chunk_id c) @ '' declares role(s) ''
               @ show_roles (kc_allowed_roles c - set known_chunk_roles)
               @ '' not in azure_search._KNOWN_CHUNK_ROLES. The role-filter query ''
               @ ''correctness depends on this constant covering every role that can ''
               @ ''appear in allowed_roles - add the new role there before ingesting.'')), az)
        | None \<Rightarrow>
            (case sv_upload (az_service az) (az_documents az) (map azure_document_of chunks) of
               Inl e \<Rightarrow> (Inl e, az)
             | Inr docs \<Rightarrow> (Inr (), az\<lparr>az_documents := docs\<rparr>)))"

definition clamp :: "real \<Rightarrow> real" where
  "clamp s = min 1 (max (-1) s)"

definition azure_search ::
  "azure_index \<Rightarrow> string \<Rightarrow> real list \<Rightarrow> string set \<Rightarrow> int \<Rightarrow> exn + (real \<times> knowledge_chunk) list" where
  "azure_search az query query_embedding caller_roles limit =
     (if length query_embedding \<noteq> az_dimensions az
      then Inl (ValueError ''Embedding dimensions do not match'')
      else case build_role_filter caller_roles of
          Inl e \<Rightarrow> Inl e
        | Inr f \<Rightarrow>
            (case sv_query (az_service az) (az_documents az) query f query_embedding limit of
               Inl e \<Rightarrow> Inl e
             | Inr results \<Rightarrow> Inr (map (\<lambda>(s, d). (clamp s, azure_chunk_of d)) results)))"

section \<open>What the service is documented to do\<close>

definition service_documented :: "search_service \<Rightarrow> bool" where
  "service_documented sv \<longleftrightarrow>
     (\<forall>csv roles. quote \<notin> set csv \<longrightarrow>
        (sv_admits sv (filter_text csv) roles \<longleftrightarrow>
           (\<forall>r\<in>roles. r \<notin> set (split_on role_delimiter csv)))) \<and>
     (\<forall>docs q f v n results. sv_query sv docs q f v n = Inr results \<longrightarrow>
        (0 \<le> n \<longrightarrow> int (length results) \<le> n) \<and>
        (\<forall>(s, d)\<in>set results. d \<in> set docs \<and> sv_admits sv f (ad_allowed_roles d))) \<and>
     (\<forall>docs new docs'. sv_upload sv docs new = Inr docs' \<longrightarrow> set docs' \<subseteq> set docs \<union> set new)"

definition azure_inv :: "azure_index \<Rightarrow> bool" where
  "azure_inv az \<longleftrightarrow> service_documented (az_service az) \<and>
     (\<forall>d\<in>set (az_documents az). ad_allowed_roles d \<subseteq> set known_chunk_roles \<and>
        (\<exists>c. d = azure_document_of c))"

definition azure_holds :: "azure_index \<Rightarrow> knowledge_chunk set" where
  "azure_holds az = azure_chunk_of ` set (az_documents az)"

section \<open>The negative filter is the subset check\<close>

lemma service_filter:
  "service_documented sv \<Longrightarrow> quote \<notin> set csv \<Longrightarrow>
     sv_admits sv (filter_text csv) roles \<longleftrightarrow> (\<forall>r\<in>roles. r \<notin> set (split_on role_delimiter csv))"
  unfolding service_documented_def by blast

lemma service_query:
  assumes "service_documented sv" and "sv_query sv docs q f v n = Inr results"
  shows "0 \<le> n \<Longrightarrow> int (length results) \<le> n"
    and "(s, d) \<in> set results \<Longrightarrow> d \<in> set docs \<and> sv_admits sv f (ad_allowed_roles d)"
  using assms unfolding service_documented_def by (blast, fast)

lemma service_upload:
  "service_documented sv \<Longrightarrow> sv_upload sv docs new = Inr docs' \<Longrightarrow> set docs' \<subseteq> set docs \<union> set new"
  unfolding service_documented_def by blast

lemma replace_absent: "d \<notin> set s \<Longrightarrow> replace_char d r s = s"
  by (induction s) (auto simp: replace_char_def)

lemma known_role_plain: "r \<in> set known_chunk_roles \<Longrightarrow> quote \<notin> set r \<and> role_delimiter \<notin> set r \<and> r \<noteq> []"
  by (auto simp: known_chunk_roles_def quote_def role_delimiter_def)

lemma missing_plain:
  "sort (map (replace_char quote [quote, quote]) (filter (\<lambda>r. r \<notin> roles) known_chunk_roles)) =
     sort (filter (\<lambda>r. r \<notin> roles) known_chunk_roles)"
  using known_role_plain replace_absent by (auto intro!: arg_cong[of _ _ sort] map_idI)

lemma set_join: "x \<in> set (join sep ws) \<Longrightarrow> x \<in> set sep \<or> (\<exists>w\<in>set ws. x \<in> set w)"
  by (induction sep ws rule: join.induct) auto

lemma build_role_filter_Inr:
  "build_role_filter roles = Inr f \<longleftrightarrow>
     (\<forall>r\<in>roles. role_delimiter \<notin> set r) \<and>
     f = filter_text (join [role_delimiter] (sort (filter (\<lambda>r. r \<notin> roles) known_chunk_roles)))"
  by (auto simp: build_role_filter_def missing_plain)

lemma split_missing:
  "set (split_on role_delimiter (join [role_delimiter] (sort (filter (\<lambda>r. r \<notin> roles) known_chunk_roles)))) - {[]} =
     set known_chunk_roles - roles"
proof (cases "filter (\<lambda>r. r \<notin> roles) known_chunk_roles = []")
  case True
  then have "set known_chunk_roles - roles = {}" by (auto simp: filter_empty_conv)
  with True show ?thesis by simp
next
  case False
  have "sort (filter (\<lambda>r. r \<notin> roles) known_chunk_roles) \<noteq> []"
    using False by (metis length_0_conv length_sort)
  then have "split_on role_delimiter (join [role_delimiter] (sort (filter (\<lambda>r. r \<notin> roles) known_chunk_roles))) =
      sort (filter (\<lambda>r. r \<notin> roles) known_chunk_roles)"
    using known_role_plain by (intro split_on_join) auto
  then show ?thesis using known_role_plain by auto
qed

lemma role_filter_equivalent_aux:
  assumes "service_documented sv" and "build_role_filter roles = Inr f"
    and "chunk_roles \<subseteq> set known_chunk_roles"
  shows "sv_admits sv f chunk_roles \<longleftrightarrow> chunk_roles \<subseteq> roles"
proof -
  let ?csv = "join [role_delimiter] (sort (filter (\<lambda>r. r \<notin> roles) known_chunk_roles))"
  have f: "f = filter_text ?csv" using assms(2) by (simp add: build_role_filter_Inr)
  have "quote \<notin> set [role_delimiter]" by (simp add: role_delimiter_def quote_def)
  then have "quote \<notin> set ?csv"
    using set_join[of quote "[role_delimiter]"] known_role_plain by fastforce
  then have "sv_admits sv f chunk_roles \<longleftrightarrow>
      (\<forall>r\<in>chunk_roles. r \<notin> set (split_on role_delimiter ?csv))"
    unfolding f by (rule service_filter[OF assms(1)])
  moreover have "r \<in> set (split_on role_delimiter ?csv) \<longleftrightarrow> r \<notin> roles" if "r \<in> chunk_roles" for r
  proof -
    have "r \<noteq> []" "r \<in> set known_chunk_roles" using that assms(3) known_role_plain by blast+
    then show ?thesis using split_missing[of roles] by blast
  qed
  ultimately show ?thesis by blast
qed

text \<open>Outside the vocabulary the negative filter fails open: a role it does not know it does not ask for.\<close>

lemma filter_fails_open:
  assumes "service_documented sv" and "build_role_filter roles = Inr f"
    and "r \<notin> set known_chunk_roles" and "r \<noteq> []"
  shows "sv_admits sv f {r}"
proof -
  let ?csv = "join [role_delimiter] (sort (filter (\<lambda>r. r \<notin> roles) known_chunk_roles))"
  have f: "f = filter_text ?csv" using assms(2) by (simp add: build_role_filter_Inr)
  have "quote \<notin> set [role_delimiter]" by (simp add: role_delimiter_def quote_def)
  then have "quote \<notin> set ?csv"
    using set_join[of quote "[role_delimiter]"] known_role_plain by fastforce
  from service_filter[OF assms(1) this] show ?thesis
    unfolding f using split_missing[of roles] assms(3,4) by blast
qed

lemma azure_add_Inr:
  assumes "azure_add show_roles chunks az = (Inr u, az')" and "c \<in> set chunks"
  shows "kc_allowed_roles c \<subseteq> set known_chunk_roles \<and> az_service az' = az_service az"
  using assms by (auto simp: azure_add_def find_None_iff split: if_splits option.splits sum.splits)

lemma azure_add_Inl:
  assumes "azure_add show_roles chunks az = (Inl e, az')"
  shows "az' = az \<and> ((\<exists>c\<in>set chunks. \<not> kc_allowed_roles c \<subseteq> set known_chunk_roles) \<or>
    sv_upload (az_service az) (az_documents az) (map azure_document_of chunks) = Inl e)"
  using assms
  by (auto simp: azure_add_def find_Some_iff split: if_splits option.splits sum.splits dest!: nth_mem)

text \<open>A local search with room for the whole index shows a relevant chunk exactly to the roles it declares.\<close>

lemma local_search_shows:
  assumes "local_search idx q e roles limit = Inr hits" and "int (length idx) \<le> limit"
    and "c \<in> index_chunks idx" and "similarity e (kc_embedding c) = Inr s" and "0 < s"
  shows "c \<in> snd ` set hits \<longleftrightarrow> kc_allowed_roles c \<subseteq> roles"
proof
  assume "c \<in> snd ` set hits"
  with local_search_hit[OF assms(1)] show "kc_allowed_roles c \<subseteq> roles" by force
next
  assume roles: "kc_allowed_roles c \<subseteq> roles"
  let ?cs = "filter (\<lambda>c. kc_allowed_roles c \<subseteq> roles) (map snd idx)"
  obtain candidates where cand: "map (score_chunk e) ?cs = map Inr candidates"
    and hits: "hits = py_take limit (filter (\<lambda>h. 0 < fst h) (sort_key rank_key candidates))"
    using assms(1) unfolding local_search_Inr by blast
  have "c \<in> set ?cs" using assms(3) roles by (auto simp: index_chunks_def)
  then have "score_chunk e c \<in> set (map Inr candidates)" unfolding cand[symmetric] by simp
  then have mem: "(s, c) \<in> set candidates" using assms(4) by (auto simp: score_chunk_def)
  have "length candidates \<le> length idx"
    using arg_cong[OF cand, of length] length_filter_le[of _ "map snd idx"] by (metis length_map)
  then have "length (filter (\<lambda>h. 0 < fst h) (sort_key rank_key candidates)) \<le> nat limit"
    using assms(2) length_filter_le[of "\<lambda>h. 0 < fst h" "sort_key rank_key candidates"] by simp
  then have "hits = filter (\<lambda>h. 0 < fst h) (sort_key rank_key candidates)"
    using assms(2) by (simp add: hits py_take_def)
  with mem assms(5) show "c \<in> snd ` set hits" by force
qed

text \<open>C17: chunks are added to the Azure index, and a local index holds one of them, \<open>c\<close>.  If the addition
  succeeds, every role of \<open>c\<close> is of the vocabulary over which the negative filter is written, and for every caller
  the filter admits the stored document of \<open>c\<close> exactly when the local index shows \<open>c\<close> to that
  caller, on any query that finds \<open>c\<close> relevant, with room for the whole index.  If it fails the index
  is as before, and some chunk had a role outside the vocabulary or the service refused.  Roles with
  the delimiter in them get no filter at all.\<close>

theorem role_filter_equivalent:
  assumes "service_documented (az_service az)" and "c \<in> set chunks"
    and "c \<in> index_chunks idx" and "similarity e (kc_embedding c) = Inr s" and "0 < s"
    and "local_search idx q e roles limit = Inr hits" and "int (length idx) \<le> limit"
  shows "case azure_add show_roles chunks az of
      (Inl e, az') \<Rightarrow> az' = az \<and> ((\<exists>c\<in>set chunks. \<not> kc_allowed_roles c \<subseteq> set known_chunk_roles) \<or>
        sv_upload (az_service az) (az_documents az) (map azure_document_of chunks) = Inl e)
    | (Inr _, az') \<Rightarrow> kc_allowed_roles c \<subseteq> set known_chunk_roles \<and>
        (case build_role_filter roles of
           Inl _ \<Rightarrow> \<exists>r\<in>roles. CHR ''|'' \<in> set r
         | Inr f \<Rightarrow> sv_admits (az_service az') f (ad_allowed_roles (azure_document_of c)) \<longleftrightarrow> c \<in> snd ` set hits)"
proof -
  obtain r az' where add: "azure_add show_roles chunks az = (r, az')" by fastforce
  show ?thesis
  proof (cases r)
    case (Inl e)
    with azure_add_Inl[of show_roles chunks az e az'] add show ?thesis by simp
  next
    case (Inr u)
    note ok = azure_add_Inr[OF add[unfolded Inr] assms(2)]
    have roles: "ad_allowed_roles (azure_document_of c) = kc_allowed_roles c" by (simp add: azure_document_of_def)
    show ?thesis
    proof (cases "build_role_filter roles")
      case (Inl e)
      then have "\<exists>r\<in>roles. CHR ''|'' \<in> set r"
        by (auto simp: build_role_filter_def role_delimiter_def Let_def split: if_splits)
      with Inl Inr add ok show ?thesis by simp
    next
      case f: (Inr f)
      from role_filter_equivalent_aux[OF _ f, of "az_service az'" "kc_allowed_roles c"] ok assms(1)
        local_search_shows[OF assms(6,7,3,4,5)]
      show ?thesis using f Inr add by (simp add: roles)
    qed
  qed
qed

section \<open>The Azure index implements the contract\<close>

lemma azure_search_hit:
  assumes "azure_inv az" and "azure_search az q e roles limit = Inr hits" and "(s, c) \<in> set hits"
  shows "c \<in> azure_holds az \<and> kc_allowed_roles c \<subseteq> roles \<and> -1 \<le> s \<and> s \<le> 1"
proof -
  obtain f results where f: "build_role_filter roles = Inr f"
    and q: "sv_query (az_service az) (az_documents az) q f e limit = Inr results"
    and hits: "hits = map (\<lambda>(s, d). (clamp s, azure_chunk_of d)) results"
    using assms(2) by (auto simp: azure_search_def split: if_splits sum.splits)
  obtain s0 d where d: "(s0, d) \<in> set results" "s = clamp s0" "c = azure_chunk_of d"
    using assms(3) by (auto simp: hits)
  from assms(1) have doc: "service_documented (az_service az)" by (simp add: azure_inv_def)
  have "d \<in> set (az_documents az)" "sv_admits (az_service az) f (ad_allowed_roles d)"
    using service_query(2)[OF doc q d(1)] by auto
  moreover from this assms(1) have "ad_allowed_roles d \<subseteq> set known_chunk_roles"
    by (auto simp: azure_inv_def)
  ultimately show ?thesis
    using role_filter_equivalent_aux[OF doc f] d
    by (auto simp: azure_holds_def azure_chunk_of_def clamp_def)
qed

interpretation azure_index: vector_index azure_search azure_holds azure_inv
proof (unfold_locales, goal_cases)
  case (1 i q e roles limit hits s c)
  then show ?case using azure_search_hit by blast
next
  case (2 i q e roles limit hits s c)
  then show ?case using azure_search_hit by blast
next
  case (3 i limit q e roles hits)
  then obtain f results where "sv_query (az_service i) (az_documents i) q f e limit = Inr results"
    and "hits = map (\<lambda>(s, d). (clamp s, azure_chunk_of d)) results"
    by (auto simp: azure_search_def split: if_splits sum.splits)
  with 3 service_query(1)[of "az_service i"] show ?case by (auto simp: azure_inv_def)
next
  case (4 i e q roles limit hits s c)
  then show ?case using azure_search_hit by blast
qed

text \<open>Ingestion keeps the invariant, and refuses a chunk with a role outside the vocabulary without
  uploading anything.\<close>

lemma azure_add_inv:
  assumes "azure_inv az" and "azure_add show_roles chunks az = (r, az')"
  shows "azure_inv az' \<and> azure_holds az' \<subseteq> azure_holds az \<union> public_part ` set chunks \<and>
    ((\<exists>c\<in>set chunks. \<not> kc_allowed_roles c \<subseteq> set known_chunk_roles) \<longrightarrow> \<not> is_ok r \<and> az' = az)"
proof (cases "List.find (\<lambda>c. \<not> kc_allowed_roles c \<subseteq> set known_chunk_roles) chunks")
  case (Some c)
  with assms show ?thesis by (auto simp: azure_add_def split: if_splits)
next
  case None
  then have known: "\<forall>c\<in>set chunks. kc_allowed_roles c \<subseteq> set known_chunk_roles"
    by (auto simp: find_None_iff)
  show ?thesis
  proof (cases "chunks = [] \<or> \<not> is_ok r")
    case True
    with assms None known show ?thesis by (auto simp: azure_add_def split: sum.splits if_splits)
  next
    case False
    with assms(2) None obtain docs where
      docs: "sv_upload (az_service az) (az_documents az) (map azure_document_of chunks) = Inr docs"
      and az': "az' = az\<lparr>az_documents := docs\<rparr>"
      by (auto simp: azure_add_def split: sum.splits)
    have "set docs \<subseteq> set (az_documents az) \<union> azure_document_of ` set chunks"
      using assms(1) service_upload[OF _ docs] by (auto simp: azure_inv_def)
    note sub = this
    have part: "azure_chunk_of (azure_document_of c) = public_part c" for c
      by (cases c) (simp add: azure_chunk_of_def azure_document_of_def public_part_def)
    have roles: "ad_allowed_roles (azure_document_of c) = kc_allowed_roles c" for c
      by (simp add: azure_document_of_def)
    have "ad_allowed_roles d \<subseteq> set known_chunk_roles \<and> (\<exists>c. d = azure_document_of c)" if "d \<in> set docs" for d
      using subsetD[OF sub that] assms(1) known roles by (auto simp: azure_inv_def)
    then have "azure_inv az'" using assms(1) by (simp add: az' azure_inv_def)
    moreover have "azure_holds az' \<subseteq> azure_holds az \<union> public_part ` set chunks"
      using sub part by (force simp: az' azure_holds_def)
    ultimately show ?thesis using known by blast
  qed
qed

section \<open>Choosing the backend\<close>

datatype index_backend = LocalIndex local_index | AzureIndex azure_index

fun backend_search ::
  "index_backend \<Rightarrow> string \<Rightarrow> real list \<Rightarrow> string set \<Rightarrow> int \<Rightarrow> exn + (real \<times> knowledge_chunk) list" where
  "backend_search (LocalIndex i) = local_search i"
| "backend_search (AzureIndex i) = azure_search i"

fun backend_holds :: "index_backend \<Rightarrow> knowledge_chunk set" where
  "backend_holds (LocalIndex i) = index_chunks i"
| "backend_holds (AzureIndex i) = azure_holds i"

fun backend_inv :: "index_backend \<Rightarrow> bool" where
  "backend_inv (LocalIndex i) = index_inv i"
| "backend_inv (AzureIndex i) = azure_inv i"

interpretation backend: vector_index backend_search backend_holds backend_inv
proof (unfold_locales, goal_cases)
  case (1 i q e roles limit hits s c)
  then show ?case
    by (cases i) (auto dest: local_index.search_authorized azure_index.search_authorized)
next
  case (2 i q e roles limit hits s c)
  then show ?case
    by (cases i) (auto dest: local_index.search_holds azure_index.search_holds)
next
  case (3 i limit q e roles hits)
  then show ?case
    by (cases i) (auto dest: local_index.search_limit azure_index.search_limit)
next
  case (4 i e q roles limit hits s c)
  then show ?case
    by (cases i) (auto dest: local_index.search_score azure_index.search_score)
qed

text \<open>\<open>build_default_retriever\<close>: the bundled documents in name order.  \<open>None\<close> is a document on which
  chunking does not return.\<close>

fun load_documents ::
  "(string \<Rightarrow> string \<Rightarrow> exn + knowledge_document) \<Rightarrow> (string \<Rightarrow> real list) \<Rightarrow> (string \<times> string) list
    \<Rightarrow> local_index \<Rightarrow> (exn + local_index) option" where
  "load_documents parse emb [] idx = Some (Inr idx)"
| "load_documents parse emb ((name, raw) # files) idx =
     (if \<not> ends_with ''.md'' name then load_documents parse emb files idx
      else case parse raw name of
          Inl e \<Rightarrow> Some (Inl e)
        | Inr d \<Rightarrow>
            (case chunk_document emb 500 80 d of
               None \<Rightarrow> None
             | Some (Inl e) \<Rightarrow> Some (Inl e)
             | Some (Inr chunks) \<Rightarrow>
                 (case index_add chunks idx of
                    (Inl e, _) \<Rightarrow> Some (Inl e)
                  | (Inr _, idx') \<Rightarrow> load_documents parse emb files idx')))"

definition build_default_index ::
  "(string \<Rightarrow> string \<Rightarrow> exn + knowledge_document) \<Rightarrow> (string \<Rightarrow> nat list) \<Rightarrow> (string \<times> string) list
    \<Rightarrow> (exn + index_backend) option" where
  "build_default_index parse digest files =
     map_option (map_sum id LocalIndex)
       (load_documents parse (embed_text digest 256) (sort_key fst files) [])"

definition build_index ::
  "(string \<Rightarrow> string \<Rightarrow> exn + knowledge_document) \<Rightarrow> (string \<Rightarrow> nat list) \<Rightarrow> (string \<times> string) list
    \<Rightarrow> search_service \<Rightarrow> azure_document list \<Rightarrow> settings \<Rightarrow> (exn + index_backend) option" where
  "build_index parse digest files service docs s =
     (if st_rag_provider s = AzureSearchRag
      then (if \<not> given (st_azure_search_endpoint s)
            then Some (Inl (ValueError
              ''Azure AI Search endpoint is required for the azure_search provider''))
            else Some (map_sum id AzureIndex
              (new_azure_index service docs (the (st_azure_search_endpoint s))
                 (st_azure_search_index_name s) 256)))
      else build_default_index parse digest files)"

text \<open>Each chunk of the built index carries the roles of an accepted document.\<close>

lemma load_documents_inv:
  assumes "load_documents parse (embed_text digest n) files idx = Some (Inr idx')" and "index_inv idx"
    and "\<And>c. c \<in> index_chunks idx \<Longrightarrow> P c"
    and "\<And>raw name d i t. parse raw name = Inr d \<Longrightarrow> P (make_chunk (embed_text digest n) d i t)"
  shows "index_inv idx' \<and> (\<forall>c\<in>index_chunks idx'. P c)"
  using assms(1-3)
proof (induction files arbitrary: idx)
  case Nil
  then show ?case by simp
next
  case (Cons f files)
  obtain name raw where f: "f = (name, raw)" by (cases f)
  show ?case
  proof (cases "ends_with ''.md'' name")
    case False
    with Cons f show ?thesis by simp
  next
    case True
    with Cons.prems(1) f obtain d chunks idx1 where d: "parse raw name = Inr d"
      "chunk_document (embed_text digest n) 500 80 d = Some (Inr chunks)"
      "index_add chunks idx = (Inr (), idx1)"
      "load_documents parse (embed_text digest n) files idx1 = Some (Inr idx')"
      by (auto split: sum.splits option.splits prod.splits)
    have made: "\<forall>c\<in>set chunks. \<exists>i t. c = make_chunk (embed_text digest n) d i t"
      using chunk_document_made[OF d(2)] .
    then have unit: "\<forall>c\<in>set chunks. unit_or_zero (kc_embedding c)"
      by (auto simp: make_chunk_def embed_text_unit)
    have "index_inv idx1" "index_chunks idx1 = index_chunks idx \<union> set chunks"
      using index_add_inv[OF Cons.prems(2) unit d(3)] by auto
    moreover have "\<forall>c\<in>set chunks. P c" using made assms(4)[OF d(1)] by auto
    ultimately show ?thesis using Cons.IH[OF d(4)] Cons.prems(3) by auto
  qed
qed

section \<open>A service that behaves as documented\<close>

text \<open>It reads the list of roles back out of the filter.\<close>

definition csv_of_filter :: "string \<Rightarrow> string" where
  "csv_of_filter f =
     drop (length ''allowed_roles/all(r: not search.in(r, '' + 1)
       (take (length f - length (filter_text []) + length ''allowed_roles/all(r: not search.in(r, '' + 1) f)"

definition sample_service :: search_service where
  "sample_service =
     \<lparr>sv_admits = (\<lambda>f roles. \<forall>r\<in>roles. r \<notin> set (split_on role_delimiter (csv_of_filter f))),
      sv_query = (\<lambda>docs q f v n. Inr (take (nat n) (map (Pair 1) (filter (\<lambda>d.
        \<forall>r\<in>ad_allowed_roles d. r \<notin> set (split_on role_delimiter (csv_of_filter f))) docs)))),
      sv_upload = (\<lambda>docs new. Inr (docs @ new))\<rparr>"

lemma csv_of_filter_text [simp]: "csv_of_filter (filter_text csv) = csv"
  by (simp add: csv_of_filter_def filter_text_def)

lemma sample_service_documented: "service_documented sample_service"
  by (auto simp: service_documented_def sample_service_def dest!: in_set_takeD)

definition plain_chunk :: "string \<Rightarrow> string set \<Rightarrow> knowledge_chunk" where
  "plain_chunk i roles = (sample_chunk i [] ''refund'')\<lparr>kc_allowed_roles := roles, kc_embedding := [1]\<rparr>"

definition empty_azure :: azure_index where
  "empty_azure = \<lparr>az_dimensions = 1, az_service = sample_service, az_documents = []\<rparr>"

theorem role_filter_equivalent_witness:
  "(\<exists>az' f. azure_add (\<lambda>_. []) [plain_chunk ''A'' {''transactions''}, plain_chunk ''B'' {''complaints''}] empty_azure = (Inr (), az') \<and>
      build_role_filter {''transactions'', ''agent.invoke''} = Inr f \<and>
      sv_admits (az_service az') f (ad_allowed_roles (azure_document_of (plain_chunk ''A'' {''transactions''}))) \<and>
      \<not> sv_admits (az_service az') f (ad_allowed_roles (azure_document_of (plain_chunk ''B'' {''complaints''}))))"
proof -
  let ?a = "plain_chunk ''A'' {''transactions''}" and ?b = "plain_chunk ''B'' {''complaints''}"
  let ?roles = "{''transactions'', ''agent.invoke''}"
  let ?idx = "[(''A'', ?a), (''B'', ?b)]"
  obtain f where f: "build_role_filter ?roles = Inr f"
    by (simp add: build_role_filter_Inr role_delimiter_def)
  obtain az' where add: "azure_add (\<lambda>_. []) [?a, ?b] empty_azure = (Inr (), az')"
    by (simp add: azure_add_def plain_chunk_def known_chunk_roles_def empty_azure_def sample_service_def)
  have doc: "service_documented (az_service empty_azure)" by (simp add: empty_azure_def sample_service_documented)
  have emb: "kc_embedding ?a = [1]" "kc_embedding ?b = [1]" "kc_allowed_roles ?a = {''transactions''}"
    "kc_allowed_roles ?b = {''complaints''}" by (simp_all add: plain_chunk_def)
  have sim: "similarity [1] (kc_embedding ?a) = Inr 1" "similarity [1] (kc_embedding ?b) = Inr 1"
    by (simp_all add: emb similarity_def)
  have hits: "local_search ?idx [] [1] ?roles 2 = Inr [(1, ?a)]"
    using sim by (simp add: local_search_def score_chunk_def emb py_take_def)
  have idx: "?a \<in> index_chunks ?idx" "?b \<in> index_chunks ?idx" by (simp_all add: index_chunks_def)
  have "?a \<noteq> ?b" using emb(3,4) by force
  note use = role_filter_equivalent[OF doc _ _ _ _ hits, where show_roles = "\<lambda>_. []" and chunks = "[?a, ?b]"]
  from use[of ?a 1] use[of ?b 1] sim idx f add \<open>?a \<noteq> ?b\<close> show ?thesis by simp
qed

end
