(* ===== verification/ModelPolicy.thy ===== *)
theory ModelPolicy
  imports SlidingWindow PyStr
begin

text \<open>
  The contracts and policies of the model gateway (model\_gateway/contracts.py, pricing.py,
  policy.py) and the content-safety policy (safety/content\_safety.py).  \<open>round8\<close> is rounding to
  eight decimals, \<open>show_g\<close> the format \<open>:g\<close>; \<open>now\<close> is a reading of \<open>time.monotonic()\<close>.
\<close>

section \<open>Requests and results\<close>

datatype chat_role = SystemRole | UserRole | AssistantRole

record chat_message =
  cm_role :: chat_role
  cm_content :: string

record token_usage =
  tu_prompt_tokens :: int
  tu_completion_tokens :: int

record generation_request =
  gq_model :: string
  gq_messages :: "chat_message list"
  gq_tenant :: string
  gq_agent :: string
  gq_max_tokens :: int
  gq_temperature :: real

record generation_result =
  gs_content :: string
  gs_model :: string
  gs_provider :: string
  gs_usage :: token_usage
  gs_estimated_cost_gbp :: real
  gs_latency_seconds :: real
  gs_finish_reason :: string

definition new_chat_message :: "chat_role \<Rightarrow> string \<Rightarrow> exn + chat_message" where
  "new_chat_message role content =
     (let c = field_strip content in
      if 1 \<le> length c \<and> length c \<le> 8000 then Inr \<lparr>cm_role = role, cm_content = c\<rparr>
      else Inl ValidationError)"

definition request_valid :: "generation_request \<Rightarrow> bool" where
  "request_valid q \<longleftrightarrow>
     1 \<le> length (gq_model q) \<and> length (gq_model q) \<le> 200 \<and>
     1 \<le> length (gq_messages q) \<and> length (gq_messages q) \<le> 50 \<and>
     1 \<le> length (gq_tenant q) \<and> length (gq_tenant q) \<le> 200 \<and>
     1 \<le> length (gq_agent q) \<and> length (gq_agent q) \<le> 100 \<and>
     1 \<le> gq_max_tokens q \<and> gq_max_tokens q \<le> 4096 \<and>
     0 \<le> gq_temperature q \<and> gq_temperature q \<le> 2"

definition new_generation_request ::
  "string \<Rightarrow> chat_message list \<Rightarrow> string \<Rightarrow> string \<Rightarrow> int \<Rightarrow> real \<Rightarrow> exn + generation_request" where
  "new_generation_request model messages tenant agent max_tokens temperature =
     (let q = \<lparr>gq_model = field_strip model, gq_messages = messages,
               gq_tenant = field_strip tenant, gq_agent = field_strip agent,
               gq_max_tokens = max_tokens, gq_temperature = temperature\<rparr>
      in if request_valid q then Inr q else Inl ValidationError)"

section \<open>Pricing\<close>

record model_price =
  mp_prompt_price_per_1k_gbp :: real
  mp_completion_price_per_1k_gbp :: real

type_synonym pricing_table = "(string \<times> model_price) list"

definition default_pricing :: pricing_table where
  "default_pricing =
     [(''mock-deterministic'', \<lparr>mp_prompt_price_per_1k_gbp = 0, mp_completion_price_per_1k_gbp = 0\<rparr>),
      (''gpt-4o-mini'', \<lparr>mp_prompt_price_per_1k_gbp = 12 / 100000,
                         mp_completion_price_per_1k_gbp = 48 / 100000\<rparr>),
      (''gpt-4o'', \<lparr>mp_prompt_price_per_1k_gbp = 2 / 1000, mp_completion_price_per_1k_gbp = 8 / 1000\<rparr>)]"

definition estimate_cost_gbp ::
  "(real \<Rightarrow> real) \<Rightarrow> pricing_table \<Rightarrow> string \<Rightarrow> token_usage \<Rightarrow> real" where
  "estimate_cost_gbp round8 prices model usage =
     (let price = (case map_of prices model of
            None \<Rightarrow> \<lparr>mp_prompt_price_per_1k_gbp = 1 / 1000, mp_completion_price_per_1k_gbp = 2 / 1000\<rparr>
          | Some p \<Rightarrow> p)
      in round8 (of_int (tu_prompt_tokens usage) / 1000 * mp_prompt_price_per_1k_gbp price
                 + of_int (tu_completion_tokens usage) / 1000 * mp_completion_price_per_1k_gbp price))"

lemma estimate_cost_nonneg:
  assumes "\<And>x. 0 \<le> x \<Longrightarrow> 0 \<le> round8 x"
    and "\<forall>(m, p)\<in>set prices. 0 \<le> mp_prompt_price_per_1k_gbp p \<and> 0 \<le> mp_completion_price_per_1k_gbp p"
    and "0 \<le> tu_prompt_tokens u" and "0 \<le> tu_completion_tokens u"
  shows "0 \<le> estimate_cost_gbp round8 prices model u"
proof -
  have "0 \<le> mp_prompt_price_per_1k_gbp p \<and> 0 \<le> mp_completion_price_per_1k_gbp p"
    if "map_of prices model = Some p" for p
    using assms(2) that by (auto dest: map_of_SomeD)
  then show ?thesis
    using assms by (auto simp: estimate_cost_gbp_def Let_def split: option.splits)
qed

section \<open>The allowlist\<close>

definition new_model_allowlist :: "string set \<Rightarrow> exn + string set" where
  "new_model_allowlist allowed_models =
     (if allowed_models = {} then Inl (ValueError ''At least one model must be allowlisted'')
      else Inr allowed_models)"

definition allowlist_check :: "string set \<Rightarrow> string \<Rightarrow> exn + unit" where
  "allowlist_check allowed model =
     (if model \<notin> allowed
      then Inl (ModelNotAllowed (''Model '' @ [CHR 0x27] @ model @ [CHR 0x27]
             @ '' is not on the governed allowlist''))
      else Inr ())"

section \<open>Tenant budgets\<close>

record tenant_budget =
  bp_ceilings :: "(string \<times> real) list"
  bp_default_ceiling :: "real option"
  bp_window :: int
  bp_spend :: "string \<Rightarrow> charge list"

definition new_tenant_budget ::
  "(string \<times> real) list option \<Rightarrow> real option \<Rightarrow> int \<Rightarrow> exn + tenant_budget" where
  "new_tenant_budget ceilings default_ceiling_gbp window_seconds =
     (let cs = (case ceilings of None \<Rightarrow> [] | Some d \<Rightarrow> d) in
      if cs = [] \<and> default_ceiling_gbp = None
      then Inl (ValueError ''At least one of ceilings or default_ceiling_gbp is required'')
      else if list_ex (\<lambda>(_, v). v \<le> 0) cs
      then Inl (ValueError ''Every ceiling must be positive'')
      else if (case default_ceiling_gbp of None \<Rightarrow> False | Some v \<Rightarrow> v \<le> 0)
      then Inl (ValueError ''default_ceiling_gbp must be positive'')
      else if window_seconds \<le> 0
      then Inl (ValueError ''window_seconds must be positive'')
      else Inr \<lparr>bp_ceilings = cs, bp_default_ceiling = default_ceiling_gbp,
                bp_window = window_seconds, bp_spend = (\<lambda>_. [])\<rparr>)"

definition ceiling_of :: "tenant_budget \<Rightarrow> string \<Rightarrow> real option" where
  "ceiling_of b tenant =
     (case map_of (bp_ceilings b) tenant of None \<Rightarrow> bp_default_ceiling b | Some v \<Rightarrow> Some v)"

definition ceiling_for :: "tenant_budget \<Rightarrow> string \<Rightarrow> exn + real" where
  "ceiling_for b tenant =
     (case ceiling_of b tenant of
        None \<Rightarrow> Inl (ModelBudgetExceeded (''Tenant '' @ [CHR 0x27] @ tenant @ [CHR 0x27]
                  @ '' has no configured budget ceiling''))
      | Some v \<Rightarrow> Inr v)"

definition check_and_reserve ::
  "(real \<Rightarrow> string) \<Rightarrow> real \<Rightarrow> string \<Rightarrow> real \<Rightarrow> tenant_budget \<Rightarrow> (exn + unit) \<times> tenant_budget" where
  "check_and_reserve show_g now tenant estimated_cost_gbp b =
     (case ceiling_for b tenant of
        Inl e \<Rightarrow> (Inl e, b)
      | Inr limit \<Rightarrow>
          let ledger = dropWhile (\<lambda>e. fst e \<le> now - of_int (bp_window b)) (bp_spend b tenant);
              spent = sum_list (map snd ledger)
          in if spent + estimated_cost_gbp > limit
             then (Inl (ModelBudgetExceeded (''Tenant '' @ [CHR 0x27] @ tenant @ [CHR 0x27]
                     @ '' would exceed its '' @ show_g limit @ '' GBP budget window'')),
                   b\<lparr>bp_spend := (bp_spend b)(tenant := ledger)\<rparr>)
             else (Inr (),
                   b\<lparr>bp_spend := (bp_spend b)(tenant := ledger @ [(now, estimated_cost_gbp)])\<rparr>))"

definition spent_gbp :: "(real \<Rightarrow> real) \<Rightarrow> real \<Rightarrow> string \<Rightarrow> tenant_budget \<Rightarrow> real \<times> tenant_budget" where
  "spent_gbp round8 now tenant b =
     (let ledger = dropWhile (\<lambda>e. fst e \<le> now - of_int (bp_window b)) (bp_spend b tenant)
      in (round8 (sum_list (map snd ledger)), b\<lparr>bp_spend := (bp_spend b)(tenant := ledger)\<rparr>))"

section \<open>The budget meets the sliding-window contract\<close>

definition budget_inv :: "tenant_budget \<Rightarrow> bool" where
  "budget_inv b \<longleftrightarrow> (\<forall>t v. ceiling_of b t = Some v \<longrightarrow> 0 \<le> v)"

definition budget_charge ::
  "(real \<Rightarrow> string) \<Rightarrow> string \<Rightarrow> charge \<Rightarrow> tenant_budget \<Rightarrow> (exn + unit) \<times> tenant_budget" where
  "budget_charge show_g tenant e b = check_and_reserve show_g (fst e) tenant (snd e) b"

lemma check_and_reserve_frame [simp]:
  "bp_window (snd (check_and_reserve show_g now t c b)) = bp_window b"
  "bp_ceilings (snd (check_and_reserve show_g now t c b)) = bp_ceilings b"
  "bp_default_ceiling (snd (check_and_reserve show_g now t c b)) = bp_default_ceiling b"
  "ceiling_of (snd (check_and_reserve show_g now t c b)) = ceiling_of b"
  by (auto simp: check_and_reserve_def ceiling_for_def ceiling_of_def Let_def fun_eq_iff
      split: option.splits)

interpretation budget: sliding_window "budget_charge show_g" bp_spend "\<lambda>b. of_int (bp_window b)"
  ceiling_of "\<lambda>c. 0 \<le> c" budget_inv for show_g
proof (unfold_locales, goal_cases)
  case (4 b k c)
  then show ?case by (simp add: budget_inv_def)
next
  case (6 b e k)
  then show ?case
    by (auto simp: budget_charge_def check_and_reserve_def ceiling_for_def Let_def pruned_def
        charged_def split: option.splits)
next
  case (7 b e k)
  then show ?case
    by (cases e) (auto simp: budget_charge_def check_and_reserve_def ceiling_for_def Let_def pruned_def
        split: option.splits if_splits)
next
  case (8 b e k)
  then show ?case
    by (auto simp: budget_charge_def check_and_reserve_def ceiling_for_def Let_def pruned_def
        split: option.splits if_splits)
next
  case (9 k' k e b)
  then show ?case
    by (auto simp: budget_charge_def check_and_reserve_def ceiling_for_def Let_def split: option.splits)
qed (simp_all add: budget_charge_def budget_inv_def)

text \<open>A reservation is a tenant, a clock reading and an estimated cost.\<close>

type_synonym reservation = "string \<times> real \<times> real"

definition budget_run :: "(real \<Rightarrow> string) \<Rightarrow> tenant_budget \<Rightarrow> reservation list \<Rightarrow> bool list \<times> tenant_budget" where
  "budget_run show_g b rs = run_checks (budget_charge show_g) b rs"

text \<open>The costs reserved for a tenant, with their times.\<close>

definition reserved :: "(real \<Rightarrow> string) \<Rightarrow> tenant_budget \<Rightarrow> reservation list \<Rightarrow> string \<Rightarrow> charge list" where
  "reserved show_g b rs tenant = admitted rs (fst (budget_run show_g b rs)) tenant"

lemma new_tenant_budget_inv:
  assumes "new_tenant_budget ceilings dflt w = Inr b"
  shows "budget_inv b" and "bp_spend b = (\<lambda>_. [])" and "bp_window b = w"
    and "ceiling_of b t = (case Option.bind ceilings (\<lambda>cs. map_of cs t) of
           None \<Rightarrow> dflt | Some v \<Rightarrow> Some v)"
proof -
  let ?cs = "case ceilings of None \<Rightarrow> [] | Some d \<Rightarrow> d"
  have b: "b = \<lparr>bp_ceilings = ?cs, bp_default_ceiling = dflt, bp_window = w, bp_spend = (\<lambda>_. [])\<rparr>"
    and pos: "\<not> list_ex (\<lambda>(_, v). v \<le> 0) ?cs" "\<not> (case dflt of None \<Rightarrow> False | Some v \<Rightarrow> v \<le> 0)"
    using assms by (auto simp: new_tenant_budget_def Let_def split: if_splits)
  have "0 \<le> v" if "map_of ?cs t = Some v" for t v
    using pos(1) map_of_SomeD[OF that] by (fastforce simp: list_ex_iff)
  with pos(2) show "budget_inv b"
    by (auto simp: b budget_inv_def ceiling_of_def split: option.splits)
  show "bp_spend b = (\<lambda>_. [])" "bp_window b = w" by (simp_all add: b)
  show "ceiling_of b t = (case Option.bind ceilings (\<lambda>cs. map_of cs t) of
           None \<Rightarrow> dflt | Some v \<Rightarrow> Some v)"
    by (cases ceilings) (auto simp: b ceiling_of_def split: option.splits)
qed

lemma admitted_no_cap: "cap k = None \<Longrightarrow> admitted rs (window_spec w cap h rs) k = []"
proof (induction rs arbitrary: h)
  case Nil
  then show ?case by simp
next
  case (Cons r rs)
  then show ?case by (cases r) (auto simp: Let_def fits_def)
qed

lemma clocked_filter: "clocked t rs \<Longrightarrow> clocked t (filter P rs)"
  by (auto simp: clocked_sorted sorted_filter)

text \<open>C21: in every window the costs reserved for a tenant stay within that tenant's own ceiling
  (the bundle's, or the default one for a tenant without a bundle), whatever the other tenants
  reserve, and which reservations of a tenant are admitted does not depend on them; a tenant with no
  ceiling gets nothing.\<close>

theorem tenant_budget_enforced:
  assumes "new_tenant_budget ceilings dflt w = Inr b"
    and "sorted (map (\<lambda>r. fst (snd r)) rs)" and "\<forall>r\<in>set rs. 0 \<le> snd (snd r)"
  shows "(case ceiling_of b tenant of
            None \<Rightarrow> reserved show_g b rs tenant = []
          | Some limit \<Rightarrow> charged_in (of_int w) t (reserved show_g b rs tenant) \<le> limit) \<and>
    reserved show_g b rs tenant =
      reserved show_g b (filter (\<lambda>r. fst r = tenant) rs) tenant"
proof -
  note b = new_tenant_budget_inv[OF assms(1)]
  let ?own = "filter (\<lambda>r. fst r = tenant) rs"
  obtain t0 where t0: "clocked t0 rs" using clocked_ex[OF assms(2)] by blast
  note t1 = clocked_filter[OF t0, of "\<lambda>r. fst r = tenant"]
  have fresh: "\<And>k. bp_spend b k = []" using b(2) by simp
  have iso: "reserved show_g b rs tenant = reserved show_g b ?own tenant"
    unfolding reserved_def budget_run_def
    by (rule budget.run_isolated[OF b(1) fresh t0 t1]) (use assms(3) in auto)
  show ?thesis
  proof (cases "ceiling_of b tenant")
    case None
    have "reserved show_g b rs tenant = []"
      unfolding reserved_def budget_run_def
      using budget.run_refines[OF b(1) fresh t0] assms(3) admitted_no_cap[of "ceiling_of b", OF None]
      by simp
    with None iso show ?thesis by simp
  next
    case (Some limit)
    have "bounded_by (of_int (bp_window b)) limit (reserved show_g b rs tenant)"
      unfolding reserved_def budget_run_def
      by (rule budget.run_bounded[OF b(1) fresh t0 assms(3) Some])
    with Some iso b(3) show ?thesis by (simp add: bounded_by_def)
  qed
qed

definition sample_ceilings :: "(string \<times> real) list" where
  "sample_ceilings = [(''retail-banking'', 5), (''wealth'', 2)]"

definition sample_reservations :: "reservation list" where
  "sample_reservations = [(''wealth'', 0, 3 / 2), (''retail-banking'', 1, 4), (''wealth'', 2, 1),
     (''wealth'', 86401, 1)]"

theorem tenant_budget_enforced_witness:
  "\<exists>b. new_tenant_budget (Some sample_ceilings) (Some 1) 86400 = Inr b \<and>
     charged_in 86400 86401 (reserved (\<lambda>_. []) b sample_reservations ''wealth'') \<le> 2"
proof -
  obtain b where b: "new_tenant_budget (Some sample_ceilings) (Some 1) 86400 = Inr b"
    by (simp add: new_tenant_budget_def sample_ceilings_def)
  have lim: "ceiling_of b ''wealth'' = Some 2"
    using new_tenant_budget_inv(4)[OF b] by (simp add: sample_ceilings_def)
  have "sorted (map (\<lambda>r. fst (snd r)) sample_reservations)"
    "\<forall>r\<in>set sample_reservations. 0 \<le> snd (snd r)"
    by (simp_all add: sample_reservations_def)
  from conjunct1[OF tenant_budget_enforced[OF b this, where tenant = "''wealth''"]] lim b show ?thesis
    by (metis of_int_numeral option.simps(5))
qed

section \<open>Content safety\<close>

record safety_finding =
  sf_category :: string
  sf_severity :: int

type_synonym safety_policy = "(string \<times> int) list"

definition new_content_safety_policy :: "(string \<times> int) list \<Rightarrow> exn + safety_policy" where
  "new_content_safety_policy thresholds =
     (if thresholds = [] then Inl (ValueError ''At least one category threshold is required'')
      else if list_ex (\<lambda>(_, v). \<not> (0 \<le> v \<and> v \<le> 7)) thresholds
      then Inl (ValueError ''Severity thresholds must be between 0 and 7'')
      else Inr thresholds)"

definition threshold_of :: "safety_policy \<Rightarrow> string \<Rightarrow> int" where
  "threshold_of p category = (case map_of p category of None \<Rightarrow> 8 | Some v \<Rightarrow> v)"

definition blocked_findings :: "safety_policy \<Rightarrow> safety_finding list \<Rightarrow> safety_finding list" where
  "blocked_findings p findings =
     filter (\<lambda>f. threshold_of p (sf_category f) \<le> sf_severity f) findings"

definition mock_signals :: "(string \<times> string list) list" where
  "mock_signals =
     [(''Hate'', [''hate speech'', ''racial slur'']),
      (''SelfHarm'', [''kill myself'', ''suicide'', ''self harm'']),
      (''Sexual'', [''explicit sexual content'']),
      (''Violence'', [''kill you'', ''bomb threat'', ''mass shooting''])]"

definition mock_content_safety :: "string \<Rightarrow> exn + safety_finding list" where
  "mock_content_safety text_in =
     (let normalized = casefold text_in in
      Inr (map (\<lambda>(category, markers). \<lparr>sf_category = category,
             sf_severity = (if list_ex (\<lambda>m. contains m normalized) markers then 6 else 0)\<rparr>) mock_signals))"

text \<open>The Azure adapter: \<open>analyses\<close> are the pairs of category and optional severity that the client
  returned; a missing severity counts as the maximum, and a value outside 0 to 7 or a category
  outside the four is a \<open>ValidationError\<close>.\<close>

definition azure_content_safety ::
  "(string \<Rightarrow> exn + (string \<times> int option) list) \<Rightarrow> string \<Rightarrow> exn + safety_finding list" where
  "azure_content_safety analyze text_in =
     (case analyze text_in of
        Inl e \<Rightarrow> Inl e
      | Inr analyses \<Rightarrow>
          map_outcome (\<lambda>(c, s). let v = (case s of None \<Rightarrow> 7 | Some n \<Rightarrow> n) in
            if 0 \<le> v \<and> v \<le> 7 \<and> c \<in> set (map fst mock_signals)
            then Inr \<lparr>sf_category = c, sf_severity = v\<rparr> else Inl ValidationError) analyses)"

text \<open>An ambiguous signal blocks: a category without a severity is at or above any threshold.\<close>

lemma azure_missing_severity_blocks:
  assumes "analyze s = Inr analyses" and "azure_content_safety analyze s = Inr findings"
    and "(c, None) \<in> set analyses" and "new_content_safety_policy thresholds = Inr p"
    and "c \<in> set (map fst thresholds)"
  shows "blocked_findings p findings \<noteq> []"
proof -
  let ?f = "\<lambda>(c, s). let v = (case s of None \<Rightarrow> 7 | Some n \<Rightarrow> n) in
            if 0 \<le> v \<and> v \<le> 7 \<and> c \<in> set (map fst mock_signals)
            then Inr \<lparr>sf_category = c, sf_severity = v\<rparr> else Inl ValidationError"
  have m: "map ?f analyses = map Inr findings"
    using assms(1,2) by (simp add: azure_content_safety_def map_outcome_Inr)
  have "?f (c, None) \<in> Inr ` set findings"
    using imageI[OF assms(3), of ?f] unfolding set_map[symmetric] m by simp
  then have mem: "\<lparr>sf_category = c, sf_severity = 7\<rparr> \<in> set findings"
    by (auto simp: Let_def split: if_splits)
  have p: "p = thresholds" "\<forall>(k, v)\<in>set thresholds. v \<le> 7"
    using assms(4) by (auto simp: new_content_safety_policy_def list_ex_iff split: if_splits)
  obtain v where v: "map_of thresholds c = Some v"
    using assms(5) by (cases "map_of thresholds c") (auto simp: map_of_eq_None_iff)
  then have "v \<le> 7" using p(2) map_of_SomeD[OF v] by blast
  with mem v p(1) have "\<lparr>sf_category = c, sf_severity = 7\<rparr> \<in> set (blocked_findings p findings)"
    by (simp add: blocked_findings_def threshold_of_def)
  then show ?thesis by auto
qed

end
