(* ===== verification/Pii.thy ===== *)
theory Pii
  imports PyStr
begin

text \<open>
  PII masking (safety/pii.py).  The Presidio analyzer is a parameter: \<open>analyze text entities
  threshold\<close> is its list of results, each an entity type with a half-open span and a score.
  Masking is a substitution over spans of the original text, done from the right.  The scores that
  Presidio reports are between 0 and 1, so the validation of a \<open>PiiFinding\<close> does not fail and is left out.
\<close>

section \<open>Policy and results\<close>

record pii_policy =
  pp_mask_entities :: "string list"
  pp_block_entities :: "string list"
  pp_score_threshold :: real

definition new_pii_policy :: "string list \<Rightarrow> string list \<Rightarrow> real \<Rightarrow> exn + pii_policy" where
  "new_pii_policy mask_entities block_entities score_threshold =
     (if \<not> (0 \<le> score_threshold \<and> score_threshold \<le> 1)
      then Inl (ValueError ''score_threshold must be between 0 and 1'')
      else if set mask_entities \<inter> set block_entities \<noteq> {}
      then Inl (ValueError ''An entity type cannot be both masked and blocked'')
      else Inr \<lparr>pp_mask_entities = mask_entities, pp_block_entities = block_entities,
                pp_score_threshold = score_threshold\<rparr>)"

definition all_entities :: "pii_policy \<Rightarrow> string list" where
  "all_entities p = sorted_set (pp_mask_entities p @ pp_block_entities p)"

record recognizer_result =
  rr_entity_type :: string
  rr_start :: nat
  rr_end :: nat
  rr_score :: real

record pii_finding =
  pf_entity_type :: string
  pf_score :: real

record pii_scan_result =
  ps_sanitized_text :: string
  ps_findings :: "pii_finding list"

type_synonym analyzer = "string \<Rightarrow> string list \<Rightarrow> real \<Rightarrow> exn + recognizer_result list"

section \<open>The scan\<close>

text \<open>\<open>sorted(results, key=lambda r: (r.start, -r.score))\<close>: a stable sort by the second component,
  then by the first.\<close>

definition order_results :: "recognizer_result list \<Rightarrow> recognizer_result list" where
  "order_results rs = sort_key rr_start (sort_key (\<lambda>r. - rr_score r) rs)"

text \<open>The selection loop; \<open>occupied_until\<close> starts at -1.\<close>

fun select_spans :: "int \<Rightarrow> recognizer_result list \<Rightarrow> recognizer_result list" where
  "select_spans occupied_until [] = []"
| "select_spans occupied_until (r # rs) =
     (if int (rr_start r) < occupied_until then select_spans occupied_until rs
      else r # select_spans (int (rr_end r)) rs)"

definition placeholder :: "recognizer_result \<Rightarrow> string" where
  "placeholder r = ''<'' @ rr_entity_type r @ ''>''"

definition replace_span :: "recognizer_result \<Rightarrow> string \<Rightarrow> string" where
  "replace_span r s = take (rr_start r) s @ placeholder r @ drop (rr_end r) s"

text \<open>\<open>sorted(replacements, key=start, reverse=True)\<close> keeps the order of equal starts.\<close>

definition rightmost_first :: "recognizer_result list \<Rightarrow> recognizer_result list" where
  "rightmost_first rs = sort_key (\<lambda>r. - int (rr_start r)) rs"

definition pii_scan :: "analyzer \<Rightarrow> string \<Rightarrow> pii_policy \<Rightarrow> exn + pii_scan_result" where
  "pii_scan analyze text_in policy =
     (if text_in = [] \<or> all_entities policy = []
      then Inr \<lparr>ps_sanitized_text = text_in, ps_findings = []\<rparr>
      else case analyze text_in (all_entities policy) (pp_score_threshold policy) of
          Inl e \<Rightarrow> Inl e
        | Inr results \<Rightarrow>
            let blocked_types = sorted_set (filter (\<lambda>t. t \<in> set (pp_block_entities policy))
                  (map rr_entity_type results))
            in if blocked_types \<noteq> []
               then Inl (PiiBlockedError
                 (''Content contains disallowed entity types: '' @ repr_list blocked_types) blocked_types)
               else let chosen = select_spans (-1) (order_results results)
                    in Inr \<lparr>ps_sanitized_text = fold replace_span (rightmost_first chosen) text_in,
                            ps_findings = map (\<lambda>r. \<lparr>pf_entity_type = rr_entity_type r,
                              pf_score = rr_score r\<rparr>) chosen\<rparr>)"

section \<open>The chosen spans\<close>

text \<open>Spans in order, each starting where the previous one ends or later.\<close>

fun disjoint_from :: "nat \<Rightarrow> recognizer_result list \<Rightarrow> bool" where
  "disjoint_from a [] = True"
| "disjoint_from a (r # rs) = (a \<le> rr_start r \<and> rr_start r \<le> rr_end r \<and> disjoint_from (rr_end r) rs)"

definition spans_in :: "string \<Rightarrow> recognizer_result list \<Rightarrow> bool" where
  "spans_in s rs \<longleftrightarrow> (\<forall>r\<in>set rs. rr_start r < rr_end r \<and> rr_end r \<le> length s)"

lemma set_order_results [simp]: "set (order_results rs) = set rs"
  by (simp add: order_results_def)

lemma select_spans_subset: "set (select_spans o_until rs) \<subseteq> set rs"
  by (induction o_until rs rule: select_spans.induct) auto

lemma select_spans_disjoint:
  "(\<forall>r\<in>set rs. rr_start r < rr_end r) \<Longrightarrow> o_until \<le> int a \<Longrightarrow> 
     (\<forall>r\<in>set rs. int a \<le> int (rr_start r) \<or> int (rr_start r) < o_until) \<Longrightarrow>
     sorted (map rr_start rs) \<Longrightarrow> disjoint_from a (select_spans o_until rs)"
proof (induction o_until rs arbitrary: a rule: select_spans.induct)
  case (1 o_until)
  then show ?case by simp
next
  case (2 o_until r rs)
  show ?case
  proof (cases "int (rr_start r) < o_until")
    case True
    with 2 show ?thesis by auto
  next
    case False
    have "disjoint_from (rr_end r) (select_spans (int (rr_end r)) rs)"
      using 2 False by (intro "2.IH"(2)) auto
    with False "2.prems" show ?thesis by auto
  qed
qed

text \<open>What masking produces: the text between the chosen spans, with a placeholder for each span.\<close>

fun masked_from :: "nat \<Rightarrow> string \<Rightarrow> recognizer_result list \<Rightarrow> string" where
  "masked_from a s [] = drop a s"
| "masked_from a s (r # rs) =
     take (rr_start r - a) (drop a s) @ placeholder r @ masked_from (rr_end r) s rs"

lemma disjoint_from_starts: "disjoint_from a rs \<Longrightarrow> r \<in> set rs \<Longrightarrow> a \<le> rr_start r"
  by (induction a rs rule: disjoint_from.induct) auto

lemma insort_key_last: "(\<forall>y\<in>set ys. f y < f x) \<Longrightarrow> insort_key f x ys = ys @ [x]"
  by (induction ys) auto

lemma rightmost_first_disjoint:
  "disjoint_from a rs \<Longrightarrow> (\<forall>r\<in>set rs. rr_start r < rr_end r) \<Longrightarrow> rightmost_first rs = rev rs"
proof (induction rs arbitrary: a)
  case Nil
  then show ?case by (simp add: rightmost_first_def)
next
  case (Cons r rs)
  have "\<forall>x\<in>set rs. rr_start r < rr_start x"
    using Cons.prems disjoint_from_starts[of "rr_end r" rs] by fastforce
  then have "insort_key (\<lambda>r. - int (rr_start r)) r (rev rs) = rev rs @ [r]"
    by (intro insort_key_last) auto
  moreover have "rightmost_first rs = rev rs"
    using Cons.prems by (intro Cons.IH[of "rr_end r"]) auto
  ultimately show ?case by (simp add: rightmost_first_def)
qed

lemma fold_replace_masked:
  assumes "disjoint_from a rs" and "spans_in s rs"
  shows "fold replace_span (rev rs) s = take a s @ masked_from a s rs"
  using assms
proof (induction rs arbitrary: a)
  case Nil
  then show ?case by simp
next
  case (Cons r rs)
  have ih: "fold replace_span (rev rs) s = take (rr_end r) s @ masked_from (rr_end r) s rs"
    using Cons by (intro Cons.IH) (auto simp: spans_in_def)
  have ord: "a \<le> rr_start r" "rr_start r \<le> rr_end r" "rr_end r \<le> length s"
    using Cons.prems by (auto simp: spans_in_def)
  have "take (rr_start r) s = take a s @ take (rr_start r - a) (drop a s)"
    using ord by (metis le_add_diff_inverse take_add)
  moreover have "fold replace_span (rev (r # rs)) s = replace_span r (fold replace_span (rev rs) s)"
    by simp
  ultimately show ?case using ord unfolding ih replace_span_def[of r] by simp
qed

lemma select_spans_complete:
  "sorted (map rr_start rs) \<Longrightarrow> r \<in> set rs \<Longrightarrow> r \<in> set (select_spans o_until rs) \<or>
     int (rr_start r) < o_until \<or>
     (\<exists>c\<in>set (select_spans o_until rs). rr_start c \<le> rr_start r \<and> rr_start r < rr_end c)"
proof (induction o_until rs rule: select_spans.induct)
  case (1 o_until)
  then show ?case by simp
next
  case (2 o_until r0 rs)
  show ?case
  proof (cases "int (rr_start r0) < o_until")
    case True
    with 2 show ?thesis by auto
  next
    case False
    with 2 show ?thesis by (cases "r = r0") auto
  qed
qed

lemma pii_scan_Inr:
  assumes "pii_scan analyze s policy = Inr res" and "s \<noteq> []" and "all_entities policy \<noteq> []"
  obtains results where "analyze s (all_entities policy) (pp_score_threshold policy) = Inr results"
    "\<forall>r\<in>set results. rr_entity_type r \<notin> set (pp_block_entities policy)"
    "ps_sanitized_text res = fold replace_span (rightmost_first (select_spans (-1) (order_results results))) s"
    "ps_findings res = map (\<lambda>r. \<lparr>pf_entity_type = rr_entity_type r, pf_score = rr_score r\<rparr>)
       (select_spans (-1) (order_results results))"
proof -
  from assms obtain results where a: "analyze s (all_entities policy) (pp_score_threshold policy) = Inr results"
    by (auto simp: pii_scan_def split: sum.splits)
  let ?blocked = "sorted_set (filter (\<lambda>t. t \<in> set (pp_block_entities policy)) (map rr_entity_type results))"
  have "?blocked = []" using assms a by (auto simp: pii_scan_def Let_def split: if_splits)
  then have "set ?blocked = {}" by (simp only: set_empty)
  then have "\<forall>r\<in>set results. rr_entity_type r \<notin> set (pp_block_entities policy)" by auto
  with a \<open>?blocked = []\<close> assms show thesis
    by (intro that[of results]) (auto simp: pii_scan_def Let_def)
qed

lemma chosen_spans:
  fixes s results
  defines "chosen \<equiv> select_spans (-1) (order_results results)"
  assumes "spans_in s results"
  shows "set chosen \<subseteq> set results" and "disjoint_from 0 chosen"
    and "fold replace_span (rightmost_first chosen) s = masked_from 0 s chosen"
    and "r \<in> set results \<Longrightarrow> r \<in> set chosen \<or>
      (\<exists>c\<in>set chosen. rr_start c \<le> rr_start r \<and> rr_start r < rr_end c)"
proof -
  have srt: "sorted (map rr_start (order_results results))" by (simp add: order_results_def)
  show sub: "set chosen \<subseteq> set results"
    using select_spans_subset[of "-1" "order_results results"] by (simp add: chosen_def)
  show disj: "disjoint_from 0 chosen"
    unfolding chosen_def using assms(2) srt
    by (intro select_spans_disjoint) (auto simp: spans_in_def)
  have inside: "spans_in s chosen" using assms(2) sub by (auto simp: spans_in_def)
  then have "rightmost_first chosen = rev chosen"
    using rightmost_first_disjoint[OF disj] by (simp add: spans_in_def)
  then show "fold replace_span (rightmost_first chosen) s = masked_from 0 s chosen"
    using fold_replace_masked[OF disj inside] by simp
  show "r \<in> set chosen \<or> (\<exists>c\<in>set chosen. rr_start c \<le> rr_start r \<and> rr_start r < rr_end c)"
    if "r \<in> set results"
    using select_spans_complete[OF srt, of r "-1"] that by (auto simp: chosen_def)
qed

text \<open>C19: when the analyzer reports non-empty spans inside the text, a scan either refuses the text
  (exactly when one of the results is of a blocked type) or returns the text with every chosen span
  cut out and replaced by its type: nothing else of the text is changed, the chosen spans are
  disjoint and in order, and every result that was not chosen overlaps a chosen one.\<close>

theorem pii_masking_exact:
  assumes "analyze s (all_entities policy) (pp_score_threshold policy) = Inr results"
    and "spans_in s results" and "s \<noteq> []" and "all_entities policy \<noteq> []"
  shows "case pii_scan analyze s policy of
      Inl e \<Rightarrow> (\<exists>r\<in>set results. rr_entity_type r \<in> set (pp_block_entities policy)) \<and>
        (\<exists>m ts. e = PiiBlockedError m ts)
    | Inr res \<Rightarrow> (\<forall>r\<in>set results. rr_entity_type r \<notin> set (pp_block_entities policy)) \<and>
        (\<exists>chosen. set chosen \<subseteq> set results \<and> disjoint_from 0 chosen \<and>
           ps_sanitized_text res = masked_from 0 s chosen \<and>
           (\<forall>r\<in>set results. r \<in> set chosen \<or>
              (\<exists>c\<in>set chosen. rr_start c \<le> rr_start r \<and> rr_start r < rr_end c)))"
proof (cases "pii_scan analyze s policy")
  case (Inr res)
  from pii_scan_Inr[OF Inr assms(3,4)] assms(1)
  have "\<forall>r\<in>set results. rr_entity_type r \<notin> set (pp_block_entities policy)"
    "ps_sanitized_text res =
       fold replace_span (rightmost_first (select_spans (-1) (order_results results))) s"
    by (metis sum.inject(2))+
  with Inr chosen_spans[OF assms(2)] show ?thesis
    by (auto intro!: exI[of _ "select_spans (-1) (order_results results)"])
next
  case (Inl e)
  let ?blocked = "sorted_set (filter (\<lambda>t. t \<in> set (pp_block_entities policy)) (map rr_entity_type results))"
  have "?blocked \<noteq> []" "\<exists>m ts. e = PiiBlockedError m ts"
    using Inl assms by (auto simp: pii_scan_def Let_def split: if_splits)
  then have "set ?blocked \<noteq> {}" by (simp only: set_empty not_False_eq_True)
  then have "\<exists>r\<in>set results. rr_entity_type r \<in> set (pp_block_entities policy)" by auto
  with Inl \<open>\<exists>m ts. e = PiiBlockedError m ts\<close> show ?thesis by simp
qed

definition sample_analyzer :: analyzer where
  "sample_analyzer s entities threshold = Inr
     [\<lparr>rr_entity_type = ''EMAIL_ADDRESS'', rr_start = 8, rr_end = 21, rr_score = 1\<rparr>,
      \<lparr>rr_entity_type = ''PERSON'', rr_start = 0, rr_end = 3, rr_score = 3 / 4\<rparr>]"

definition sample_pii_policy :: pii_policy where
  "sample_pii_policy = \<lparr>pp_mask_entities = [''PERSON'', ''EMAIL_ADDRESS''],
     pp_block_entities = [''CREDIT_CARD''], pp_score_threshold = 1 / 2\<rparr>"

lemma sample_entities: "all_entities sample_pii_policy \<noteq> []"
proof -
  have "''PERSON'' \<in> set (all_entities sample_pii_policy)"
    by (simp add: all_entities_def sample_pii_policy_def)
  then show ?thesis by (metis empty_iff list.set(1))
qed

theorem pii_masking_exact_witness:
  "\<exists>res chosen. pii_scan sample_analyzer ''Ann has ann@bank.test'' sample_pii_policy = Inr res \<and>
     ps_sanitized_text res = masked_from 0 ''Ann has ann@bank.test'' chosen \<and> disjoint_from 0 chosen"
proof -
  let ?s = "''Ann has ann@bank.test''"
  obtain results where r: "sample_analyzer ?s (all_entities sample_pii_policy)
      (pp_score_threshold sample_pii_policy) = Inr results"
    and i: "spans_in ?s results"
    and nb: "\<forall>r\<in>set results. rr_entity_type r \<notin> set (pp_block_entities sample_pii_policy)"
    by (simp add: sample_analyzer_def spans_in_def sample_pii_policy_def)
  from pii_masking_exact[where analyze = sample_analyzer, OF r i list.distinct(2) sample_entities] nb show ?thesis
    by (auto split: sum.splits)
qed

section \<open>Overlapping results\<close>

text \<open>Of two results that overlap only in part, the later one is dropped whole, and the part of
  it that the earlier one does not cover is returned in the clear: here the end of an address that
  the analyzer recognized with certainty.\<close>

theorem pii_overlap_leaks:
  "pii_scan
     (\<lambda>s entities threshold. Inr
        [\<lparr>rr_entity_type = ''PERSON'', rr_start = 0, rr_end = 7, rr_score = 1 / 2\<rparr>,
         \<lparr>rr_entity_type = ''EMAIL_ADDRESS'', rr_start = 4, rr_end = 17, rr_score = 1\<rparr>])
     ''Ann ann@bank.test'' sample_pii_policy =
   Inr \<lparr>ps_sanitized_text = ''<PERSON>@bank.test'',
        ps_findings = [\<lparr>pf_entity_type = ''PERSON'', pf_score = 1 / 2\<rparr>]\<rparr>"
proof -
  have "all_entities sample_pii_policy \<noteq> []" by (rule sample_entities)
  moreover have "pp_block_entities sample_pii_policy = [''CREDIT_CARD'']"
    by (simp add: sample_pii_policy_def)
  ultimately show ?thesis
    by (simp add: pii_scan_def Let_def sorted_set_def order_results_def rightmost_first_def
        replace_span_def placeholder_def)
qed

end
