(* ===== verification/ModelGateway.thy ===== *)
theory ModelGateway
  imports ModelPolicy Pii Http
begin

text \<open>
  The model gateway (model\_gateway/gateway.py): allowlist, PII guard, content-safety guard, budget
  reservation, then the provider under timeout and retry, with the same guards on its answer; the
  metrics of model\_gateway/telemetry.py (the tracing span itself is not modelled).

  The provider and the content-safety service are fields of the gateway: \<open>mgw_provider timeout n q\<close>
  is the outcome of attempt \<open>n\<close> (\<open>TimeoutError\<close> when \<open>asyncio.timeout\<close> expires), and
  \<open>mgw_safety_provider timeout k s\<close> that of the \<open>k\<close>-th text checked in a call of \<open>generate\<close>; so both
  may answer differently every time.
\<close>

section \<open>State\<close>

record gateway_metrics =
  gm_pii :: counter
  gm_safety :: counter
  gm_calls :: counter
  gm_duration :: histogram
  gm_tokens :: "string list \<Rightarrow> int"
  gm_cost :: "string list \<Rightarrow> real"

type_synonym chat_provider = "real \<Rightarrow> nat \<Rightarrow> generation_request \<Rightarrow> exn + generation_result"

type_synonym safety_provider = "real \<Rightarrow> nat \<Rightarrow> string \<Rightarrow> exn + safety_finding list"

record model_gateway =
  mgw_provider :: chat_provider
  mgw_provider_name :: string
  mgw_allowlist :: "string set"
  mgw_budget :: tenant_budget
  mgw_pricing :: pricing_table
  mgw_timeout :: real
  mgw_max_attempts :: nat
  mgw_pii_detector :: "analyzer option"
  mgw_pii_policy :: "pii_policy option"
  mgw_safety_provider :: "safety_provider option"
  mgw_safety_policy :: "safety_policy option"
  mgw_metrics :: gateway_metrics

definition no_metrics :: gateway_metrics where
  "no_metrics = \<lparr>gm_pii = (\<lambda>_. 0), gm_safety = (\<lambda>_. 0), gm_calls = (\<lambda>_. 0), gm_duration = (\<lambda>_. []),
     gm_tokens = (\<lambda>_. 0), gm_cost = (\<lambda>_. 0)\<rparr>"

definition new_model_gateway ::
  "chat_provider \<Rightarrow> string \<Rightarrow> string set \<Rightarrow> tenant_budget \<Rightarrow> pricing_table \<Rightarrow> real \<Rightarrow> int
    \<Rightarrow> analyzer option \<Rightarrow> pii_policy option \<Rightarrow> safety_provider option \<Rightarrow> safety_policy option
    \<Rightarrow> gateway_metrics \<Rightarrow> exn + model_gateway" where
  "new_model_gateway provider provider_name allowlist budget pricing timeout_seconds max_attempts
     pii_detector pii_pol safety_prov safety_pol metrics =
     (if timeout_seconds \<le> 0 \<or> max_attempts < 1
      then Inl (ValueError ''Model gateway limits must be positive'')
      else Inr \<lparr>mgw_provider = provider, mgw_provider_name = provider_name,
                mgw_allowlist = allowlist, mgw_budget = budget, mgw_pricing = pricing,
                mgw_timeout = timeout_seconds, mgw_max_attempts = nat max_attempts,
                mgw_pii_detector = pii_detector, mgw_pii_policy = pii_pol,
                mgw_safety_provider = safety_prov, mgw_safety_policy = safety_pol,
                mgw_metrics = metrics\<rparr>)"

section \<open>Guards\<close>

definition record_pii_findings :: "string list \<Rightarrow> string \<Rightarrow> gateway_metrics \<Rightarrow> gateway_metrics" where
  "record_pii_findings types action m = m\<lparr>gm_pii := fold (\<lambda>t. inc [t, action]) types (gm_pii m)\<rparr>"

definition record_content_safety_findings ::
  "string list \<Rightarrow> string \<Rightarrow> gateway_metrics \<Rightarrow> gateway_metrics" where
  "record_content_safety_findings cats action m =
     m\<lparr>gm_safety := fold (\<lambda>c. inc [c, action]) cats (gm_safety m)\<rparr>"

definition scan_and_record ::
  "analyzer \<Rightarrow> pii_policy \<Rightarrow> string \<Rightarrow> gateway_metrics \<Rightarrow> (exn + string) \<times> gateway_metrics" where
  "scan_and_record detector policy s m =
     (case pii_scan detector s policy of
        Inl (PiiBlockedError msg types) \<Rightarrow>
          (Inl (PiiBlockedError msg types), record_pii_findings types ''blocked'' m)
      | Inl e \<Rightarrow> (Inl e, m)
      | Inr res \<Rightarrow>
          (Inr (ps_sanitized_text res),
           if ps_findings res \<noteq> []
           then record_pii_findings (map pf_entity_type (ps_findings res)) ''masked'' m else m))"

definition pii_guard_text ::
  "model_gateway \<Rightarrow> string \<Rightarrow> gateway_metrics \<Rightarrow> (exn + string) \<times> gateway_metrics" where
  "pii_guard_text gw s m =
     (case (mgw_pii_detector gw, mgw_pii_policy gw) of
        (Some detector, Some policy) \<Rightarrow> scan_and_record detector policy s m
      | _ \<Rightarrow> (Inr s, m))"

fun pii_guard_messages ::
  "model_gateway \<Rightarrow> chat_message list \<Rightarrow> gateway_metrics
    \<Rightarrow> (exn + chat_message list) \<times> gateway_metrics" where
  "pii_guard_messages gw [] m = (Inr [], m)"
| "pii_guard_messages gw (c # cs) m =
     (case pii_guard_text gw (cm_content c) m of
        (Inl e, m1) \<Rightarrow> (Inl e, m1)
      | (Inr s, m1) \<Rightarrow>
          (case pii_guard_messages gw cs m1 of
             (Inl e, m2) \<Rightarrow> (Inl e, m2)
           | (Inr cs', m2) \<Rightarrow> (Inr (c\<lparr>cm_content := s\<rparr> # cs'), m2)))"

fun check_texts ::
  "safety_provider \<Rightarrow> safety_policy \<Rightarrow> real \<Rightarrow> nat \<Rightarrow> string list \<Rightarrow> gateway_metrics
    \<Rightarrow> (exn + unit) \<times> gateway_metrics" where
  "check_texts prov policy timeout k [] m = (Inr (), m)"
| "check_texts prov policy timeout k (s # ss) m =
     (if s = [] then check_texts prov policy timeout (k + 1) ss m
      else case prov timeout k s of
          Inl e \<Rightarrow>
            if is_exception e
            then (Inl (ContentSafetyBlockedError
                    ''Content safety check was unavailable; request blocked as a precaution'' []),
                  record_content_safety_findings [''_unavailable''] ''provider_error'' m)
            else (Inl e, m)
        | Inr findings \<Rightarrow>
            let blocked = blocked_findings policy findings in
            if blocked \<noteq> []
            then (Inl (ContentSafetyBlockedError
                    (''Content violates policy: '' @ repr_list (sorted_set (map sf_category blocked)))
                    (map (\<lambda>f. (sf_category f, sf_severity f)) blocked)),
                  record_content_safety_findings (map sf_category blocked) ''blocked'' m)
            else check_texts prov policy timeout (k + 1) ss m)"

definition safety_guard ::
  "model_gateway \<Rightarrow> nat \<Rightarrow> string list \<Rightarrow> gateway_metrics \<Rightarrow> (exn + unit) \<times> gateway_metrics" where
  "safety_guard gw k texts m =
     (case (mgw_safety_provider gw, mgw_safety_policy gw) of
        (Some prov, Some policy) \<Rightarrow> check_texts prov policy (mgw_timeout gw) k texts m
      | _ \<Rightarrow> (Inr (), m))"

section \<open>Generation\<close>

definition estimate_prompt_tokens :: "generation_request \<Rightarrow> int" where
  "estimate_prompt_tokens q =
     max 1 (int (sum_list (map (\<lambda>c. length (cm_content c)) (gq_messages q))) div 4)"

text \<open>The body of one attempt; its text is the check number \<open>length messages + n\<close>.\<close>

definition generate_attempt ::
  "(real \<Rightarrow> real) \<Rightarrow> model_gateway \<Rightarrow> generation_request \<Rightarrow> nat \<Rightarrow> gateway_metrics
    \<Rightarrow> (exn + generation_result) \<times> gateway_metrics" where
  "generate_attempt round8 gw q n m =
     (case mgw_provider gw (mgw_timeout gw) n q of
        Inl e \<Rightarrow> (Inl e, m)
      | Inr raw \<Rightarrow>
          (case pii_guard_text gw (gs_content raw) m of
             (Inl e, m1) \<Rightarrow> (Inl e, m1)
           | (Inr content, m1) \<Rightarrow>
               (case safety_guard gw (length (gq_messages q) + n) [content] m1 of
                  (Inl e, m2) \<Rightarrow> (Inl e, m2)
                | (Inr _, m2) \<Rightarrow>
                    (Inr (raw\<lparr>gs_content := content,
                       gs_estimated_cost_gbp :=
                         estimate_cost_gbp round8 (mgw_pricing gw) (gs_model raw) (gs_usage raw)\<rparr>), m2))))"

fun generate_loop ::
  "(real \<Rightarrow> real) \<Rightarrow> model_gateway \<Rightarrow> generation_request \<Rightarrow> nat list \<Rightarrow> string \<Rightarrow> gateway_metrics
    \<Rightarrow> (exn + generation_result) \<times> string \<times> gateway_metrics" where
  "generate_loop round8 gw q [] outcome m =
     (Inl (ModelProviderFailure ''Model provider timed out on every attempt''), outcome, m)"
| "generate_loop round8 gw q (n # ns) outcome m =
     (case generate_attempt round8 gw q n m of
        (Inr r, m') \<Rightarrow> (Inr r, ''success'', m')
      | (Inl e, m') \<Rightarrow>
          (case e of
             TimeoutError \<Rightarrow> generate_loop round8 gw q ns ''timeout'' m'
           | PiiBlockedError _ _ \<Rightarrow> (Inl e, ''pii_blocked'', m')
           | ContentSafetyBlockedError _ _ \<Rightarrow> (Inl e, ''content_safety_blocked'', m')
           | ModelProviderFailure _ \<Rightarrow>
               if n = mgw_max_attempts gw then (Inl e, ''provider_error'', m')
               else generate_loop round8 gw q ns ''provider_error'' m'
           | _ \<Rightarrow> (Inl e, outcome, m')))"

definition record_success :: "generation_result \<Rightarrow> string \<Rightarrow> gateway_metrics \<Rightarrow> gateway_metrics" where
  "record_success r tenant m =
     (let i = [tenant, gs_provider r, ''input'']; o' = [tenant, gs_provider r, ''output''];
          c = [tenant, gs_provider r];
          tok = (gm_tokens m)(i := gm_tokens m i + tu_prompt_tokens (gs_usage r));
          tok = tok(o' := tok o' + tu_completion_tokens (gs_usage r))
      in m\<lparr>gm_tokens := tok,
           gm_cost := (gm_cost m)(c := gm_cost m c + gs_estimated_cost_gbp r),
           gm_calls := inc [tenant, gs_model r, gs_provider r, ''success''] (gm_calls m),
           gm_duration := observe [tenant, gs_model r, gs_provider r] (gs_latency_seconds r)
             (gm_duration m)\<rparr>)"

definition record_failure ::
  "string \<Rightarrow> string \<Rightarrow> string \<Rightarrow> real \<Rightarrow> string \<Rightarrow> gateway_metrics \<Rightarrow> gateway_metrics" where
  "record_failure model provider outcome duration_seconds tenant m =
     m\<lparr>gm_calls := inc [tenant, model, provider, outcome] (gm_calls m),
       gm_duration := observe [tenant, model, provider] duration_seconds (gm_duration m)\<rparr>"

record generation_env =
  ge_round8 :: "real \<Rightarrow> real"
  ge_show_g :: "real \<Rightarrow> string"
  ge_now :: real
  ge_duration :: real

text \<open>The second half of \<open>generate\<close>: reserve, call the provider, record.  \<open>sq\<close> is the sanitized
  request.\<close>

definition generate_reserved ::
  "generation_env \<Rightarrow> generation_request \<Rightarrow> generation_request \<Rightarrow> tenant_budget \<Rightarrow> gateway_metrics
    \<Rightarrow> model_gateway \<Rightarrow> (exn + generation_result) \<times> model_gateway" where
  "generate_reserved env q sq b m gw =
     (case generate_loop (ge_round8 env) gw sq [1..<Suc (mgw_max_attempts gw)] ''error'' m of
        (Inr r, outcome, m') \<Rightarrow>
          (Inr r, gw\<lparr>mgw_metrics := record_success r (gq_tenant sq) m', mgw_budget := b\<rparr>)
      | (Inl e, outcome, m') \<Rightarrow>
          (Inl e, gw\<lparr>mgw_metrics := record_failure (gq_model q) (mgw_provider_name gw) outcome
                       (ge_duration env) (gq_tenant q) m',
                     mgw_budget := b\<rparr>))"

definition preflight_cost :: "generation_env \<Rightarrow> generation_request \<Rightarrow> generation_request \<Rightarrow> model_gateway \<Rightarrow> real" where
  "preflight_cost env q sq gw =
     estimate_cost_gbp (ge_round8 env) (mgw_pricing gw) (gq_model q)
       \<lparr>tu_prompt_tokens = estimate_prompt_tokens sq, tu_completion_tokens = gq_max_tokens sq\<rparr>"

definition generate_sanitized ::
  "generation_env \<Rightarrow> generation_request \<Rightarrow> generation_request \<Rightarrow> gateway_metrics
    \<Rightarrow> model_gateway \<Rightarrow> (exn + generation_result) \<times> model_gateway" where
  "generate_sanitized env q sq m gw =
     (case safety_guard gw 0 (map cm_content (gq_messages sq)) m of
        (Inl e, m2) \<Rightarrow> (Inl e, gw\<lparr>mgw_metrics := m2\<rparr>)
      | (Inr _, m2) \<Rightarrow>
          (case check_and_reserve (ge_show_g env) (ge_now env) (gq_tenant q)
                  (preflight_cost env q sq gw) (mgw_budget gw) of
             (Inl e, b) \<Rightarrow> (Inl e, gw\<lparr>mgw_metrics := m2, mgw_budget := b\<rparr>)
           | (Inr _, b) \<Rightarrow> generate_reserved env q sq b m2 gw))"

definition generate ::
  "generation_env \<Rightarrow> generation_request \<Rightarrow> model_gateway \<Rightarrow> (exn + generation_result) \<times> model_gateway" where
  "generate env q gw =
     (case allowlist_check (mgw_allowlist gw) (gq_model q) of
        Inl e \<Rightarrow> (Inl e, gw)
      | Inr _ \<Rightarrow>
          (case pii_guard_messages gw (gq_messages q) (mgw_metrics gw) of
             (Inl e, m1) \<Rightarrow> (Inl e, gw\<lparr>mgw_metrics := m1\<rparr>)
           | (Inr messages, m1) \<Rightarrow>
               generate_sanitized env q (q\<lparr>gq_messages := messages\<rparr>) m1 gw))"

section \<open>What the guards let through\<close>

text \<open>The text after the PII guard, when both a detector and a policy are configured.\<close>

definition pii_cleared :: "model_gateway \<Rightarrow> string \<Rightarrow> string \<Rightarrow> bool" where
  "pii_cleared gw s s' \<longleftrightarrow>
     (case (mgw_pii_detector gw, mgw_pii_policy gw) of
        (Some detector, Some policy) \<Rightarrow>
          (\<exists>res. pii_scan detector s policy = Inr res \<and> ps_sanitized_text res = s')
      | _ \<Rightarrow> s' = s)"

definition safety_cleared :: "model_gateway \<Rightarrow> nat \<Rightarrow> string \<Rightarrow> bool" where
  "safety_cleared gw k s \<longleftrightarrow>
     (case (mgw_safety_provider gw, mgw_safety_policy gw) of
        (Some prov, Some policy) \<Rightarrow> s = [] \<or>
          (\<exists>findings. prov (mgw_timeout gw) k s = Inr findings \<and> blocked_findings policy findings = [])
      | _ \<Rightarrow> True)"

lemma pii_guard_text_Inr: "fst (pii_guard_text gw s m) = Inr s' \<longleftrightarrow> pii_cleared gw s s'"
  by (auto simp: pii_guard_text_def pii_cleared_def scan_and_record_def
      split: option.splits sum.splits exn.splits)

lemma pii_guard_messages_Inr:
  "fst (pii_guard_messages gw cs m) = Inr cs' \<longleftrightarrow>
     list_all2 (\<lambda>c c'. c' = c\<lparr>cm_content := cm_content c'\<rparr> \<and> pii_cleared gw (cm_content c) (cm_content c'))
       cs cs'"
proof (induction cs arbitrary: m cs')
  case Nil
  then show ?case by auto
next
  case (Cons c cs)
  obtain r m1 where g: "pii_guard_text gw (cm_content c) m = (r, m1)" by fastforce
  obtain r2 m2 where g2: "pii_guard_messages gw cs m1 = (r2, m2)" by fastforce
  have cl: "pii_cleared gw (cm_content c) s \<longleftrightarrow> r = Inr s" for s
    using pii_guard_text_Inr[of gw "cm_content c" m s] g by simp
  note ih = Cons.IH[of m1, unfolded g2 fst_conv]
  show ?case
  proof (cases r)
    case (Inl e)
    then show ?thesis using g cl by (cases cs') auto
  next
    case (Inr s)
    have upd: "c' = c\<lparr>cm_content := cm_content c'\<rparr> \<and> s = cm_content c' \<longleftrightarrow> c' = c\<lparr>cm_content := s\<rparr>" for c'
      by auto
    show ?thesis
      using Inr g g2 ih cl upd by (cases cs'; cases r2) auto
  qed
qed

lemma check_texts_Inr:
  "fst (check_texts prov policy timeout k ss m) = Inr () \<longleftrightarrow>
     (\<forall>i<length ss. ss ! i = [] \<or>
        (\<exists>findings. prov timeout (k + i) (ss ! i) = Inr findings \<and> blocked_findings policy findings = []))"
proof (induction prov policy timeout k ss m rule: check_texts.induct)
  case (1 prov policy timeout k m)
  then show ?case by simp
next
  case (2 prov policy timeout k s ss m)
  have shift: "(\<forall>i<length (s # ss). P i ((s # ss) ! i)) \<longleftrightarrow> P 0 s \<and> (\<forall>i<length ss. P (Suc i) (ss ! i))" for P
    by (auto simp: less_Suc_eq_0_disj)
  show ?case
  proof (cases "s = []")
    case True
    then show ?thesis using 2(1) shift[of "\<lambda>i t. t = [] \<or> (\<exists>f. prov timeout (k + i) t = Inr f \<and>
        blocked_findings policy f = [])"] by simp
  next
    case False
    then show ?thesis
      using 2(2) shift[of "\<lambda>i t. t = [] \<or> (\<exists>f. prov timeout (k + i) t = Inr f \<and>
        blocked_findings policy f = [])"]
      by (cases "prov timeout k s") (auto simp: Let_def)
  qed
qed

lemma safety_guard_Inr:
  "fst (safety_guard gw k ss m) = Inr () \<longleftrightarrow> (\<forall>i<length ss. safety_cleared gw (k + i) (ss ! i))"
  by (auto simp: safety_guard_def safety_cleared_def check_texts_Inr split: option.splits)

text \<open>Fail closed: when the safety service fails on a text, the guard refuses.\<close>

lemma safety_guard_unavailable:
  assumes "mgw_safety_provider gw = Some prov" and "mgw_safety_policy gw = Some policy"
    and "i < length ss" and "ss ! i \<noteq> []" and "prov (mgw_timeout gw) (k + i) (ss ! i) = Inl e"
  shows "\<not> is_ok (fst (safety_guard gw k ss m))"
proof -
  have "\<not> safety_cleared gw (k + i) (ss ! i)" using assms by (simp add: safety_cleared_def)
  then have "fst (safety_guard gw k ss m) \<noteq> Inr ()" using safety_guard_Inr assms(3) by metis
  then show ?thesis by (cases "fst (safety_guard gw k ss m)") auto
qed

lemma generate_attempt_Inr:
  "fst (generate_attempt round8 gw q n m) = Inr r \<longleftrightarrow>
     (\<exists>raw content. mgw_provider gw (mgw_timeout gw) n q = Inr raw \<and>
        pii_cleared gw (gs_content raw) content \<and>
        safety_cleared gw (length (gq_messages q) + n) content \<and>
        r = raw\<lparr>gs_content := content, gs_estimated_cost_gbp :=
              estimate_cost_gbp round8 (mgw_pricing gw) (gs_model raw) (gs_usage raw)\<rparr>)"
proof (cases "mgw_provider gw (mgw_timeout gw) n q")
  case (Inl e)
  then show ?thesis by (simp add: generate_attempt_def)
next
  case (Inr raw)
  obtain r1 m1 where g: "pii_guard_text gw (gs_content raw) m = (r1, m1)" by fastforce
  have cl: "pii_cleared gw (gs_content raw) s \<longleftrightarrow> r1 = Inr s" for s
    using pii_guard_text_Inr[of gw "gs_content raw" m s] g by simp
  show ?thesis
  proof (cases r1)
    case err: (Inl e)
    then show ?thesis using Inr g cl by (simp add: generate_attempt_def)
  next
    case ok: (Inr content)
    obtain r2 m2 where s: "safety_guard gw (length (gq_messages q) + n) [content] m1 = (r2, m2)"
      by fastforce
    have "safety_cleared gw (length (gq_messages q) + n) content \<longleftrightarrow> r2 = Inr ()"
      using safety_guard_Inr[of gw "length (gq_messages q) + n" "[content]" m1] s by simp
    then show ?thesis using Inr ok g s cl by (cases r2) (auto simp: generate_attempt_def)
  qed
qed

lemma generate_loop_Inr:
  "fst (generate_loop round8 gw q ns outcome m) = Inr r \<Longrightarrow>
     \<exists>n\<in>set ns. \<exists>m'. fst (generate_attempt round8 gw q n m') = Inr r"
proof (induction ns arbitrary: outcome m)
  case Nil
  then show ?case by simp
next
  case (Cons n ns)
  obtain r1 m1 where a: "generate_attempt round8 gw q n m = (r1, m1)" by fastforce
  show ?case
  proof (cases r1)
    case (Inr x)
    with Cons.prems a show ?thesis by (auto intro: exI[of _ m])
  next
    case (Inl e)
    have "\<exists>oc m'. fst (generate_loop round8 gw q ns oc m') = Inr r"
      using Cons.prems a Inl by (cases e) (auto split: if_splits)
    with Cons.IH show ?thesis by fastforce
  qed
qed

text \<open>The stages of a call, from the outside in.\<close>

lemma generate_reserved_Inr:
  assumes "generate_reserved env q sq b m gw = (Inr r, gw')"
  shows "mgw_budget gw' = b"
    and "\<exists>n\<in>{1..mgw_max_attempts gw}. \<exists>m'. fst (generate_attempt (ge_round8 env) gw sq n m') = Inr r"
proof -
  define loop where
    "loop = generate_loop (ge_round8 env) gw sq [1..<Suc (mgw_max_attempts gw)] ''error'' m"
  obtain r4 oc m4 where loop: "loop = (r4, oc, m4)" by (cases loop)
  have res: "generate_reserved env q sq b m gw = (case (r4, oc, m4) of
        (Inr r, outcome, m') \<Rightarrow>
          (Inr r, gw\<lparr>mgw_metrics := record_success r (gq_tenant sq) m', mgw_budget := b\<rparr>)
      | (Inl e, outcome, m') \<Rightarrow>
          (Inl e, gw\<lparr>mgw_metrics := record_failure (gq_model q) (mgw_provider_name gw) outcome
                       (ge_duration env) (gq_tenant q) m',
                     mgw_budget := b\<rparr>))"
    unfolding loop[symmetric] loop_def generate_reserved_def by (rule refl)
  obtain x where x: "r4 = Inr x" using assms res by (cases r4) simp_all
  then have r4: "r4 = Inr r" and b: "mgw_budget gw' = b"
    using assms res by auto
  show "mgw_budget gw' = b" by (rule b)
  have "fst loop = Inr r" using loop r4 by simp
  from generate_loop_Inr[OF this[unfolded loop_def]] show
    "\<exists>n\<in>{1..mgw_max_attempts gw}. \<exists>m'. fst (generate_attempt (ge_round8 env) gw sq n m') = Inr r"
    unfolding set_upt atLeastLessThanSuc_atLeastAtMost .
qed

lemma generate_sanitized_Inr:
  assumes "generate_sanitized env q sq m gw = (Inr r, gw')"
  shows "\<forall>i<length (gq_messages sq). safety_cleared gw i (cm_content (gq_messages sq ! i))"
    and "\<exists>b m2. check_and_reserve (ge_show_g env) (ge_now env) (gq_tenant q)
        (preflight_cost env q sq gw) (mgw_budget gw) = (Inr (), b) \<and>
      generate_reserved env q sq b m2 gw = (Inr r, gw')"
proof -
  obtain r2 m2 where s: "safety_guard gw 0 (map cm_content (gq_messages sq)) m = (r2, m2)" by fastforce
  with assms have r2: "r2 = Inr ()" by (cases r2) (auto simp: generate_sanitized_def)
  with s safety_guard_Inr[of gw 0 "map cm_content (gq_messages sq)" m]
  show "\<forall>i<length (gq_messages sq). safety_cleared gw i (cm_content (gq_messages sq ! i))" by simp
  obtain r3 b where c: "check_and_reserve (ge_show_g env) (ge_now env) (gq_tenant q)
      (preflight_cost env q sq gw) (mgw_budget gw) = (r3, b)" by fastforce
  with assms s r2 show "\<exists>b m2. check_and_reserve (ge_show_g env) (ge_now env) (gq_tenant q)
        (preflight_cost env q sq gw) (mgw_budget gw) = (Inr (), b) \<and>
      generate_reserved env q sq b m2 gw = (Inr r, gw')"
    by (cases r3) (auto simp: generate_sanitized_def)
qed

lemma generate_Inr:
  assumes "generate env q gw = (Inr r, gw')"
  shows "gq_model q \<in> mgw_allowlist gw"
    and "\<exists>messages m1. fst (pii_guard_messages gw (gq_messages q) (mgw_metrics gw)) = Inr messages \<and>
      generate_sanitized env q (q\<lparr>gq_messages := messages\<rparr>) m1 gw = (Inr r, gw')"
proof -
  show "gq_model q \<in> mgw_allowlist gw"
    using assms by (auto simp: generate_def allowlist_check_def split: if_splits)
  then have ok: "allowlist_check (mgw_allowlist gw) (gq_model q) = Inr ()"
    by (simp add: allowlist_check_def)
  obtain r1 m1 where p: "pii_guard_messages gw (gq_messages q) (mgw_metrics gw) = (r1, m1)" by fastforce
  with assms ok show "\<exists>messages m1. fst (pii_guard_messages gw (gq_messages q) (mgw_metrics gw)) = Inr messages \<and>
      generate_sanitized env q (q\<lparr>gq_messages := messages\<rparr>) m1 gw = (Inr r, gw')"
    by (cases r1) (auto simp: generate_def)
qed

text \<open>C22: an answer is returned only for an allowlisted model and a reserved budget, the provider was
  asked with the messages as the PII guard left them, each cleared by the content-safety check, and
  what is returned is the provider's text as the PII guard left it and cleared by the content-safety
  check, with the cost of the governed price table.\<close>

theorem generate_governed:
  assumes "generate env q gw = (Inr r, gw')"
  shows "gq_model q \<in> mgw_allowlist gw \<and>
    (\<exists>messages n raw.
       list_all2 (\<lambda>c c'. c' = c\<lparr>cm_content := cm_content c'\<rparr> \<and>
           pii_cleared gw (cm_content c) (cm_content c')) (gq_messages q) messages \<and>
       (\<forall>i<length messages. safety_cleared gw i (cm_content (messages ! i))) \<and>
       check_and_reserve (ge_show_g env) (ge_now env) (gq_tenant q)
         (preflight_cost env q (q\<lparr>gq_messages := messages\<rparr>) gw) (mgw_budget gw) =
         (Inr (), mgw_budget gw') \<and>
       n \<in> {1..mgw_max_attempts gw} \<and>
       mgw_provider gw (mgw_timeout gw) n (q\<lparr>gq_messages := messages\<rparr>) = Inr raw \<and>
       pii_cleared gw (gs_content raw) (gs_content r) \<and>
       safety_cleared gw (length messages + n) (gs_content r) \<and>
       gs_estimated_cost_gbp r =
         estimate_cost_gbp (ge_round8 env) (mgw_pricing gw) (gs_model raw) (gs_usage raw))"
proof -
  obtain messages m1 where pii: "fst (pii_guard_messages gw (gq_messages q) (mgw_metrics gw)) = Inr messages"
    and san: "generate_sanitized env q (q\<lparr>gq_messages := messages\<rparr>) m1 gw = (Inr r, gw')"
    using generate_Inr(2)[OF assms] by blast
  obtain b m2 where bud: "check_and_reserve (ge_show_g env) (ge_now env) (gq_tenant q)
        (preflight_cost env q (q\<lparr>gq_messages := messages\<rparr>) gw) (mgw_budget gw) = (Inr (), b)"
    and res: "generate_reserved env q (q\<lparr>gq_messages := messages\<rparr>) b m2 gw = (Inr r, gw')"
    using generate_sanitized_Inr(2)[OF san] by blast
  obtain n m' where n: "n \<in> {1..mgw_max_attempts gw}"
    and att: "fst (generate_attempt (ge_round8 env) gw (q\<lparr>gq_messages := messages\<rparr>) n m') = Inr r"
    using generate_reserved_Inr(2)[OF res] by blast
  from att obtain raw content where raw:
    "mgw_provider gw (mgw_timeout gw) n (q\<lparr>gq_messages := messages\<rparr>) = Inr raw"
    "pii_cleared gw (gs_content raw) content" "safety_cleared gw (length messages + n) content"
    "r = raw\<lparr>gs_content := content, gs_estimated_cost_gbp :=
       estimate_cost_gbp (ge_round8 env) (mgw_pricing gw) (gs_model raw) (gs_usage raw)\<rparr>"
    unfolding generate_attempt_Inr by auto
  have cleared: "\<forall>i<length messages. safety_cleared gw i (cm_content (messages ! i))"
    using generate_sanitized_Inr(1)[OF san] by simp
  show ?thesis
    using generate_Inr(1)[OF assms] pii[unfolded pii_guard_messages_Inr] cleared n raw bud
      generate_reserved_Inr(1)[OF res]
    by (intro conjI exI[of _ messages] exI[of _ n] exI[of _ raw]) simp_all
qed

text \<open>A call whose first attempt times out and whose second succeeds, with both guards configured.\<close>

definition sample_env :: generation_env where
  "sample_env = \<lparr>ge_round8 = id, ge_show_g = (\<lambda>_. []), ge_now = 0, ge_duration = 0\<rparr>"

definition sample_request :: generation_request where
  "sample_request = \<lparr>gq_model = ''gpt-4o-mini'', gq_messages = [\<lparr>cm_role = UserRole, cm_content = ''hello''\<rparr>],
     gq_tenant = ''wealth'', gq_agent = ''a'', gq_max_tokens = 10, gq_temperature = 0\<rparr>"

definition sample_result :: generation_result where
  "sample_result = \<lparr>gs_content = ''hi'', gs_model = ''gpt-4o-mini'', gs_provider = ''mock'',
     gs_usage = \<lparr>tu_prompt_tokens = 0, tu_completion_tokens = 0\<rparr>, gs_estimated_cost_gbp = 0,
     gs_latency_seconds = 0, gs_finish_reason = ''stop''\<rparr>"

definition sample_gateway :: model_gateway where
  "sample_gateway =
     \<lparr>mgw_provider = (\<lambda>_ n _. if n = 1 then Inl TimeoutError else Inr sample_result),
      mgw_provider_name = ''mock'', mgw_allowlist = {''gpt-4o-mini''},
      mgw_budget = \<lparr>bp_ceilings = [(''wealth'', 2)], bp_default_ceiling = None, bp_window = 86400,
        bp_spend = (\<lambda>_. [])\<rparr>,
      mgw_pricing = default_pricing, mgw_timeout = 20, mgw_max_attempts = 2,
      mgw_pii_detector = Some (\<lambda>_ _ _. Inr []),
      mgw_pii_policy = Some \<lparr>pp_mask_entities = [''PERSON''], pp_block_entities = [''IBAN_CODE''],
        pp_score_threshold = 1 / 2\<rparr>,
      mgw_safety_provider = Some (\<lambda>_ _ _. Inr [\<lparr>sf_category = ''Hate'', sf_severity = 0\<rparr>]),
      mgw_safety_policy = Some [(''Hate'', 4)], mgw_metrics = no_metrics\<rparr>"

lemma sample_clear:
  "fst (pii_guard_text sample_gateway s m) = Inr s" "snd (pii_guard_text sample_gateway s m) = m"
  "safety_guard sample_gateway k ss m = (Inr (), m)"
proof -
  show "fst (pii_guard_text sample_gateway s m) = Inr s" "snd (pii_guard_text sample_gateway s m) = m"
    by (simp_all add: pii_guard_text_def sample_gateway_def scan_and_record_def pii_scan_def Let_def
        order_results_def rightmost_first_def)
  have "check_texts (\<lambda>_ _ _. Inr [\<lparr>sf_category = ''Hate'', sf_severity = 0\<rparr>]) [(''Hate'', 4)] t k ss m =
      (Inr (), m)" for t
    by (induction ss arbitrary: k) (auto simp: blocked_findings_def threshold_of_def)
  then show "safety_guard sample_gateway k ss m = (Inr (), m)"
    by (simp add: safety_guard_def sample_gateway_def)
qed

lemma sample_pii_text: "pii_guard_text sample_gateway s m = (Inr s, m)"
  using sample_clear(1,2)[of s m] by (metis prod.collapse)

lemma sample_generates:
  "\<exists>gw'. generate sample_env sample_request sample_gateway = (Inr sample_result, gw')"
proof -
  have sq: "sample_request\<lparr>gq_messages := [\<lparr>cm_role = UserRole, cm_content = ''hello''\<rparr>]\<rparr> = sample_request"
    by (simp add: sample_request_def)
  have pii: "pii_guard_messages sample_gateway (gq_messages sample_request) m =
      (Inr [\<lparr>cm_role = UserRole, cm_content = ''hello''\<rparr>], m)" for m
    by (simp add: sample_request_def sample_pii_text)
  have first: "generate_attempt id sample_gateway sample_request 1 m = (Inl TimeoutError, m)" for m
    by (simp add: generate_attempt_def sample_gateway_def)
  have ans: "mgw_provider sample_gateway t 2 q = Inr sample_result" for t q
    by (simp add: sample_gateway_def)
  have cost: "estimate_cost_gbp id (mgw_pricing sample_gateway) (gs_model sample_result)
      (gs_usage sample_result) = 0"
    by (simp add: estimate_cost_gbp_def sample_result_def Let_def)
  have copy: "sample_result\<lparr>gs_estimated_cost_gbp := 0\<rparr> = sample_result"
    by (simp add: sample_result_def)
  have second: "generate_attempt id sample_gateway sample_request 2 m = (Inr sample_result, m)" for m
    unfolding generate_attempt_def by (simp add: ans sample_pii_text sample_clear cost copy)
  have att: "[1..<Suc (mgw_max_attempts sample_gateway)] = [1, 2]"
    by (simp add: sample_gateway_def upt_rec)
  have loop: "generate_loop id sample_gateway sample_request [1, 2] ''error'' m =
      (Inr sample_result, ''success'', m)" for m
    using first[of m] second[of m] by simp
  have "preflight_cost sample_env sample_request sample_request sample_gateway \<le> 2"
    by (simp add: preflight_cost_def sample_env_def estimate_cost_gbp_def sample_gateway_def
        default_pricing_def sample_request_def estimate_prompt_tokens_def Let_def)
  then have bud: "\<exists>b. check_and_reserve (ge_show_g sample_env) (ge_now sample_env)
      (gq_tenant sample_request) (preflight_cost sample_env sample_request sample_request sample_gateway)
      (mgw_budget sample_gateway) = (Inr (), b)"
    by (simp add: check_and_reserve_def ceiling_for_def ceiling_of_def sample_gateway_def
        sample_request_def Let_def)
  then obtain b where b: "check_and_reserve (ge_show_g sample_env) (ge_now sample_env)
      (gq_tenant sample_request) (preflight_cost sample_env sample_request sample_request sample_gateway)
      (mgw_budget sample_gateway) = (Inr (), b)" by blast
  have rounds: "ge_round8 sample_env = id" by (simp add: sample_env_def)
  have allowed: "allowlist_check (mgw_allowlist sample_gateway) (gq_model sample_request) = Inr ()"
    by (simp add: allowlist_check_def sample_gateway_def sample_request_def)
  show ?thesis
    by (simp add: generate_def allowed pii sq generate_sanitized_def sample_clear b
        generate_reserved_def rounds loop[folded att, unfolded One_nat_def] del: upt_Suc)
qed

theorem generate_governed_witness:
  "\<exists>gw'. generate sample_env sample_request sample_gateway = (Inr sample_result, gw') \<and>
     gq_model sample_request \<in> mgw_allowlist sample_gateway"
proof -
  obtain gw' where g: "generate sample_env sample_request sample_gateway = (Inr sample_result, gw')"
    using sample_generates by blast
  from generate_governed[OF g] g show ?thesis by blast
qed

end
