(* ===== verification/ModelFactory.thy ===== *)
theory ModelFactory
  imports ModelGateway Config Tenancy Retrieval
begin

text \<open>
  The chat adapters (model\_gateway/adapters/), the factory that assembles the gateway from settings
  and the tenant registry (model\_gateway/factory.py), and the answer synthesis that calls it
  (rag/synthesis.py).  \<open>chat_create\<close> is the call of the OpenAI client in one attempt, \<open>analyze\<close> that
  of the Azure Content Safety client, \<open>detector\<close> the shared Presidio analyzer.  \<open>TimeoutError\<close> from
  \<open>chat_create\<close> is the expiry of the gateway's own \<open>asyncio.timeout\<close>: it reaches the adapter as a
  cancellation, which \<open>except Exception\<close> lets pass (the client's own timeouts are \<open>APITimeoutError\<close>).
\<close>

section \<open>Adapters\<close>

definition bracketed :: "string \<Rightarrow> string" where
  "bracketed s = [CHR ''[''] @ s @ [CHR '']'']"

definition squoted :: "string \<Rightarrow> string" where
  "squoted s = [CHR 0x27] @ s @ [CHR 0x27]"

definition mock_generate :: "generation_request \<Rightarrow> exn + generation_result" where
  "mock_generate q =
     (let last_user_message =
            (case filter (\<lambda>c. cm_role c = UserRole) (rev (gq_messages q)) of
               [] \<Rightarrow> [] | c # _ \<Rightarrow> cm_content c);
          prompt_tokens = sum_list (map (\<lambda>c. max 1 (length (split_ws (cm_content c)))) (gq_messages q));
          content = bracketed ''mock-deterministic'' @ '' Acknowledged '' @
            show_nat (length (split_ws last_user_message)) @ '' word request for agent '' @
            squoted (gq_agent q) @ ''.''
      in Inr \<lparr>gs_content = content, gs_model = ''mock-deterministic'', gs_provider = ''mock'',
              gs_usage = \<lparr>tu_prompt_tokens = int prompt_tokens,
                          tu_completion_tokens = int (length (split_ws content))\<rparr>,
              gs_estimated_cost_gbp = 0, gs_latency_seconds = 0, gs_finish_reason = ''stop''\<rparr>)"

definition is_reasoning_model :: "string \<Rightarrow> bool" where
  "is_reasoning_model model \<longleftrightarrow> list_ex (\<lambda>p. starts_with p model) [''o1'', ''o3'', ''o4'', ''gpt-5'']"

text \<open>A chat completion as the OpenAI client returns it: the choices (content and finish reason),
  the usage if reported, the model that answered.\<close>

record completion =
  co_choices :: "(string option \<times> string) list"
  co_usage :: "(int \<times> int) option"
  co_model :: string

definition new_azure_openai :: "string \<Rightarrow> string \<Rightarrow> exn + unit" where
  "new_azure_openai endpoint api_version =
     (if endpoint = [] \<or> api_version = []
      then Inl (ValueError ''Azure OpenAI endpoint and api_version are required'') else Inr ())"

definition azure_generate ::
  "(string \<Rightarrow> (chat_role \<times> string) list \<Rightarrow> int \<Rightarrow> real option \<Rightarrow> exn + completion) \<Rightarrow> real
    \<Rightarrow> generation_request \<Rightarrow> exn + generation_result" where
  "azure_generate chat_create elapsed q =
     (let temperature = (if is_reasoning_model (gq_model q) then None else Some (gq_temperature q)) in
      case chat_create (gq_model q) (map (\<lambda>c. (cm_role c, cm_content c)) (gq_messages q))
             (gq_max_tokens q) temperature of
        Inl e \<Rightarrow>
          if is_exception e \<and> e \<noteq> TimeoutError then Inl (ModelProviderFailure ''Azure OpenAI request failed'')
          else Inl e
      | Inr response \<Rightarrow>
          (case (co_choices response, co_usage response) of
             ((Some content, finish_reason) # _, Some (p, c)) \<Rightarrow>
               if 0 \<le> p \<and> 0 \<le> c \<and> 0 \<le> elapsed
               then Inr \<lparr>gs_content = content, gs_model = co_model response,
                  gs_provider = ''azure_openai'',
                  gs_usage = \<lparr>tu_prompt_tokens = p, tu_completion_tokens = c\<rparr>,
                  gs_estimated_cost_gbp = 0, gs_latency_seconds = elapsed,
                  gs_finish_reason = finish_reason\<rparr>
               else Inl ValidationError
           | _ \<Rightarrow> Inl (ModelProviderFailure ''Azure OpenAI returned no usable completion'')))"

section \<open>The factory\<close>

record model_services =
  ms_complete :: "real \<Rightarrow> nat \<Rightarrow> string \<Rightarrow> (chat_role \<times> string) list \<Rightarrow> int \<Rightarrow> real option \<Rightarrow> exn + completion"
  ms_elapsed :: real
  ms_detector :: analyzer
  ms_analyze :: "real \<Rightarrow> nat \<Rightarrow> string \<Rightarrow> exn + (string \<times> int option) list"

definition select_provider :: "model_services \<Rightarrow> settings \<Rightarrow> exn + chat_provider \<times> string" where
  "select_provider sv s =
     (if st_model_gateway_provider s = AzureOpenAIProvider
      then if \<not> given (st_azure_openai_endpoint s)
           then Inl (ValueError ''Azure OpenAI endpoint is required for the azure_openai provider'')
           else case new_azure_openai (the (st_azure_openai_endpoint s)) (st_azure_openai_api_version s) of
               Inl e \<Rightarrow> Inl e
             | Inr _ \<Rightarrow> Inr (\<lambda>timeout n. azure_generate (ms_complete sv timeout n) (ms_elapsed sv),
                            ''azure_openai'')
      else Inr (\<lambda>timeout n. mock_generate, ''mock''))"

definition select_pii :: "model_services \<Rightarrow> settings \<Rightarrow> exn + (analyzer option \<times> pii_policy option)" where
  "select_pii sv s =
     (if st_pii_protection_enabled s
      then case new_pii_policy (sorted_set (st_pii_mask_entities s)) (sorted_set (st_pii_block_entities s))
                  (st_pii_score_threshold s) of
          Inl e \<Rightarrow> Inl e
        | Inr p \<Rightarrow> Inr (Some (ms_detector sv), Some p)
      else Inr (None, None))"

definition select_safety ::
  "model_services \<Rightarrow> settings \<Rightarrow> exn + (safety_provider option \<times> safety_policy option)" where
  "select_safety sv s =
     (if st_content_safety_enabled s
      then if st_content_safety_provider s = AzureSafety \<and> \<not> given (st_content_safety_endpoint s)
           then Inl (ValueError ''Azure Content Safety endpoint is required'')
           else let prov = (if st_content_safety_provider s = AzureSafety
                            then (\<lambda>timeout k. azure_content_safety (ms_analyze sv timeout k))
                            else (\<lambda>timeout k. mock_content_safety))
                in case new_content_safety_policy (st_content_safety_thresholds s) of
                     Inl e \<Rightarrow> Inl e
                   | Inr p \<Rightarrow> Inr (Some prov, Some p)
      else Inr (None, None))"

definition registry_ceilings :: "tenant_registry \<Rightarrow> (string \<times> real) list" where
  "registry_ceilings r = map (\<lambda>(name, b). (name, tb_token_budget_gbp b)) r"

definition build_model_gateway ::
  "model_services \<Rightarrow> settings \<Rightarrow> tenant_registry option \<Rightarrow> gateway_metrics \<Rightarrow> exn + model_gateway" where
  "build_model_gateway sv s registry metrics =
     (case select_provider sv s of
        Inl e \<Rightarrow> Inl e
      | Inr (provider, provider_name) \<Rightarrow>
     (case select_pii sv s of
        Inl e \<Rightarrow> Inl e
      | Inr (pii_detector, pii_pol) \<Rightarrow>
     (case select_safety sv s of
        Inl e \<Rightarrow> Inl e
      | Inr (safety_prov, safety_pol) \<Rightarrow>
     (case new_model_allowlist (set (st_model_gateway_allowlist s)) of
        Inl e \<Rightarrow> Inl e
      | Inr allowlist \<Rightarrow>
     (case new_tenant_budget (map_option registry_ceilings registry)
             (Some (st_model_gateway_daily_budget_gbp s)) 86400 of
        Inl e \<Rightarrow> Inl e
      | Inr budget \<Rightarrow>
          new_model_gateway provider provider_name allowlist budget default_pricing
            (st_model_gateway_timeout_seconds s) (st_model_gateway_max_attempts s)
            pii_detector pii_pol safety_prov safety_pol metrics)))))"

section \<open>Synthesis\<close>

definition newline :: string where
  "newline = [char_of (10 :: nat)]"

definition synthesis_instruction :: string where
  "synthesis_instruction =
     ''Answer the question using ONLY the evidence below. Cite every fact you '' @
     ''use with its bracketed chunk id exactly as given, for example '' @
     ''[POL-PAY-001#chunk-1]. If the evidence does not answer the question, '' @
     ''say so explicitly instead of guessing.''"

definition evidence_line :: "retrieval_hit \<Rightarrow> string" where
  "evidence_line h = bracketed (ci_chunk_id (rh_citation h)) @ '' '' @ rh_text h"

definition build_synthesis_prompt :: "string \<Rightarrow> retrieval_result \<Rightarrow> string" where
  "build_synthesis_prompt query evidence =
     synthesis_instruction @ newline @ newline @ ''Evidence:'' @ newline @
     join newline (map evidence_line evidence) @ newline @ newline @ ''Question: '' @ query"

definition synthesize_grounded_answer ::
  "generation_env \<Rightarrow> string \<Rightarrow> string \<Rightarrow> retrieval_result \<Rightarrow> string \<Rightarrow> model_gateway
    \<Rightarrow> (exn + string) \<times> model_gateway" where
  "synthesize_grounded_answer env model query evidence tenant gw =
     (if evidence = []
      then (Inr ''No relevant evidence was found; unable to answer from authorised sources.'', gw)
      else case new_chat_message UserRole (build_synthesis_prompt query evidence) of
          Inl e \<Rightarrow> (Inl e, gw)
        | Inr message \<Rightarrow>
            (case new_generation_request model [message] tenant ''rag-synthesis'' 512 0 of
               Inl e \<Rightarrow> (Inl e, gw)
             | Inr request \<Rightarrow>
                 (case generate env request gw of
                    (Inl e, gw') \<Rightarrow> (Inl e, gw')
                  | (Inr r, gw') \<Rightarrow> (Inr (gs_content r), gw'))))"

section \<open>Properties\<close>

lemma registry_ceilings_map_of:
  "map_of (registry_ceilings r) t = map_option tb_token_budget_gbp (map_of r t)"
  by (induction r) (auto simp: registry_ceilings_def)

lemma registry_ceilings_positive:
  "(\<forall>(n, b)\<in>set r. 0 < tb_token_budget_gbp b) \<Longrightarrow> \<not> list_ex (\<lambda>(_, v). v \<le> 0) (registry_ceilings r)"
  by (fastforce simp: registry_ceilings_def list_ex_iff)

text \<open>What the settings ask for: the chat provider, the guards, and the prices.\<close>

definition chosen_provider :: "model_services \<Rightarrow> settings \<Rightarrow> chat_provider" where
  "chosen_provider sv s =
     (if st_model_gateway_provider s = AzureOpenAIProvider
      then (\<lambda>timeout n. azure_generate (ms_complete sv timeout n) (ms_elapsed sv))
      else (\<lambda>timeout n. mock_generate))"

definition chosen_safety :: "model_services \<Rightarrow> settings \<Rightarrow> safety_provider" where
  "chosen_safety sv s =
     (if st_content_safety_provider s = AzureSafety
      then (\<lambda>timeout k. azure_content_safety (ms_analyze sv timeout k))
      else (\<lambda>timeout k. mock_content_safety))"

definition price_list :: "string \<Rightarrow> real \<times> real" where
  "price_list model =
     (if model = ''mock-deterministic'' then (0, 0)
      else if model = ''gpt-4o-mini'' then (12 / 100000, 48 / 100000)
      else if model = ''gpt-4o'' then (2 / 1000, 8 / 1000)
      else (1 / 1000, 2 / 1000))"

text \<open>Settings that the validator of the settings lets pass, but the constructors do not.\<close>

definition bad_thresholds :: "(string \<times> int) list \<Rightarrow> bool" where
  "bad_thresholds t \<longleftrightarrow> t = [] \<or> (\<exists>v\<in>snd ` set t. v < 0 \<or> 7 < v)"

definition misconfigured :: "settings \<Rightarrow> bool" where
  "misconfigured s \<longleftrightarrow>
     st_model_gateway_provider s = AzureOpenAIProvider \<and> st_azure_openai_api_version s = [] \<or>
     st_content_safety_enabled s \<and> bad_thresholds (st_content_safety_thresholds s)"

lemma new_content_safety_policy_cases:
  "bad_thresholds t \<and> (\<exists>m. new_content_safety_policy t = Inl (ValueError m)) \<or>
   \<not> bad_thresholds t \<and> new_content_safety_policy t = Inr t"
proof -
  have "list_ex (\<lambda>(_, v). \<not> (0 \<le> v \<and> v \<le> 7)) t \<longleftrightarrow> (\<exists>v\<in>snd ` set t. v < 0 \<or> 7 < v)"
    by (induction t) (auto simp: not_le)
  then show ?thesis by (simp add: bad_thresholds_def new_content_safety_policy_def)
qed

lemma select_provider_loaded:
  assumes "load_settings s = Inr s'"
  shows "(\<exists>m. select_provider sv s = Inl (ValueError m)) \<and>
      st_model_gateway_provider s = AzureOpenAIProvider \<and> st_azure_openai_api_version s = [] \<or>
    select_provider sv s = Inr (chosen_provider sv s,
      if st_model_gateway_provider s = AzureOpenAIProvider then ''azure_openai'' else ''mock'') \<and>
      \<not> (st_model_gateway_provider s = AzureOpenAIProvider \<and> st_azure_openai_api_version s = [])"
  using load_settings_secure[OF assms]
  by (auto simp: select_provider_def new_azure_openai_def chosen_provider_def given_def secure_def
      split: option.splits)

lemma select_pii_loaded:
  assumes "load_settings s = Inr s'"
  shows "select_pii sv s = Inr (if st_pii_protection_enabled s
    then (Some (ms_detector sv), Some \<lparr>pp_mask_entities = sorted_set (st_pii_mask_entities s),
      pp_block_entities = sorted_set (st_pii_block_entities s), pp_score_threshold = st_pii_score_threshold s\<rparr>)
    else (None, None))"
  using load_settings_secure[OF assms]
  by (auto simp: select_pii_def new_pii_policy_def secure_def fields_valid_def)

lemma select_safety_loaded:
  assumes "load_settings s = Inr s'"
  shows "(\<exists>m. select_safety sv s = Inl (ValueError m)) \<and> st_content_safety_enabled s \<and>
      bad_thresholds (st_content_safety_thresholds s) \<or>
    select_safety sv s = Inr (if st_content_safety_enabled s
      then (Some (chosen_safety sv s), Some (st_content_safety_thresholds s)) else (None, None)) \<and>
      \<not> (st_content_safety_enabled s \<and>
        bad_thresholds (st_content_safety_thresholds s))"
proof -
  have "st_content_safety_provider s = AzureSafety \<longrightarrow> given (st_content_safety_endpoint s)"
    using load_settings_secure[OF assms(1)] by (simp add: secure_def)
  then show ?thesis
    using new_content_safety_policy_cases[of "st_content_safety_thresholds s"]
    by (auto simp: select_safety_def chosen_safety_def Let_def)
qed

lemma default_prices:
  "estimate_cost_gbp round8 default_pricing model u =
     round8 (of_int (tu_prompt_tokens u) / 1000 * fst (price_list model) +
       of_int (tu_completion_tokens u) / 1000 * snd (price_list model))"
  by (simp add: estimate_cost_gbp_def default_pricing_def price_list_def)

lemma built_gateway_exact:
  assumes "load_settings s = Inr s'" and "\<forall>(n, b)\<in>set registry. bundle_valid b"
  shows "case build_model_gateway sv s (Some registry) metrics of
      Inl e \<Rightarrow> (\<exists>m. e = ValueError m) \<and> misconfigured s
    | Inr gw \<Rightarrow> \<not> misconfigured s \<and>
        mgw_provider gw = chosen_provider sv s \<and>
        mgw_provider_name gw =
          (if st_model_gateway_provider s = AzureOpenAIProvider then ''azure_openai'' else ''mock'') \<and>
        mgw_allowlist gw = set (st_model_gateway_allowlist s) \<and>
        (\<forall>t. ceiling_of (mgw_budget gw) t =
           (case tr_get registry t of Inr b \<Rightarrow> Some (tb_token_budget_gbp b)
            | Inl _ \<Rightarrow> Some (st_model_gateway_daily_budget_gbp s))) \<and>
        bp_window (mgw_budget gw) = 86400 \<and> bp_spend (mgw_budget gw) = (\<lambda>_. []) \<and>
        (\<forall>round8 model u. estimate_cost_gbp round8 (mgw_pricing gw) model u =
           round8 (of_int (tu_prompt_tokens u) / 1000 * fst (price_list model) +
             of_int (tu_completion_tokens u) / 1000 * snd (price_list model))) \<and>
        mgw_timeout gw = st_model_gateway_timeout_seconds s \<and>
        int (mgw_max_attempts gw) = st_model_gateway_max_attempts s \<and> mgw_max_attempts gw \<in> {1..3} \<and>
        (mgw_pii_detector gw, mgw_pii_policy gw) = (if st_pii_protection_enabled s
           then (Some (ms_detector sv), Some \<lparr>pp_mask_entities = sorted_set (st_pii_mask_entities s),
             pp_block_entities = sorted_set (st_pii_block_entities s), pp_score_threshold = st_pii_score_threshold s\<rparr>)
           else (None, None)) \<and>
        (mgw_safety_provider gw, mgw_safety_policy gw) = (if st_content_safety_enabled s
           then (Some (chosen_safety sv s), Some (st_content_safety_thresholds s)) else (None, None)) \<and>
        mgw_metrics gw = metrics"
proof -
  note fv = load_settings_secure[OF assms(1)]
  have allow: "new_model_allowlist (set (st_model_gateway_allowlist s)) = Inr (set (st_model_gateway_allowlist s))"
    using fv by (simp add: new_model_allowlist_def secure_def)
  have pos: "\<forall>(n, b)\<in>set registry. 0 < tb_token_budget_gbp b"
    using assms(2) by (auto simp: bundle_valid_def)
  have dflt: "0 < st_model_gateway_daily_budget_gbp s" using fv by (simp add: fields_valid_def)
  obtain b where b: "new_tenant_budget (map_option registry_ceilings (Some registry))
      (Some (st_model_gateway_daily_budget_gbp s)) 86400 = Inr b"
    using registry_ceilings_positive[OF pos] dflt by (simp add: new_tenant_budget_def)
  note binv = new_tenant_budget_inv(2,3)[OF b]
  have ceil: "ceiling_of b t = (case tr_get registry t of Inr b \<Rightarrow> Some (tb_token_budget_gbp b)
        | Inl _ \<Rightarrow> Some (st_model_gateway_daily_budget_gbp s))" for t
    using new_tenant_budget_inv(4)[OF b, of t]
    by (auto simp: registry_ceilings_map_of tr_get_def split: option.splits)
  have lim: "0 < st_model_gateway_timeout_seconds s" "1 \<le> st_model_gateway_max_attempts s"
    "st_model_gateway_max_attempts s \<le> 3"
    using fv by (simp_all add: fields_valid_def)
  then have att: "nat (st_model_gateway_max_attempts s) \<in> {1..3}" by auto
  note pii = select_pii_loaded[OF assms(1), of sv]
  from select_provider_loaded[OF assms(1), of sv] show ?thesis
  proof
    assume "(\<exists>m. select_provider sv s = Inl (ValueError m)) \<and>
      st_model_gateway_provider s = AzureOpenAIProvider \<and> st_azure_openai_api_version s = []"
    then show ?thesis by (auto simp: build_model_gateway_def misconfigured_def)
  next
    assume pr: "select_provider sv s = Inr (chosen_provider sv s,
        if st_model_gateway_provider s = AzureOpenAIProvider then ''azure_openai'' else ''mock'') \<and>
      \<not> (st_model_gateway_provider s = AzureOpenAIProvider \<and> st_azure_openai_api_version s = [])"
    from select_safety_loaded[OF assms(1), of sv] show ?thesis
    proof
      assume "(\<exists>m. select_safety sv s = Inl (ValueError m)) \<and> st_content_safety_enabled s \<and>
        bad_thresholds (st_content_safety_thresholds s)"
      then show ?thesis using pr pii by (auto simp: build_model_gateway_def misconfigured_def)
    next
      assume saf: "select_safety sv s = Inr (if st_content_safety_enabled s
          then (Some (chosen_safety sv s), Some (st_content_safety_thresholds s)) else (None, None)) \<and>
        \<not> (st_content_safety_enabled s \<and>
          bad_thresholds (st_content_safety_thresholds s))"
      have fine: "\<not> misconfigured s" using pr saf unfolding misconfigured_def by blast
      define pd where "pd = (if st_pii_protection_enabled s
           then (Some (ms_detector sv), Some \<lparr>pp_mask_entities = sorted_set (st_pii_mask_entities s),
             pp_block_entities = sorted_set (st_pii_block_entities s), pp_score_threshold = st_pii_score_threshold s\<rparr>)
           else (None, None))"
      define sd where "sd = (if st_content_safety_enabled s
          then (Some (chosen_safety sv s), Some (st_content_safety_thresholds s)) else (None, None))"
      have sel: "select_pii sv s = Inr (fst pd, snd pd)" "select_safety sv s = Inr (fst sd, snd sd)"
        using pii saf by (simp_all add: pd_def sd_def)
      have "build_model_gateway sv s (Some registry) metrics =
          Inr \<lparr>mgw_provider = chosen_provider sv s,
            mgw_provider_name = (if st_model_gateway_provider s = AzureOpenAIProvider then ''azure_openai'' else ''mock''),
            mgw_allowlist = set (st_model_gateway_allowlist s), mgw_budget = b, mgw_pricing = default_pricing,
            mgw_timeout = st_model_gateway_timeout_seconds s, mgw_max_attempts = nat (st_model_gateway_max_attempts s),
            mgw_pii_detector = fst pd, mgw_pii_policy = snd pd, mgw_safety_provider = fst sd,
            mgw_safety_policy = snd sd, mgw_metrics = metrics\<rparr>"
        using pr sel allow b lim by (simp add: build_model_gateway_def new_model_gateway_def split_beta)
      then show ?thesis
        unfolding pd_def[symmetric] sd_def[symmetric]
        using fine ceil binv lim att default_prices by simp
    qed
  qed
qed

lemma built_gateway:
  assumes "load_settings s = Inr s'" and "st_azure_openai_api_version s \<noteq> []"
    and "st_content_safety_enabled s \<Longrightarrow> is_ok (new_content_safety_policy (st_content_safety_thresholds s))"
    and "\<forall>(n, b)\<in>set registry. bundle_valid b"
  shows "\<exists>gw. build_model_gateway sv s (Some registry) metrics = Inr gw"
proof -
  have "\<not> misconfigured s"
    using assms(2,3) new_content_safety_policy_cases[of "st_content_safety_thresholds s"]
    by (auto simp: misconfigured_def is_ok_iff)
  with built_gateway_exact[OF assms(1,4), of sv metrics] show ?thesis by (auto split: sum.splits)
qed

text \<open>C23: for settings that the validator accepts and a registry of valid bundles, the factory fails
  exactly when a constructor refuses what the validator let pass: the Azure client an empty API version, the
  content-safety policy no thresholds or one outside 0 to 7.  Otherwise the gateway is the one the
  settings describe: their chat provider, models, timeout and attempts; for each tenant the token budget of
  its own bundle as its ceiling per day (the fallback only without a bundle), with nothing spent; the prices of
  the list, with the price of an unknown model never zero; and the two guards, each exactly when it is enabled, with the
  entities to mask and to block, the score threshold and the severities of the settings.\<close>

theorem built_gateway_enforces_settings:
  assumes "load_settings s = Inr s'" and "\<forall>(n, b)\<in>set registry. bundle_valid b"
  shows "case build_model_gateway sv s (Some registry) metrics of
      Inl e \<Rightarrow> (\<exists>m. e = ValueError m) \<and> misconfigured s
    | Inr gw \<Rightarrow> \<not> misconfigured s \<and>
        mgw_provider gw = chosen_provider sv s \<and>
        mgw_provider_name gw =
          (if st_model_gateway_provider s = AzureOpenAIProvider then ''azure_openai'' else ''mock'') \<and>
        mgw_allowlist gw = set (st_model_gateway_allowlist s) \<and>
        (\<forall>t. ceiling_of (mgw_budget gw) t =
           (case tr_get registry t of Inr b \<Rightarrow> Some (tb_token_budget_gbp b)
            | Inl _ \<Rightarrow> Some (st_model_gateway_daily_budget_gbp s))) \<and>
        bp_window (mgw_budget gw) = 86400 \<and> bp_spend (mgw_budget gw) = (\<lambda>_. []) \<and>
        (\<forall>round8 model u. estimate_cost_gbp round8 (mgw_pricing gw) model u =
           round8 (of_int (tu_prompt_tokens u) / 1000 * fst (price_list model) +
             of_int (tu_completion_tokens u) / 1000 * snd (price_list model))) \<and>
        mgw_timeout gw = st_model_gateway_timeout_seconds s \<and>
        int (mgw_max_attempts gw) = st_model_gateway_max_attempts s \<and> mgw_max_attempts gw \<in> {1..3} \<and>
        (mgw_pii_detector gw, mgw_pii_policy gw) = (if st_pii_protection_enabled s
           then (Some (ms_detector sv), Some \<lparr>pp_mask_entities = sorted_set (st_pii_mask_entities s),
             pp_block_entities = sorted_set (st_pii_block_entities s), pp_score_threshold = st_pii_score_threshold s\<rparr>)
           else (None, None)) \<and>
        (mgw_safety_provider gw, mgw_safety_policy gw) = (if st_content_safety_enabled s
           then (Some (chosen_safety sv s), Some (st_content_safety_thresholds s)) else (None, None)) \<and>
        mgw_metrics gw = metrics"
  using assms by (rule built_gateway_exact)

definition sample_services :: model_services where
  "sample_services = \<lparr>ms_complete = (\<lambda>_ _ _ _ _ _. Inl TimeoutError), ms_elapsed = 0,
     ms_detector = (\<lambda>_ _ _. Inr []), ms_analyze = (\<lambda>_ _ _. Inr [])\<rparr>"

theorem built_gateway_enforces_settings_witness:
  "\<exists>gw. build_model_gateway sample_services default_settings (Some sample_registry) no_metrics = Inr gw \<and>
     ceiling_of (mgw_budget gw) ''unknown'' = Some 5 \<and>
     estimate_cost_gbp id (mgw_pricing gw) ''gpt-4o'' \<lparr>tu_prompt_tokens = 500, tu_completion_tokens = 250\<rparr> = 3 / 1000 \<and>
     (\<exists>pol. mgw_pii_policy gw = Some pol \<and> ''PERSON'' \<in> set (pp_mask_entities pol) \<and>
        ''CREDIT_CARD'' \<in> set (pp_block_entities pol))"
proof -
  have reg: "\<forall>(n, b)\<in>set sample_registry. bundle_valid b"
    "tr_get sample_registry ''unknown'' = Inl (UnknownTenantError (''No config bundle for tenant '' @ repr_str ''unknown''))"
    using sample_bundle_valid by (simp_all add: sample_registry_def tr_get_def)
  have fine: "\<not> misconfigured default_settings"
    by (simp add: misconfigured_def bad_thresholds_def default_settings_def)
  obtain gw where gw: "build_model_gateway sample_services default_settings (Some sample_registry) no_metrics = Inr gw"
    using built_gateway_enforces_settings[OF load_default_settings reg(1), of sample_services no_metrics] fine
    by (auto split: sum.splits)
  note all = built_gateway_enforces_settings[OF load_default_settings reg(1), of sample_services no_metrics,
      unfolded gw sum.case]
  have "ceiling_of (mgw_budget gw) ''unknown'' = Some 5"
    using all reg(2) by (simp add: default_settings_def)
  moreover have "price_list ''gpt-4o'' = (2 / 1000, 8 / 1000)" by (simp add: price_list_def)
  then have "estimate_cost_gbp id (mgw_pricing gw) ''gpt-4o'' \<lparr>tu_prompt_tokens = 500, tu_completion_tokens = 250\<rparr> = 3 / 1000"
    using all by simp
  moreover have "mgw_pii_policy gw = Some \<lparr>pp_mask_entities = sorted_set (st_pii_mask_entities default_settings),
      pp_block_entities = sorted_set (st_pii_block_entities default_settings),
      pp_score_threshold = st_pii_score_threshold default_settings\<rparr>"
    using all by (simp add: default_settings_def)
  ultimately show ?thesis using gw by (simp add: default_settings_def)
qed

text \<open>The estimate that reserves budget is not an upper bound: for a request of many short words
  it is below the prompt tokens that the platform's own mock provider then reports.\<close>

definition short_words :: generation_request where
  "short_words = \<lparr>gq_model = ''mock-deterministic'',
     gq_messages = [\<lparr>cm_role = UserRole, cm_content = ''a b c d e f g h''\<rparr>], gq_tenant = ''wealth'',
     gq_agent = ''a'', gq_max_tokens = 512, gq_temperature = 0\<rparr>"

theorem estimate_not_conservative:
  "request_valid short_words \<and>
   (case mock_generate short_words of
      Inl _ \<Rightarrow> False
    | Inr r \<Rightarrow> estimate_prompt_tokens short_words < tu_prompt_tokens (gs_usage r))"
  by code_simp

end
