(* ===== verification/McpGateway.thy ===== *)
theory McpGateway
  imports SlidingWindow Http
begin

text \<open>
  The governed tool gateway (mcp\_boundary/gateway.py): registration, authorization, rate limit,
  argument validation, the retry loop around the handler, metrics and the audit trail.

  A handler is run under a timeout; \<open>tg_handler timeout n input caller\<close> is the outcome of attempt
  \<open>n\<close> (\<open>TimeoutError\<close> when \<open>asyncio.timeout\<close> expires), so a handler may behave differently on every
  attempt.  \<open>sha256\<close> is \<open>hashlib.sha256(s.encode()).hexdigest()\<close> and \<open>round3\<close> rounding to three
  decimals.  \<open>perf_counter\<close> is monotonic, so the constraint \<open>duration_ms >= 0\<close> of the audit record
  cannot fail and is left out.
\<close>

section \<open>Callers, tools, audit records\<close>

record caller_context =
  cc_subject :: string
  cc_roles :: "string set"
  cc_agent :: string
  cc_request_id :: string

definition agent_names :: "string list" where
  "agent_names = [''customer'', ''payments'', ''policy'']"

text \<open>\<open>CallerContext(...)\<close>: strings are stripped, those of the role set too, then checked.\<close>

definition new_caller_context ::
  "string \<Rightarrow> string set \<Rightarrow> string \<Rightarrow> string \<Rightarrow> exn + caller_context" where
  "new_caller_context subject roles agent request_id =
     (let s = field_strip subject; r = field_strip request_id in
      if 1 \<le> length s \<and> length s \<le> 128 \<and> agent \<in> set agent_names \<and>
         1 \<le> length r \<and> length r \<le> 128
      then Inr \<lparr>cc_subject = s, cc_roles = field_strip ` roles, cc_agent = agent, cc_request_id = r\<rparr>
      else Inl ValidationError)"

type_synonym tool_args = "(string \<times> pyval) list"

record ('i, 'o) tool_registration =
  tg_name :: string
  tg_allowed_agents :: "string set"
  tg_required_roles :: "string set"
  tg_input_model :: "tool_args \<Rightarrow> exn + 'i"
  tg_output_model :: "'o \<Rightarrow> exn + 'o"
  tg_handler :: "real \<Rightarrow> nat \<Rightarrow> 'i \<Rightarrow> caller_context \<Rightarrow> exn + 'o"

datatype audit_outcome = Success | Denied | Invalid | TimedOut | Errored

fun outcome_name :: "audit_outcome \<Rightarrow> string" where
  "outcome_name Success = ''success''"
| "outcome_name Denied = ''denied''"
| "outcome_name Invalid = ''invalid''"
| "outcome_name TimedOut = ''timeout''"
| "outcome_name Errored = ''error''"

record audit_record =
  au_timestamp :: real
  au_request_id :: string
  au_subject :: string
  au_agent :: string
  au_tool :: string
  au_argument_fingerprint :: string
  au_outcome :: audit_outcome
  au_duration_ms :: real
  au_attempt_count :: nat

section \<open>The gateway\<close>

record ('i, 'o) mcp_gateway =
  mg_timeout :: real
  mg_max_attempts :: nat
  mg_rate_limit :: int
  mg_rate_window :: int
  mg_tools :: "(string \<times> ('i, 'o) tool_registration) list"
  mg_requests :: "string \<Rightarrow> real list"
  mg_audit :: "audit_record list"
  mg_calls :: counter
  mg_duration :: histogram

definition new_mcp_gateway ::
  "real \<Rightarrow> int \<Rightarrow> int \<Rightarrow> int \<Rightarrow> audit_record list \<Rightarrow> exn + ('i, 'o) mcp_gateway" where
  "new_mcp_gateway timeout_seconds max_attempts rate_limit rate_window_seconds audit =
     (if timeout_seconds \<le> 0 \<or> max_attempts < 1 \<or> rate_limit < 1
      then Inl (ValueError ''MCP limits must be positive'')
      else Inr \<lparr>mg_timeout = timeout_seconds, mg_max_attempts = nat max_attempts,
                mg_rate_limit = rate_limit, mg_rate_window = rate_window_seconds, mg_tools = [],
                mg_requests = (\<lambda>_. []), mg_audit = audit, mg_calls = (\<lambda>_. 0),
                mg_duration = (\<lambda>_. [])\<rparr>)"

definition mcp_register ::
  "('i, 'o) tool_registration \<Rightarrow> ('i, 'o) mcp_gateway \<Rightarrow> exn + ('i, 'o) mcp_gateway" where
  "mcp_register registration g =
     (if tg_name registration \<in> set (map fst (mg_tools g))
      then Inl (ValueError (''Duplicate MCP tool registration: '' @ tg_name registration))
      else Inr (g\<lparr>mg_tools := AList.update (tg_name registration) registration (mg_tools g)\<rparr>))"

definition approved_tools :: "('i, 'o) mcp_gateway \<Rightarrow> string list" where
  "approved_tools g = sort (map fst (mg_tools g))"

definition mcp_admit :: "real \<Rightarrow> string \<Rightarrow> ('i, 'o) mcp_gateway \<Rightarrow> (exn + unit) \<times> ('i, 'o) mcp_gateway" where
  "mcp_admit now key g =
     (let requests = dropWhile (\<lambda>t. t \<le> now - of_int (mg_rate_window g)) (mg_requests g key)
      in if int (length requests) \<ge> mg_rate_limit g
         then (Inl (MCPAccessDenied ''Tool rate limit exceeded''),
               g\<lparr>mg_requests := (mg_requests g)(key := requests)\<rparr>)
         else (Inr (), g\<lparr>mg_requests := (mg_requests g)(key := requests @ [now])\<rparr>))"

definition mcp_check_rate_limit ::
  "real \<Rightarrow> string \<Rightarrow> string \<Rightarrow> ('i, 'o) mcp_gateway \<Rightarrow> (exn + unit) \<times> ('i, 'o) mcp_gateway" where
  "mcp_check_rate_limit now subject tool_name g = mcp_admit now (subject @ '':'' @ tool_name) g"

definition attempt_result :: "(nat \<Rightarrow> exn + 'o) \<Rightarrow> ('o \<Rightarrow> exn + 'o) \<Rightarrow> nat \<Rightarrow> exn + 'o" where
  "attempt_result run validate n = (case run n of Inl e \<Rightarrow> Inl e | Inr raw \<Rightarrow> validate raw)"

text \<open>The attempts \<open>ns\<close> still to be made; \<open>attempts\<close> and \<open>outcome\<close> are the local variables.\<close>

fun attempt_loop ::
  "(nat \<Rightarrow> exn + 'o) \<Rightarrow> ('o \<Rightarrow> exn + 'o) \<Rightarrow> nat \<Rightarrow> nat list \<Rightarrow> nat \<Rightarrow> audit_outcome
    \<Rightarrow> (exn + 'o) \<times> audit_outcome \<times> nat" where
  "attempt_loop run validate max_attempts [] attempts outcome =
     (Inl (MCPToolFailure ''Tool execution timed out''), outcome, attempts)"
| "attempt_loop run validate max_attempts (n # ns) attempts outcome =
     (case attempt_result run validate n of
        Inr out \<Rightarrow> (Inr out, Success, n)
      | Inl e \<Rightarrow>
          if e = TimeoutError then attempt_loop run validate max_attempts ns n TimedOut
          else if is_lookup_error e \<or> e = ValidationError
          then (Inl (MCPToolFailure ''Tool returned no valid result''), Errored, n)
          else if is_exception e
          then (if n = max_attempts then (Inl (MCPToolFailure ''Tool execution failed''), Errored, n)
                else attempt_loop run validate max_attempts ns n Errored)
          else (Inl e, outcome, n))"

definition invoke_body ::
  "real \<Rightarrow> string \<Rightarrow> tool_args \<Rightarrow> caller_context \<Rightarrow> ('i, 'o) mcp_gateway
    \<Rightarrow> ((exn + 'o) \<times> audit_outcome \<times> nat) \<times> ('i, 'o) mcp_gateway" where
  "invoke_body now tool_name args caller g =
     (case map_of (mg_tools g) tool_name of
        None \<Rightarrow> ((Inl (MCPToolNotFound ''Tool is not approved''), Denied, 0), g)
      | Some reg \<Rightarrow>
          if cc_agent caller \<notin> tg_allowed_agents reg
          then ((Inl (MCPAccessDenied ''Agent is not permitted to use this tool''), Denied, 0), g)
          else if \<not> tg_required_roles reg \<subseteq> cc_roles caller
          then ((Inl (MCPAccessDenied ''Caller lacks the required tool role''), Denied, 0), g)
          else (case mcp_check_rate_limit now (cc_subject caller) tool_name g of
                  (Inl e, g') \<Rightarrow> ((Inl e, Denied, 0), g')
                | (Inr _, g') \<Rightarrow>
                    (case tg_input_model reg args of
                       Inl _ \<Rightarrow>
                         ((Inl (MCPInvalidArguments ''Tool arguments failed schema validation''),
                           Invalid, 0), g')
                     | Inr validated \<Rightarrow>
                         (attempt_loop (\<lambda>n. tg_handler reg (mg_timeout g) n validated caller)
                            (tg_output_model reg) (mg_max_attempts g)
                            [1..<Suc (mg_max_attempts g)] 0 Errored, g'))))"

record call_times =
  ct_started :: real
  ct_now :: real
  ct_ended :: real
  ct_stamp :: real

definition mcp_invoke ::
  "(string \<Rightarrow> string) \<Rightarrow> (real \<Rightarrow> real) \<Rightarrow> call_times \<Rightarrow> string \<Rightarrow> tool_args \<Rightarrow> caller_context
    \<Rightarrow> ('i, 'o) mcp_gateway \<Rightarrow> (exn + 'o) \<times> ('i, 'o) mcp_gateway" where
  "mcp_invoke sha256 round3 ct tool_name args caller g =
     (let fingerprint = sha256 (json_dumps (PDict args));
          ((result, outcome, attempts), g') = invoke_body (ct_now ct) tool_name args caller g;
          duration_seconds = ct_ended ct - ct_started ct;
          label = (if tool_name \<in> set (map fst (mg_tools g')) then tool_name else ''unapproved'')
      in (result,
          g'\<lparr>mg_calls := inc [label, outcome_name outcome] (mg_calls g'),
             mg_duration := observe [label] duration_seconds (mg_duration g'),
             mg_audit := mg_audit g' @
               [\<lparr>au_timestamp = ct_stamp ct,
                 au_request_id = field_strip (cc_request_id caller),
                 au_subject = field_strip (cc_subject caller),
                 au_agent = field_strip (cc_agent caller),
                 au_tool = field_strip tool_name,
                 au_argument_fingerprint = field_strip fingerprint,
                 au_outcome = outcome,
                 au_duration_ms = round3 (duration_seconds * 1000),
                 au_attempt_count = attempts\<rparr>]\<rparr>))"

section \<open>The attempt loop\<close>

definition outcome_fits :: "audit_outcome \<Rightarrow> (exn + 'o) \<Rightarrow> bool" where
  "outcome_fits outcome result \<longleftrightarrow>
     (case result of
        Inr _ \<Rightarrow> outcome = Success
      | Inl CancelledError \<Rightarrow> outcome \<in> {TimedOut, Errored}
      | Inl (MCPToolFailure _) \<Rightarrow> outcome \<in> {TimedOut, Errored}
      | Inl (MCPToolNotFound _) \<Rightarrow> outcome = Denied
      | Inl (MCPAccessDenied _) \<Rightarrow> outcome = Denied
      | Inl (MCPInvalidArguments _) \<Rightarrow> outcome = Invalid
      | Inl _ \<Rightarrow> False)"

lemma attempt_loop_outcome:
  assumes "attempt_loop run validate mx ns attempts outcome = (result, outcome', attempts')"
    and "outcome \<in> {TimedOut, Errored}"
  shows "outcome_fits outcome' result \<and> (is_ok result \<or> outcome' \<in> {TimedOut, Errored}) \<and>
    attempts' \<in> insert attempts (set ns)"
  using assms
proof (induction run validate mx ns attempts outcome rule: attempt_loop.induct)
  case (1 run validate mx attempts outcome)
  then show ?case by (auto simp: outcome_fits_def)
next
  case (2 run validate mx n ns attempts outcome)
  show ?case
  proof (cases "attempt_result run validate n")
    case (Inr out)
    with "2.prems"(1) have "result = Inr out" "outcome' = Success" "attempts' = n" by auto
    then show ?thesis by (simp add: outcome_fits_def)
  next
    case (Inl e)
    consider "e = TimeoutError"
      | "e \<noteq> TimeoutError" "is_lookup_error e \<or> e = ValidationError"
      | "e \<noteq> TimeoutError" "\<not> (is_lookup_error e \<or> e = ValidationError)" "is_exception e"
      | "\<not> is_exception e" by blast
    then show ?thesis
    proof cases
      case 1
      with 2 Inl show ?thesis by auto
    next
      case 2
      with "2.prems" Inl show ?thesis by (auto simp: outcome_fits_def)
    next
      case 3
      with 2 Inl show ?thesis by (cases "n = mx") (auto simp: outcome_fits_def)
    next
      case 4
      then have e: "e = CancelledError" by (simp add: is_exception_def)
      with "2.prems"(1) Inl have "result = Inl CancelledError" "outcome' = outcome" "attempts' = n"
        by (auto simp: is_exception_def)
      with "2.prems"(2) show ?thesis by (auto simp: outcome_fits_def)
    qed
  qed
qed

lemma attempt_loop_started:
  assumes "attempt_loop run validate mx [1..<Suc mx] 0 Errored = (result, outcome', attempts')"
    and "1 \<le> mx"
  shows "1 \<le> attempts' \<and> attempts' \<le> mx"
proof -
  from assms(2) obtain ns where ns: "[1..<Suc mx] = 1 # ns" "set ns \<subseteq> {2..mx}"
    by (intro that[of "[2..<Suc mx]"]) (auto simp: upt_conv_Cons numeral_2_eq_2 simp del: upt_Suc)
  have "attempts' \<in> insert 1 (set ns)"
  proof (cases "attempt_result run validate 1")
    case (Inr out)
    with assms(1) show ?thesis unfolding ns by simp
  next
    case (Inl e)
    have rest: "attempts' \<in> insert 1 (set ns)"
      if "attempt_loop run validate mx ns 1 oc = (result, outcome', attempts')"
        "oc \<in> {TimedOut, Errored}" for oc
      using attempt_loop_outcome[OF that] by blast
    from Inl assms(1) show ?thesis
      unfolding ns using rest by (auto split: if_splits)
  qed
  with ns(2) assms(2) show ?thesis by auto
qed

text \<open>The failures after which the loop goes on.\<close>

definition retried :: "nat \<Rightarrow> nat \<Rightarrow> (exn + 'o) \<Rightarrow> bool" where
  "retried mx n r \<longleftrightarrow>
     (case r of Inr _ \<Rightarrow> False
      | Inl e \<Rightarrow> e = TimeoutError \<or>
          (is_exception e \<and> \<not> is_lookup_error e \<and> e \<noteq> ValidationError \<and> n \<noteq> mx))"

lemma attempt_loop_step:
  "retried mx n (attempt_result run validate n) \<Longrightarrow> \<exists>oc'.
     attempt_loop run validate mx (n # ns) a oc = attempt_loop run validate mx ns n oc'"
  "\<not> retried mx n (attempt_result run validate n) \<Longrightarrow> 
     fst (attempt_loop run validate mx (n # ns) a oc) = Inr out \<longleftrightarrow>
       attempt_result run validate n = Inr out"
  by (auto simp: retried_def split: sum.splits if_splits)

text \<open>The first element of a list that satisfies \<open>Q\<close>, all before it satisfying \<open>R\<close>.\<close>

lemma first_such_skip:
  assumes "R n" and "\<not> Q n"
  shows "(\<exists>pre k post. n # ns = pre @ k # post \<and> Q k \<and> (\<forall>m\<in>set pre. R m)) \<longleftrightarrow>
    (\<exists>pre k post. ns = pre @ k # post \<and> Q k \<and> (\<forall>m\<in>set pre. R m))"
  (is "?L \<longleftrightarrow> ?R")
proof
  assume ?L
  then obtain pre k post where *: "n # ns = pre @ k # post" "Q k" "\<forall>m\<in>set pre. R m" by blast
  with assms(2) obtain pre' where "pre = n # pre'" by (cases pre) auto
  with * show ?R by auto
next
  assume ?R
  then obtain pre k post where *: "ns = pre @ k # post" "Q k" "\<forall>m\<in>set pre. R m" by blast
  with assms(1) have "n # ns = (n # pre) @ k # post \<and> Q k \<and> (\<forall>m\<in>set (n # pre). R m)" by simp
  then show ?L by blast
qed

lemma first_such_stop:
  assumes "\<not> R n"
  shows "(\<exists>pre k post. n # ns = pre @ k # post \<and> Q k \<and> (\<forall>m\<in>set pre. R m)) \<longleftrightarrow> Q n"
proof
  assume "Q n"
  then have "n # ns = [] @ n # ns \<and> Q n \<and> (\<forall>m\<in>set []. R m)" by simp
  then show "\<exists>pre k post. n # ns = pre @ k # post \<and> Q k \<and> (\<forall>m\<in>set pre. R m)" by blast
qed (use assms in \<open>auto simp: Cons_eq_append_conv\<close>)

lemma attempt_loop_Inr:
  "fst (attempt_loop run validate mx ns a oc) = Inr out \<longleftrightarrow>
     (\<exists>pre n post. ns = pre @ n # post \<and> attempt_result run validate n = Inr out \<and>
        (\<forall>m\<in>set pre. retried mx m (attempt_result run validate m)))"
proof (induction ns arbitrary: a oc)
  case Nil
  then show ?case by simp
next
  case (Cons n ns)
  show ?case
  proof (cases "retried mx n (attempt_result run validate n)")
    case True
    then have "attempt_result run validate n \<noteq> Inr out" by (auto simp: retried_def)
    note skip = first_such_skip[of "\<lambda>m. retried mx m (attempt_result run validate m)" n
        "\<lambda>k. attempt_result run validate k = Inr out", OF True this]
    obtain oc' where
      "attempt_loop run validate mx (n # ns) a oc = attempt_loop run validate mx ns n oc'"
      using attempt_loop_step(1)[OF True] by blast
    then show ?thesis by (simp only: Cons.IH skip)
  next
    case False
    show ?thesis
      unfolding attempt_loop_step(2)[OF False]
      using first_such_stop[of "\<lambda>m. retried mx m (attempt_result run validate m)" n ns
        "\<lambda>k. attempt_result run validate k = Inr out", OF False] by simp
  qed
qed

section \<open>Governance of one call\<close>

definition permitted :: "('i, 'o) mcp_gateway \<Rightarrow> string \<Rightarrow> caller_context \<Rightarrow> bool" where
  "permitted g tool_name caller \<longleftrightarrow>
     (case map_of (mg_tools g) tool_name of
        None \<Rightarrow> False
      | Some reg \<Rightarrow> cc_agent caller \<in> tg_allowed_agents reg \<and> tg_required_roles reg \<subseteq> cc_roles caller)"

definition tool_key :: "string \<Rightarrow> caller_context \<Rightarrow> string" where
  "tool_key tool_name caller = cc_subject caller @ '':'' @ tool_name"

lemma mcp_admit_frame [simp]:
  "mg_timeout (snd (mcp_admit now key g)) = mg_timeout g"
  "mg_max_attempts (snd (mcp_admit now key g)) = mg_max_attempts g"
  "mg_rate_limit (snd (mcp_admit now key g)) = mg_rate_limit g"
  "mg_rate_window (snd (mcp_admit now key g)) = mg_rate_window g"
  "mg_tools (snd (mcp_admit now key g)) = mg_tools g"
  "mg_audit (snd (mcp_admit now key g)) = mg_audit g"
  by (simp_all add: mcp_admit_def Let_def)

lemma mcp_admit_error: "fst (mcp_admit now key g) = Inl e \<Longrightarrow> e = MCPAccessDenied ''Tool rate limit exceeded''"
  by (auto simp: mcp_admit_def Let_def split: if_splits)

text \<open>The body by cases: a call that is not permitted leaves the gateway as it was; a permitted one
  is charged to its key, and what follows does not touch the gateway again.\<close>

lemma invoke_body_denied:
  "\<not> permitted g tool caller \<Longrightarrow>
     \<exists>e. invoke_body now tool args caller g = ((Inl e, Denied, 0), g) \<and>
       (\<exists>m. e = MCPToolNotFound m \<or> e = MCPAccessDenied m)"
  by (auto simp: invoke_body_def permitted_def split: option.splits)

lemma invoke_body_permitted:
  assumes "permitted g tool caller"
  obtains reg where "map_of (mg_tools g) tool = Some reg"
    "invoke_body now tool args caller g =
       ((case fst (mcp_admit now (tool_key tool caller) g) of
           Inl e \<Rightarrow> (Inl e, Denied, 0)
         | Inr _ \<Rightarrow>
             (case tg_input_model reg args of
                Inl _ \<Rightarrow> (Inl (MCPInvalidArguments ''Tool arguments failed schema validation''), Invalid, 0)
              | Inr validated \<Rightarrow>
                  attempt_loop (\<lambda>n. tg_handler reg (mg_timeout g) n validated caller)
                    (tg_output_model reg) (mg_max_attempts g) [1..<Suc (mg_max_attempts g)] 0 Errored)),
        snd (mcp_admit now (tool_key tool caller) g))"
proof -
  from assms obtain reg where reg: "map_of (mg_tools g) tool = Some reg"
    "cc_agent caller \<in> tg_allowed_agents reg" "tg_required_roles reg \<subseteq> cc_roles caller"
    by (auto simp: permitted_def split: option.splits)
  obtain r g1 where "mcp_admit now (tool_key tool caller) g = (r, g1)" by fastforce
  with reg show thesis
    by (intro that[OF reg(1)])
      (cases r; cases "tg_input_model reg args";
        simp del: upt_Suc add: invoke_body_def mcp_check_rate_limit_def tool_key_def)
qed

lemma invoke_body_state:
  "snd (invoke_body now tool args caller g) =
     (if permitted g tool caller then snd (mcp_admit now (tool_key tool caller) g) else g)"
proof (cases "permitted g tool caller")
  case True
  show ?thesis by (rule invoke_body_permitted[OF True, where now = now and args = args]) (simp add: True)
next
  case False
  from invoke_body_denied[OF False, of now args] False show ?thesis by auto
qed

definition call_record :: "('i, 'o) mcp_gateway \<Rightarrow> audit_record" where
  "call_record g = last (mg_audit g)"

lemma mcp_invoke_body:
  assumes "invoke_body (ct_now ct) tool args caller g = ((result, outcome, attempts), g1)"
    and "mcp_invoke sha256 round3 ct tool args caller g = (r, g')"
  shows "r = result" and "mg_audit g' = mg_audit g1 @ [call_record g']"
    and "au_outcome (call_record g') = outcome" and "au_attempt_count (call_record g') = attempts"
    and "au_tool (call_record g') = field_strip tool"
    and "au_subject (call_record g') = field_strip (cc_subject caller)"
    and "au_argument_fingerprint (call_record g') = field_strip (sha256 (json_dumps (PDict args)))"
    and "mg_requests g' = mg_requests g1" and "mg_tools g' = mg_tools g1"
    and "mg_timeout g' = mg_timeout g1" and "mg_max_attempts g' = mg_max_attempts g1"
    and "mg_rate_limit g' = mg_rate_limit g1" and "mg_rate_window g' = mg_rate_window g1"
  using assms by (auto simp: mcp_invoke_def call_record_def Let_def)

lemma invoke_body_outcome:
  assumes "invoke_body now tool args caller g = ((result, outcome, attempts), g1)"
    and "1 \<le> mg_max_attempts g"
  shows "outcome_fits outcome result \<and> attempts \<le> mg_max_attempts g \<and>
    (attempts = 0 \<longleftrightarrow> outcome \<in> {Denied, Invalid}) \<and>
    (0 < attempts \<longrightarrow> permitted g tool caller \<and> is_ok (fst (mcp_admit now (tool_key tool caller) g)) \<and>
      (\<exists>reg. map_of (mg_tools g) tool = Some reg \<and> is_ok (tg_input_model reg args)))"
proof (cases "permitted g tool caller")
  case False
  from invoke_body_denied[OF this, of now args] assms(1) show ?thesis
    by (auto simp: outcome_fits_def)
next
  case True
  obtain reg where reg: "map_of (mg_tools g) tool = Some reg" and body: "invoke_body now tool args caller g =
       ((case fst (mcp_admit now (tool_key tool caller) g) of
           Inl e \<Rightarrow> (Inl e, Denied, 0)
         | Inr _ \<Rightarrow>
             (case tg_input_model reg args of
                Inl _ \<Rightarrow> (Inl (MCPInvalidArguments ''Tool arguments failed schema validation''), Invalid, 0)
              | Inr validated \<Rightarrow>
                  attempt_loop (\<lambda>n. tg_handler reg (mg_timeout g) n validated caller)
                    (tg_output_model reg) (mg_max_attempts g) [1..<Suc (mg_max_attempts g)] 0 Errored)),
        snd (mcp_admit now (tool_key tool caller) g))"
    using invoke_body_permitted[OF True] by blast
  show ?thesis
  proof (cases "fst (mcp_admit now (tool_key tool caller) g)")
    case (Inl e)
    with assms(1) mcp_admit_error[OF Inl] show ?thesis
      unfolding body by (auto simp: outcome_fits_def)
  next
    case admitted: (Inr u)
    show ?thesis
    proof (cases "tg_input_model reg args")
      case (Inl e)
      with assms(1) admitted show ?thesis
        unfolding body by (auto simp: outcome_fits_def)
    next
      case (Inr validated)
      with assms(1) admitted have loop: "attempt_loop (\<lambda>n. tg_handler reg (mg_timeout g) n validated caller)
          (tg_output_model reg) (mg_max_attempts g) [1..<Suc (mg_max_attempts g)] 0 Errored =
          (result, outcome, attempts)"
        unfolding body by (simp del: upt_Suc)
      have "outcome_fits outcome result \<and> (is_ok result \<or> outcome \<in> {TimedOut, Errored})"
        using attempt_loop_outcome[OF loop] by simp
      moreover have "is_ok result \<Longrightarrow> outcome_fits outcome result \<Longrightarrow> outcome = Success"
        by (cases result) (auto simp: outcome_fits_def)
      ultimately show ?thesis
        using attempt_loop_started[OF loop assms(2)] True admitted Inr reg by auto
    qed
  qed
qed

text \<open>C11: every call of \<open>invoke\<close>, whatever it returns or raises, appends exactly one audit record,
  with the fingerprint of the arguments and an outcome that matches the result; a caller sees a
  gateway error, a cancellation or a validated output and nothing else.  A handler is run (the
  record counts an attempt) only for a registered tool, an allowed agent, a caller who holds every
  required role, within the rate limit and with arguments that satisfy the tool's schema, and at
  most \<open>max_attempts\<close> times.\<close>

theorem mcp_invoke_governed:
  assumes "mcp_invoke sha256 round3 ct tool args caller g = (result, g')"
    and "1 \<le> mg_max_attempts g"
  shows "\<exists>rec. mg_audit g' = mg_audit g @ [rec] \<and> au_tool rec = field_strip tool \<and>
    au_argument_fingerprint rec = field_strip (sha256 (json_dumps (PDict args))) \<and>
    outcome_fits (au_outcome rec) result \<and> au_attempt_count rec \<le> mg_max_attempts g \<and>
    (au_attempt_count rec = 0 \<longleftrightarrow> au_outcome rec \<in> {Denied, Invalid}) \<and>
    (0 < au_attempt_count rec \<longrightarrow> permitted g tool caller \<and>
       is_ok (fst (mcp_check_rate_limit (ct_now ct) (cc_subject caller) tool g)) \<and>
       (\<exists>reg. map_of (mg_tools g) tool = Some reg \<and> is_ok (tg_input_model reg args)))"
proof -
  obtain res outcome attempts g1 where
    body: "invoke_body (ct_now ct) tool args caller g = ((res, outcome, attempts), g1)"
    by (metis prod.exhaust)
  have audit: "mg_audit g1 = mg_audit g"
    using invoke_body_state[of "ct_now ct" tool args caller g] body by simp
  note inv = mcp_invoke_body[OF body assms(1)]
  show ?thesis
    using invoke_body_outcome[OF body assms(2)] inv audit
    by (intro exI[of _ "call_record g'"]) (simp add: mcp_check_rate_limit_def tool_key_def)
qed

section \<open>The tool rate limit meets the sliding-window contract\<close>

definition mcp_ledger :: "('i, 'o) mcp_gateway \<Rightarrow> string \<Rightarrow> charge list" where
  "mcp_ledger g key = map (\<lambda>t. (t, 1)) (mg_requests g key)"

definition mcp_charge ::
  "string \<Rightarrow> charge \<Rightarrow> ('i, 'o) mcp_gateway \<Rightarrow> (exn + unit) \<times> ('i, 'o) mcp_gateway" where
  "mcp_charge key e g = mcp_admit (fst e) key g"

lemma mcp_admit_ok_iff:
  "is_ok (fst (mcp_admit now key g)) \<longleftrightarrow>
     int (length (dropWhile (\<lambda>t. t \<le> now - of_int (mg_rate_window g)) (mg_requests g key)))
       < mg_rate_limit g"
  by (simp add: mcp_admit_def Let_def)

interpretation mcp: sliding_window mcp_charge mcp_ledger "\<lambda>g. of_int (mg_rate_window g)"
  "\<lambda>g _. Some (of_int (mg_rate_limit g))" "\<lambda>c. c = 1" "\<lambda>g. 0 \<le> mg_rate_limit g"
proof (unfold_locales, goal_cases)
  case (6 g e key)
  then show ?case
    by (simp add: mcp_charge_def mcp_admit_ok_iff mcp_ledger_def pruned_ones charged_ones) linarith
next
  case (7 g e key)
  then show ?case
    by (cases e) (auto simp: mcp_charge_def mcp_admit_def mcp_ledger_def pruned_ones Let_def)
next
  case (8 g e key)
  then show ?case
    by (auto simp: mcp_charge_def mcp_admit_def mcp_ledger_def pruned_ones Let_def)
next
  case (9 key' key e g)
  then show ?case by (simp add: mcp_charge_def mcp_admit_def mcp_ledger_def Let_def)
qed (simp_all add: mcp_charge_def)

section \<open>Runs of calls\<close>

type_synonym mcp_call = "call_times \<times> string \<times> tool_args \<times> caller_context"

text \<open>A run of calls: for each the key it is charged to, its clock reading and the number of times
  its handler was run.\<close>

fun mcp_run ::
  "(string \<Rightarrow> string) \<Rightarrow> (real \<Rightarrow> real) \<Rightarrow> mcp_call list \<Rightarrow> ('i, 'o) mcp_gateway
    \<Rightarrow> (string \<times> real \<times> nat) list \<times> ('i, 'o) mcp_gateway" where
  "mcp_run sha256 round3 [] g = ([], g)"
| "mcp_run sha256 round3 ((ct, tool, args, caller) # calls) g =
     (let (_, g1) = mcp_invoke sha256 round3 ct tool args caller g;
          (rest, g2) = mcp_run sha256 round3 calls g1
      in ((tool_key tool caller, ct_now ct, au_attempt_count (call_record g1)) # rest, g2))"

text \<open>The requests that a run makes to the limiter, by the tools registered in \<open>g\<close>.\<close>

definition limiter_requests :: "('i, 'o) mcp_gateway \<Rightarrow> mcp_call list \<Rightarrow> string request list" where
  "limiter_requests g calls =
     map (\<lambda>(ct, tool, args, caller). (tool_key tool caller, ct_now ct, 1))
       (filter (\<lambda>(ct, tool, args, caller). permitted g tool caller) calls)"

definition same_limits :: "('i, 'o) mcp_gateway \<Rightarrow> ('i, 'o) mcp_gateway \<Rightarrow> bool" where
  "same_limits g h \<longleftrightarrow> mg_requests g = mg_requests h \<and> mg_rate_limit g = mg_rate_limit h \<and>
     mg_rate_window g = mg_rate_window h \<and> mg_tools g = mg_tools h"

lemma same_limits_admit:
  "same_limits g h \<Longrightarrow> fst (mcp_admit now key g) = fst (mcp_admit now key h) \<and>
     same_limits (snd (mcp_admit now key g)) (snd (mcp_admit now key h))"
  by (simp add: same_limits_def mcp_admit_def Let_def)

lemma same_limits_permitted: "same_limits g h \<Longrightarrow> permitted g = permitted h"
  by (simp add: same_limits_def permitted_def fun_eq_iff)

lemma limiter_requests_tools:
  "mg_tools g = mg_tools h \<Longrightarrow> limiter_requests g calls = limiter_requests h calls"
  by (simp add: limiter_requests_def permitted_def cong: option.case_cong)

text \<open>One call and the limiter: a call that is not permitted leaves the limiter alone and runs
  nothing; a permitted one makes one check, and runs its handler only if the check admits it.\<close>

lemma mcp_invoke_limits:
  assumes "mcp_invoke sha256 round3 ct tool args caller g = (r, g')" and "1 \<le> mg_max_attempts g"
  shows "mg_max_attempts g' = mg_max_attempts g"
    and "\<not> permitted g tool caller \<Longrightarrow> same_limits g' g \<and> au_attempt_count (call_record g') = 0"
    and "permitted g tool caller \<Longrightarrow>
      same_limits g' (snd (mcp_admit (ct_now ct) (tool_key tool caller) g)) \<and>
      (0 < au_attempt_count (call_record g') \<longrightarrow>
        is_ok (fst (mcp_admit (ct_now ct) (tool_key tool caller) g)))"
proof -
  obtain res outcome attempts g1 where
    body: "invoke_body (ct_now ct) tool args caller g = ((res, outcome, attempts), g1)"
    by (metis prod.exhaust)
  note inv = mcp_invoke_body[OF body assms(1)] and out = invoke_body_outcome[OF body assms(2)]
  have g1: "g1 = (if permitted g tool caller
      then snd (mcp_admit (ct_now ct) (tool_key tool caller) g) else g)"
    using invoke_body_state[of "ct_now ct" tool args caller g] body by simp
  show "mg_max_attempts g' = mg_max_attempts g"
    using inv g1 by simp
  show "\<not> permitted g tool caller \<Longrightarrow> same_limits g' g \<and> au_attempt_count (call_record g') = 0"
    using inv g1 out by (auto simp: same_limits_def)
  show "permitted g tool caller \<Longrightarrow>
      same_limits g' (snd (mcp_admit (ct_now ct) (tool_key tool caller) g)) \<and>
      (0 < au_attempt_count (call_record g') \<longrightarrow>
        is_ok (fst (mcp_admit (ct_now ct) (tool_key tool caller) g)))"
    using inv g1 out by (simp add: same_limits_def)
qed

definition runs_of :: "string \<Rightarrow> (real \<Rightarrow> bool) \<Rightarrow> (string \<times> real \<times> nat) list \<Rightarrow> nat" where
  "runs_of key Q xs = length (filter (\<lambda>(k, u, n). k = key \<and> 0 < n \<and> Q u) xs)"

lemma same_limits_trans: "same_limits f g \<Longrightarrow> same_limits g h \<Longrightarrow> same_limits f h"
  by (simp add: same_limits_def)

lemma mcp_run_admitted:
  assumes "1 \<le> mg_max_attempts g" and "same_limits g h"
  shows "runs_of key Q (fst (mcp_run sha256 round3 calls g)) \<le>
    length (filter (\<lambda>e. Q (fst e))
      (admitted (limiter_requests h calls)
        (fst (run_checks mcp_charge h (limiter_requests h calls))) key))"
  using assms
proof (induction calls arbitrary: g h)
  case Nil
  then show ?case by (simp add: runs_of_def)
next
  case (Cons c calls)
  obtain ct tool args caller where c: "c = (ct, tool, args, caller)" by (metis prod.exhaust)
  obtain r g1 where inv: "mcp_invoke sha256 round3 ct tool args caller g = (r, g1)" by fastforce
  note lim = mcp_invoke_limits[OF inv Cons.prems(1)]
  have m1: "1 \<le> mg_max_attempts g1" using lim(1) Cons.prems(1) by simp
  let ?k = "tool_key tool caller"
  obtain rest g2 where rest: "mcp_run sha256 round3 calls g1 = (rest, g2)" by fastforce
  have run: "fst (mcp_run sha256 round3 (c # calls) g) =
      (?k, ct_now ct, au_attempt_count (call_record g1)) # rest"
    by (simp add: c inv rest)
  show ?case
  proof (cases "permitted g tool caller")
    case False
    with same_limits_permitted[OF Cons.prems(2)] have "limiter_requests h (c # calls) = limiter_requests h calls"
      by (simp add: limiter_requests_def c)
    moreover have "same_limits g1 h" using lim(2)[OF False] Cons.prems(2) by (auto intro: same_limits_trans)
    ultimately show ?thesis
      using Cons.IH[OF m1] lim(2)[OF False] run rest by (simp add: runs_of_def)
  next
    case True
    let ?h1 = "snd (mcp_admit (ct_now ct) ?k h)"
    note adm = same_limits_admit[OF Cons.prems(2), of "ct_now ct" ?k]
    have s1: "same_limits g1 ?h1" using lim(3)[OF True] adm by (auto intro: same_limits_trans)
    have tl: "limiter_requests h (c # calls) = (?k, ct_now ct, 1) # limiter_requests ?h1 calls"
      using True same_limits_permitted[OF Cons.prems(2)] limiter_requests_tools[of h ?h1 calls]
      by (simp add: limiter_requests_def c)
    have chk: "mcp_charge ?k (ct_now ct, 1) h = mcp_admit (ct_now ct) ?k h"
      by (simp add: mcp_charge_def)
    have exec: "0 < au_attempt_count (call_record g1) \<Longrightarrow> is_ok (fst (mcp_admit (ct_now ct) ?k h))"
      using lim(3)[OF True] adm by simp
    show ?thesis
      using Cons.IH[OF m1 s1] exec run rest
      unfolding tl by (auto simp: runs_of_def chk split_beta Let_def)
  qed
qed

text \<open>A gateway as the factory makes it: new, with tools registered.\<close>

fun mcp_register_all ::
  "('i, 'o) tool_registration list \<Rightarrow> ('i, 'o) mcp_gateway \<Rightarrow> exn + ('i, 'o) mcp_gateway" where
  "mcp_register_all [] g = Inr g"
| "mcp_register_all (r # rs) g =
     (case mcp_register r g of Inl e \<Rightarrow> Inl e | Inr g' \<Rightarrow> mcp_register_all rs g')"

lemma mcp_register_all_Inr:
  "mcp_register_all rs g = Inr g' \<Longrightarrow>
     g' = g\<lparr>mg_tools := mg_tools g'\<rparr> \<and> mg_tools g' = mg_tools g @ map (\<lambda>r. (tg_name r, r)) rs"
proof (induction rs arbitrary: g)
  case Nil
  then show ?case by simp
next
  case (Cons r rs)
  from Cons.prems obtain g1 where g1: "mcp_register r g = Inr g1" "mcp_register_all rs g1 = Inr g'"
    by (auto split: sum.splits)
  then have "g1 = g\<lparr>mg_tools := mg_tools g @ [(tg_name r, r)]\<rparr>"
    by (auto simp: mcp_register_def set_update_fresh split: if_splits)
  with Cons.IH[OF g1(2)] show ?case
    by (cases g; cases g') (simp add: mcp_gateway.defs)
qed

text \<open>Over a run of calls the handlers of one tool run for one subject in at most \<open>rate_limit\<close> calls of any
  window of \<open>rate_window_seconds\<close>.  The clock is monotonic, so the readings are sorted.\<close>

lemma mcp_calls_bounded:
  assumes "new_mcp_gateway timeout mx limit window audit = Inr g0"
    and "mcp_register_all tools g0 = Inr g"
    and "sorted (map (\<lambda>(ct, _). ct_now ct) calls)"
  shows "int (runs_of (tool_key tool caller) (\<lambda>u. t - of_int window < u \<and> u \<le> t)
      (fst (mcp_run sha256 round3 calls g))) \<le> limit"
proof -
  obtain ts where g: "g = g0\<lparr>mg_tools := ts\<rparr>"
    using mcp_register_all_Inr[OF assms(2)] by blast
  have g0: "mg_requests g = (\<lambda>_. [])" "mg_rate_limit g = limit"
    "mg_rate_window g = window" "1 \<le> mg_max_attempts g" "1 \<le> limit"
    using assms(1) by (auto simp: g new_mcp_gateway_def split: if_splits)
  let ?rs = "limiter_requests g calls"
  let ?a = "admitted ?rs (fst (run_checks mcp_charge g ?rs)) (tool_key tool caller)"
  let ?Q = "\<lambda>u. t - of_int window < u \<and> u \<le> t"
  have fresh: "mcp_ledger g k = []" for k by (simp add: mcp_ledger_def g0)
  have ones: "\<forall>r\<in>set ?rs. snd (snd r) = 1" by (auto simp: limiter_requests_def)
  have "map (\<lambda>r. fst (snd r)) ?rs = map (\<lambda>(ct, _). ct_now ct)
      (filter (\<lambda>(ct, tool, args, caller). permitted g tool caller) calls)"
    by (auto simp: limiter_requests_def)
  then obtain t0 where clk: "clocked t0 ?rs"
    using clocked_ex[of ?rs] sorted_filter[OF assms(3)] by auto
  have "bounded_by (of_int window) (of_int limit) ?a"
    using mcp.run_bounded[where s = g and t = t0 and rs = ?rs and k = "tool_key tool caller"
        and c = "of_int limit"] fresh clk ones g0
    by simp
  then have "charged_in (of_int window) t ?a \<le> of_int limit" by (simp add: bounded_by_def)
  moreover have "charged_in (of_int window) t ?a = real (length (filter (\<lambda>e. ?Q (fst e)) ?a))"
    unfolding charged_in_def using ones
    by (intro charged_length) (auto dest!: admitted_subset)
  moreover have "runs_of (tool_key tool caller) ?Q (fst (mcp_run sha256 round3 calls g)) \<le>
      length (filter (\<lambda>e. ?Q (fst e)) ?a)"
    using g0 by (intro mcp_run_admitted) (simp_all add: same_limits_def)
  ultimately show ?thesis by linarith
qed

text \<open>Allowances are per subject and tool: as long as tool names have no colon, two calls share a
  queue only when both agree.\<close>

lemma tool_key_inj:
  assumes "CHR '':'' \<notin> set t1" and "CHR '':'' \<notin> set t2"
  shows "tool_key t1 c1 = tool_key t2 c2 \<longleftrightarrow> t1 = t2 \<and> cc_subject c1 = cc_subject c2"
proof
  assume eq: "tool_key t1 c1 = tool_key t2 c2"
  have tail: "rev (takeWhile (\<lambda>c. c \<noteq> CHR '':'') (rev (tool_key t c))) = t"
    if "CHR '':'' \<notin> set t" for t c
    using that by (simp add: tool_key_def takeWhile_append)
  have "t1 = t2" using tail[OF assms(1)] tail[OF assms(2)] eq by metis
  with eq show "t1 = t2 \<and> cc_subject c1 = cc_subject c2" by (simp add: tool_key_def)
qed (simp add: tool_key_def)

end
