(* ===== verification/Domain.thy ===== *)
theory Domain
  imports PyStr "HOL-Library.Product_Lexorder"
begin

text \<open>
  The synthetic bank (domain/novabank.py): its records, its fixed data and the read-only repository.
  Every amount of the data has two decimals; an amount is kept as its number of hundredths.
\<close>

section \<open>Records\<close>

record customer =
  cu_customer_id :: string
  cu_display_name :: string
  cu_contact_preference :: string
  cu_masked_email :: string
  cu_classification :: string

record account =
  ac_account_id :: string
  ac_customer_id :: string
  ac_account_type :: string
  ac_status :: string
  ac_currency :: string

record transaction =
  tx_transaction_id :: string
  tx_customer_id :: string
  tx_account_id :: string
  tx_amount :: int
  tx_currency :: string
  tx_status :: string
  tx_payment_route :: string
  tx_failure_reason :: "string option"

record policy =
  po_policy_id :: string
  po_title :: string
  po_text :: string
  po_tags :: "string list"
  po_classification :: string

section \<open>Data\<close>

definition bank_customers :: "customer list" where
  "bank_customers =
     [\<lparr>cu_customer_id = ''CUST-1098'', cu_display_name = ''Avery Morgan'',
       cu_contact_preference = ''email'', cu_masked_email = ''a***@example.test'',
       cu_classification = ''confidential-synthetic''\<rparr>,
      \<lparr>cu_customer_id = ''CUST-2042'', cu_display_name = ''Jordan Ellis'',
       cu_contact_preference = ''sms'', cu_masked_email = ''j***@example.test'',
       cu_classification = ''confidential-synthetic''\<rparr>]"

definition bank_accounts :: "account list" where
  "bank_accounts =
     [\<lparr>ac_account_id = ''ACCT-2001'', ac_customer_id = ''CUST-1098'', ac_account_type = ''current'',
       ac_status = ''active'', ac_currency = ''GBP''\<rparr>,
      \<lparr>ac_account_id = ''ACCT-2002'', ac_customer_id = ''CUST-1098'', ac_account_type = ''savings'',
       ac_status = ''active'', ac_currency = ''GBP''\<rparr>,
      \<lparr>ac_account_id = ''ACCT-3100'', ac_customer_id = ''CUST-2042'', ac_account_type = ''current'',
       ac_status = ''active'', ac_currency = ''GBP''\<rparr>]"

definition bank_transactions :: "transaction list" where
  "bank_transactions =
     [\<lparr>tx_transaction_id = ''TXN-5001'', tx_customer_id = ''CUST-1098'', tx_account_id = ''ACCT-2001'',
       tx_amount = 250000, tx_currency = ''GBP'', tx_status = ''delayed'',
       tx_payment_route = ''Faster Payments'',
       tx_failure_reason = Some ''Beneficiary bank acknowledgement timeout''\<rparr>,
      \<lparr>tx_transaction_id = ''TXN-5002'', tx_customer_id = ''CUST-1098'', tx_account_id = ''ACCT-2001'',
       tx_amount = 4250, tx_currency = ''GBP'', tx_status = ''completed'',
       tx_payment_route = ''Faster Payments'', tx_failure_reason = None\<rparr>,
      \<lparr>tx_transaction_id = ''TXN-6100'', tx_customer_id = ''CUST-2042'', tx_account_id = ''ACCT-3100'',
       tx_amount = 12500, tx_currency = ''GBP'', tx_status = ''failed'',
       tx_payment_route = ''CHAPS'', tx_failure_reason = Some ''Invalid beneficiary details''\<rparr>]"

definition bank_policies :: "policy list" where
  "bank_policies =
     [\<lparr>po_policy_id = ''POL-PAY-001'', po_title = ''Delayed Faster Payments'',
       po_text = ''Confirm the payment status and beneficiary details. Allow two hours for a delayed '' @
         ''acknowledgement before escalating to payment operations. Do not resend automatically.'',
       po_tags = [''payment'', ''delayed'', ''faster'', ''escalation''],
       po_classification = ''internal-synthetic''\<rparr>,
      \<lparr>po_policy_id = ''POL-REF-002'', po_title = ''Refund approval'',
       po_text = ''Refunds above GBP 100 require an authorised operations officer to approve the action. '' @
         ''The investigating agent may recommend but must not execute the refund.'',
       po_tags = [''refund'', ''approval'', ''limit'', ''human''],
       po_classification = ''internal-synthetic''\<rparr>,
      \<lparr>po_policy_id = ''POL-DATA-003'', po_title = ''Customer data handling'',
       po_text = ''Return only the minimum customer data necessary for the task. Contact details must be '' @
         ''masked in agent responses and audit records.'',
       po_tags = [''customer'', ''data'', ''privacy'', ''contact''],
       po_classification = ''internal-synthetic''\<rparr>]"

section \<open>The repository\<close>

definition get_customer :: "string \<Rightarrow> customer option" where
  "get_customer customer_id = List.find (\<lambda>c. cu_customer_id c = customer_id) bank_customers"

definition get_customer_accounts :: "string \<Rightarrow> account list" where
  "get_customer_accounts customer_id = filter (\<lambda>a. ac_customer_id a = customer_id) bank_accounts"

definition get_transaction :: "string \<Rightarrow> transaction option" where
  "get_transaction transaction_id =
     List.find (\<lambda>t. tx_transaction_id t = transaction_id) bank_transactions"

definition policy_score :: "string set \<Rightarrow> policy \<Rightarrow> nat" where
  "policy_score terms p = length (filter (\<lambda>t. t \<in> terms) (po_tags p))"

text \<open>\<open>search_policies\<close> with its slice \<open>[:limit]\<close>.\<close>

definition search_policies :: "string set \<Rightarrow> int \<Rightarrow> policy list" where
  "search_policies terms limit =
     (let scored = sort_key (\<lambda>(score, p). (- int score, po_policy_id p))
            (map (\<lambda>p. (policy_score terms p, p)) bank_policies);
          hits = map snd (filter (\<lambda>(score, p). 0 < score) scored)
      in if limit < 0 then take (length hits - nat (- limit)) hits else take (nat limit) hits)"

section \<open>Facts\<close>

lemma get_customer_Some: "get_customer i = Some c \<Longrightarrow> cu_customer_id c = i \<and> c \<in> set bank_customers"
  unfolding get_customer_def by (auto dest: find_Some_iff_mem)

lemma get_transaction_Some:
  "get_transaction i = Some t \<Longrightarrow> tx_transaction_id t = i \<and> t \<in> set bank_transactions"
  unfolding get_transaction_def by (auto dest: find_Some_iff_mem)

text \<open>The data is referentially sound: identifiers are unique, and every account and transaction
  belongs to a customer of the bank, a transaction to an account of that same customer.\<close>

lemma bank_data_consistent:
  "distinct (map cu_customer_id bank_customers)"
  "distinct (map tx_transaction_id bank_transactions)"
  "\<forall>a\<in>set bank_accounts. get_customer (ac_customer_id a) \<noteq> None"
  "\<forall>t\<in>set bank_transactions. get_customer (tx_customer_id t) \<noteq> None \<and>
     (\<exists>a\<in>set (get_customer_accounts (tx_customer_id t)). ac_account_id a = tx_account_id t)"
  by code_simp+

end
