(* ===== verification/McpLocal.thy ===== *)
theory McpLocal
  imports McpGateway AzureSearch Domain RemoteAuth
begin

text \<open>
  The tools behind the gateway: the contracts of their arguments and results
  (mcp\_boundary/contracts.py), the tools themselves and the remote servers
  (mcp\_boundary/servers.py), and the registry of approved tools (mcp\_boundary/factory.py).

  A \<open>retriever\<close> is one call of \<open>AuthorizedRetriever.retrieve\<close> under a timeout in a given attempt;
  \<open>backend_retriever\<close> is the one over an index backend.  Arguments are decoded as pydantic does for
  the values an argument dictionary holds here; the conversion of numeric text and of integral floats
  to \<open>int\<close>, which no caller uses, is left out.
\<close>

section \<open>Contracts\<close>

record customer_record =
  cr_customer_id :: string
  cr_display_name :: string
  cr_contact_preference :: string
  cr_masked_email :: string
  cr_classification :: string

record account_record =
  ar_account_id :: string
  ar_account_type :: string
  ar_status :: string
  ar_currency :: string

record customer_accounts =
  ca_customer_id :: string
  ca_accounts :: "account_record list"

record transaction_record =
  tr_transaction_id :: string
  tr_customer_id :: string
  tr_account_id :: string
  tr_amount :: int
  tr_currency :: string
  tr_status :: string
  tr_payment_route :: string
  tr_failure_reason :: "string option"

record policy_record =
  pr_policy_id :: string
  pr_title :: string
  pr_text :: string
  pr_classification :: string
  pr_chunk_id :: string
  pr_version :: string
  pr_score :: real
  pr_provenance_sha256 :: string

datatype tool_input =
    CustomerRequest string
  | TransactionRequest string
  | PolicySearchRequest string int

datatype tool_output =
    CustomerOut customer_record
  | AccountsOut customer_accounts
  | TransactionOut transaction_record
  | PoliciesOut "policy_record list"

definition digits_4_10 :: regex where
  "digits_4_10 = Many is_digit 4 (Some 10)"

definition customer_id_pattern :: regex where
  "customer_id_pattern = Cat (Lit ''CUST-'') digits_4_10"

definition transaction_id_pattern :: regex where
  "transaction_id_pattern = Cat (Lit ''TXN-'') digits_4_10"

text \<open>\<open>model_validate\<close> of the request models: exactly the declared fields (\<open>extra="forbid"\<close>).\<close>

definition only_field :: "string \<Rightarrow> tool_args \<Rightarrow> string option" where
  "only_field k args = (if set (map fst args) = {k} then as_str (dict_get args k) else None)"

definition customer_request :: "tool_args \<Rightarrow> exn + tool_input" where
  "customer_request args =
     (case only_field ''customer_id'' args of
        None \<Rightarrow> Inl ValidationError
      | Some s \<Rightarrow>
          let i = field_strip s in
          if full_match customer_id_pattern i then Inr (CustomerRequest i) else Inl ValidationError)"

definition transaction_request :: "tool_args \<Rightarrow> exn + tool_input" where
  "transaction_request args =
     (case only_field ''transaction_id'' args of
        None \<Rightarrow> Inl ValidationError
      | Some s \<Rightarrow>
          let i = field_strip s in
          if full_match transaction_id_pattern i then Inr (TransactionRequest i) else Inl ValidationError)"

fun as_limit :: "pyval \<Rightarrow> int option" where
  "as_limit (PInt n) = Some n"
| "as_limit (PBool b) = Some (if b then 1 else 0)"
| "as_limit _ = None"

definition policy_search_request :: "tool_args \<Rightarrow> exn + tool_input" where
  "policy_search_request args =
     (if \<not> set (map fst args) \<subseteq> {''query'', ''limit''} then Inl ValidationError
      else case as_str (dict_get args ''query'') of
          None \<Rightarrow> Inl ValidationError
        | Some s \<Rightarrow>
            let q = field_strip s;
                limit = (case map_of args ''limit'' of None \<Rightarrow> Some 3 | Some v \<Rightarrow> as_limit v)
            in case limit of
                 None \<Rightarrow> Inl ValidationError
               | Some n \<Rightarrow>
                   if 1 \<le> length q \<and> length q \<le> 500 \<and> 1 \<le> n \<and> n \<le> 5
                   then Inr (PolicySearchRequest q n) else Inl ValidationError)"

section \<open>The tools\<close>

definition tool_get_customer :: "string \<Rightarrow> exn + tool_output" where
  "tool_get_customer customer_id =
     (case get_customer customer_id of
        None \<Rightarrow> Inl (LookupError ''customer not found'')
      | Some c \<Rightarrow>
          Inr (CustomerOut \<lparr>cr_customer_id = field_strip (cu_customer_id c),
            cr_display_name = field_strip (cu_display_name c),
            cr_contact_preference = field_strip (cu_contact_preference c),
            cr_masked_email = field_strip (cu_masked_email c),
            cr_classification = cu_classification c\<rparr>))"

definition tool_get_accounts :: "string \<Rightarrow> exn + tool_output" where
  "tool_get_accounts customer_id =
     Inr (AccountsOut \<lparr>ca_customer_id = field_strip customer_id,
       ca_accounts = map (\<lambda>a. \<lparr>ar_account_id = field_strip (ac_account_id a),
           ar_account_type = field_strip (ac_account_type a), ar_status = field_strip (ac_status a),
           ar_currency = field_strip (ac_currency a)\<rparr>) (get_customer_accounts customer_id)\<rparr>)"

definition tool_get_transaction :: "string \<Rightarrow> exn + tool_output" where
  "tool_get_transaction transaction_id =
     (case get_transaction transaction_id of
        None \<Rightarrow> Inl (LookupError ''transaction not found'')
      | Some t \<Rightarrow>
          Inr (TransactionOut \<lparr>tr_transaction_id = field_strip (tx_transaction_id t),
            tr_customer_id = field_strip (tx_customer_id t),
            tr_account_id = field_strip (tx_account_id t), tr_amount = tx_amount t,
            tr_currency = field_strip (tx_currency t), tr_status = field_strip (tx_status t),
            tr_payment_route = field_strip (tx_payment_route t),
            tr_failure_reason = map_option field_strip (tx_failure_reason t)\<rparr>))"

type_synonym retriever = "real \<Rightarrow> nat \<Rightarrow> string \<Rightarrow> string set \<Rightarrow> int \<Rightarrow> exn + retrieval_result"

definition no_rag_metrics :: rag_metrics where
  "no_rag_metrics = \<lparr>rm_retrievals = (\<lambda>_. 0), rm_hits = []\<rparr>"

definition backend_retriever ::
  "index_backend \<Rightarrow> (string \<Rightarrow> nat list) \<Rightarrow> (real \<Rightarrow> real) \<Rightarrow> retriever" where
  "backend_retriever i digest round6 timeout n query roles limit =
     fst (retrieve (backend_search i) (embed_text digest 256) round6 query roles limit no_rag_metrics)"

definition policy_record_of :: "retrieval_hit \<Rightarrow> policy_record" where
  "policy_record_of h =
     \<lparr>pr_policy_id = field_strip (ci_document_id (rh_citation h)),
      pr_title = field_strip (ci_title (rh_citation h)), pr_text = field_strip (rh_text h),
      pr_classification = ''internal-synthetic'',
      pr_chunk_id = field_strip (ci_chunk_id (rh_citation h)),
      pr_version = field_strip (ci_version (rh_citation h)), pr_score = rh_score h,
      pr_provenance_sha256 = field_strip (ci_provenance_sha256 (rh_citation h))\<rparr>"

definition tool_search_policy ::
  "retriever \<Rightarrow> real \<Rightarrow> nat \<Rightarrow> string \<Rightarrow> string set \<Rightarrow> int \<Rightarrow> exn + tool_output" where
  "tool_search_policy retr timeout n query caller_roles limit =
     (case retr timeout n query caller_roles limit of
        Inl e \<Rightarrow> Inl e
      | Inr hits \<Rightarrow> Inr (PoliciesOut (map policy_record_of hits)))"

section \<open>The approved tools\<close>

fun handle_customer :: "real \<Rightarrow> nat \<Rightarrow> tool_input \<Rightarrow> caller_context \<Rightarrow> exn + tool_output" where
  "handle_customer timeout n (CustomerRequest i) caller = tool_get_customer i"
| "handle_customer timeout n _ caller = Inl (OtherException ''AttributeError'')"

fun handle_accounts :: "real \<Rightarrow> nat \<Rightarrow> tool_input \<Rightarrow> caller_context \<Rightarrow> exn + tool_output" where
  "handle_accounts timeout n (CustomerRequest i) caller = tool_get_accounts i"
| "handle_accounts timeout n _ caller = Inl (OtherException ''AttributeError'')"

fun handle_transaction :: "real \<Rightarrow> nat \<Rightarrow> tool_input \<Rightarrow> caller_context \<Rightarrow> exn + tool_output" where
  "handle_transaction timeout n (TransactionRequest i) caller = tool_get_transaction i"
| "handle_transaction timeout n _ caller = Inl (OtherException ''AttributeError'')"

fun handle_policy ::
  "retriever \<Rightarrow> real \<Rightarrow> nat \<Rightarrow> tool_input \<Rightarrow> caller_context \<Rightarrow> exn + tool_output" where
  "handle_policy retr timeout n (PolicySearchRequest q limit) caller =
     tool_search_policy retr timeout n q (cc_roles caller) limit"
| "handle_policy retr timeout n _ caller = Inl (OtherException ''AttributeError'')"

text \<open>\<open>output_model.model_validate\<close>: an instance of the model is returned as it is.\<close>

definition expect_output :: "(tool_output \<Rightarrow> bool) \<Rightarrow> tool_output \<Rightarrow> exn + tool_output" where
  "expect_output ok out = (if ok out then Inr out else Inl ValidationError)"

fun is_customer_out :: "tool_output \<Rightarrow> bool" where
  "is_customer_out (CustomerOut _) = True" | "is_customer_out _ = False"

fun is_accounts_out :: "tool_output \<Rightarrow> bool" where
  "is_accounts_out (AccountsOut _) = True" | "is_accounts_out _ = False"

fun is_transaction_out :: "tool_output \<Rightarrow> bool" where
  "is_transaction_out (TransactionOut _) = True" | "is_transaction_out _ = False"

fun is_policies_out :: "tool_output \<Rightarrow> bool" where
  "is_policies_out (PoliciesOut _) = True" | "is_policies_out _ = False"

definition local_tools :: "retriever \<Rightarrow> (tool_input, tool_output) tool_registration list" where
  "local_tools retr =
     [\<lparr>tg_name = ''customer.get_customer'', tg_allowed_agents = {''customer''},
       tg_required_roles = {''agent.invoke''}, tg_input_model = customer_request,
       tg_output_model = expect_output is_customer_out, tg_handler = handle_customer\<rparr>,
      \<lparr>tg_name = ''customer.get_accounts'', tg_allowed_agents = {''customer''},
       tg_required_roles = {''agent.invoke''}, tg_input_model = customer_request,
       tg_output_model = expect_output is_accounts_out, tg_handler = handle_accounts\<rparr>,
      \<lparr>tg_name = ''payments.get_transaction'', tg_allowed_agents = {''payments''},
       tg_required_roles = {''agent.invoke''}, tg_input_model = transaction_request,
       tg_output_model = expect_output is_transaction_out, tg_handler = handle_transaction\<rparr>,
      \<lparr>tg_name = ''policy.search'', tg_allowed_agents = {''policy''},
       tg_required_roles = {''agent.invoke''}, tg_input_model = policy_search_request,
       tg_output_model = expect_output is_policies_out, tg_handler = handle_policy retr\<rparr>]"

type_synonym local_gateway = "(tool_input, tool_output) mcp_gateway"

definition build_local_mcp_gateway ::
  "retriever \<Rightarrow> real \<Rightarrow> int \<Rightarrow> int \<Rightarrow> int \<Rightarrow> exn + local_gateway" where
  "build_local_mcp_gateway retr timeout_seconds max_attempts rate_limit rate_window_seconds =
     (case new_mcp_gateway timeout_seconds max_attempts rate_limit rate_window_seconds [] of
        Inl e \<Rightarrow> Inl e
      | Inr g \<Rightarrow> mcp_register_all (local_tools retr) g)"

section \<open>Remote servers\<close>

text \<open>What \<open>create_remote_mcp\<close> gives to \<open>FastMCP\<close>: the name, the scope a token must carry, the loopback
  host, the body limit and the tools.  The SDK that serves them is not part of the program.\<close>

datatype server_tools = CustomerTools | PaymentTools | PolicyTools retriever

record remote_server =
  rs_name :: string
  rs_required_scopes :: "string list"
  rs_host :: string
  rs_max_request_body_size :: int
  rs_tools :: "(string \<times> (real \<Rightarrow> nat \<Rightarrow> tool_input \<Rightarrow> exn + tool_output)) list"

fun remote_policy_search ::
  "retriever \<Rightarrow> string set \<Rightarrow> real \<Rightarrow> nat \<Rightarrow> tool_input \<Rightarrow> exn + tool_output" where
  "remote_policy_search retr roles timeout n (PolicySearchRequest q limit) =
     tool_search_policy retr timeout n q roles limit"
| "remote_policy_search retr roles timeout n _ = Inl (OtherException ''TypeError'')"

fun remote_customer :: "(string \<Rightarrow> exn + tool_output) \<Rightarrow> real \<Rightarrow> nat \<Rightarrow> tool_input \<Rightarrow> exn + tool_output" where
  "remote_customer f timeout n (CustomerRequest i) = f i"
| "remote_customer f timeout n _ = Inl (OtherException ''TypeError'')"

fun remote_payments :: "real \<Rightarrow> nat \<Rightarrow> tool_input \<Rightarrow> exn + tool_output" where
  "remote_payments timeout n (TransactionRequest i) = tool_get_transaction i"
| "remote_payments timeout n _ = Inl (OtherException ''TypeError'')"

definition create_remote_mcp :: "string \<Rightarrow> server_tools \<Rightarrow> exn + remote_server" where
  "create_remote_mcp name tools =
     (let server = (\<lambda>ts. \<lparr>rs_name = ''novabank-'' @ name, rs_required_scopes = [''mcp:'' @ name],
            rs_host = ''127.0.0.1'', rs_max_request_body_size = 1048576, rs_tools = ts\<rparr>)
      in case tools of
           CustomerTools \<Rightarrow>
             if name = ''customer''
             then Inr (server [(''customer.get_customer'', remote_customer tool_get_customer),
                               (''customer.get_accounts'', remote_customer tool_get_accounts)])
             else Inl (ValueError ''MCP server name and tool implementation do not match'')
         | PaymentTools \<Rightarrow>
             if name = ''payments''
             then Inr (server [(''payments.get_transaction'', remote_payments)])
             else Inl (ValueError ''MCP server name and tool implementation do not match'')
         | PolicyTools retr \<Rightarrow>
             if name = ''policy''
             then Inr (server [(''policy.search'', remote_policy_search retr {''agent.invoke''})])
             else Inl (ValueError ''MCP server name and tool implementation do not match''))"

text \<open>The schema-only local servers; the governed callers use the gateway instead.\<close>

record local_server =
  ls_name :: string
  ls_tools :: "(string \<times> (real \<Rightarrow> nat \<Rightarrow> tool_input \<Rightarrow> exn + tool_output)) list"

definition create_customer_mcp :: local_server where
  "create_customer_mcp = \<lparr>ls_name = ''novabank-customer'',
     ls_tools = [(''customer.get_customer'', remote_customer tool_get_customer),
                 (''customer.get_accounts'', remote_customer tool_get_accounts)]\<rparr>"

definition create_payments_mcp :: local_server where
  "create_payments_mcp = \<lparr>ls_name = ''novabank-payments'',
     ls_tools = [(''payments.get_transaction'', remote_payments)]\<rparr>"

definition create_policy_mcp :: "retriever \<Rightarrow> local_server" where
  "create_policy_mcp retr = \<lparr>ls_name = ''novabank-policy'',
     ls_tools = [(''policy.search'', remote_policy_search retr {})]\<rparr>"

section \<open>The local gateway\<close>

lemma local_tool_names:
  "map tg_name (local_tools retr) = [''customer.get_customer'', ''customer.get_accounts'',
     ''payments.get_transaction'', ''policy.search'']"
  by (simp add: local_tools_def)

lemma mcp_register_all_ok:
  "distinct (map tg_name rs) \<Longrightarrow> set (map tg_name rs) \<inter> set (map fst (mg_tools g)) = {} \<Longrightarrow>
     is_ok (mcp_register_all rs g)"
proof (induction rs arbitrary: g)
  case Nil
  then show ?case by simp
next
  case (Cons r rs)
  let ?g1 = "g\<lparr>mg_tools := AList.update (tg_name r) r (mg_tools g)\<rparr>"
  have "mcp_register r g = Inr ?g1" using Cons.prems by (simp add: mcp_register_def)
  moreover have "is_ok (mcp_register_all rs ?g1)"
    using Cons.prems by (intro Cons.IH) (auto simp: keys_update)
  ultimately show ?case by simp
qed

lemma build_local_mcp_gateway_ok:
  assumes "0 < timeout" and "1 \<le> mx" and "1 \<le> rl"
  shows "is_ok (build_local_mcp_gateway retr timeout mx rl rw)"
  using assms mcp_register_all_ok[of "local_tools retr"]
  by (simp add: build_local_mcp_gateway_def new_mcp_gateway_def local_tool_names)

definition local_good :: "retriever \<Rightarrow> local_gateway \<Rightarrow> bool" where
  "local_good retr g \<longleftrightarrow> 1 \<le> mg_max_attempts g \<and>
     mg_tools g = map (\<lambda>r. (tg_name r, r)) (local_tools retr)"

lemma build_local_good:
  assumes "build_local_mcp_gateway retr timeout mx rl rw = Inr g"
  shows "local_good retr g" and "mg_audit g = []" and "mg_timeout g = timeout"
    and "mg_requests g = (\<lambda>_. [])" and "mg_rate_limit g = rl" and "mg_rate_window g = rw"
proof -
  obtain g0 where g0: "new_mcp_gateway timeout mx rl rw [] = Inr g0"
    "mcp_register_all (local_tools retr) g0 = Inr g"
    using assms by (auto simp: build_local_mcp_gateway_def split: sum.splits)
  note g = mcp_register_all_Inr[OF g0(2)]
  have f: "1 \<le> mg_max_attempts g0" "mg_tools g0 = []" "mg_audit g0 = []" "mg_timeout g0 = timeout"
    "mg_requests g0 = (\<lambda>_. [])" "mg_rate_limit g0 = rl" "mg_rate_window g0 = rw"
    using g0(1) by (auto simp: new_mcp_gateway_def split: if_splits)
  have frame: "mg_max_attempts g = mg_max_attempts g0" "mg_audit g = mg_audit g0"
    "mg_timeout g = mg_timeout g0" "mg_requests g = mg_requests g0"
    "mg_rate_limit g = mg_rate_limit g0" "mg_rate_window g = mg_rate_window g0"
    by (subst conjunct1[OF g]; simp)+
  show "local_good retr g" "mg_audit g = []" "mg_timeout g = timeout" "mg_requests g = (\<lambda>_. [])"
    "mg_rate_limit g = rl" "mg_rate_window g = rw"
    using f g frame by (simp_all add: local_good_def)
qed

section \<open>Results of calls\<close>

lemma invoke_body_ok:
  assumes "invoke_body now tool args caller g = ((Inr out, oc, attempts), g1)"
  shows "\<exists>reg v n. map_of (mg_tools g) tool = Some reg \<and> permitted g tool caller \<and>
    tg_input_model reg args = Inr v \<and>
    (case tg_handler reg (mg_timeout g) n v caller of Inl e \<Rightarrow> Inl e | Inr raw \<Rightarrow> tg_output_model reg raw) =
      Inr out"
proof (cases "permitted g tool caller")
  case False
  from invoke_body_denied[OF this, of now args] assms show ?thesis by auto
next
  case True
  obtain reg where reg: "map_of (mg_tools g) tool = Some reg"
    and body: "invoke_body now tool args caller g =
       ((case fst (mcp_admit now (tool_key tool caller) g) of
           Inl e \<Rightarrow> (Inl e, Denied, 0)
         | Inr _ \<Rightarrow>
             (case tg_input_model reg args of
                Inl _ \<Rightarrow> (Inl (MCPInvalidArguments ''Tool arguments failed schema validation''), Invalid, 0)
              | Inr validated \<Rightarrow>
                  attempt_loop (\<lambda>n. tg_handler reg (mg_timeout g) n validated caller)
                    (tg_output_model reg) (mg_max_attempts g) [1..<Suc (mg_max_attempts g)] 0 Errored)),
        snd (mcp_admit now (tool_key tool caller) g))"
    using invoke_body_permitted[OF True] by blast
  obtain u where "fst (mcp_admit now (tool_key tool caller) g) = Inr u"
    using assms body by (cases "fst (mcp_admit now (tool_key tool caller) g)") (simp_all del: upt_Suc)
  moreover from this obtain v where v: "tg_input_model reg args = Inr v"
    using assms body by (cases "tg_input_model reg args") (simp_all del: upt_Suc)
  ultimately have "fst (attempt_loop (\<lambda>n. tg_handler reg (mg_timeout g) n v caller)
      (tg_output_model reg) (mg_max_attempts g) [1..<Suc (mg_max_attempts g)] 0 Errored) = Inr out"
    using assms body by (simp del: upt_Suc)
  then show ?thesis
    using reg True v unfolding attempt_loop_Inr attempt_result_def by blast
qed

lemma mcp_invoke_ok:
  assumes "mcp_invoke sha256 round3 ct tool args caller g = (Inr out, g')"
  shows "\<exists>reg v n. map_of (mg_tools g) tool = Some reg \<and> permitted g tool caller \<and>
    tg_input_model reg args = Inr v \<and>
    (case tg_handler reg (mg_timeout g) n v caller of Inl e \<Rightarrow> Inl e | Inr raw \<Rightarrow> tg_output_model reg raw) =
      Inr out"
proof -
  obtain res oc attempts g1 where
    body: "invoke_body (ct_now ct) tool args caller g = ((res, oc, attempts), g1)"
    by (metis prod.exhaust)
  have "res = Inr out" using mcp_invoke_body(1)[OF body assms] by simp
  from invoke_body_ok[OF body[unfolded this]] show ?thesis .
qed

lemma outcome_fits_Inl:
  "outcome_fits oc (Inl e) \<Longrightarrow> is_mcp_gateway_error e \<or> e = CancelledError"
  by (cases e) (auto simp: outcome_fits_def)

lemma mcp_invoke_frame:
  assumes "mcp_invoke sha256 round3 ct tool args caller g = (r, g')" and "1 \<le> mg_max_attempts g"
  shows "mg_tools g' = mg_tools g" and "mg_max_attempts g' = mg_max_attempts g"
    and "\<exists>rec. mg_audit g' = mg_audit g @ [rec] \<and> au_tool rec = field_strip tool \<and>
      au_subject rec = field_strip (cc_subject caller) \<and> au_agent rec = field_strip (cc_agent caller) \<and>
      au_request_id rec = field_strip (cc_request_id caller)"
    and "\<exists>oc. outcome_fits oc r"
proof -
  obtain res oc attempts g1 where
    body: "invoke_body (ct_now ct) tool args caller g = ((res, oc, attempts), g1)"
    by (metis prod.exhaust)
  note inv = mcp_invoke_body[OF body assms(1)]
  have g1: "mg_audit g1 = mg_audit g" "mg_tools g1 = mg_tools g" "mg_max_attempts g1 = mg_max_attempts g"
    using invoke_body_state[of "ct_now ct" tool args caller g] body by simp_all
  show "mg_tools g' = mg_tools g" "mg_max_attempts g' = mg_max_attempts g" using inv g1 by simp_all
  have "au_agent (call_record g') = field_strip (cc_agent caller)"
    "au_request_id (call_record g') = field_strip (cc_request_id caller)"
    using assms(1) body by (auto simp: mcp_invoke_def call_record_def Let_def)
  then show "\<exists>rec. mg_audit g' = mg_audit g @ [rec] \<and> au_tool rec = field_strip tool \<and>
      au_subject rec = field_strip (cc_subject caller) \<and> au_agent rec = field_strip (cc_agent caller) \<and>
      au_request_id rec = field_strip (cc_request_id caller)"
    using inv g1 by (intro exI[of _ "call_record g'"]) simp
  show "\<exists>oc. outcome_fits oc r"
    using invoke_body_outcome[OF body assms(2)] inv(1) by auto
qed

section \<open>The contract of a tool gateway\<close>

locale tool_gateway =
  fixes call :: "string \<Rightarrow> tool_args \<Rightarrow> caller_context \<Rightarrow> 'g \<Rightarrow> (exn + tool_output) \<times> 'g"
    and trail :: "'g \<Rightarrow> audit_record list"
    and good :: "'g \<Rightarrow> bool"
    and answers :: "string \<Rightarrow> tool_args \<Rightarrow> caller_context \<Rightarrow> tool_output \<Rightarrow> bool"
  assumes good_inv: "good g \<Longrightarrow> good (snd (call t a c g))"
    and trail_inv: "good g \<Longrightarrow> \<exists>rec. trail (snd (call t a c g)) = trail g @ [rec] \<and>
      au_tool rec = field_strip t \<and> au_subject rec = field_strip (cc_subject c) \<and>
      au_agent rec = field_strip (cc_agent c) \<and> au_request_id rec = field_strip (cc_request_id c)"
    and inv_errors: "good g \<Longrightarrow> fst (call t a c g) = Inl e \<Longrightarrow>
      is_mcp_gateway_error e \<or> e = CancelledError"
    and inv_answers: "good g \<Longrightarrow> fst (call t a c g) = Inr out \<Longrightarrow> answers t a c out"

text \<open>What the local tools may answer: the caller's agent owns the tool, the caller holds
  \<open>agent.invoke\<close>, the arguments satisfy the schema and the answer is that of the tool.\<close>

definition local_answers ::
  "retriever \<Rightarrow> string \<Rightarrow> tool_args \<Rightarrow> caller_context \<Rightarrow> tool_output \<Rightarrow> bool" where
  "local_answers retr tool args caller out \<longleftrightarrow> ''agent.invoke'' \<in> cc_roles caller \<and>
     (tool = ''customer.get_customer'' \<and> cc_agent caller = ''customer'' \<and>
        (\<exists>i. customer_request args = Inr (CustomerRequest i) \<and> tool_get_customer i = Inr out) \<or>
      tool = ''customer.get_accounts'' \<and> cc_agent caller = ''customer'' \<and>
        (\<exists>i. customer_request args = Inr (CustomerRequest i) \<and> tool_get_accounts i = Inr out) \<or>
      tool = ''payments.get_transaction'' \<and> cc_agent caller = ''payments'' \<and>
        (\<exists>i. transaction_request args = Inr (TransactionRequest i) \<and> tool_get_transaction i = Inr out) \<or>
      tool = ''policy.search'' \<and> cc_agent caller = ''policy'' \<and>
        (\<exists>q limit timeout n. policy_search_request args = Inr (PolicySearchRequest q limit) \<and>
           tool_search_policy retr timeout n q (cc_roles caller) limit = Inr out))"

lemma customer_request_Inr: "customer_request args = Inr v \<Longrightarrow> \<exists>i. v = CustomerRequest i"
  by (auto simp: customer_request_def Let_def split: option.splits if_splits)

lemma transaction_request_Inr: "transaction_request args = Inr v \<Longrightarrow> \<exists>i. v = TransactionRequest i"
  by (auto simp: transaction_request_def Let_def split: option.splits if_splits)

lemma policy_search_request_Inr: "policy_search_request args = Inr v \<Longrightarrow> \<exists>q l. v = PolicySearchRequest q l"
  by (auto simp: policy_search_request_def Let_def split: option.splits if_splits)

lemma expect_output_Inr [simp]: "expect_output ok raw = Inr out \<longleftrightarrow> ok raw \<and> out = raw"
  by (auto simp: expect_output_def)

lemma local_tools_cases:
  "reg \<in> set (local_tools retr) \<Longrightarrow> reg = local_tools retr ! 0 \<or> reg = local_tools retr ! 1 \<or>
     reg = local_tools retr ! 2 \<or> reg = local_tools retr ! 3"
proof -
  assume "reg \<in> set (local_tools retr)"
  then obtain i where i: "i < length (local_tools retr)" "reg = local_tools retr ! i"
    by (metis in_set_conv_nth)
  then have "i < 4" by (simp add: local_tools_def)
  then have "i = 0 \<or> i = 1 \<or> i = 2 \<or> i = 3" by linarith
  with i(2) show ?thesis by blast
qed

lemma run_tool:
  "(case r of Inl e \<Rightarrow> Inl e | Inr raw \<Rightarrow> model raw) = Inr out \<Longrightarrow> model = expect_output ok \<Longrightarrow>
     r = Inr out"
  by (auto split: sum.splits)

lemma local_answers_ok:
  assumes "local_good retr g" and "mcp_invoke sha256 round3 ct tool args caller g = (Inr out, g')"
  shows "local_answers retr tool args caller out"
proof -
  obtain reg v n where reg: "map_of (mg_tools g) tool = Some reg" and perm: "permitted g tool caller"
    and v: "tg_input_model reg args = Inr v"
    and run: "(case tg_handler reg (mg_timeout g) n v caller of Inl e \<Rightarrow> Inl e
      | Inr raw \<Rightarrow> tg_output_model reg raw) = Inr out"
    using mcp_invoke_ok[OF assms(2)] by blast
  from reg assms(1) have mem: "reg \<in> set (local_tools retr)" "tg_name reg = tool"
    by (auto simp: local_good_def dest: map_of_SomeD)
  from perm reg have who: "cc_agent caller \<in> tg_allowed_agents reg" "tg_required_roles reg \<subseteq> cc_roles caller"
    by (simp_all add: permitted_def)
  from mem(1) consider "reg = local_tools retr ! 0" | "reg = local_tools retr ! 1"
    | "reg = local_tools retr ! 2" | "reg = local_tools retr ! 3"
    using local_tools_cases by blast
  then show ?thesis
  proof cases
    case 1
    then have "customer_request args = Inr v" using v by (simp add: local_tools_def)
    with customer_request_Inr obtain i where i: "customer_request args = Inr (CustomerRequest i)"
      "v = CustomerRequest i" by blast
    from run_tool[OF run, of is_customer_out] 1 i have "tool_get_customer i = Inr out" by (simp add: local_tools_def)
    with 1 i mem(2) who show ?thesis by (simp add: local_answers_def local_tools_def)
  next
    case 2
    then have "customer_request args = Inr v" using v by (simp add: local_tools_def)
    with customer_request_Inr obtain i where i: "customer_request args = Inr (CustomerRequest i)"
      "v = CustomerRequest i" by blast
    from run_tool[OF run, of is_accounts_out] 2 i have "tool_get_accounts i = Inr out" by (simp add: local_tools_def)
    with 2 i mem(2) who show ?thesis by (simp add: local_answers_def local_tools_def)
  next
    case 3
    then have "transaction_request args = Inr v" using v by (simp add: local_tools_def)
    with transaction_request_Inr obtain i where i: "transaction_request args = Inr (TransactionRequest i)"
      "v = TransactionRequest i" by blast
    from run_tool[OF run, of is_transaction_out] 3 i have "tool_get_transaction i = Inr out" by (simp add: local_tools_def)
    with 3 i mem(2) who show ?thesis by (simp add: local_answers_def local_tools_def)
  next
    case 4
    then have "policy_search_request args = Inr v" using v by (simp add: local_tools_def)
    with policy_search_request_Inr obtain q l where i: "policy_search_request args = Inr (PolicySearchRequest q l)"
      "v = PolicySearchRequest q l" by blast
    from run_tool[OF run, of is_policies_out] 4 i
    have "tool_search_policy retr (mg_timeout g) n q (cc_roles caller) l = Inr out"
      by (simp add: local_tools_def)
    with 4 i mem(2) who show ?thesis unfolding local_answers_def by (simp add: local_tools_def) blast
  qed
qed

text \<open>A gateway with its clock: the call number \<open>n\<close> reads the times \<open>clock n\<close>.\<close>

definition local_invoke ::
  "(string \<Rightarrow> string) \<Rightarrow> (real \<Rightarrow> real) \<Rightarrow> (nat \<Rightarrow> call_times) \<Rightarrow> string \<Rightarrow> tool_args
    \<Rightarrow> caller_context \<Rightarrow> local_gateway \<Rightarrow> (exn + tool_output) \<times> local_gateway" where
  "local_invoke sha256 round3 clock tool args caller g =
     mcp_invoke sha256 round3 (clock (length (mg_audit g))) tool args caller g"

interpretation local: tool_gateway "local_invoke sha256 round3 clock" mg_audit "local_good retr"
  "local_answers retr" for sha256 round3 clock retr
proof (unfold_locales, goal_cases)
  case (1 g t a c)
  obtain r g' where i: "local_invoke sha256 round3 clock t a c g = (r, g')" by fastforce
  with mcp_invoke_frame(1,2)[OF i[unfolded local_invoke_def]] 1 show ?case by (simp add: local_good_def)
next
  case (2 g t a c)
  obtain r g' where i: "local_invoke sha256 round3 clock t a c g = (r, g')" by fastforce
  with mcp_invoke_frame(3)[OF i[unfolded local_invoke_def]] 2 show ?case by (simp add: local_good_def)
next
  case (3 g t a c e)
  then obtain g' where i: "local_invoke sha256 round3 clock t a c g = (Inl e, g')"
    by (metis prod.collapse)
  from mcp_invoke_frame(4)[OF i[unfolded local_invoke_def]] 3 show ?case
    by (auto simp: local_good_def dest: outcome_fits_Inl)
next
  case (4 g t a c out)
  then obtain g' where i: "local_invoke sha256 round3 clock t a c g = (Inr out, g')"
    by (metis prod.collapse)
  from local_answers_ok[OF 4(1) i[unfolded local_invoke_def]] show ?case .
qed

section \<open>Calls of the local tools\<close>

definition sample_retriever :: retriever where
  "sample_retriever = backend_retriever (LocalIndex sample_index) sample_digest id"

definition sample_caller :: caller_context where
  "sample_caller = \<lparr>cc_subject = ''ops-7'', cc_roles = {''agent.invoke''}, cc_agent = ''customer'',
     cc_request_id = ''r-1''\<rparr>"

definition sample_args :: tool_args where
  "sample_args = [(''customer_id'', PStr ''CUST-1098'')]"

definition sample_times :: "real \<Rightarrow> call_times" where
  "sample_times t = \<lparr>ct_started = t, ct_now = t, ct_ended = t, ct_stamp = t\<rparr>"

lemma sample_local_gateway:
  obtains g0 g where "new_mcp_gateway 2 2 2 60 [] = Inr g0"
    "mcp_register_all (local_tools sample_retriever) g0 = Inr g" "local_good sample_retriever g"
proof -
  obtain g where g: "build_local_mcp_gateway sample_retriever 2 2 2 60 = Inr g"
    using build_local_mcp_gateway_ok[of 2 2 2 sample_retriever 60] by (auto simp: is_ok_iff)
  then obtain g0 where "new_mcp_gateway 2 2 2 60 [] = Inr g0"
    "mcp_register_all (local_tools sample_retriever) g0 = Inr g"
    by (auto simp: build_local_mcp_gateway_def split: sum.splits)
  with build_local_good(1)[OF g] show thesis using that by blast
qed

theorem mcp_invoke_governed_witness:
  "\<exists>g r g'. local_good sample_retriever g \<and>
     mcp_invoke id id (sample_times 0) ''customer.get_customer'' sample_args sample_caller g = (r, g') \<and>
     length (mg_audit g') = Suc (length (mg_audit g))"
proof -
  obtain g0 g where g: "local_good sample_retriever g" by (rule sample_local_gateway)
  obtain r g' where i: "mcp_invoke id id (sample_times 0) ''customer.get_customer'' sample_args
      sample_caller g = (r, g')" by fastforce
  have "1 \<le> mg_max_attempts g" using g by (simp add: local_good_def)
  from mcp_invoke_governed[OF i this] g i show ?thesis by fastforce
qed

definition sample_calls :: "mcp_call list" where
  "sample_calls = map (\<lambda>t. (sample_times t, ''customer.get_customer'', sample_args, sample_caller))
     [0, 1, 2, 61, 62]"

theorem mcp_calls_bounded_witness:
  "\<exists>g. local_good sample_retriever g \<and>
     int (runs_of (tool_key ''customer.get_customer'' sample_caller)
       (\<lambda>u. 2 - of_int 60 < u \<and> u \<le> 2) (fst (mcp_run id id sample_calls g))) \<le> 2"
proof -
  obtain g0 g where g: "new_mcp_gateway 2 2 2 60 [] = Inr g0"
    "mcp_register_all (local_tools sample_retriever) g0 = Inr g" "local_good sample_retriever g"
    by (rule sample_local_gateway)
  have "sorted (map (\<lambda>(ct, _). ct_now ct) sample_calls)"
    by (simp add: sample_calls_def sample_times_def)
  then have "int (runs_of (tool_key ''customer.get_customer'' sample_caller)
      (\<lambda>u. 2 - of_int 60 < u \<and> u \<le> 2) (fst (mcp_run id id sample_calls g))) \<le> 2"
    by (rule mcp_calls_bounded[OF g(1,2)])
  with g(3) show ?thesis by blast
qed

section \<open>The policy servers outside the gateway\<close>

text \<open>The remote policy server asks with the single role \<open>agent.invoke\<close>, the local one with no role, but
  every chunk of the knowledge base declares at least one of the entitlement domains and no platform
  role; so a search there never finds anything: it returns an empty result or an error.\<close>

lemma local_search_unentitled:
  assumes "\<not> list_ex (\<lambda>(k, c). kc_allowed_roles c \<subseteq> roles) idx"
  shows "local_search idx q e roles limit = Inr []"
proof -
  have "filter (\<lambda>c. kc_allowed_roles c \<subseteq> roles) (map snd idx) = []"
    using assms by (induction idx) auto
  then show ?thesis by (simp add: local_search_def py_take_def rank_key_def)
qed

lemma unentitled_search_blind:
  assumes "\<forall>(k, c)\<in>set idx. kc_allowed_roles c \<noteq> {} \<and> kc_allowed_roles c \<subseteq> set known_chunk_roles"
    and "roles \<inter> set known_chunk_roles = {}"
  shows "remote_policy_search (backend_retriever (LocalIndex idx) digest round6) roles timeout n
      (PolicySearchRequest q limit) \<in> {Inr (PoliciesOut [])} \<union> range (\<lambda>m. Inl (ValueError m))"
proof -
  have "\<not> kc_allowed_roles c \<subseteq> roles" if "(k, c) \<in> set idx" for k c
    using assms that by fastforce
  then have "local_search idx q e roles limit = Inr []" for e
    by (intro local_search_unentitled) (auto simp: list_ex_iff)
  then have "fst (retrieve (local_search idx) emb round6 q roles limit m) = Inr [] \<or>
      (\<exists>e. fst (retrieve (local_search idx) emb round6 q roles limit m) = Inl (ValueError e))"
    for emb m
    by (simp add: retrieve_def)
  then consider "backend_retriever (LocalIndex idx) digest round6 timeout n q roles limit = Inr []"
    | e where "backend_retriever (LocalIndex idx) digest round6 timeout n q roles limit = Inl (ValueError e)"
    unfolding backend_retriever_def backend_search.simps by blast
  then show ?thesis by cases (simp_all add: tool_search_policy_def)
qed

theorem remote_policy_server_blind:
  assumes "create_remote_mcp ''policy'' (PolicyTools (backend_retriever (LocalIndex idx) digest round6)) = Inr server"
    and "(''policy.search'', f) \<in> set (rs_tools server)"
    and "\<forall>(k, c)\<in>set idx. kc_allowed_roles c \<noteq> {} \<and> kc_allowed_roles c \<subseteq> set known_chunk_roles"
  shows "f timeout n (PolicySearchRequest q limit) = Inr (PoliciesOut []) \<or>
    (\<exists>m. f timeout n (PolicySearchRequest q limit) = Inl (ValueError m))"
proof -
  have "f = remote_policy_search (backend_retriever (LocalIndex idx) digest round6) {''agent.invoke''}"
    using assms(1,2) by (auto simp: create_remote_mcp_def Let_def)
  moreover have "{''agent.invoke''} \<inter> set known_chunk_roles = {}" by (simp add: known_chunk_roles_def)
  ultimately show ?thesis using unentitled_search_blind[OF assms(3), of "{''agent.invoke''}"] by fastforce
qed

theorem remote_policy_server_blind_witness:
  "\<exists>server f. create_remote_mcp ''policy'' (PolicyTools sample_retriever) = Inr server \<and>
     (''policy.search'', f) \<in> set (rs_tools server) \<and>
     (f 2 1 (PolicySearchRequest ''refund'' 3) = Inr (PoliciesOut []) \<or>
      (\<exists>m. f 2 1 (PolicySearchRequest ''refund'' 3) = Inl (ValueError m)))"
proof -
  obtain server where s: "create_remote_mcp ''policy'' (PolicyTools sample_retriever) = Inr server"
    by (simp add: create_remote_mcp_def)
  then obtain f where f: "(''policy.search'', f) \<in> set (rs_tools server)"
    by (auto simp: create_remote_mcp_def Let_def)
  have "\<forall>(k, c)\<in>set sample_index. kc_allowed_roles c \<noteq> {} \<and> kc_allowed_roles c \<subseteq> set known_chunk_roles"
    by (simp add: sample_index_def sample_chunk_def known_chunk_roles_def)
  from remote_policy_server_blind[OF s[unfolded sample_retriever_def] f this] s f show ?thesis by blast
qed

end
