(* ===== verification/Agents.thy ===== *)
theory Agents
  imports McpLocal
begin

text \<open>
  The specialist agents (agents/): identifier parsing and the three investigations.  An agent calls
  the tool gateway through \<open>call\<close>, the model of \<open>GovernedMCPGateway.invoke\<close>, and threads the gateway's
  state; its lemmas are proved in the locale \<open>tool_gateway\<close> and used on the local gateway.
\<close>

section \<open>Results\<close>

datatype agent_name = CustomerAgent | PaymentsAgent | PolicyAgent | HumanReviewAgent

datatype source_type = CustomerSource | AccountSource | TransactionSource | PolicySource

record evidence =
  ev_source_id :: string
  ev_source_type :: source_type
  ev_detail :: string

record agent_result =
  rs_agent :: agent_name
  rs_summary :: string
  rs_evidence :: "evidence list"
  rs_requires_human_approval :: bool
  rs_error_code :: "string option"

definition new_evidence :: "string \<Rightarrow> source_type \<Rightarrow> string \<Rightarrow> exn + evidence" where
  "new_evidence source_id source_type detail =
     (if 1 \<le> length source_id \<and> length source_id \<le> 100 \<and> 1 \<le> length detail \<and> length detail \<le> 1000
      then Inr \<lparr>ev_source_id = source_id, ev_source_type = source_type, ev_detail = detail\<rparr>
      else Inl ValidationError)"

definition new_agent_result ::
  "agent_name \<Rightarrow> string \<Rightarrow> evidence list \<Rightarrow> bool \<Rightarrow> string option \<Rightarrow> exn + agent_result" where
  "new_agent_result agent summary evs approval error_code =
     (if 1 \<le> length summary \<and> length summary \<le> 2000
      then Inr \<lparr>rs_agent = agent, rs_summary = summary, rs_evidence = evs,
                rs_requires_human_approval = approval, rs_error_code = error_code\<rparr>
      else Inl ValidationError)"

section \<open>Identifiers in a query\<close>

definition customer_id_search :: regex where
  "customer_id_search = Cat WordB (Cat (LitI ''CUST-'') (Cat digits_4_10 WordB))"

definition transaction_id_search :: regex where
  "transaction_id_search = Cat WordB (Cat (LitI ''TXN-'') (Cat digits_4_10 WordB))"

definition customer_id_from :: "string \<Rightarrow> string option" where
  "customer_id_from query = map_option str_upper (search customer_id_search query)"

definition transaction_id_from :: "string \<Rightarrow> string option" where
  "transaction_id_from query = map_option str_upper (search transaction_id_search query)"

section \<open>The customer agent\<close>

type_synonym 'g invoker = "string \<Rightarrow> tool_args \<Rightarrow> caller_context \<Rightarrow> 'g \<Rightarrow> (exn + tool_output) \<times> 'g"

fun as_customer :: "tool_output \<Rightarrow> exn + customer_record" where
  "as_customer (CustomerOut c) = Inr c" | "as_customer _ = Inl ValidationError"

fun as_accounts :: "tool_output \<Rightarrow> exn + customer_accounts" where
  "as_accounts (AccountsOut a) = Inr a" | "as_accounts _ = Inl ValidationError"

fun as_transaction :: "tool_output \<Rightarrow> exn + transaction_record" where
  "as_transaction (TransactionOut t) = Inr t" | "as_transaction _ = Inl ValidationError"

fun as_policies :: "tool_output \<Rightarrow> exn + policy_record list" where
  "as_policies (PoliciesOut ps) = Inr ps" | "as_policies _ = Inl ValidationError"

text \<open>A call followed by \<open>model_validate\<close>.\<close>

definition invoke_as ::
  "'g invoker \<Rightarrow> (tool_output \<Rightarrow> exn + 'a) \<Rightarrow> string \<Rightarrow> tool_args \<Rightarrow> caller_context \<Rightarrow> 'g \<Rightarrow> (exn + 'a) \<times> 'g" where
  "invoke_as call conv tool args caller g =
     (case call tool args caller g of
        (Inl e, g') \<Rightarrow> (Inl e, g')
      | (Inr out, g') \<Rightarrow> (conv out, g'))"

text \<open>\<open>except MCPGatewayError\<close>: anything else passes through.\<close>

definition tool_failed :: "exn + agent_result \<Rightarrow> exn \<Rightarrow> exn + agent_result" where
  "tool_failed fallback e = (if is_mcp_gateway_error e then fallback else Inl e)"

definition customer_evidence :: "customer_record \<Rightarrow> exn + evidence" where
  "customer_evidence c = new_evidence (cr_customer_id c) CustomerSource
     (''Customer '' @ cr_display_name c @ ''; preferred contact '' @ cr_contact_preference c @
      ''; masked email '' @ cr_masked_email c @ ''.'')"

definition account_evidence :: "account_record \<Rightarrow> exn + evidence" where
  "account_evidence a = new_evidence (ar_account_id a) AccountSource
     (ar_account_type a @ '' account is '' @ ar_status a @ '' in '' @ ar_currency a @ ''.'')"

definition customer_answer :: "customer_record \<Rightarrow> account_record list \<Rightarrow> exn + agent_result" where
  "customer_answer c accounts =
     (case customer_evidence c of
        Inl e \<Rightarrow> Inl e
      | Inr ev \<Rightarrow>
          (case map_outcome account_evidence accounts of
             Inl e \<Rightarrow> Inl e
           | Inr evs \<Rightarrow>
               new_agent_result CustomerAgent
                 (''Found synthetic customer '' @ cr_customer_id c @ '' with '' @
                  show_nat (length accounts) @ '' accounts.'') (ev # evs) False None))"

definition customer_failure :: "exn + agent_result" where
  "customer_failure = new_agent_result CustomerAgent
     ''Customer tools could not return an authorised result.'' [] True (Some ''CUSTOMER_TOOL_FAILURE'')"

definition customer_investigate ::
  "'g invoker \<Rightarrow> string \<Rightarrow> caller_context \<Rightarrow> 'g \<Rightarrow> (exn + agent_result) \<times> 'g" where
  "customer_investigate call query caller g =
     (case customer_id_from query of
        None \<Rightarrow> (new_agent_result CustomerAgent ''A valid fictional customer identifier is required.'' []
                  False (Some ''CUSTOMER_ID_REQUIRED''), g)
      | Some customer_id \<Rightarrow>
          (case invoke_as call as_customer ''customer.get_customer'' [(''customer_id'', PStr customer_id)]
                  caller g of
             (Inl e, g1) \<Rightarrow> (tool_failed customer_failure e, g1)
           | (Inr c, g1) \<Rightarrow>
               (case invoke_as call as_accounts ''customer.get_accounts''
                       [(''customer_id'', PStr customer_id)] caller g1 of
                  (Inl e, g2) \<Rightarrow> (tool_failed customer_failure e, g2)
                | (Inr accts, g2) \<Rightarrow> (customer_answer c (ca_accounts accts), g2))))"

section \<open>The payments agent\<close>

text \<open>\<open>f"{amount:.2f}"\<close> of a number of hundredths.\<close>

definition show_2f :: "int \<Rightarrow> string" where
  "show_2f n =
     (let a = nat \<bar>n\<bar> in (if n < 0 then ''-'' else []) @ show_nat (a div 100) @ ''.'' @
        show_nat (a div 10 mod 10) @ show_nat (a mod 10))"

definition transaction_evidence :: "transaction_record \<Rightarrow> exn + evidence" where
  "transaction_evidence t =
     (let reason = (case tr_failure_reason t of
            None \<Rightarrow> ''No failure reason recorded''
          | Some r \<Rightarrow> if r = [] then ''No failure reason recorded'' else r)
      in new_evidence (tr_transaction_id t) TransactionSource
           (tr_currency t @ '' '' @ show_2f (tr_amount t) @ '' via '' @ tr_payment_route t @
            ''; status '' @ tr_status t @ ''; reason: '' @ reason @ ''.''))"

definition payments_answer :: "transaction_record \<Rightarrow> exn + agent_result" where
  "payments_answer t =
     (case transaction_evidence t of
        Inl e \<Rightarrow> Inl e
      | Inr ev \<Rightarrow>
          new_agent_result PaymentsAgent
            (''Transaction '' @ tr_transaction_id t @ '' is '' @ tr_status t @
             ''; no payment action was executed.'') [ev] False None)"

definition payments_failure :: "exn + agent_result" where
  "payments_failure = new_agent_result PaymentsAgent
     ''Payment tools could not return an authorised result.'' [] True (Some ''PAYMENT_TOOL_FAILURE'')"

definition payments_mismatch :: "exn + agent_result" where
  "payments_mismatch = new_agent_result PaymentsAgent
     ''The supplied customer and transaction identifiers do not match.'' [] True
     (Some ''CUSTOMER_TRANSACTION_MISMATCH'')"

definition payments_investigate ::
  "'g invoker \<Rightarrow> string \<Rightarrow> caller_context \<Rightarrow> 'g \<Rightarrow> (exn + agent_result) \<times> 'g" where
  "payments_investigate call query caller g =
     (case transaction_id_from query of
        None \<Rightarrow> (new_agent_result PaymentsAgent ''A valid fictional transaction identifier is required.'' []
                  False (Some ''TRANSACTION_ID_REQUIRED''), g)
      | Some transaction_id \<Rightarrow>
          (case invoke_as call as_transaction ''payments.get_transaction''
                  [(''transaction_id'', PStr transaction_id)] caller g of
             (Inl e, g1) \<Rightarrow> (tool_failed payments_failure e, g1)
           | (Inr t, g1) \<Rightarrow>
               (case customer_id_from query of
                  None \<Rightarrow> (payments_answer t, g1)
                | Some requested \<Rightarrow>
                    if requested \<noteq> [] \<and> requested \<noteq> tr_customer_id t then (payments_mismatch, g1)
                    else (payments_answer t, g1))))"

section \<open>The policy agent\<close>

definition policy_evidence :: "policy_record \<Rightarrow> exn + evidence" where
  "policy_evidence p = new_evidence (pr_policy_id p) PolicySource
     (pr_title p @ '': '' @ pr_text p @ '' [citation: '' @ pr_chunk_id p @ '', version '' @ pr_version p @
      '', sha256 '' @ pr_provenance_sha256 p @ '']'')"

definition policy_answer :: "policy_record list \<Rightarrow> exn + agent_result" where
  "policy_answer policies =
     (if policies = []
      then new_agent_result PolicyAgent
        ''No matching synthetic policy was found; manual review is required.'' [] True
        (Some ''POLICY_NOT_FOUND'')
      else case map_outcome policy_evidence policies of
          Inl e \<Rightarrow> Inl e
        | Inr evs \<Rightarrow>
            new_agent_result PolicyAgent
              (''Found '' @ show_nat (length policies) @ '' relevant synthetic policy record(s).'')
              evs False None)"

definition policy_failure :: "exn + agent_result" where
  "policy_failure = new_agent_result PolicyAgent
     ''Policy tools could not return an authorised result.'' [] True (Some ''POLICY_TOOL_FAILURE'')"

definition policy_investigate ::
  "'g invoker \<Rightarrow> string \<Rightarrow> caller_context \<Rightarrow> 'g \<Rightarrow> (exn + agent_result) \<times> 'g" where
  "policy_investigate call query caller g =
     (case invoke_as call as_policies ''policy.search'' [(''query'', PStr query), (''limit'', PInt 3)]
             caller g of
        (Inl e, g1) \<Rightarrow> (tool_failed policy_failure e, g1)
      | (Inr policies, g1) \<Rightarrow> (policy_answer policies, g1))"

section \<open>Identifiers satisfy the schema\<close>

lemma lit_at_matches: "q \<in> set (lit_at eq s p) \<Longrightarrow> \<exists>u. advances p u q \<and> list_all2 eq s u"
proof (induction eq s p rule: lit_at.induct)
  case (1 eq p)
  then show ?case by (intro exI[of _ "[]"]) simp
next
  case (2 eq x xs b)
  then show ?case by simp
next
  case (3 eq x xs b c cs)
  then obtain u where "eq x c" "advances (c # b, cs) u q" "list_all2 eq xs u"
    by (auto split: if_splits)
  then show ?case by (intro exI[of _ "c # u"]) (auto simp: advances_def)
qed

lemma id_search:
  assumes "search (Cat WordB (Cat (LitI l) (Cat digits_4_10 WordB))) s = Some t"
  shows "\<exists>u d. t = u @ d \<and> list_all2 eq_ignore_case l u \<and> list_all is_digit d \<and> 4 \<le> length d \<and> length d \<le> 10"
proof -
  obtain pre post where m: "(rev t @ rev pre, post) \<in>
      set (rmatch (Cat WordB (Cat (LitI l) (Cat digits_4_10 WordB))) (rev pre, t @ post))"
    using search_Some[OF assms] by blast
  then obtain p1 p2 p3 where p1: "p1 \<in> set (rmatch WordB (rev pre, t @ post))"
    and lit: "p2 \<in> set (rmatch (LitI l) p1)"
    and p3: "p3 \<in> set (rmatch digits_4_10 p2)" and e: "(rev t @ rev pre, post) \<in> set (rmatch WordB p3)"
    unfolding rmatch_Cat_iff by blast
  have "p1 = (rev pre, t @ post)" using p1 by (simp split: if_splits)
  then have p2: "p2 \<in> set (lit_at eq_ignore_case l (rev pre, t @ post))" using lit by simp
  have p3': "p3 = (rev t @ rev pre, post)" using e by (cases p3) (auto split: if_splits)
  obtain u where u: "advances (rev pre, t @ post) u p2" "list_all2 eq_ignore_case l u"
    using lit_at_matches[OF p2] by blast
  obtain d where d: "advances p2 d p3" "list_all is_digit d" "4 \<le> length d" "length d \<le> 10"
    using p3 unfolding digits_4_10_def rmatch_Many_iff by auto
  have "advances (rev pre, t @ post) (u @ d) p3" using advances_trans[OF u(1) d(1)] .
  then have "t = u @ d" by (auto simp: advances_def p3')
  with u(2) d(2-4) show ?thesis by blast
qed

lemma char_of_code [simp]: "char_of (code c) = c"
  by (simp add: code_def)

lemma upper_plain:
  assumes "x \<in> set ''CUSTXN-''" and "eq_ignore_case x c"
  shows "upper_char c = [x]"
proof -
  have eq: "code (lower_char x) = code (lower_char c)" using assms(2) by (simp add: eq_ignore_case_def)
  have x: "upper_char x = [x]" "code (lower_char x) = (if x = CHR ''-'' then 45 else code x + 32)"
    "x \<noteq> CHR ''-'' \<Longrightarrow> 67 \<le> code x \<and> code x \<le> 88"
    using assms(1)
    by (auto simp: upper_char_def lower_char_def is_lower_latin_def is_lower_az_def is_upper_latin_def
        is_upper_az_def code_def)
  have "code x = 45" if "x = CHR ''-''" using that by (simp add: code_def)
  with eq x have "code c = code x \<or> (\<not> is_upper_latin c \<and> code c = code x + 32 \<and> x \<noteq> CHR ''-'')"
    by (auto simp: code_lower is_upper_latin_def is_upper_az_def Let_def split: if_splits)
  then show ?thesis
  proof
    assume "code c = code x"
    then have "c = x" by (metis char_of_code)
    with x(1) show ?thesis by simp
  next
    assume c: "\<not> is_upper_latin c \<and> code c = code x + 32 \<and> x \<noteq> CHR ''-''"
    then have "is_lower_latin c" using x(3) by (simp add: is_lower_latin_def is_lower_az_def Let_def)
    with c show ?thesis by (simp add: upper_char_def)
  qed
qed

lemma upper_digit: "is_digit c \<Longrightarrow> upper_char c = [c]"
  by (auto simp: upper_char_def is_lower_latin_def is_lower_az_def is_digit_def Let_def)

lemma str_upper_literal: "list_all2 eq_ignore_case l u \<Longrightarrow> set l \<subseteq> set ''CUSTXN-'' \<Longrightarrow> str_upper u = l"
  unfolding str_upper_def
proof (induction rule: list_all2_induct)
  case Nil
  then show ?case by simp
next
  case (Cons x xs y ys)
  then have "upper_char y = [x]" using upper_plain[of x y] by simp
  with Cons show ?case by simp
qed

lemma str_upper_digits: "list_all is_digit d \<Longrightarrow> str_upper d = d"
  by (induction d) (auto simp: str_upper_def upper_digit)

lemma id_upper:
  assumes "search (Cat WordB (Cat (LitI l) (Cat digits_4_10 WordB))) s = Some t"
    and "set l \<subseteq> set ''CUSTXN-''"
  shows "full_match (Cat (Lit l) digits_4_10) (str_upper t)"
proof -
  obtain u d where t: "t = u @ d" "list_all2 eq_ignore_case l u" "list_all is_digit d"
    "4 \<le> length d" "length d \<le> 10"
    using id_search[OF assms(1)] by blast
  have "str_upper t = str_upper u @ str_upper d" by (simp add: t(1) str_upper_def)
  also have "\<dots> = l @ d" using str_upper_literal[OF t(2) assms(2)] str_upper_digits[OF t(3)] by simp
  finally show ?thesis
    using t(3-5) unfolding digits_4_10_def full_match_Lit_Many by auto
qed

lemma white_not_word: "c \<in> set ''CUSTXN-'' \<or> is_digit c \<Longrightarrow> \<not> is_white_space c"
  by (auto simp: is_white_space_def is_digit_def code_def Let_def)

lemma id_stripped:
  assumes "full_match (Cat (Lit l) digits_4_10) i" and "set l \<subseteq> set ''CUSTXN-''"
  shows "field_strip i = i"
proof -
  obtain d where i: "i = l @ d" "list_all is_digit d"
    using assms(1) unfolding digits_4_10_def full_match_Lit_Many by blast
  then have clean: "\<forall>c\<in>set i. \<not> is_white_space c"
    using assms(2) white_not_word by (auto simp: list_all_iff)
  have dw: "dropWhile is_white_space xs = xs" if "\<forall>c\<in>set xs. \<not> is_white_space c" for xs
    using that by (cases xs) auto
  show ?thesis using dw[of i] dw[of "rev i"] clean by (simp add: field_strip_def)
qed

lemma customer_id_wf: "customer_id_from q = Some i \<Longrightarrow> full_match customer_id_pattern i \<and> field_strip i = i"
  using id_upper[of "''CUST-''" q] id_stripped[of "''CUST-''"]
  by (auto simp: customer_id_from_def customer_id_search_def customer_id_pattern_def)

lemma transaction_id_wf:
  "transaction_id_from q = Some i \<Longrightarrow> full_match transaction_id_pattern i \<and> field_strip i = i"
  using id_upper[of "''TXN-''" q] id_stripped[of "''TXN-''"]
  by (auto simp: transaction_id_from_def transaction_id_search_def transaction_id_pattern_def)

lemma customer_request_of_query:
  "customer_id_from q = Some i \<Longrightarrow> customer_request [(''customer_id'', PStr i)] = Inr (CustomerRequest i)"
  by (simp add: customer_request_def only_field_def dict_get_def customer_id_wf)

lemma transaction_request_of_query:
  "transaction_id_from q = Some i \<Longrightarrow>
     transaction_request [(''transaction_id'', PStr i)] = Inr (TransactionRequest i)"
  by (simp add: transaction_request_def only_field_def dict_get_def transaction_id_wf)

text \<open>An identifier that an agent takes from a query, in whatever case it is written there, always
  satisfies the schema of the tool it is passed to; so an agent's call is never refused as invalid.\<close>

theorem agent_identifiers_valid:
  "(case customer_id_from q of
      None \<Rightarrow> True
    | Some i \<Rightarrow> customer_request [(''customer_id'', PStr i)] = Inr (CustomerRequest i)) \<and>
   (case transaction_id_from q of
      None \<Rightarrow> True
    | Some i \<Rightarrow> transaction_request [(''transaction_id'', PStr i)] = Inr (TransactionRequest i))"
  using customer_request_of_query transaction_request_of_query by (auto split: option.split)

section \<open>What an agent does to a gateway\<close>

text \<open>The audit trail grew by at most \<open>n\<close> records, all for this caller, its request
  and one of \<open>tools\<close>.\<close>

definition recorded ::
  "string set \<Rightarrow> nat \<Rightarrow> caller_context \<Rightarrow> audit_record list \<Rightarrow> audit_record list \<Rightarrow> bool" where
  "recorded tools n caller before after \<longleftrightarrow>
     (\<exists>recs. after = before @ recs \<and> length recs \<le> n \<and>
        (\<forall>r\<in>set recs. au_subject r = field_strip (cc_subject caller) \<and>
           au_agent r = field_strip (cc_agent caller) \<and> au_request_id r = field_strip (cc_request_id caller) \<and>
           au_tool r \<in> field_strip ` tools))"

lemma recorded_refl [simp]: "recorded tools n caller xs xs"
  by (auto simp: recorded_def)

lemma recorded_trans:
  "recorded tools m caller xs ys \<Longrightarrow> recorded tools n caller ys zs \<Longrightarrow> recorded tools (m + n) caller xs zs"
  by (fastforce simp: recorded_def)

lemma recorded_mono:
  "recorded tools m caller xs ys \<Longrightarrow> m \<le> n \<Longrightarrow> tools \<subseteq> tools' \<Longrightarrow> recorded tools' n caller xs ys"
  by (fastforce simp: recorded_def)

text \<open>The exceptions that can leave an agent.\<close>

definition agent_escape :: "exn \<Rightarrow> bool" where
  "agent_escape e \<longleftrightarrow> e = CancelledError \<or> e = ValidationError"

lemma new_agent_result_Inl: "new_agent_result a s ev b c = Inl e \<Longrightarrow> e = ValidationError"
  by (auto simp: new_agent_result_def split: if_splits)

lemma new_evidence_Inl: "new_evidence a b c = Inl e \<Longrightarrow> e = ValidationError"
  by (auto simp: new_evidence_def split: if_splits)

lemma map_outcome_Inl: "map_outcome f xs = Inl e \<Longrightarrow> \<exists>x\<in>set xs. f x = Inl e"
  by (induction xs) (auto split: sum.splits)

lemma answer_Inl:
  "customer_answer c accts = Inl e \<Longrightarrow> e = ValidationError"
  "payments_answer t = Inl e \<Longrightarrow> e = ValidationError"
  "policy_answer ps = Inl e \<Longrightarrow> e = ValidationError"
  by (auto simp: customer_answer_def payments_answer_def policy_answer_def customer_evidence_def
      transaction_evidence_def policy_evidence_def account_evidence_def Let_def
      split: sum.splits if_splits dest!: map_outcome_Inl new_evidence_Inl new_agent_result_Inl)

lemma failure_ok [simp]:
  "customer_failure = Inr \<lparr>rs_agent = CustomerAgent, rs_summary =
     ''Customer tools could not return an authorised result.'', rs_evidence = [],
     rs_requires_human_approval = True, rs_error_code = Some ''CUSTOMER_TOOL_FAILURE''\<rparr>"
  "payments_failure = Inr \<lparr>rs_agent = PaymentsAgent, rs_summary =
     ''Payment tools could not return an authorised result.'', rs_evidence = [],
     rs_requires_human_approval = True, rs_error_code = Some ''PAYMENT_TOOL_FAILURE''\<rparr>"
  "payments_mismatch = Inr \<lparr>rs_agent = PaymentsAgent, rs_summary =
     ''The supplied customer and transaction identifiers do not match.'', rs_evidence = [],
     rs_requires_human_approval = True, rs_error_code = Some ''CUSTOMER_TRANSACTION_MISMATCH''\<rparr>"
  "policy_failure = Inr \<lparr>rs_agent = PolicyAgent, rs_summary =
     ''Policy tools could not return an authorised result.'', rs_evidence = [],
     rs_requires_human_approval = True, rs_error_code = Some ''POLICY_TOOL_FAILURE''\<rparr>"
  by (simp_all add: customer_failure_def payments_failure_def payments_mismatch_def policy_failure_def
      new_agent_result_def)

lemma tool_failed_Inr:
  "tool_failed (Inr r) e = Inr r' \<longleftrightarrow> is_mcp_gateway_error e \<and> r' = r"
  "tool_failed (Inr r) e = Inl e' \<longleftrightarrow> \<not> is_mcp_gateway_error e \<and> e' = e"
  by (auto simp: tool_failed_def)

context tool_gateway
begin

lemma invoke_as_frame:
  assumes "good g" and "invoke_as call conv t a c g = (r, g')"
  shows "good g'" and "recorded {t} 1 c (trail g) (trail g')"
proof -
  obtain r0 where i: "call t a c g = (r0, g')"
    using assms(2) by (auto simp: invoke_as_def split: prod.splits sum.splits)
  show "good g'" using good_inv[OF assms(1), of t a c] i by simp
  show "recorded {t} 1 c (trail g) (trail g')"
    using trail_inv[OF assms(1), of t a c] i by (auto simp: recorded_def)
qed

lemma invoke_as_Inr:
  assumes "good g" and "invoke_as call conv t a c g = (Inr x, g')"
  shows "\<exists>out. answers t a c out \<and> conv out = Inr x"
proof -
  obtain out where "call t a c g = (Inr out, g')" "conv out = Inr x"
    using assms(2) by (auto simp: invoke_as_def split: prod.splits sum.splits)
  then show ?thesis using inv_answers[OF assms(1), of t a c out] by auto
qed

lemma invoke_as_Inl:
  assumes "good g" and "invoke_as call conv t a c g = (Inl e, g')"
    and "\<And>out e. conv out = Inl e \<Longrightarrow> e = ValidationError"
  shows "is_mcp_gateway_error e \<or> agent_escape e"
proof -
  obtain r0 where i: "call t a c g = (r0, g')" "r0 = Inl e \<or> (\<exists>out. r0 = Inr out \<and> conv out = Inl e)"
    using assms(2) by (auto simp: invoke_as_def split: prod.splits sum.splits)
  then show ?thesis
    using inv_errors[OF assms(1), of t a c e] assms(3) by (auto simp: agent_escape_def)
qed

lemma conv_Inl:
  "as_customer out = Inl e \<Longrightarrow> e = ValidationError" "as_accounts out = Inl e \<Longrightarrow> e = ValidationError"
  "as_transaction out = Inl e \<Longrightarrow> e = ValidationError" "as_policies out = Inl e \<Longrightarrow> e = ValidationError"
  by (cases out; simp)+

lemma customer_frame:
  assumes "good g" and "customer_investigate call q c g = (r, g')"
  shows "good g' \<and> recorded {''customer.get_customer'', ''customer.get_accounts''} 2 c (trail g) (trail g') \<and>
    (case r of Inl e \<Rightarrow> agent_escape e | Inr x \<Rightarrow> rs_agent x = CustomerAgent)"
proof (cases "customer_id_from q")
  case None
  with assms show ?thesis
    by (auto simp: customer_investigate_def new_agent_result_def agent_escape_def)
next
  case (Some i)
  let ?a = "[(''customer_id'', PStr i)]"
  obtain r1 g1 where i1: "invoke_as call as_customer ''customer.get_customer'' ?a c g = (r1, g1)" by fastforce
  note f1 = invoke_as_frame[OF assms(1) i1]
  show ?thesis
  proof (cases r1)
    case (Inl e)
    then have "g' = g1" "r = tool_failed customer_failure e"
      using assms(2) Some i1 by (auto simp: customer_investigate_def)
    moreover have "is_mcp_gateway_error e \<or> agent_escape e"
      using invoke_as_Inl[OF assms(1) i1[unfolded Inl] conv_Inl(1)] .
    ultimately show ?thesis
      using f1 by (auto simp: tool_failed_def intro: recorded_mono)
  next
    case (Inr cust)
    obtain r2 g2 where i2: "invoke_as call as_accounts ''customer.get_accounts'' ?a c g1 = (r2, g2)" by fastforce
    note f2 = invoke_as_frame[OF f1(1) i2]
    have rec: "recorded {''customer.get_customer'', ''customer.get_accounts''} 2 c (trail g) (trail g2)"
      using recorded_trans[OF recorded_mono[OF f1(2)] recorded_mono[OF f2(2)],
          of 1 "{''customer.get_customer'', ''customer.get_accounts''}" 1] by (simp add: numeral_2_eq_2)
    have g2: "g' = g2" and r: "r = (case r2 of Inl e \<Rightarrow> tool_failed customer_failure e
        | Inr x \<Rightarrow> customer_answer cust (ca_accounts x))"
      using assms(2) Some i1 i2 Inr by (auto simp: customer_investigate_def split: sum.splits)
    have "case r of Inl e \<Rightarrow> agent_escape e | Inr x \<Rightarrow> rs_agent x = CustomerAgent"
    proof (cases r2)
      case (Inl e)
      then show ?thesis
        using invoke_as_Inl[OF f1(1) i2[unfolded Inl] conv_Inl(2)] r by (auto simp: tool_failed_def)
    next
      case (Inr x)
      then show ?thesis
        using r by (auto simp: customer_answer_def new_agent_result_def agent_escape_def
            split: sum.splits if_splits dest!: answer_Inl new_evidence_Inl map_outcome_Inl
            simp: customer_evidence_def account_evidence_def)
    qed
    with rec f2(1) g2 show ?thesis by simp
  qed
qed

lemma payments_frame:
  assumes "good g" and "payments_investigate call q c g = (r, g')"
  shows "good g' \<and> recorded {''payments.get_transaction''} 1 c (trail g) (trail g') \<and>
    (case r of Inl e \<Rightarrow> agent_escape e | Inr x \<Rightarrow> rs_agent x = PaymentsAgent)"
proof (cases "transaction_id_from q")
  case None
  with assms show ?thesis
    by (auto simp: payments_investigate_def new_agent_result_def agent_escape_def)
next
  case (Some i)
  let ?a = "[(''transaction_id'', PStr i)]"
  obtain r1 g1 where i1: "invoke_as call as_transaction ''payments.get_transaction'' ?a c g = (r1, g1)"
    by fastforce
  note f1 = invoke_as_frame[OF assms(1) i1]
  have "g' = g1" using assms(2) Some i1
    by (auto simp: payments_investigate_def split: sum.splits option.splits if_splits)
  moreover have "case r of Inl e \<Rightarrow> agent_escape e | Inr x \<Rightarrow> rs_agent x = PaymentsAgent"
  proof (cases r1)
    case (Inl e)
    then have "r = tool_failed payments_failure e"
      using assms(2) Some i1 by (auto simp: payments_investigate_def)
    then show ?thesis
      using invoke_as_Inl[OF assms(1) i1[unfolded Inl] conv_Inl(3)] by (auto simp: tool_failed_def)
  next
    case (Inr t)
    then have "r = payments_answer t \<or> r = payments_mismatch"
      using assms(2) Some i1 by (auto simp: payments_investigate_def split: option.splits if_splits)
    then show ?thesis
      using answer_Inl(2)[of t]
      by (auto simp: payments_answer_def new_agent_result_def agent_escape_def split: sum.splits if_splits)
  qed
  ultimately show ?thesis using f1 by simp
qed

lemma policy_frame:
  assumes "good g" and "policy_investigate call q c g = (r, g')"
  shows "good g' \<and> recorded {''policy.search''} 1 c (trail g) (trail g') \<and>
    (case r of Inl e \<Rightarrow> agent_escape e | Inr x \<Rightarrow> rs_agent x = PolicyAgent)"
proof -
  let ?a = "[(''query'', PStr q), (''limit'', PInt 3)]"
  obtain r1 g1 where i1: "invoke_as call as_policies ''policy.search'' ?a c g = (r1, g1)" by fastforce
  note f1 = invoke_as_frame[OF assms(1) i1]
  have "g' = g1" and r: "r = (case r1 of Inl e \<Rightarrow> tool_failed policy_failure e | Inr ps \<Rightarrow> policy_answer ps)"
    using assms(2) i1 by (auto simp: policy_investigate_def split: sum.splits)
  moreover have "case r of Inl e \<Rightarrow> agent_escape e | Inr x \<Rightarrow> rs_agent x = PolicyAgent"
  proof (cases r1)
    case (Inl e)
    then show ?thesis
      using r invoke_as_Inl[OF assms(1) i1[unfolded Inl] conv_Inl(4)] by (auto simp: tool_failed_def)
  next
    case (Inr ps)
    then show ?thesis
      using r answer_Inl(3)[of ps]
      by (auto simp: policy_answer_def new_agent_result_def agent_escape_def split: sum.splits if_splits)
  qed
  ultimately show ?thesis using f1 by simp
qed

end

section \<open>What the agents report\<close>

lemma bank_data_stripped:
  "\<forall>c\<in>set bank_customers. field_strip (cu_customer_id c) = cu_customer_id c"
  "\<forall>a\<in>set bank_accounts. field_strip (ac_account_id a) = ac_account_id a"
  "\<forall>t\<in>set bank_transactions. field_strip (tx_transaction_id t) = tx_transaction_id t \<and>
     field_strip (tx_customer_id t) = tx_customer_id t"
  by code_simp+

lemma tool_get_transaction_Inr:
  assumes "tool_get_transaction i = Inr out"
  obtains t rec where "out = TransactionOut rec" "get_transaction i = Some t"
    "tr_transaction_id rec = i" "tr_customer_id rec = tx_customer_id t" "tr_amount rec = tx_amount t"
proof -
  from assms obtain t where t: "get_transaction i = Some t"
    by (auto simp: tool_get_transaction_def split: option.splits)
  with get_transaction_Some[OF t] bank_data_stripped(3) assms show thesis
    by (auto simp: tool_get_transaction_def intro!: that[OF _ t])
qed

lemma tool_get_customer_Inr:
  assumes "tool_get_customer i = Inr out"
  obtains c rec where "out = CustomerOut rec" "get_customer i = Some c" "cr_customer_id rec = i"
proof -
  from assms obtain c where c: "get_customer i = Some c"
    by (auto simp: tool_get_customer_def split: option.splits)
  with get_customer_Some[OF c] bank_data_stripped(1) assms show thesis
    by (auto simp: tool_get_customer_def intro!: that[OF _ c])
qed

text \<open>The tools return the records of the bank unchanged: no field of them has white space to strip.\<close>

lemma bank_records_stripped:
  "\<forall>t\<in>set bank_transactions. tool_get_transaction (tx_transaction_id t) = Inr (TransactionOut
     \<lparr>tr_transaction_id = tx_transaction_id t, tr_customer_id = tx_customer_id t, tr_account_id = tx_account_id t,
      tr_amount = tx_amount t, tr_currency = tx_currency t, tr_status = tx_status t,
      tr_payment_route = tx_payment_route t, tr_failure_reason = tx_failure_reason t\<rparr>) \<and>
     0 \<le> tx_amount t \<and> tx_failure_reason t \<noteq> Some []"
  "\<forall>c\<in>set bank_customers. tool_get_customer (cu_customer_id c) = Inr (CustomerOut
     \<lparr>cr_customer_id = cu_customer_id c, cr_display_name = cu_display_name c,
      cr_contact_preference = cu_contact_preference c, cr_masked_email = cu_masked_email c,
      cr_classification = cu_classification c\<rparr>)"
  "\<forall>a\<in>set bank_accounts. field_strip (ac_account_id a) = ac_account_id a \<and>
     field_strip (ac_account_type a) = ac_account_type a \<and> field_strip (ac_status a) = ac_status a \<and>
     field_strip (ac_currency a) = ac_currency a"
  by code_simp+

lemma new_evidence_Inr:
  "new_evidence a b c = Inr ev \<Longrightarrow> ev = \<lparr>ev_source_id = a, ev_source_type = b, ev_detail = c\<rparr>"
  by (auto simp: new_evidence_def split: if_splits)

text \<open>Pounds, a point and two digits of pence.\<close>

definition amount_text :: "int \<Rightarrow> string" where
  "amount_text n = show_nat (nat (n div 100)) @ ''.'' @ show_nat (nat (n div 10 mod 10)) @ show_nat (nat (n mod 10))"

lemma show_2f_amount: "0 \<le> n \<Longrightarrow> show_2f n = amount_text n"
  by (simp add: show_2f_def amount_text_def Let_def nat_div_distrib nat_mod_distrib)

text \<open>What the payments agent says of a transaction of the bank, and the customer agent of a customer.\<close>

definition transaction_report :: "transaction \<Rightarrow> agent_result" where
  "transaction_report t =
     \<lparr>rs_agent = PaymentsAgent,
      rs_summary = ''Transaction '' @ tx_transaction_id t @ '' is '' @ tx_status t @ ''; no payment action was executed.'',
      rs_evidence = [\<lparr>ev_source_id = tx_transaction_id t, ev_source_type = TransactionSource,
        ev_detail = tx_currency t @ '' '' @ amount_text (tx_amount t) @ '' via '' @ tx_payment_route t @
          ''; status '' @ tx_status t @ ''; reason: '' @
          (case tx_failure_reason t of None \<Rightarrow> ''No failure reason recorded'' | Some x \<Rightarrow> x) @ ''.''\<rparr>],
      rs_requires_human_approval = False, rs_error_code = None\<rparr>"

definition customer_report :: "customer \<Rightarrow> account list \<Rightarrow> agent_result" where
  "customer_report c accounts =
     \<lparr>rs_agent = CustomerAgent,
      rs_summary = ''Found synthetic customer '' @ cu_customer_id c @ '' with '' @ show_nat (length accounts) @ '' accounts.'',
      rs_evidence =
        \<lparr>ev_source_id = cu_customer_id c, ev_source_type = CustomerSource,
         ev_detail = ''Customer '' @ cu_display_name c @ ''; preferred contact '' @ cu_contact_preference c @
           ''; masked email '' @ cu_masked_email c @ ''.''\<rparr> #
        map (\<lambda>a. \<lparr>ev_source_id = ac_account_id a, ev_source_type = AccountSource,
          ev_detail = ac_account_type a @ '' account is '' @ ac_status a @ '' in '' @ ac_currency a @ ''.''\<rparr>) accounts,
      rs_requires_human_approval = False, rs_error_code = None\<rparr>"

lemma payments_answer_report:
  assumes "get_transaction i = Some t" and "tool_get_transaction i = Inr (TransactionOut rec)"
    and "payments_answer rec = Inr r"
  shows "t \<in> set bank_transactions \<and> tx_transaction_id t = i \<and> r = transaction_report t"
proof -
  have t: "t \<in> set bank_transactions" "tx_transaction_id t = i" using get_transaction_Some[OF assms(1)] by auto
  with bank_records_stripped(1) assms(2) have
    rec: "rec = \<lparr>tr_transaction_id = tx_transaction_id t, tr_customer_id = tx_customer_id t,
      tr_account_id = tx_account_id t, tr_amount = tx_amount t, tr_currency = tx_currency t,
      tr_status = tx_status t, tr_payment_route = tx_payment_route t, tr_failure_reason = tx_failure_reason t\<rparr>"
    and amount: "0 \<le> tx_amount t" "tx_failure_reason t \<noteq> Some []" by auto
  have reason: "(case tx_failure_reason t of None \<Rightarrow> n | Some r \<Rightarrow> if r = [] then n else r) =
      (case tx_failure_reason t of None \<Rightarrow> n | Some r \<Rightarrow> r)" for n
    using amount(2) by (auto split: option.splits)
  have "r = transaction_report t"
    using assms(3) unfolding rec payments_answer_def transaction_evidence_def Let_def transaction_record.simps reason
      show_2f_amount[OF amount(1)]
    by (auto simp: transaction_report_def new_agent_result_def split: sum.splits if_splits dest!: new_evidence_Inr)
  with t show ?thesis by blast
qed

lemma account_evidence_all:
  "map account_evidence accts = map Inr evs \<Longrightarrow>
     evs = map (\<lambda>a. \<lparr>ev_source_id = ar_account_id a, ev_source_type = AccountSource,
       ev_detail = ar_account_type a @ '' account is '' @ ar_status a @ '' in '' @ ar_currency a @ ''.''\<rparr>) accts"
proof (induction accts arbitrary: evs)
  case (Cons a accts)
  then show ?case by (cases evs) (auto simp: account_evidence_def dest: new_evidence_Inr)
qed simp

lemma customer_answer_report:
  assumes "get_customer i = Some c" and "tool_get_customer i = Inr (CustomerOut rec)"
    and "tool_get_accounts i = Inr (AccountsOut a)" and "customer_answer rec (ca_accounts a) = Inr r"
  shows "c \<in> set bank_customers \<and> cu_customer_id c = i \<and>
    r = customer_report c (filter (\<lambda>a. ac_customer_id a = i) bank_accounts)"
proof -
  have c: "c \<in> set bank_customers" "cu_customer_id c = i" using get_customer_Some[OF assms(1)] by auto
  with bank_records_stripped(2) assms(2) have
    rec: "rec = \<lparr>cr_customer_id = cu_customer_id c, cr_display_name = cu_display_name c,
      cr_contact_preference = cu_contact_preference c, cr_masked_email = cu_masked_email c,
      cr_classification = cu_classification c\<rparr>" by auto
  let ?accts = "filter (\<lambda>a. ac_customer_id a = i) bank_accounts"
  have a: "ca_accounts a = map (\<lambda>a. \<lparr>ar_account_id = ac_account_id a, ar_account_type = ac_account_type a,
      ar_status = ac_status a, ar_currency = ac_currency a\<rparr>) ?accts"
    using assms(3) bank_records_stripped(3) by (auto simp: tool_get_accounts_def get_customer_accounts_def)
  obtain ev evs where ev: "customer_evidence rec = Inr ev" "map account_evidence (ca_accounts a) = map Inr evs"
    and r: "new_agent_result CustomerAgent (''Found synthetic customer '' @ cr_customer_id rec @ '' with '' @
      show_nat (length (ca_accounts a)) @ '' accounts.'') (ev # evs) False None = Inr r"
    using assms(4) by (auto simp: customer_answer_def map_outcome_Inr split: sum.splits)
  have "r = customer_report c ?accts"
    using r ev(1) account_evidence_all[OF ev(2)] unfolding rec a
    by (auto simp: customer_report_def customer_evidence_def new_agent_result_def comp_def
        split: if_splits dest!: new_evidence_Inr)
  with c show ?thesis by blast
qed

lemma payments_answer_Inr:
  "payments_answer t = Inr r \<Longrightarrow> \<exists>ev. rs_evidence r = [ev] \<and> ev_source_id ev = tr_transaction_id t \<and>
     rs_error_code r = None \<and> \<not> rs_requires_human_approval r"
  by (auto simp: payments_answer_def transaction_evidence_def new_agent_result_def Let_def
      split: sum.splits if_splits dest!: new_evidence_Inr)

lemma account_evidence_ids:
  "map account_evidence accts = map Inr evs \<Longrightarrow> map ev_source_id evs = map ar_account_id accts"
  using account_evidence_all[of accts evs] by (simp add: comp_def)

lemma customer_answer_Inr:
  assumes "customer_answer c accts = Inr r"
  obtains ev evs where "rs_evidence r = ev # evs" "ev_source_id ev = cr_customer_id c"
    "map ev_source_id evs = map ar_account_id accts" "rs_error_code r = None"
    "\<not> rs_requires_human_approval r"
  using assms account_evidence_ids
  by (auto simp: customer_answer_def customer_evidence_def new_agent_result_def map_outcome_Inr
      split: sum.splits if_splits dest!: new_evidence_Inr)

lemma as_output_Inr:
  "as_customer out = Inr cu \<longleftrightarrow> out = CustomerOut cu" "as_accounts out = Inr ac \<longleftrightarrow> out = AccountsOut ac"
  "as_transaction out = Inr tr \<longleftrightarrow> out = TransactionOut tr"
  by (cases out; simp)+

lemma answered_customer:
  assumes "local_answers retr ''customer.get_customer'' [(''customer_id'', PStr i)] c out"
    and "customer_id_from q = Some i" and "as_customer out = Inr rec"
  shows "''agent.invoke'' \<in> cc_roles c \<and> cc_agent c = ''customer'' \<and> tool_get_customer i = Inr (CustomerOut rec)"
  using assms customer_request_of_query[OF assms(2)] by (auto simp: local_answers_def as_output_Inr)

lemma answered_accounts:
  assumes "local_answers retr ''customer.get_accounts'' [(''customer_id'', PStr i)] c out"
    and "customer_id_from q = Some i" and "as_accounts out = Inr rec"
  shows "tool_get_accounts i = Inr (AccountsOut rec)"
  using assms customer_request_of_query[OF assms(2)] by (auto simp: local_answers_def as_output_Inr)

lemma answered_transaction:
  assumes "local_answers retr ''payments.get_transaction'' [(''transaction_id'', PStr i)] c out"
    and "transaction_id_from q = Some i" and "as_transaction out = Inr rec"
  shows "''agent.invoke'' \<in> cc_roles c \<and> cc_agent c = ''payments'' \<and> tool_get_transaction i = Inr (TransactionOut rec)"
  using assms transaction_request_of_query[OF assms(2)] by (auto simp: local_answers_def as_output_Inr)

text \<open>C27: what the payments agent returns either carries an error code and no evidence, or is the report
  of a transaction of the bank, word for word: its identifier, status, amount, route and reason as
  the bank records them, as evidence of a transaction.  That is the transaction the query names, a customer the
  query names is its owner, and the caller is the payments agent with the role \<open>agent.invoke\<close>.\<close>

theorem payments_agent_sound:
  assumes "local_good retr g"
    and "payments_investigate (local_invoke sha256 round3 clock) q c g = (Inr r, g')"
  shows "rs_evidence r = [] \<and> rs_error_code r \<noteq> None \<or>
    (\<exists>t\<in>set bank_transactions. r = transaction_report t \<and> transaction_id_from q = Some (tx_transaction_id t) \<and>
       customer_id_from q \<in> {None, Some (tx_customer_id t)} \<and>
       ''agent.invoke'' \<in> cc_roles c \<and> cc_agent c = ''payments'')"
proof (cases "transaction_id_from q")
  case None
  with assms(2) show ?thesis by (auto simp: payments_investigate_def new_agent_result_def)
next
  case (Some i)
  obtain r1 g1 where i1: "invoke_as (local_invoke sha256 round3 clock) as_transaction
      ''payments.get_transaction'' [(''transaction_id'', PStr i)] c g = (r1, g1)" by fastforce
  show ?thesis
  proof (cases r1)
    case (Inl e)
    with assms(2) Some i1 show ?thesis
      by (auto simp: payments_investigate_def tool_failed_def split: if_splits)
  next
    case (Inr rec)
    obtain out where "local_answers retr ''payments.get_transaction'' [(''transaction_id'', PStr i)] c out"
      "as_transaction out = Inr rec"
      using local.invoke_as_Inr[OF assms(1) i1[unfolded Inr]] by blast
    note ans = answered_transaction[OF this(1) Some this(2)]
    have "r = \<lparr>rs_agent = PaymentsAgent, rs_summary =
         ''The supplied customer and transaction identifiers do not match.'', rs_evidence = [],
         rs_requires_human_approval = True, rs_error_code = Some ''CUSTOMER_TRANSACTION_MISMATCH''\<rparr> \<or>
      (payments_answer rec = Inr r \<and> customer_id_from q \<in> {None, Some (tr_customer_id rec)})"
      using assms(2) Some i1 Inr customer_id_wf[of q]
      by (auto simp: payments_investigate_def customer_id_pattern_def digits_4_10_def full_match_Lit_Many
          split: option.splits if_splits)
    then show ?thesis
    proof
      assume p: "payments_answer rec = Inr r \<and> customer_id_from q \<in> {None, Some (tr_customer_id rec)}"
      obtain t where t: "get_transaction i = Some t" "tr_customer_id rec = tx_customer_id t"
        using ans by (auto elim!: tool_get_transaction_Inr)
      with payments_answer_report[OF t(1)] ans p Some show ?thesis by (intro disjI2 bexI[of _ t]) auto
    qed simp
  qed
qed

text \<open>C28: what the customer agent returns either carries an error code and no evidence, or is the report
  of a customer of the bank, word for word: the customer's record and one entry for each of the customer's
  accounts, in the order and with the type, status and currency that the bank records.  That is the
  customer the query names, and the caller is the customer agent with the role \<open>agent.invoke\<close>.\<close>

theorem customer_agent_sound:
  assumes "local_good retr g"
    and "customer_investigate (local_invoke sha256 round3 clock) q c g = (Inr r, g')"
  shows "rs_evidence r = [] \<and> rs_error_code r \<noteq> None \<or>
    (\<exists>cu\<in>set bank_customers.
       r = customer_report cu (filter (\<lambda>a. ac_customer_id a = cu_customer_id cu) bank_accounts) \<and>
       customer_id_from q = Some (cu_customer_id cu) \<and>
       ''agent.invoke'' \<in> cc_roles c \<and> cc_agent c = ''customer'')"
proof (cases "customer_id_from q")
  case None
  with assms(2) show ?thesis by (auto simp: customer_investigate_def new_agent_result_def)
next
  case (Some i)
  let ?call = "local_invoke sha256 round3 clock"
  obtain r1 g1 where i1: "invoke_as ?call as_customer
      ''customer.get_customer'' [(''customer_id'', PStr i)] c g = (r1, g1)" by fastforce
  note good1 = local.invoke_as_frame(1)[OF assms(1) i1]
  show ?thesis
  proof (cases r1)
    case (Inl e)
    with assms(2) Some i1 show ?thesis
      by (auto simp: customer_investigate_def tool_failed_def split: if_splits)
  next
    case cust: (Inr cust)
    obtain out where "local_answers retr ''customer.get_customer'' [(''customer_id'', PStr i)] c out"
      "as_customer out = Inr cust"
      using local.invoke_as_Inr[OF assms(1) i1[unfolded cust]] by blast
    note ans1 = answered_customer[OF this(1) Some this(2)]
    obtain r2 g2 where i2: "invoke_as ?call as_accounts
      ''customer.get_accounts'' [(''customer_id'', PStr i)] c g1 = (r2, g2)" by fastforce
    show ?thesis
    proof (cases r2)
      case (Inl e)
      with assms(2) Some i1 i2 cust show ?thesis
        by (auto simp: customer_investigate_def tool_failed_def split: if_splits)
    next
      case (Inr accts)
      obtain out2 where "local_answers retr ''customer.get_accounts'' [(''customer_id'', PStr i)] c out2"
        "as_accounts out2 = Inr accts"
        using local.invoke_as_Inr[OF good1 i2[unfolded Inr]] by blast
      note ans2 = answered_accounts[OF this(1) Some this(2)]
      have "customer_answer cust (ca_accounts accts) = Inr r"
        using assms(2) Some i1 i2 cust Inr by (auto simp: customer_investigate_def)
      moreover obtain cu where cu: "get_customer i = Some cu"
        using ans1 by (auto elim!: tool_get_customer_Inr)
      ultimately have "cu \<in> set bank_customers \<and> cu_customer_id cu = i \<and>
          r = customer_report cu (filter (\<lambda>a. ac_customer_id a = i) bank_accounts)"
        using customer_answer_report[OF cu] ans1 ans2 by blast
      with ans1 Some show ?thesis by (intro disjI2 bexI[of _ cu]) auto
    qed
  qed
qed

section \<open>Sample investigations\<close>

definition plain_invoke :: "local_gateway invoker" where
  "plain_invoke = local_invoke id id (\<lambda>n. sample_times (real n))"

definition agent_caller :: "string \<Rightarrow> caller_context" where
  "agent_caller agent = \<lparr>cc_subject = ''ops-7'', cc_roles = {''agent.invoke''}, cc_agent = agent,
     cc_request_id = ''r-1''\<rparr>"

text \<open>A call that is permitted, within its limit, valid and answered at the first attempt succeeds, and
  charges its own key only.\<close>

lemma mcp_invoke_success:
  assumes "map_of (mg_tools g) tool = Some reg" and "permitted g tool c"
    and "mg_requests g (tool_key tool c) = []" and "1 \<le> mg_rate_limit g"
    and "tg_input_model reg args = Inr v" and "tg_handler reg (mg_timeout g) 1 v c = Inr raw"
    and "tg_output_model reg raw = Inr out" and "1 \<le> mg_max_attempts g"
  obtains g' where "mcp_invoke sha rnd ct tool args c g = (Inr out, g')"
    "mg_tools g' = mg_tools g" "mg_rate_limit g' = mg_rate_limit g" "mg_timeout g' = mg_timeout g"
    "mg_max_attempts g' = mg_max_attempts g"
    "\<And>k. k \<noteq> tool_key tool c \<Longrightarrow> mg_requests g' k = mg_requests g k"
proof -
  have adm: "fst (mcp_admit (ct_now ct) (tool_key tool c) g) = Inr ()"
    using assms(3,4) by (simp add: mcp_admit_def)
  obtain n where n: "mg_max_attempts g = Suc n" using assms(8) by (cases "mg_max_attempts g") auto
  have upt: "[1..<Suc (mg_max_attempts g)] = 1 # [2..<Suc (mg_max_attempts g)]"
    by (simp add: n upt_conv_Cons numeral_2_eq_2 del: upt_Suc)
  have att: "attempt_loop (\<lambda>k. tg_handler reg (mg_timeout g) k v c) (tg_output_model reg)
      (mg_max_attempts g) [1..<Suc (mg_max_attempts g)] 0 Errored = (Inr out, Success, 1)"
    unfolding upt using assms(6,7) by (simp add: attempt_result_def)
  obtain reg' where reg': "map_of (mg_tools g) tool = Some reg'"
    and b: "invoke_body (ct_now ct) tool args c g =
       ((case fst (mcp_admit (ct_now ct) (tool_key tool c) g) of
           Inl e \<Rightarrow> (Inl e, Denied, 0)
         | Inr _ \<Rightarrow>
             (case tg_input_model reg' args of
                Inl _ \<Rightarrow> (Inl (MCPInvalidArguments ''Tool arguments failed schema validation''), Invalid, 0)
              | Inr validated \<Rightarrow>
                  attempt_loop (\<lambda>n. tg_handler reg' (mg_timeout g) n validated c)
                    (tg_output_model reg') (mg_max_attempts g) [1..<Suc (mg_max_attempts g)] 0 Errored)),
        snd (mcp_admit (ct_now ct) (tool_key tool c) g))"
    using invoke_body_permitted[OF assms(2), where now = "ct_now ct" and args = args] by blast
  have "reg' = reg" using reg' assms(1) by simp
  then have body: "invoke_body (ct_now ct) tool args c g =
      ((Inr out, Success, 1), snd (mcp_admit (ct_now ct) (tool_key tool c) g))"
    unfolding b using adm assms(5) att by simp
  obtain r g' where i: "mcp_invoke sha rnd ct tool args c g = (r, g')" by fastforce
  note inv = mcp_invoke_body[OF body i]
  have "mg_requests g' k = mg_requests g k" if "k \<noteq> tool_key tool c" for k
    using inv(8) that by (simp add: mcp_admit_def Let_def)
  with i inv show thesis by (intro that[of g']) simp_all
qed

lemma local_tools_map_of:
  "map_of (map (\<lambda>r. (tg_name r, r)) (local_tools retr)) ''customer.get_customer'' = Some (local_tools retr ! 0)"
  "map_of (map (\<lambda>r. (tg_name r, r)) (local_tools retr)) ''customer.get_accounts'' = Some (local_tools retr ! 1)"
  "map_of (map (\<lambda>r. (tg_name r, r)) (local_tools retr)) ''payments.get_transaction'' = Some (local_tools retr ! 2)"
  "map_of (map (\<lambda>r. (tg_name r, r)) (local_tools retr)) ''policy.search'' = Some (local_tools retr ! 3)"
  by (simp_all add: local_tools_def)

lemmas answer_defs = payments_answer_def transaction_evidence_def customer_answer_def customer_evidence_def
  account_evidence_def new_evidence_def new_agent_result_def show_2f_def show_nat.simps Let_def
  field_strip_def is_white_space_def code_def

lemma transaction_records_answerable:
  "\<forall>t\<in>set bank_transactions. (case tool_get_transaction (tx_transaction_id t) of
      Inr (TransactionOut rec) \<Rightarrow> is_ok (payments_answer rec) | _ \<Rightarrow> False)"
  by (simp add: bank_transactions_def tool_get_transaction_def get_transaction_def answer_defs)

lemma customer_records_answerable:
  "\<forall>c\<in>set bank_customers.
     (case (tool_get_customer (cu_customer_id c), tool_get_accounts (cu_customer_id c)) of
        (Inr (CustomerOut rec), Inr (AccountsOut a)) \<Rightarrow> is_ok (customer_answer rec (ca_accounts a))
      | _ \<Rightarrow> False)"
  by (simp add: bank_customers_def bank_accounts_def tool_get_customer_def get_customer_def
      tool_get_accounts_def get_customer_accounts_def answer_defs)

lemma payments_agent_answers_aux:
  assumes "build_local_mcp_gateway retr timeout mx rl rw = Inr g" and "1 \<le> rl"
    and "''agent.invoke'' \<in> cc_roles c" and "cc_agent c = ''payments''"
    and "transaction_id_from q = Some i" and "get_transaction i = Some t"
    and "customer_id_from q = None \<or> customer_id_from q = Some (tx_customer_id t)"
  shows "\<exists>r g'. payments_investigate (local_invoke sha rnd clock) q c g = (Inr r, g') \<and>
    map ev_source_id (rs_evidence r) = [i]"
proof -
  note g = build_local_good[OF assms(1)]
  have t: "t \<in> set bank_transactions" "tx_transaction_id t = i"
    using get_transaction_Some[OF assms(6)] by auto
  obtain out where out: "tool_get_transaction i = Inr out"
    using assms(6) by (auto simp: tool_get_transaction_def)
  then obtain t' rec where rec: "out = TransactionOut rec" "tr_transaction_id rec = i"
    "get_transaction i = Some t'" "tr_customer_id rec = tx_customer_id t'"
    by (elim tool_get_transaction_Inr)
  have reg: "map_of (mg_tools g) ''payments.get_transaction'' = Some (local_tools retr ! 2)"
    using g(1) local_tools_map_of(3) by (simp add: local_good_def)
  have perm: "permitted g ''payments.get_transaction'' c"
    using reg assms(3,4) by (simp add: permitted_def local_tools_def)
  obtain g' where inv: "mcp_invoke sha rnd (clock (length (mg_audit g))) ''payments.get_transaction''
      [(''transaction_id'', PStr i)] c g = (Inr out, g')"
    by (rule mcp_invoke_success[OF reg perm, where v = "TransactionRequest i" and raw = out and out = out
          and args = "[(''transaction_id'', PStr i)]" and sha = sha and rnd = rnd and
          ct = "clock (length (mg_audit g))"])
      (use g assms(2) out rec transaction_request_of_query[OF assms(5)] in
        \<open>simp_all add: local_tools_def local_good_def\<close>)
  have "is_ok (payments_answer rec)"
    using transaction_records_answerable t out rec(1) by fastforce
  then obtain r where r: "payments_answer rec = Inr r" by (auto simp: is_ok_iff)
  have "payments_investigate (local_invoke sha rnd clock) q c g = (Inr r, g')"
    using assms(5-7) inv rec r by (auto simp: payments_investigate_def invoke_as_def local_invoke_def)
  with payments_answer_Inr[OF r] rec show ?thesis by auto
qed

text \<open>On a gateway as the factory builds it, an authorised payments agent always answers a query
  that names a transaction of the bank, and no customer or the owner: it returns the evidence.\<close>

theorem payments_agent_answers:
  assumes "build_local_mcp_gateway retr timeout mx rl rw = Inr g" and "1 \<le> rl"
    and "''agent.invoke'' \<in> cc_roles c" and "cc_agent c = ''payments''"
    and "transaction_id_from q = Some i" and "get_transaction i = Some t"
    and "customer_id_from q = None \<or> customer_id_from q = Some (tx_customer_id t)"
  shows "\<exists>r g'. payments_investigate (local_invoke sha rnd clock) q c g = (Inr r, g') \<and>
    map ev_source_id (rs_evidence r) = [i]"
  by (rule payments_agent_answers_aux[OF assms])

definition failed_query :: string where
  "failed_query = ''CUST-2042: why did txn-6100 fail?''"

lemma failed_query_ids:
  "transaction_id_from failed_query = Some ''TXN-6100''"
  "customer_id_from failed_query = Some ''CUST-2042''"
  by code_simp+

lemma plain_built:
  obtains g where "build_local_mcp_gateway (\<lambda>_ _ _ _ _. Inr []) 2 2 30 60 = Inr g"
  using build_local_mcp_gateway_ok[of 2 2 30 "\<lambda>_ _ _ _ _. Inr []" 60] by (auto simp: is_ok_iff)

theorem payments_agent_answers_witness:
  "\<exists>g r g'. build_local_mcp_gateway (\<lambda>_ _ _ _ _. Inr []) 2 2 30 60 = Inr g \<and>
     payments_investigate plain_invoke failed_query (agent_caller ''payments'') g = (Inr r, g') \<and>
     map ev_source_id (rs_evidence r) = [''TXN-6100'']"
proof -
  obtain g where g: "build_local_mcp_gateway (\<lambda>_ _ _ _ _. Inr []) 2 2 30 60 = Inr g" by (rule plain_built)
  have c: "''agent.invoke'' \<in> cc_roles (agent_caller ''payments'')" "cc_agent (agent_caller ''payments'') = ''payments''"
    by (simp_all add: agent_caller_def)
  obtain t where t: "get_transaction ''TXN-6100'' = Some t" "tx_customer_id t = ''CUST-2042''"
    by (simp add: get_transaction_def bank_transactions_def)
  have o: "customer_id_from failed_query = None \<or> customer_id_from failed_query = Some (tx_customer_id t)"
    using failed_query_ids(2) t(2) by simp
  have "(1::int) \<le> 30" by simp
  from payments_agent_answers[OF g this c failed_query_ids(1) t(1) o, where sha = id and rnd = id
      and clock = "\<lambda>n. sample_times (real n)"]
  obtain r g' where "payments_investigate plain_invoke failed_query (agent_caller ''payments'') g = (Inr r, g')"
    "map ev_source_id (rs_evidence r) = [''TXN-6100'']"
    unfolding plain_invoke_def by (elim exE conjE)
  with g show ?thesis by (intro exI[of _ g] exI[of _ r] exI[of _ g'] conjI)
qed

theorem payments_agent_sound_witness:
  "\<exists>g r g'. payments_investigate plain_invoke failed_query (agent_caller ''payments'') g = (Inr r, g') \<and>
     rs_evidence r = [\<lparr>ev_source_id = ''TXN-6100'', ev_source_type = TransactionSource,
       ev_detail = ''GBP 125.00 via CHAPS; status failed; reason: Invalid beneficiary details.''\<rparr>]"
proof -
  obtain g where g: "build_local_mcp_gateway (\<lambda>_ _ _ _ _. Inr []) 2 2 30 60 = Inr g" by (rule plain_built)
  obtain t where t: "get_transaction ''TXN-6100'' = Some t" "tx_customer_id t = ''CUST-2042''"
    by (simp add: get_transaction_def bank_transactions_def)
  have "(1::int) \<le> 30" by simp
  with payments_agent_answers_aux[OF g _ _ _ failed_query_ids(1) t(1), where c = "agent_caller ''payments''"
      and sha = id and rnd = id and clock = "\<lambda>n. sample_times (real n)"]
  obtain r g' where r: "payments_investigate plain_invoke failed_query (agent_caller ''payments'') g = (Inr r, g')"
    "map ev_source_id (rs_evidence r) = [''TXN-6100'']"
    using failed_query_ids(2) t(2) unfolding plain_invoke_def agent_caller_def by auto
  then have "rs_evidence r \<noteq> []" by auto
  with payments_agent_sound[OF build_local_good(1)[OF g] r(1)[unfolded plain_invoke_def]] failed_query_ids(1)
  obtain t where "t \<in> set bank_transactions" "r = transaction_report t" "tx_transaction_id t = ''TXN-6100''" by auto
  moreover have "\<forall>t\<in>set bank_transactions. tx_transaction_id t = ''TXN-6100'' \<longrightarrow> rs_evidence (transaction_report t) =
      [\<lparr>ev_source_id = ''TXN-6100'', ev_source_type = TransactionSource,
        ev_detail = ''GBP 125.00 via CHAPS; status failed; reason: Invalid beneficiary details.''\<rparr>]"
    by code_simp
  ultimately have "rs_evidence r = [\<lparr>ev_source_id = ''TXN-6100'', ev_source_type = TransactionSource,
       ev_detail = ''GBP 125.00 via CHAPS; status failed; reason: Invalid beneficiary details.''\<rparr>]" by blast
  with r(1) show ?thesis by (intro exI[of _ g] exI[of _ r] exI[of _ g'] conjI)
qed

lemma customer_agent_answers:
  assumes "build_local_mcp_gateway retr timeout mx rl rw = Inr g" and "1 \<le> rl"
    and "''agent.invoke'' \<in> cc_roles c" and "cc_agent c = ''customer''"
    and "customer_id_from q = Some i" and "get_customer i = Some cu"
  shows "\<exists>r g'. customer_investigate (local_invoke sha rnd clock) q c g = (Inr r, g') \<and>
    rs_evidence r \<noteq> []"
proof -
  note g = build_local_good[OF assms(1)]
  let ?a = "[(''customer_id'', PStr i)]"
  have cu: "cu \<in> set bank_customers" "cu_customer_id cu = i"
    using get_customer_Some[OF assms(6)] by auto
  obtain out where out: "tool_get_customer i = Inr out"
    using assms(6) by (auto simp: tool_get_customer_def)
  then obtain rec where rec: "out = CustomerOut rec" by (elim tool_get_customer_Inr)
  obtain a where a: "tool_get_accounts i = Inr (AccountsOut a)" by (simp add: tool_get_accounts_def)
  have reg1: "map_of (mg_tools g) ''customer.get_customer'' = Some (local_tools retr ! 0)"
    and reg2: "map_of (mg_tools g) ''customer.get_accounts'' = Some (local_tools retr ! 1)"
    using g(1) local_tools_map_of by (simp_all add: local_good_def)
  have perm1: "permitted g ''customer.get_customer'' c"
    using reg1 assms(3,4) by (simp add: permitted_def local_tools_def)
  obtain g1 where inv1: "mcp_invoke sha rnd (clock (length (mg_audit g))) ''customer.get_customer'' ?a c g
      = (Inr out, g1)"
    and g1: "mg_tools g1 = mg_tools g" "mg_rate_limit g1 = mg_rate_limit g"
      "mg_max_attempts g1 = mg_max_attempts g"
      "\<And>k. k \<noteq> tool_key ''customer.get_customer'' c \<Longrightarrow> mg_requests g1 k = mg_requests g k"
    by (rule mcp_invoke_success[OF reg1 perm1, where v = "CustomerRequest i" and raw = out and out = out
          and args = ?a and sha = sha and rnd = rnd and ct = "clock (length (mg_audit g))"])
      (use g assms(2) out rec customer_request_of_query[OF assms(5)] in
        \<open>simp_all add: local_tools_def local_good_def\<close>)
  have perm2: "permitted g1 ''customer.get_accounts'' c"
    using reg2 assms(3,4) g1(1) by (simp add: permitted_def local_tools_def)
  have "tool_key ''customer.get_accounts'' c \<noteq> tool_key ''customer.get_customer'' c"
    using tool_key_inj[of "''customer.get_accounts''" "''customer.get_customer''" c c] by simp
  then have fresh: "mg_requests g1 (tool_key ''customer.get_accounts'' c) = []"
    using g1(4) g(4) by simp
  obtain g2 where inv2: "mcp_invoke sha rnd (clock (length (mg_audit g1))) ''customer.get_accounts'' ?a c g1
      = (Inr (AccountsOut a), g2)"
    by (rule mcp_invoke_success[OF reg2[folded g1(1)] perm2 fresh, where v = "CustomerRequest i" and
          raw = "AccountsOut a" and out = "AccountsOut a"
          and args = ?a and sha = sha and rnd = rnd and ct = "clock (length (mg_audit g1))"])
      (use g g1 assms(2) a customer_request_of_query[OF assms(5)] in
        \<open>simp_all add: local_tools_def local_good_def\<close>)
  have "is_ok (customer_answer rec (ca_accounts a))"
    using customer_records_answerable cu out rec a by fastforce
  then obtain r where r: "customer_answer rec (ca_accounts a) = Inr r" by (auto simp: is_ok_iff)
  have "customer_investigate (local_invoke sha rnd clock) q c g = (Inr r, g2)"
    using assms(5) inv1 inv2 rec r by (simp add: customer_investigate_def invoke_as_def local_invoke_def)
  with r show ?thesis by (auto elim!: customer_answer_Inr)
qed

theorem customer_agent_sound_witness:
  "\<exists>g r g'. customer_investigate plain_invoke ''Show customer cust-1098'' (agent_caller ''customer'') g =
       (Inr r, g') \<and> rs_evidence r \<noteq> [] \<and> length (rs_evidence r) = 3"
proof -
  obtain g where g: "build_local_mcp_gateway (\<lambda>_ _ _ _ _. Inr []) 2 2 30 60 = Inr g" by (rule plain_built)
  have q: "customer_id_from ''Show customer cust-1098'' = Some ''CUST-1098''" by code_simp
  obtain cu where cu: "get_customer ''CUST-1098'' = Some cu"
    by (simp add: get_customer_def bank_customers_def)
  obtain r g' where r: "customer_investigate plain_invoke ''Show customer cust-1098''
      (agent_caller ''customer'') g = (Inr r, g')" "rs_evidence r \<noteq> []"
    using customer_agent_answers[OF g _ _ _ q cu, where c = "agent_caller ''customer''"
      and sha = id and rnd = id and clock = "\<lambda>n. sample_times (real n)"]
    unfolding plain_invoke_def agent_caller_def by auto
  from customer_agent_sound[OF build_local_good(1)[OF g] r(1)[unfolded plain_invoke_def]] r(2) q
  obtain cu where cu: "cu \<in> set bank_customers" "cu_customer_id cu = ''CUST-1098''"
    "r = customer_report cu (filter (\<lambda>a. ac_customer_id a = cu_customer_id cu) bank_accounts)" by auto
  have "length (filter (\<lambda>a. ac_customer_id a = ''CUST-1098'') bank_accounts) = 2" by code_simp
  with cu have "length (rs_evidence r) = 3" by (simp add: customer_report_def)
  with r show ?thesis by (intro exI[of _ g] exI[of _ r] exI[of _ g'] conjI)
qed

end
