(* ===== verification/Orchestration.thy ===== *)
theory Orchestration
  imports Agents ModelGateway
begin

text \<open>
  Routing and the operations workflow: models/base.py, models/mock.py,
  orchestration/supervisor.py and orchestration/operations.py.

  The two LangGraph graphs are straight lines (classify; classify, then the selected node), so a run
  is the composition of its nodes.  \<open>allows limit k\<close> says whether LangGraph lets a graph with
  \<open>recursion_limit = limit\<close> execute its \<open>k\<close>-th super-step; when it does not, it raises
  \<open>GraphRecursionError\<close>.  A model provider is a function from queries to decisions or exceptions.
  Log records are not modelled.
\<close>

section \<open>Routing decisions\<close>

datatype agent_route = CustomerRoute | PaymentsRoute | PolicyRoute | HumanReviewRoute

fun route_name :: "agent_route \<Rightarrow> string" where
  "route_name CustomerRoute = ''customer''"
| "route_name PaymentsRoute = ''payments''"
| "route_name PolicyRoute = ''policy''"
| "route_name HumanReviewRoute = ''human_review''"

record routing_decision =
  rd_route :: agent_route
  rd_reason :: string
  rd_confidence :: real
  rd_requires_human_approval :: bool

definition new_routing_decision :: "agent_route \<Rightarrow> string \<Rightarrow> real \<Rightarrow> bool \<Rightarrow> exn + routing_decision" where
  "new_routing_decision route reason confidence approval =
     (if 1 \<le> length reason \<and> length reason \<le> 300 \<and> 0 \<le> confidence \<and> confidence \<le> 1
      then Inr \<lparr>rd_route = route, rd_reason = reason, rd_confidence = confidence,
                rd_requires_human_approval = approval\<rparr>
      else Inl ValidationError)"

type_synonym model_provider = "string \<Rightarrow> exn + routing_decision"

section \<open>The deterministic model\<close>

definition action_word :: regex where
  "action_word = Cat WordB (Cat (Alt (LitI ''refund'') (Alt (LitI ''reverse'') (Alt (LitI ''cancel'')
     (Alt (LitI ''release'') (Alt (LitI ''send'') (LitI ''transfer'')))))) WordB)"

text \<open>The currency signs; the euro sign is outside the modelled range of characters.\<close>

definition currency_amount :: regex where
  "currency_amount = Cat (Many (\<lambda>c. code c = 163 \<or> c = CHR ''$'') 1 (Some 1))
     (Cat (Many is_space 0 (Some 1)) (Many is_digit 1 None))"

definition high_risk :: "string \<Rightarrow> bool" where
  "high_risk query \<longleftrightarrow> list_all (\<lambda>p. found p query) [action_word, currency_amount]"

definition payment_terms :: "string list" where
  "payment_terms = [''payment'', ''transaction'', ''transfer'', ''refund'', ''route'', ''beneficiary'', ''failed'']"

definition customer_terms :: "string list" where
  "customer_terms = [''customer'', ''account'', ''contact'', ''address'', ''profile'', ''preference'']"

definition policy_terms :: "string list" where
  "policy_terms = [''policy'', ''procedure'', ''eligible'', ''eligibility'', ''rule'', ''compliance'', ''limit'']"

definition query_terms :: "string \<Rightarrow> string set" where
  "query_terms query = set (runs is_lower_az (casefold query))"

definition term_score :: "string \<Rightarrow> string list \<Rightarrow> nat" where
  "term_score query vocabulary = length (filter (\<lambda>t. t \<in> query_terms query) vocabulary)"

definition route_scores :: "string \<Rightarrow> (agent_route \<times> nat) list" where
  "route_scores query =
     [(PaymentsRoute, term_score query payment_terms), (CustomerRoute, term_score query customer_terms),
      (PolicyRoute, term_score query policy_terms)]"

definition mock_classify :: model_provider where
  "mock_classify query =
     (if high_risk query
      then new_routing_decision HumanReviewRoute
        ''A consequential financial action with a stated amount requires approval.'' 1 True
      else
        let scores = route_scores query; highest = Max (snd ` set scores) in
        if highest = 0
        then new_routing_decision HumanReviewRoute
          ''The request does not match an approved specialist capability.'' 0 True
        else
          let route = fst (hd (filter (\<lambda>(r, s). s = highest) scores)) in
          new_routing_decision route
            (''The request matched '' @ route_name route @ '' domain terminology.'')
            (min (1 / 2 + real highest * (1 / 5)) (99 / 100)) False)"

section \<open>The supervisor\<close>

record supervisor_result =
  sr_decision :: routing_decision
  sr_steps :: int
  sr_error_code :: "string option"

definition new_supervisor :: "int \<Rightarrow> exn + int" where
  "new_supervisor max_steps =
     (if max_steps < 1 then Inl (ValueError ''max_steps must be at least 1'') else Inr max_steps)"

definition routing_unavailable :: routing_decision where
  "routing_unavailable = \<lparr>rd_route = HumanReviewRoute,
     rd_reason = ''Automated routing was unavailable; manual review is required.'',
     rd_confidence = 0, rd_requires_human_approval = True\<rparr>"

definition supervisor_metrics :: "string \<Rightarrow> gateway_metrics \<Rightarrow> gateway_metrics" where
  "supervisor_metrics query m =
     (let k = [''unscoped'', ''mock'', ''input''] in
      m\<lparr>gm_tokens := (gm_tokens m)(k := gm_tokens m k + int (max 1 (length (split_ws query)))),
        gm_cost := (gm_cost m)([''unscoped'', ''mock''] := gm_cost m [''unscoped'', ''mock''] + 0)\<rparr>)"

definition supervisor_classify ::
  "model_provider \<Rightarrow> string \<Rightarrow> int \<Rightarrow> gateway_metrics \<Rightarrow> (exn + supervisor_result) \<times> gateway_metrics" where
  "supervisor_classify model query steps m =
     ((case model query of
         Inr d \<Rightarrow> Inr \<lparr>sr_decision = d, sr_steps = steps + 1, sr_error_code = None\<rparr>
       | Inl e \<Rightarrow>
           if is_exception e
           then Inr \<lparr>sr_decision = routing_unavailable, sr_steps = steps + 1,
                     sr_error_code = Some ''MODEL_PROVIDER_FAILURE''\<rparr>
           else Inl e), supervisor_metrics query m)"

definition recursion_error :: exn where
  "recursion_error = OtherException ''GraphRecursionError''"

definition supervisor_route ::
  "(int \<Rightarrow> nat \<Rightarrow> bool) \<Rightarrow> int \<Rightarrow> model_provider \<Rightarrow> string \<Rightarrow> gateway_metrics
    \<Rightarrow> (exn + supervisor_result) \<times> gateway_metrics" where
  "supervisor_route allows max_steps model query m =
     (if \<not> allows max_steps 1 then (Inl recursion_error, m)
      else case supervisor_classify model query 0 m of
          (Inl e, m') \<Rightarrow> (Inl e, m')
        | (Inr r, m') \<Rightarrow> ((if 1 \<le> sr_steps r then Inr r else Inl ValidationError), m'))"

section \<open>The operations workflow\<close>

record operations_result =
  or_decision :: routing_decision
  or_result :: agent_result
  or_steps :: int

record 'g operations =
  op_allows :: "int \<Rightarrow> nat \<Rightarrow> bool"
  op_max_steps :: int
  op_model :: model_provider
  op_call :: "'g invoker"

definition specialist_failure :: agent_result where
  "specialist_failure = \<lparr>rs_agent = HumanReviewAgent,
     rs_summary = ''The specialist was unavailable; manual review is required.'', rs_evidence = [],
     rs_requires_human_approval = True, rs_error_code = Some ''SPECIALIST_FAILURE''\<rparr>"

text \<open>\<open>_run_specialist\<close>: the caller context is built outside the \<open>try\<close>.\<close>

definition run_specialist ::
  "(string \<Rightarrow> caller_context \<Rightarrow> 'g \<Rightarrow> (exn + agent_result) \<times> 'g) \<Rightarrow> string \<Rightarrow> string \<Rightarrow> string
    \<Rightarrow> string set \<Rightarrow> string \<Rightarrow> 'g \<Rightarrow> (exn + agent_result) \<times> 'g" where
  "run_specialist investigate agent query subject roles request_id g =
     (case new_caller_context subject roles agent request_id of
        Inl e \<Rightarrow> (Inl e, g)
      | Inr caller \<Rightarrow>
          (case investigate query caller g of
             (Inr r, g') \<Rightarrow> (Inr r, g')
           | (Inl e, g') \<Rightarrow> ((if is_exception e then Inr specialist_failure else Inl e), g')))"

fun run_node ::
  "'g invoker \<Rightarrow> agent_route \<Rightarrow> string \<Rightarrow> string \<Rightarrow> string \<Rightarrow> string set \<Rightarrow> string \<Rightarrow> 'g
    \<Rightarrow> (exn + agent_result) \<times> 'g" where
  "run_node call CustomerRoute reason query subject roles request_id g =
     run_specialist (customer_investigate call) ''customer'' query subject roles request_id g"
| "run_node call PaymentsRoute reason query subject roles request_id g =
     run_specialist (payments_investigate call) ''payments'' query subject roles request_id g"
| "run_node call PolicyRoute reason query subject roles request_id g =
     run_specialist (policy_investigate call) ''policy'' query subject roles request_id g"
| "run_node call HumanReviewRoute reason query subject roles request_id g =
     (new_agent_result HumanReviewAgent reason [] True None, g)"

definition new_operations ::
  "(int \<Rightarrow> nat \<Rightarrow> bool) \<Rightarrow> int \<Rightarrow> model_provider \<Rightarrow> 'g invoker \<Rightarrow> exn + 'g operations" where
  "new_operations allows max_steps model call =
     (case new_supervisor max_steps of
        Inl e \<Rightarrow> Inl e
      | Inr n \<Rightarrow> Inr \<lparr>op_allows = allows, op_max_steps = n, op_model = model, op_call = call\<rparr>)"

text \<open>The nodes in the order of the graph: \<open>classify\<close>, then the node of the selected route, each one
  super-step.  The value of the last node is the decision, the result and the count of steps.\<close>

definition operations_classify ::
  "'g operations \<Rightarrow> string \<Rightarrow> int \<Rightarrow> gateway_metrics
    \<Rightarrow> (exn + routing_decision \<times> int) \<times> gateway_metrics" where
  "operations_classify w query steps m =
     (case supervisor_route (op_allows w) (op_max_steps w) (op_model w) query m of
        (Inl e, m') \<Rightarrow> (Inl e, m')
      | (Inr routed, m') \<Rightarrow> (Inr (sr_decision routed, steps + sr_steps routed), m'))"

definition operations_graph ::
  "'g operations \<Rightarrow> string \<Rightarrow> string \<Rightarrow> string set \<Rightarrow> string \<Rightarrow> 'g \<times> gateway_metrics
    \<Rightarrow> (exn + routing_decision \<times> agent_result \<times> int) \<times> 'g \<times> gateway_metrics" where
  "operations_graph w query subject roles request_id st =
     (if \<not> op_allows w (op_max_steps w) 1 then (Inl recursion_error, st)
      else case operations_classify w query 0 (snd st) of
          (Inl e, m) \<Rightarrow> (Inl e, fst st, m)
        | (Inr (decision, steps), m) \<Rightarrow>
            if \<not> op_allows w (op_max_steps w) 2 then (Inl recursion_error, fst st, m)
            else (case run_node (op_call w) (rd_route decision) (rd_reason decision)
                         query subject roles request_id (fst st) of
                    (Inl e, g) \<Rightarrow> (Inl e, g, m)
                  | (Inr res, g) \<Rightarrow> (Inr (decision, res, steps + 1), g, m)))"

definition operations_investigate ::
  "'g operations \<Rightarrow> string \<Rightarrow> string \<Rightarrow> string set \<Rightarrow> string \<Rightarrow> 'g \<times> gateway_metrics
    \<Rightarrow> (exn + operations_result) \<times> 'g \<times> gateway_metrics" where
  "operations_investigate w query subject roles request_id st =
     (case operations_graph w query subject roles request_id st of
        (Inl e, st') \<Rightarrow> (Inl e, st')
      | (Inr (decision, res, steps), st') \<Rightarrow>
          ((if 2 \<le> steps
            then Inr \<lparr>or_decision = decision, or_result = res, or_steps = steps\<rparr>
            else Inl ValidationError), st'))"

lemmas operations_defs = operations_investigate_def operations_graph_def operations_classify_def

section \<open>Routing is sound\<close>

definition decision_valid :: "routing_decision \<Rightarrow> bool" where
  "decision_valid d \<longleftrightarrow> 1 \<le> length (rd_reason d) \<and> length (rd_reason d) \<le> 300 \<and>
     0 \<le> rd_confidence d \<and> rd_confidence d \<le> 1"

lemma route_scores_highest:
  assumes "Max (snd ` set (route_scores q)) = h"
  shows "\<exists>r. filter (\<lambda>(r, s). s = h) (route_scores q) \<noteq> [] \<and>
    hd (filter (\<lambda>(r, s). s = h) (route_scores q)) = (r, h) \<and> r \<noteq> HumanReviewRoute"
proof -
  let ?f = "filter (\<lambda>(r, s). s = h) (route_scores q)"
  have "h \<in> snd ` set (route_scores q)" using assms Max_in[of "snd ` set (route_scores q)"]
    by (auto simp: route_scores_def)
  then have ne: "?f \<noteq> []" by (auto simp: filter_empty_conv)
  then have "hd ?f \<in> set ?f" by (rule hd_in_set)
  then have "hd ?f \<in> set (route_scores q)" "snd (hd ?f) = h" by auto
  then show ?thesis using ne by (cases "hd ?f") (auto simp: route_scores_def)
qed

lemma mock_classify_cases:
  "\<exists>d. mock_classify q = Inr d \<and> decision_valid d \<and>
     rd_requires_human_approval d = (rd_route d = HumanReviewRoute) \<and>
     (rd_route d = HumanReviewRoute) = (high_risk q \<or> list_all (\<lambda>(r, s). s = 0) (route_scores q)) \<and>
     (rd_route d = HumanReviewRoute \<or>
      (\<exists>s. (rd_route d, s) \<in> set (route_scores q) \<and> list_all (\<lambda>(r, s'). s' \<le> s) (route_scores q)))"
proof -
  let ?h = "Max (snd ` set (route_scores q))"
  have ge: "s \<le> ?h" if "(r, s) \<in> set (route_scores q)" for r s
    using that by (intro Max_ge) force+
  have zero: "?h = 0 \<longleftrightarrow> list_all (\<lambda>(r, s). s = 0) (route_scores q)"
    using ge by (auto simp: route_scores_def)
  obtain r where r: "hd (filter (\<lambda>(r, s). s = ?h) (route_scores q)) = (r, ?h)" "r \<noteq> HumanReviewRoute"
    "filter (\<lambda>(r, s). s = ?h) (route_scores q) \<noteq> []"
    using route_scores_highest[OF refl] by blast
  have mem: "(r, ?h) \<in> set (route_scores q)" using hd_in_set[OF r(3)] r(1) by simp
  have len: "length (route_name r) \<le> 12" by (cases r) auto
  consider "high_risk q" | "\<not> high_risk q" "?h = 0" | "\<not> high_risk q" "?h \<noteq> 0" by blast
  then show ?thesis
  proof cases
    case 1
    then show ?thesis by (simp add: mock_classify_def new_routing_decision_def decision_valid_def)
  next
    case 2
    then show ?thesis
      using zero by (simp add: mock_classify_def Let_def new_routing_decision_def decision_valid_def)
  next
    case 3
    let ?c = "min (1 / 2 + real ?h * (1 / 5)) (99 / 100)"
    have c: "0 \<le> ?c" "?c \<le> 1" by auto
    have "mock_classify q = Inr \<lparr>rd_route = r,
        rd_reason = ''The request matched '' @ route_name r @ '' domain terminology.'',
        rd_confidence = ?c, rd_requires_human_approval = False\<rparr>"
      using 3 r(1) len c by (simp add: mock_classify_def Let_def new_routing_decision_def)
    moreover have "list_all (\<lambda>(r, s'). s' \<le> ?h) (route_scores q)" using ge by (auto simp: list_all_iff)
    ultimately show ?thesis
      using 3 zero r(2) mem len c by (auto simp: decision_valid_def)
  qed
qed

text \<open>C30: the deterministic model always returns a well-formed decision.  It asks for a human exactly
  when the query names a consequential action with an amount, or matches no vocabulary; otherwise it
  picks a specialist whose vocabulary matches at least as often as that of the others.\<close>

theorem mock_routing_sound:
  "case mock_classify q of
     Inl _ \<Rightarrow> False
   | Inr d \<Rightarrow> decision_valid d \<and>
       rd_requires_human_approval d = (rd_route d = HumanReviewRoute) \<and>
       (rd_route d = HumanReviewRoute) = (high_risk q \<or> list_all (\<lambda>(r, s). s = 0) (route_scores q)) \<and>
       (rd_route d = HumanReviewRoute \<or>
        (\<exists>s. (rd_route d, s) \<in> set (route_scores q) \<and> list_all (\<lambda>(r, s'). s' \<le> s) (route_scores q)))"
  using mock_classify_cases[of q] by auto

section \<open>The supervisor fails closed\<close>

lemma supervisor_route_cases:
  assumes "allows max_steps 1"
  shows "fst (supervisor_route allows max_steps model q m) =
    (case model q of
       Inr d \<Rightarrow> Inr \<lparr>sr_decision = d, sr_steps = 1, sr_error_code = None\<rparr>
     | Inl e \<Rightarrow>
         if is_exception e
         then Inr \<lparr>sr_decision = routing_unavailable, sr_steps = 1,
                   sr_error_code = Some ''MODEL_PROVIDER_FAILURE''\<rparr>
         else Inl e)"
  using assms by (auto simp: supervisor_route_def supervisor_classify_def split: sum.splits)

lemma supervisor_route_Inr:
  assumes "supervisor_route allows max_steps model q m = (Inr r, m')"
  shows "sr_steps r = 1 \<and> (model q = Inr (sr_decision r) \<or> sr_decision r = routing_unavailable)"
proof -
  have "allows max_steps 1" using assms by (auto simp: supervisor_route_def split: if_splits)
  from supervisor_route_cases[where allows = allows and max_steps = max_steps and model = model and q = q
      and m = m, OF this] assms show ?thesis
    by (auto split: sum.splits if_splits)
qed

text \<open>C31: a model provider that fails, with whatever exception, never fails the request: the supervisor
  returns the decision for manual review with an error code.  A decision of the model is returned
  unchanged, and the estimated tokens are counted in either case.\<close>

theorem supervisor_fails_closed:
  assumes "allows max_steps 1"
  shows "case supervisor_route allows max_steps model q m of
     (r, m') \<Rightarrow>
       m' = supervisor_metrics q m \<and>
       (case model q of
          Inr d \<Rightarrow> r = Inr \<lparr>sr_decision = d, sr_steps = 1, sr_error_code = None\<rparr>
        | Inl e \<Rightarrow>
            if e = CancelledError then r = Inl CancelledError
            else (\<exists>x. r = Inr x \<and> rd_route (sr_decision x) = HumanReviewRoute \<and>
               rd_requires_human_approval (sr_decision x) \<and> sr_error_code x \<noteq> None))"
proof -
  have "snd (supervisor_route allows max_steps model q m) = supervisor_metrics q m"
    using assms by (auto simp: supervisor_route_def supervisor_classify_def split: sum.splits)
  with supervisor_route_cases[where allows = allows and max_steps = max_steps and model = model and q = q
      and m = m, OF assms]
  show ?thesis
    by (auto simp: is_exception_def routing_unavailable_def split: prod.splits sum.splits)
qed

definition step_limit :: "int \<Rightarrow> nat \<Rightarrow> bool" where
  "step_limit limit k \<longleftrightarrow> int k \<le> limit"

theorem supervisor_fails_closed_witness:
  "\<exists>x m'. supervisor_route step_limit 8 (\<lambda>_. Inl (RuntimeError ''down'')) ''refund'' no_metrics = (Inr x, m') \<and>
     rd_route (sr_decision x) = HumanReviewRoute"
proof -
  have "step_limit 8 1" by (simp add: step_limit_def)
  from supervisor_fails_closed[where allows = step_limit and max_steps = 8 and
      model = "\<lambda>_. Inl (RuntimeError ''down'')" and q = "''refund''" and m = no_metrics, OF this]
  show ?thesis by (auto split: prod.splits)
qed

section \<open>The workflow is confined\<close>

text \<open>The tools of each route, and the agent that runs there.\<close>

fun route_tools :: "agent_route \<Rightarrow> string set" where
  "route_tools CustomerRoute = {''customer.get_customer'', ''customer.get_accounts''}"
| "route_tools PaymentsRoute = {''payments.get_transaction''}"
| "route_tools PolicyRoute = {''policy.search''}"
| "route_tools HumanReviewRoute = {}"

fun route_agent :: "agent_route \<Rightarrow> agent_name" where
  "route_agent CustomerRoute = CustomerAgent"
| "route_agent PaymentsRoute = PaymentsAgent"
| "route_agent PolicyRoute = PolicyAgent"
| "route_agent HumanReviewRoute = HumanReviewAgent"

definition as_caller :: "string \<Rightarrow> string set \<Rightarrow> string \<Rightarrow> agent_route \<Rightarrow> caller_context" where
  "as_caller subject roles request_id route =
     \<lparr>cc_subject = field_strip subject, cc_roles = field_strip ` roles, cc_agent = route_name route,
      cc_request_id = field_strip request_id\<rparr>"

context tool_gateway
begin

lemma run_specialist_frame:
  assumes "good g" and "run_specialist investigate (route_name route) q subject roles request_id g = (r, g')"
    and agent: "\<And>c r g'. investigate q c g = (r, g') \<Longrightarrow> good g' \<and> recorded (route_tools route) 2 c (trail g) (trail g') \<and>
      (case r of Inl e \<Rightarrow> agent_escape e | Inr x \<Rightarrow> rs_agent x = route_agent route)"
  shows "good g' \<and> recorded (route_tools route) 2 (as_caller subject roles request_id route) (trail g) (trail g') \<and>
    (case r of Inl e \<Rightarrow> agent_escape e | Inr x \<Rightarrow> rs_agent x = route_agent route \<or> x = specialist_failure) \<and>
    (is_ok (new_caller_context subject roles (route_name route) request_id) \<longrightarrow>
       (is_ok r \<or> r = Inl CancelledError))"
proof (cases "new_caller_context subject roles (route_name route) request_id")
  case (Inl e)
  then have "e = ValidationError" by (auto simp: new_caller_context_def Let_def split: if_splits)
  with Inl assms(1,2) show ?thesis by (auto simp: run_specialist_def agent_escape_def)
next
  case (Inr c)
  then have c: "c = as_caller subject roles request_id route"
    by (auto simp: new_caller_context_def as_caller_def Let_def split: if_splits)
  obtain r1 g1 where i: "investigate q c g = (r1, g1)" by fastforce
  note a = agent[OF i]
  show ?thesis
    using a assms(2) Inr i c
    by (cases r1) (auto simp: run_specialist_def agent_escape_def is_exception_def split: if_splits)
qed

lemma run_node_frame:
  assumes "good g" and "run_node call route reason q subject roles request_id g = (r, g')"
  shows "good g' \<and> recorded (route_tools route) 2 (as_caller subject roles request_id route) (trail g) (trail g') \<and>
    (case r of Inl e \<Rightarrow> agent_escape e | Inr x \<Rightarrow> rs_agent x = route_agent route \<or> x = specialist_failure) \<and>
    (route = HumanReviewRoute \<or> (is_ok (new_caller_context subject roles (route_name route) request_id) \<longrightarrow>
       (is_ok r \<or> r = Inl CancelledError)))"
proof (cases route)
  case CustomerRoute
  have agent: "good g' \<and> recorded (route_tools CustomerRoute) 2 c (trail g) (trail g') \<and>
      (case r of Inl e \<Rightarrow> agent_escape e | Inr x \<Rightarrow> rs_agent x = route_agent CustomerRoute)"
    if "customer_investigate call q c g = (r, g')" for c r g'
    using customer_frame[OF assms(1) that] unfolding route_agent.simps route_tools.simps by blast
  have "good g' \<and> recorded (route_tools CustomerRoute) 2 (as_caller subject roles request_id CustomerRoute) (trail g) (trail g') \<and>
    (case r of Inl e \<Rightarrow> agent_escape e | Inr x \<Rightarrow> rs_agent x = route_agent CustomerRoute \<or> x = specialist_failure) \<and>
    (is_ok (new_caller_context subject roles (route_name CustomerRoute) request_id) \<longrightarrow>
       (is_ok r \<or> r = Inl CancelledError))"
    by (rule run_specialist_frame[OF assms(1) _ agent]) (use assms(2) CustomerRoute in simp)
  then show ?thesis unfolding CustomerRoute by blast
next
  case PaymentsRoute
  have wide: "recorded {''payments.get_transaction''} 2 c xs ys"
    if "recorded {''payments.get_transaction''} 1 c xs ys" for c xs ys
    using that by (rule recorded_mono) auto
  have agent: "good g' \<and> recorded (route_tools PaymentsRoute) 2 c (trail g) (trail g') \<and>
      (case r of Inl e \<Rightarrow> agent_escape e | Inr x \<Rightarrow> rs_agent x = route_agent PaymentsRoute)"
    if "payments_investigate call q c g = (r, g')" for c r g'
    using payments_frame[OF assms(1) that] wide unfolding route_agent.simps route_tools.simps by blast
  have "good g' \<and> recorded (route_tools PaymentsRoute) 2 (as_caller subject roles request_id PaymentsRoute) (trail g) (trail g') \<and>
    (case r of Inl e \<Rightarrow> agent_escape e | Inr x \<Rightarrow> rs_agent x = route_agent PaymentsRoute \<or> x = specialist_failure) \<and>
    (is_ok (new_caller_context subject roles (route_name PaymentsRoute) request_id) \<longrightarrow>
       (is_ok r \<or> r = Inl CancelledError))"
    by (rule run_specialist_frame[OF assms(1) _ agent]) (use assms(2) PaymentsRoute in simp)
  then show ?thesis unfolding PaymentsRoute by blast
next
  case PolicyRoute
  have wide: "recorded {''policy.search''} 2 c xs ys"
    if "recorded {''policy.search''} 1 c xs ys" for c xs ys
    using that by (rule recorded_mono) auto
  have agent: "good g' \<and> recorded (route_tools PolicyRoute) 2 c (trail g) (trail g') \<and>
      (case r of Inl e \<Rightarrow> agent_escape e | Inr x \<Rightarrow> rs_agent x = route_agent PolicyRoute)"
    if "policy_investigate call q c g = (r, g')" for c r g'
    using policy_frame[OF assms(1) that] wide unfolding route_agent.simps route_tools.simps by blast
  have "good g' \<and> recorded (route_tools PolicyRoute) 2 (as_caller subject roles request_id PolicyRoute) (trail g) (trail g') \<and>
    (case r of Inl e \<Rightarrow> agent_escape e | Inr x \<Rightarrow> rs_agent x = route_agent PolicyRoute \<or> x = specialist_failure) \<and>
    (is_ok (new_caller_context subject roles (route_name PolicyRoute) request_id) \<longrightarrow>
       (is_ok r \<or> r = Inl CancelledError))"
    by (rule run_specialist_frame[OF assms(1) _ agent]) (use assms(2) PolicyRoute in simp)
  then show ?thesis unfolding PolicyRoute by blast
next
  case HumanReviewRoute
  with assms show ?thesis
    by (auto simp: new_agent_result_def agent_escape_def split: if_splits)
qed

end

text \<open>A run: which route was taken and what it did.\<close>

lemma operations_investigate_cases:
  assumes "operations_investigate w q subject roles request_id (g, m) = (r, g', m')"
    and "op_allows w (op_max_steps w) 2" and "op_allows w (op_max_steps w) 1"
  obtains e where "op_model w q = Inl e" "\<not> is_exception e" "r = Inl e" "g' = g"
  | d res where "op_model w q = Inr d \<or> d = routing_unavailable"
    "run_node (op_call w) (rd_route d) (rd_reason d) q subject roles request_id g = (res, g')"
    "r = map_sum id (\<lambda>x. \<lparr>or_decision = d, or_result = x, or_steps = 2\<rparr>) res"
proof -
  obtain r1 m1 where s: "supervisor_route (op_allows w) (op_max_steps w) (op_model w) q m = (r1, m1)"
    by fastforce
  note c = supervisor_route_cases[where allows = "op_allows w" and max_steps = "op_max_steps w"
      and model = "op_model w" and q = q and m = m, OF assms(3)]
  show thesis
  proof (cases r1)
    case (Inl e)
    then have "op_model w q = Inl e" "\<not> is_exception e"
      using c s by (auto split: sum.splits if_splits)
    moreover have "r = Inl e" "g' = g"
      using assms s Inl by (auto simp: operations_defs)
    ultimately show thesis by (rule that(1))
  next
    case (Inr x)
    obtain res g1 where n: "run_node (op_call w) (rd_route (sr_decision x)) (rd_reason (sr_decision x)) q
      subject roles request_id g = (res, g1)" by fastforce
    have x: "sr_steps x = 1" "op_model w q = Inr (sr_decision x) \<or> sr_decision x = routing_unavailable"
      using supervisor_route_Inr[OF s[unfolded Inr]] by auto
    have "g' = g1" "r = map_sum id (\<lambda>y. \<lparr>or_decision = sr_decision x, or_result = y, or_steps = 2\<rparr>) res"
      using assms s Inr n x(1) by (cases res; simp add: operations_defs)+
    with n x(2) show thesis by (intro that(2)[of "sr_decision x" res]) simp_all
  qed
qed


lemma operations_frame:
  assumes "local_good retr g" and "op_call w = local_invoke sha256 round3 clock"
    and "operations_investigate w q subject roles request_id (g, m) = (r, g', m')"
  shows "local_good retr g' \<and>
    (\<exists>route. recorded (route_tools route) 2 (as_caller subject roles request_id route) (mg_audit g) (mg_audit g') \<and>
       (case r of
          Inl e \<Rightarrow> e = recursion_error \<or> e = CancelledError \<or> e = ValidationError
        | Inr x \<Rightarrow> rd_route (or_decision x) = route \<and> or_steps x = 2 \<and>
            (rs_agent (or_result x) = route_agent route \<or> or_result x = specialist_failure)))"
proof (cases "op_allows w (op_max_steps w) 1 \<and> op_allows w (op_max_steps w) 2")
  case False
  have "g' = g \<and> (\<exists>e. r = Inl e \<and> (e = recursion_error \<or> \<not> is_exception e))"
    using assms(3) False
    by (auto simp: operations_defs supervisor_route_def supervisor_classify_def
        split: if_splits sum.splits)
  then show ?thesis using assms(1) by (auto simp: is_exception_def)
next
  case True
  then have al: "op_allows w (op_max_steps w) 2" "op_allows w (op_max_steps w) 1" by simp_all
  show ?thesis
  proof (rule operations_investigate_cases[OF assms(3) al], goal_cases)
    case (1 e)
    then show ?case using assms(1) by (auto simp: is_exception_def)
  next
    case (2 d res)
    note n = local.run_node_frame[OF assms(1) 2(2)[unfolded assms(2)]]
    with 2(3) show ?case
      by (intro conjI exI[of _ "rd_route d"]) (cases res; simp add: agent_escape_def)+
  qed
qed

text \<open>C32: whatever the query and whatever the model provider answers, a run of the operations workflow
  on a local gateway calls only the tools of the route it took, at most two of them, in the name of
  the caller and of that route's agent; every call is on the audit trail under the request's id.  The result is that of the
  route's agent or the fail-closed one, and the only exceptions that leave it are those of the two
  schemas, of a cancellation and of the graph's step limit.\<close>

theorem operations_confined:
  assumes "local_good retr g" and "op_call w = local_invoke sha256 round3 clock"
    and "operations_investigate w q subject roles request_id (g, m) = (r, g', m')"
  shows "local_good retr g' \<and>
    (\<exists>route. recorded (route_tools route) 2 (as_caller subject roles request_id route) (mg_audit g) (mg_audit g') \<and>
       (case r of
          Inl e \<Rightarrow> e = recursion_error \<or> e = CancelledError \<or> e = ValidationError
        | Inr x \<Rightarrow> rd_route (or_decision x) = route \<and> or_steps x = 2 \<and>
            (rs_agent (or_result x) = route_agent route \<or> or_result x = specialist_failure)))"
  by (rule operations_frame[OF assms])

lemma high_risk_run:
  assumes "high_risk q" and "op_model w = mock_classify"
    and "op_allows w (op_max_steps w) 1" and "op_allows w (op_max_steps w) 2"
  shows "\<exists>x m'. operations_investigate w q subject roles request_id (g, m) = (Inr x, g, m') \<and>
    rs_agent (or_result x) = HumanReviewAgent \<and> rs_requires_human_approval (or_result x) \<and>
    rs_evidence (or_result x) = []"
proof -
  obtain d where d: "mock_classify q = Inr d" "rd_route d = HumanReviewRoute" "decision_valid d"
    using mock_classify_cases[of q] assms(1) by auto
  from d(3) have "\<exists>res. new_agent_result HumanReviewAgent (rd_reason d) [] True None = Inr res \<and>
      rs_agent res = HumanReviewAgent \<and> rs_requires_human_approval res \<and> rs_evidence res = []"
    by (auto simp: decision_valid_def new_agent_result_def)
  then show ?thesis
    using assms(2-4) d(1,2)
    by (auto simp: operations_defs supervisor_route_def supervisor_classify_def)
qed

text \<open>C33: with the deterministic model, a request for a consequential action with an amount never
  reaches a tool: the gateway is left as it was, and the answer only asks for a human's approval.\<close>

theorem high_risk_never_executed:
  assumes "high_risk q" and "op_model w = mock_classify"
    and "op_allows w (op_max_steps w) 1" and "op_allows w (op_max_steps w) 2"
  shows "\<exists>x m'. operations_investigate w q subject roles request_id (g, m) = (Inr x, g, m') \<and>
    rs_agent (or_result x) = HumanReviewAgent \<and> rs_requires_human_approval (or_result x) \<and>
    rs_evidence (or_result x) = []"
  by (rule high_risk_run[OF assms])

section \<open>The workflow on the sample bank\<close>

definition plain_operations :: "local_gateway operations" where
  "plain_operations = \<lparr>op_allows = step_limit, op_max_steps = 8, op_model = mock_classify,
     op_call = plain_invoke\<rparr>"

theorem operations_confined_witness:
  "\<exists>g r g' m' route. operations_investigate plain_operations failed_query ''ops-7'' {''agent.invoke''} ''r-1''
       (g, no_metrics) = (r, g', m') \<and>
     recorded (route_tools route) 2 (as_caller ''ops-7'' {''agent.invoke''} ''r-1'' route) (mg_audit g) (mg_audit g')"
proof -
  obtain g where g: "build_local_mcp_gateway (\<lambda>_ _ _ _ _. Inr []) 2 2 30 60 = Inr g" by (rule plain_built)
  obtain r g' m' where i: "operations_investigate plain_operations failed_query ''ops-7'' {''agent.invoke''} ''r-1''
       (g, no_metrics) = (r, g', m')" by (metis prod_cases3)
  have c: "op_call plain_operations = local_invoke id id (\<lambda>n. sample_times (real n))"
    by (simp add: plain_operations_def plain_invoke_def)
  from operations_confined[OF build_local_good(1)[OF g] c i] obtain route where
    "recorded (route_tools route) 2 (as_caller ''ops-7'' {''agent.invoke''} ''r-1'' route) (mg_audit g) (mg_audit g')"
    by blast
  with i show ?thesis by (intro exI[of _ g] exI[of _ r] exI[of _ g'] exI[of _ m'] exI[of _ route] conjI)
qed

lemma refund_high_risk: "high_risk ''Refund $250 to CUST-1098''"
  by code_simp

theorem high_risk_never_executed_witness:
  "\<exists>x g m'. operations_investigate plain_operations ''Refund $250 to CUST-1098'' ''ops-7'' {''agent.invoke''} ''r-1''
       (g, no_metrics) = (Inr x, g, m') \<and> rs_requires_human_approval (or_result x)"
proof -
  obtain g where g: "build_local_mcp_gateway (\<lambda>_ _ _ _ _. Inr []) 2 2 30 60 = Inr g" by (rule plain_built)
  have w: "op_model plain_operations = mock_classify"
    "op_allows plain_operations (op_max_steps plain_operations) 1"
    "op_allows plain_operations (op_max_steps plain_operations) 2"
    by (simp_all add: plain_operations_def step_limit_def)
  from high_risk_never_executed[OF refund_high_risk w, where g = g and m = no_metrics and
      subject = "''ops-7''" and roles = "{''agent.invoke''}" and request_id = "''r-1''"]
  show ?thesis by blast
qed

end
