(* ===== verification/Skills.thy ===== *)
theory Skills
  imports Tenancy McpLocal
begin

text \<open>
  The governed skill registry (skills/models.py, skills/registry.py).  \<open>skill_valid\<close> collects the
  constraints that the fields of \<open>SkillDefinition\<close> and of its parts declare; reading YAML and decoding
  a mapping into typed fields are parameters of \<open>build_default_skill_registry\<close>.
\<close>

section \<open>Definitions of skills\<close>

record skill_owner =
  ow_team :: string
  ow_contact :: string

datatype skill_provider = MockSkillProvider

record skill_model_policy =
  sm_provider :: skill_provider
  sm_model :: string
  sm_max_input_tokens :: int
  sm_max_output_tokens :: int

record skill_approval =
  sa_required_for :: "string list"
  sa_approver_role :: string

record skill_slo =
  sl_availability_percent :: real
  sl_latency_p95_ms :: int

record skill_evaluation =
  sv_suite :: string
  sv_minimum_score :: real

datatype skill_agent = CustomerSkill | PaymentsSkill | PolicySkill

datatype data_classification = InternalData | ConfidentialData

datatype governance_state = Draft | ApprovedSkill | Deprecated

record skill_definition =
  sd_name :: string
  sd_version :: string
  sd_description :: string
  sd_owner :: skill_owner
  sd_agent :: skill_agent
  sd_model :: skill_model_policy
  sd_allowed_tools :: "string list"
  sd_data_classification :: data_classification
  sd_approval :: skill_approval
  sd_slo :: skill_slo
  sd_evaluation :: skill_evaluation
  sd_governance_state :: governance_state

text \<open>The patterns of owners and versions.\<close>

definition owner_valid :: "skill_owner \<Rightarrow> bool" where
  "owner_valid w \<longleftrightarrow> full_match (slug_pattern 2 49) (ow_team w) \<and>
     full_match (Cat (Many slug_char 1 None) (Lit ''@novabank.example'')) (ow_contact w)"

definition digits :: regex where
  "digits = Many is_digit 1 None"

definition version_pattern :: regex where
  "version_pattern = Cat digits (Cat (Lit ''.'') (Cat digits (Cat (Lit ''.'') digits)))"

definition model_policy_valid :: "skill_model_policy \<Rightarrow> bool" where
  "model_policy_valid m \<longleftrightarrow> 100 \<le> sm_max_input_tokens m \<and> sm_max_input_tokens m \<le> 32000 \<and>
     50 \<le> sm_max_output_tokens m \<and> sm_max_output_tokens m \<le> 8000"

definition slo_valid :: "skill_slo \<Rightarrow> bool" where
  "slo_valid s \<longleftrightarrow> 90 \<le> sl_availability_percent s \<and> sl_availability_percent s \<le> 100 \<and>
     0 < sl_latency_p95_ms s \<and> sl_latency_p95_ms s \<le> 60000"

definition evaluation_valid :: "skill_evaluation \<Rightarrow> bool" where
  "evaluation_valid e \<longleftrightarrow> 0 \<le> sv_minimum_score e \<and> sv_minimum_score e \<le> 1"

definition skill_valid :: "skill_definition \<Rightarrow> bool" where
  "skill_valid d \<longleftrightarrow>
     full_match (slug_pattern 2 63) (sd_name d) \<and>
     full_match version_pattern (sd_version d) \<and>
     10 \<le> length (sd_description d) \<and> length (sd_description d) \<le> 500 \<and>
     owner_valid (sd_owner d) \<and> model_policy_valid (sd_model d) \<and>
     slo_valid (sd_slo d) \<and> evaluation_valid (sd_evaluation d)"

section \<open>The registry\<close>

fun approved_skill_tools :: "skill_agent \<Rightarrow> string set" where
  "approved_skill_tools CustomerSkill = {''customer.get_customer'', ''customer.get_accounts''}"
| "approved_skill_tools PaymentsSkill = {''payments.get_transaction''}"
| "approved_skill_tools PolicySkill = {''policy.search''}"

type_synonym skill_registry = "(string \<times> skill_definition) list"

definition skill_key :: "string \<Rightarrow> string \<Rightarrow> string" where
  "skill_key name version = name @ '':'' @ version"

fun index_skills :: "skill_registry \<Rightarrow> skill_definition list \<Rightarrow> exn + skill_registry" where
  "index_skills indexed [] = Inr indexed"
| "index_skills indexed (d # ds) =
     (let key = skill_key (sd_name d) (sd_version d) in
      if key \<in> set (map fst indexed)
      then Inl (ValueError (''Duplicate skill version: '' @ key))
      else if \<not> list_all (\<lambda>t. t \<in> approved_skill_tools (sd_agent d)) (sd_allowed_tools d)
      then Inl (ValueError (''Skill requests an unapproved tool: '' @ key))
      else index_skills (AList.update key d indexed) ds)"

definition new_skill_registry :: "skill_definition list \<Rightarrow> exn + skill_registry" where
  "new_skill_registry definitions = index_skills [] definitions"

definition list_approved :: "skill_registry \<Rightarrow> skill_definition list" where
  "list_approved r = sort_key (\<lambda>d. [sd_name d, sd_version d])
     (filter (\<lambda>d. sd_governance_state d = ApprovedSkill) (map snd r))"

definition skill_get :: "skill_registry \<Rightarrow> string \<Rightarrow> string \<Rightarrow> skill_definition option" where
  "skill_get r name version =
     (case map_of r (skill_key name version) of
        None \<Rightarrow> None
      | Some d \<Rightarrow> if sd_governance_state d \<noteq> ApprovedSkill then None else Some d)"

text \<open>The loop over the directory, sorted by file name.\<close>

fun load_skills ::
  "(string \<Rightarrow> exn + 'y) \<Rightarrow> ('y \<Rightarrow> exn + skill_definition) \<Rightarrow> (string \<times> string) list
    \<Rightarrow> exn + skill_definition list" where
  "load_skills load decode [] = Inr []"
| "load_skills load decode ((name, body) # files) =
     (if \<not> ends_with ''.yaml'' name then load_skills load decode files
      else case load body of
        Inl e \<Rightarrow> Inl e
      | Inr payload \<Rightarrow>
          (case decode payload of
             Inl e \<Rightarrow> Inl e
           | Inr d \<Rightarrow>
               if \<not> skill_valid d then Inl ValidationError
               else (case load_skills load decode files of
                       Inl e \<Rightarrow> Inl e
                     | Inr ds \<Rightarrow> Inr (d # ds))))"

definition build_default_skill_registry ::
  "(string \<Rightarrow> exn + 'y) \<Rightarrow> ('y \<Rightarrow> exn + skill_definition) \<Rightarrow> (string \<times> string) list
    \<Rightarrow> exn + skill_registry" where
  "build_default_skill_registry load decode files =
     (case load_skills load decode (sort_key fst files) of
        Inl e \<Rightarrow> Inl e
      | Inr ds \<Rightarrow> new_skill_registry ds)"

section \<open>Registered skills\<close>

definition registered :: "skill_registry \<Rightarrow> bool" where
  "registered r \<longleftrightarrow> distinct (map fst r) \<and>
     list_all (\<lambda>(k, d). k = skill_key (sd_name d) (sd_version d) \<and>
       list_all (\<lambda>t. t \<in> approved_skill_tools (sd_agent d)) (sd_allowed_tools d)) r"

lemma index_skills_registered:
  "index_skills indexed ds = Inr r \<Longrightarrow> registered indexed \<Longrightarrow>
     registered r \<and> map snd r = map snd indexed @ ds"
proof (induction indexed ds arbitrary: r rule: index_skills.induct)
  case (2 indexed d ds)
  let ?k = "skill_key (sd_name d) (sd_version d)"
  have new: "?k \<notin> set (map fst indexed)" "list_all (\<lambda>t. t \<in> approved_skill_tools (sd_agent d)) (sd_allowed_tools d)"
    "index_skills (AList.update ?k d indexed) ds = Inr r"
    using 2(2) by (auto simp: Let_def split: if_splits)
  have upd: "AList.update ?k d indexed = indexed @ [(?k, d)]"
    using new(1) by (intro set_update_fresh) auto
  then have "registered (AList.update ?k d indexed)"
    using new(1,2) 2(3) by (simp add: registered_def)
  from 2(1)[OF refl _ _ new(3) this] new(1,2) upd show ?case by simp
qed simp

lemma load_skills_valid: "load_skills load decode files = Inr ds \<Longrightarrow> list_all skill_valid ds"
  by (induction load decode files arbitrary: ds rule: load_skills.induct)
    (auto split: if_splits sum.splits)

text \<open>Names and versions hold no colon, so a key determines both.\<close>

fun drawn_from :: "(char \<Rightarrow> bool) \<Rightarrow> regex \<Rightarrow> bool" where
  "drawn_from P (Lit s) = list_all P s"
| "drawn_from P (LitI s) = False"
| "drawn_from P (Many Q m n) = (\<forall>c. Q c \<longrightarrow> P c)"
| "drawn_from P (Opt r) = drawn_from P r"
| "drawn_from P (Alt r s) = (drawn_from P r \<and> drawn_from P s)"
| "drawn_from P (Cat r s) = (drawn_from P r \<and> drawn_from P s)"
| "drawn_from P WordB = True"

lemma rmatch_drawn:
  "drawn_from P r \<Longrightarrow> q \<in> set (rmatch r p) \<Longrightarrow> \<exists>u. advances p u q \<and> list_all P u"
proof (induction r arbitrary: p q)
  case (Lit s)
  then show ?case by (auto simp: lit_at_eq)
next
  case (Many Q m n)
  then show ?case by (auto simp: rmatch_Many_iff list_all_iff simp del: rmatch.simps)
next
  case (Cat r s)
  then obtain o' where "o' \<in> set (rmatch r p)" "q \<in> set (rmatch s o')" by (auto simp: rmatch_Cat_iff)
  with Cat obtain u v where "advances p u o'" "list_all P u" "advances o' v q" "list_all P v"
    by (meson drawn_from.simps(6))
  then show ?case by (intro exI[of _ "u @ v"]) (auto intro: advances_trans)
next
  case (Opt r)
  from Opt.prems consider "q \<in> set (rmatch r p)" | "q = p" by auto
  then show ?case
  proof cases
    case 1
    with Opt.IH[of q p] Opt.prems(1) show ?thesis by simp
  next
    case 2
    then show ?thesis by (intro exI[of _ "[]"]) simp
  qed
next
  case (Alt r s)
  from Alt.prems have "q \<in> set (rmatch r p) \<or> q \<in> set (rmatch s p)" by auto
  with Alt.IH(1)[of q p] Alt.IH(2)[of q p] Alt.prems(1) show ?case by auto
next
  case WordB
  then show ?case by (cases p) (auto split: if_splits intro!: exI[of _ "[]"])
qed simp

lemma full_match_drawn: "drawn_from P r \<Longrightarrow> full_match r s \<Longrightarrow> list_all P s"
  using rmatch_drawn[of P r "(rev s, [])" "([], s)"] by (auto simp: full_match_iff advances_def)

definition no_colon :: "char \<Rightarrow> bool" where
  "no_colon c \<longleftrightarrow> c \<noteq> CHR '':''"

lemma colon_class: "\<not> is_lower_az CHR '':''" "\<not> is_digit CHR '':''" "\<not> slug_char CHR '':''"
  by (simp_all add: slug_char_def is_lower_az_def is_digit_def code_def)

lemma class_no_colon: "is_lower_az c \<Longrightarrow> no_colon c" "is_digit c \<Longrightarrow> no_colon c" "slug_char c \<Longrightarrow> no_colon c"
  using colon_class by (metis no_colon_def)+

lemma slug_no_colon: "full_match (slug_pattern 2 63) s \<Longrightarrow> CHR '':'' \<notin> set s"
proof -
  assume m: "full_match (slug_pattern 2 63) s"
  have "drawn_from no_colon (slug_pattern 2 63)" using class_no_colon by (simp add: slug_pattern_def)
  from full_match_drawn[OF this m] show ?thesis by (auto simp: list_all_iff no_colon_def)
qed

lemma version_no_colon: "full_match version_pattern s \<Longrightarrow> CHR '':'' \<notin> set s"
proof -
  assume m: "full_match version_pattern s"
  have "drawn_from no_colon version_pattern"
    using class_no_colon by (simp add: version_pattern_def digits_def no_colon_def)
  from full_match_drawn[OF this m] show ?thesis by (auto simp: list_all_iff no_colon_def)
qed

lemma skill_key_inj:
  assumes "skill_key n v = skill_key n' v'" and "CHR '':'' \<notin> set n'" and "CHR '':'' \<notin> set v'"
  shows "n = n' \<and> v = v'"
proof -
  have "n' @ CHR '':'' # v' = n @ CHR '':'' # v" using assms(1) by (simp add: skill_key_def)
  with append_Cons_eq_iff[OF assms(2,3), of n v] show ?thesis by blast
qed

lemma list_approved_set:
  "set (list_approved r) = {d. d \<in> set (map snd r) \<and> sd_governance_state d = ApprovedSkill}"
  by (auto simp: list_approved_def)

lemma build_skills_registered:
  assumes "build_default_skill_registry load decode files = Inr r"
  shows "registered r \<and> list_all skill_valid (map snd r)"
proof -
  obtain ds where ds: "load_skills load decode (sort_key fst files) = Inr ds" "index_skills [] ds = Inr r"
    using assms by (auto simp: build_default_skill_registry_def new_skill_registry_def split: sum.splits)
  from index_skills_registered[OF ds(2)] load_skills_valid[OF ds(1)] show ?thesis
    by (simp add: registered_def)
qed

lemma skill_get_iff:
  assumes "registered r" and "list_all skill_valid (map snd r)"
  shows "skill_get r n v = Some d \<longleftrightarrow> d \<in> set (list_approved r) \<and> sd_name d = n \<and> sd_version d = v"
proof -
  have keyed: "k = skill_key (sd_name e) (sd_version e)" "CHR '':'' \<notin> set (sd_name e)" "CHR '':'' \<notin> set (sd_version e)"
    if "(k, e) \<in> set r" for k e
    using that assms slug_no_colon version_no_colon
    by (auto simp: registered_def list_all_iff skill_valid_def)
  have m: "map_of r k = Some e \<longleftrightarrow> (k, e) \<in> set r" for k e
    using assms(1) by (simp add: registered_def map_of_eq_Some_iff)
  have "skill_get r n v = Some d \<longleftrightarrow> (skill_key n v, d) \<in> set r \<and> sd_governance_state d = ApprovedSkill"
    by (auto simp: skill_get_def m[symmetric] split: option.splits)
  also have "\<dots> \<longleftrightarrow> d \<in> set (list_approved r) \<and> sd_name d = n \<and> sd_version d = v"
  proof -
    have "n = sd_name d \<and> v = sd_version d" if "(skill_key n v, d) \<in> set r"
      using skill_key_inj[OF keyed(1)[OF that] keyed(2,3)[OF that]] .
    moreover have "(skill_key (sd_name d) (sd_version d), d) \<in> set r" if "d \<in> set (map snd r)"
      using that keyed(1) by auto
    moreover have "d \<in> set (map snd r)" if "(skill_key n v, d) \<in> set r"
      using that by force
    ultimately show ?thesis unfolding list_approved_set by blast
  qed
  finally show ?thesis .
qed

text \<open>C37: a skill that the registry shows or returns is an approved, valid definition, found under
  exactly its name and version, and every tool it names is one that the local tool gateway registers
  for its agent.  The list is sorted by name and version and has no version twice.\<close>

fun skill_agent_name :: "skill_agent \<Rightarrow> string" where
  "skill_agent_name CustomerSkill = ''customer''"
| "skill_agent_name PaymentsSkill = ''payments''"
| "skill_agent_name PolicySkill = ''policy''"

theorem skill_registry_sound:
  assumes "build_default_skill_registry load decode files = Inr r"
  shows "(skill_get r n v = Some d) = (d \<in> set (list_approved r) \<and> sd_name d = n \<and> sd_version d = v) \<and>
    list_all (\<lambda>d. skill_valid d \<and> sd_governance_state d = ApprovedSkill \<and>
      list_all (\<lambda>t. list_ex (\<lambda>reg. tg_name reg = t \<and> skill_agent_name (sd_agent d) \<in> tg_allowed_agents reg)
        (local_tools retr)) (sd_allowed_tools d)) (list_approved r) \<and>
    sorted (map (\<lambda>d. [sd_name d, sd_version d]) (list_approved r)) \<and>
    distinct (map (\<lambda>d. (sd_name d, sd_version d)) (list_approved r))"
proof -
  note reg = build_skills_registered[OF assms]
  have tools: "list_ex (\<lambda>reg. tg_name reg = t \<and> skill_agent_name a \<in> tg_allowed_agents reg) (local_tools retr)"
    if "t \<in> approved_skill_tools a" for t a
    using that by (cases a) (auto simp: local_tools_def)
  have allowed: "list_all (\<lambda>t. t \<in> approved_skill_tools (sd_agent d)) (sd_allowed_tools d)"
    if "d \<in> set (map snd r)" for d
    using that reg by (auto simp: registered_def list_all_iff)
  have "map (\<lambda>d. skill_key (sd_name d) (sd_version d)) (map snd r) = map fst r"
    using reg by (auto simp: registered_def list_all_iff)
  then have "distinct (map (\<lambda>d. skill_key (sd_name d) (sd_version d)) (map snd r))"
    using reg by (simp only: registered_def)
  then have "distinct (map (\<lambda>d. (sd_name d, sd_version d)) (map snd r))"
    by (auto simp: distinct_map inj_on_def)
  then have dist: "distinct (map (\<lambda>d. (sd_name d, sd_version d)) (list_approved r))"
    unfolding list_approved_def by (auto simp: distinct_map inj_on_def)
  have "skill_valid d \<and> sd_governance_state d = ApprovedSkill \<and>
      list_all (\<lambda>t. list_ex (\<lambda>reg. tg_name reg = t \<and> skill_agent_name (sd_agent d) \<in> tg_allowed_agents reg)
        (local_tools retr)) (sd_allowed_tools d)" if "d \<in> set (list_approved r)" for d
    using that reg allowed[of d] tools by (auto simp: list_approved_set list_all_iff)
  moreover have "sorted (map (\<lambda>d. [sd_name d, sd_version d]) (list_approved r))"
    by (simp add: list_approved_def)
  ultimately show ?thesis
    using skill_get_iff[of r n v d] reg dist by (simp add: list_all_iff)
qed

definition sample_skill :: skill_definition where
  "sample_skill = \<lparr>sd_name = ''policy-guidance'', sd_version = ''1.0.0'',
     sd_description = ''Answers policy questions with citations.'',
     sd_owner = \<lparr>ow_team = ''policy-team'', ow_contact = ''policy@novabank.example''\<rparr>, sd_agent = PolicySkill,
     sd_model = \<lparr>sm_provider = MockSkillProvider, sm_model = ''mock'', sm_max_input_tokens = 1000, sm_max_output_tokens = 500\<rparr>,
     sd_allowed_tools = [''policy.search''], sd_data_classification = InternalData,
     sd_approval = \<lparr>sa_required_for = [], sa_approver_role = ''lead''\<rparr>,
     sd_slo = \<lparr>sl_availability_percent = 99, sl_latency_p95_ms = 2000\<rparr>,
     sd_evaluation = \<lparr>sv_suite = ''golden'', sv_minimum_score = 1\<rparr>, sd_governance_state = ApprovedSkill\<rparr>"

lemma sample_skill_valid: "skill_valid sample_skill"
proof -
  have "owner_valid (sd_owner sample_skill)" by code_simp
  moreover have "full_match (slug_pattern 2 63) (sd_name sample_skill)" by code_simp
  moreover have "full_match version_pattern (sd_version sample_skill)" by code_simp
  ultimately show ?thesis
    by (simp add: skill_valid_def sample_skill_def model_policy_valid_def slo_valid_def evaluation_valid_def)
qed

lemma sample_skill_sel:
  "sd_name sample_skill = ''policy-guidance''" "sd_version sample_skill = ''1.0.0''"
  "sd_agent sample_skill = PolicySkill" "sd_allowed_tools sample_skill = [''policy.search'']"
  "sd_governance_state sample_skill = ApprovedSkill"
  by (simp_all add: sample_skill_def)

theorem skill_registry_sound_witness:
  "\<exists>r. build_default_skill_registry Inr (\<lambda>_. Inr sample_skill) [(''policy.yaml'', [])] = Inr r \<and>
     skill_get r ''policy-guidance'' ''1.0.0'' = Some sample_skill"
proof -
  have y: "ends_with ''.yaml'' ''policy.yaml''" by code_simp
  obtain r where r: "build_default_skill_registry Inr (\<lambda>_. Inr sample_skill) [(''policy.yaml'', [])] = Inr r"
    "map snd r = [sample_skill]"
    using sample_skill_valid y sample_skill_sel
    by (simp add: build_default_skill_registry_def new_skill_registry_def Let_def)
  from skill_registry_sound[OF r(1), of "''policy-guidance''" "''1.0.0''" sample_skill] r show ?thesis
    using sample_skill_sel by (simp add: list_approved_def)
qed

end
