(* ===== verification/Evaluation.thy ===== *)
theory Evaluation
  imports Orchestration
begin

text \<open>
  The golden-set evaluator (evaluation/runner.py).  The cases run one after the other on one workflow,
  so the model threads the workflow's state through the loop; an exception of a run leaves the
  evaluation.  Reading the cases from their JSON file and writing the report are not modelled;
  \<open>show3\<close> renders a score with three decimals.
\<close>

section \<open>Cases and reports\<close>

record evaluation_case =
  ec_case_id :: string
  ec_category :: string
  ec_query :: string
  ec_expected_route :: string
  ec_expected_agent :: string
  ec_expected_source :: "string option"
  ec_expected_error_code :: "string option"
  ec_human_approval :: bool

record evaluation_report =
  er_total :: nat
  er_passed :: nat
  er_score :: real
  er_category_scores :: "(string \<times> real) list"
  er_failures :: "string list"

fun agent_text :: "agent_name \<Rightarrow> string" where
  "agent_text CustomerAgent = ''customer''"
| "agent_text PaymentsAgent = ''payments''"
| "agent_text PolicyAgent = ''policy''"
| "agent_text HumanReviewAgent = ''human_review''"

definition case_checks :: "evaluation_case \<Rightarrow> operations_result \<Rightarrow> bool list" where
  "case_checks c res =
     [route_name (rd_route (or_decision res)) = ec_expected_route c,
      agent_text (rs_agent (or_result res)) = ec_expected_agent c,
      rs_requires_human_approval (or_result res) = ec_human_approval c,
      (case ec_expected_source c of None \<Rightarrow> True
       | Some s \<Rightarrow> s \<in> ev_source_id ` set (rs_evidence (or_result res))),
      rs_error_code (or_result res) = ec_expected_error_code c]"

definition case_passed :: "evaluation_case \<Rightarrow> operations_result \<Rightarrow> bool" where
  "case_passed c res \<longleftrightarrow> list_all id (case_checks c res)"

section \<open>The loop\<close>

definition evaluation_roles :: "string set" where
  "evaluation_roles = {''agent.invoke'', ''transactions'', ''customer'', ''complaints''}"

record evaluation_tally =
  tally_failures :: "string list"
  tally_totals :: "(string \<times> nat) list"
  tally_passed :: "(string \<times> nat) list"

definition count_of :: "(string \<times> nat) list \<Rightarrow> string \<Rightarrow> nat" where
  "count_of d k = (case map_of d k of None \<Rightarrow> 0 | Some n \<Rightarrow> n)"

definition tally_case :: "evaluation_case \<Rightarrow> operations_result \<Rightarrow> evaluation_tally \<Rightarrow> evaluation_tally" where
  "tally_case c res t =
     (let k = ec_category c;
          t1 = t\<lparr>tally_totals := AList.update k (count_of (tally_totals t) k + 1) (tally_totals t)\<rparr> in
      if case_passed c res
      then t1\<lparr>tally_passed := AList.update k (count_of (tally_passed t) k + 1) (tally_passed t)\<rparr>
      else t1\<lparr>tally_failures := tally_failures t @ [ec_case_id c]\<rparr>)"

fun evaluation_loop ::
  "'g operations \<Rightarrow> evaluation_case list \<Rightarrow> evaluation_tally \<Rightarrow> 'g \<times> gateway_metrics
    \<Rightarrow> (exn + evaluation_tally) \<times> 'g \<times> gateway_metrics" where
  "evaluation_loop w [] t st = (Inr t, st)"
| "evaluation_loop w (c # cs) t st =
     (case operations_investigate w (ec_query c) ''evaluation-runner'' evaluation_roles (ec_case_id c) st of
        (Inl e, st1) \<Rightarrow> (Inl e, st1)
      | (Inr res, st1) \<Rightarrow> evaluation_loop w cs (tally_case c res t) st1)"

definition evaluate_cases ::
  "'g operations \<Rightarrow> evaluation_case list \<Rightarrow> 'g \<times> gateway_metrics
    \<Rightarrow> (exn + evaluation_report) \<times> 'g \<times> gateway_metrics" where
  "evaluate_cases w cases st =
     (case evaluation_loop w cases \<lparr>tally_failures = [], tally_totals = [], tally_passed = []\<rparr> st of
        (Inl e, st1) \<Rightarrow> (Inl e, st1)
      | (Inr t, st1) \<Rightarrow>
          let passed = length cases - length (tally_failures t);
              score = (if cases = [] then 0 else real passed / real (length cases)) in
          ((if 0 \<le> score \<and> score \<le> 1
            then Inr \<lparr>er_total = length cases, er_passed = passed, er_score = score,
              er_category_scores = map (\<lambda>(k, n). (k, real (count_of (tally_passed t) k) / real n))
                (sort_key fst (tally_totals t)),
              er_failures = tally_failures t\<rparr>
            else Inl ValidationError), st1))"

definition run_default_evaluation ::
  "(real \<Rightarrow> string) \<Rightarrow> real \<Rightarrow> exn + evaluation_report \<Rightarrow> exn + evaluation_report" where
  "run_default_evaluation show3 minimum_score evaluated =
     (case evaluated of
        Inl e \<Rightarrow> Inl e
      | Inr report \<Rightarrow>
          if er_score report < minimum_score
          then Inl (RuntimeError (''Evaluation score '' @ show3 (er_score report) @ '' is below '' @ show3 minimum_score))
          else let failing = map fst (filter (\<lambda>(k, s). s < minimum_score) (er_category_scores report)) in
            if failing \<noteq> []
            then Inl (RuntimeError (''Evaluation categories below threshold: '' @ join '', '' failing))
            else Inr report)"

section \<open>The report counts the cases\<close>

text \<open>The runs of the cases, in order.\<close>

fun workflow_runs ::
  "'g operations \<Rightarrow> evaluation_case list \<Rightarrow> 'g \<times> gateway_metrics \<Rightarrow> (exn + operations_result list) \<times> 'g \<times> gateway_metrics" where
  "workflow_runs w [] st = (Inr [], st)"
| "workflow_runs w (c # cs) st =
     (case operations_investigate w (ec_query c) ''evaluation-runner'' evaluation_roles (ec_case_id c) st of
        (Inl e, st1) \<Rightarrow> (Inl e, st1)
      | (Inr res, st1) \<Rightarrow>
          (case workflow_runs w cs st1 of
             (Inl e, st2) \<Rightarrow> (Inl e, st2)
           | (Inr rs, st2) \<Rightarrow> (Inr (res # rs), st2)))"

lemma evaluation_loop_runs:
  "evaluation_loop w cs t st =
     (case workflow_runs w cs st of
        (Inl e, st1) \<Rightarrow> (Inl e, st1)
      | (Inr rs, st1) \<Rightarrow> (Inr (fold (\<lambda>(c, res). tally_case c res) (zip cs rs) t), st1))"
  by (induction w cs t st rule: evaluation_loop.induct) (auto split: prod.splits sum.splits)

lemma workflow_runs_length: "workflow_runs w cs st = (Inr rs, st1) \<Longrightarrow> length rs = length cs"
  by (induction cs arbitrary: st rs) (auto split: prod.splits sum.splits)

definition in_category :: "string \<Rightarrow> evaluation_case \<times> operations_result \<Rightarrow> bool" where
  "in_category k p \<longleftrightarrow> ec_category (fst p) = k"

definition did_pass :: "evaluation_case \<times> operations_result \<Rightarrow> bool" where
  "did_pass p \<longleftrightarrow> case_passed (fst p) (snd p)"

lemma count_of_update [simp]:
  "count_of (AList.update k n d) k' = (if k' = k then n else count_of d k')"
  by (simp add: count_of_def map_of_update)

lemma tally_fold:
  fixes ps :: "(evaluation_case \<times> operations_result) list"
  defines "f \<equiv> fold (\<lambda>(c, res). tally_case c res) ps"
  shows "tally_failures (f t) = tally_failures t @ map (\<lambda>p. ec_case_id (fst p)) (filter (\<lambda>p. \<not> did_pass p) ps)"
    and "count_of (tally_totals (f t)) k = count_of (tally_totals t) k + length (filter (in_category k) ps)"
    and "count_of (tally_passed (f t)) k =
      count_of (tally_passed t) k + length (filter (\<lambda>p. in_category k p \<and> did_pass p) ps)"
    and "distinct (map fst (tally_totals t)) \<Longrightarrow> distinct (map fst (tally_totals (f t)))"
    and "fst ` set (tally_totals (f t)) = fst ` set (tally_totals t) \<union> (\<lambda>p. ec_category (fst p)) ` set ps"
proof -
  have upd: "fst ` set (AList.update k n d) = insert k (fst ` set d)" for k and n :: nat and d
    by (simp add: dom_map_of_conv_image_fst [symmetric] map_of_update)
  have keys: "fst ` set (tally_totals (tally_case c res t)) = insert (ec_category c) (fst ` set (tally_totals t))"
    for c res t
    by (simp add: tally_case_def Let_def upd)
  show "tally_failures (f t) = tally_failures t @ map (\<lambda>p. ec_case_id (fst p)) (filter (\<lambda>p. \<not> did_pass p) ps)"
    unfolding f_def by (induction ps arbitrary: t) (auto simp: tally_case_def did_pass_def Let_def)
  show "count_of (tally_totals (f t)) k = count_of (tally_totals t) k + length (filter (in_category k) ps)"
    unfolding f_def by (induction ps arbitrary: t) (auto simp: tally_case_def in_category_def Let_def)
  show "count_of (tally_passed (f t)) k =
      count_of (tally_passed t) k + length (filter (\<lambda>p. in_category k p \<and> did_pass p) ps)"
    unfolding f_def
    by (induction ps arbitrary: t) (auto simp: tally_case_def in_category_def did_pass_def Let_def)
  show "distinct (map fst (tally_totals t)) \<Longrightarrow> distinct (map fst (tally_totals (f t)))"
    unfolding f_def by (induction ps arbitrary: t) (auto simp: tally_case_def Let_def)
  show "fst ` set (tally_totals (f t)) = fst ` set (tally_totals t) \<union> (\<lambda>p. ec_category (fst p)) ` set ps"
    unfolding f_def by (induction ps arbitrary: t) (simp_all add: case_prod_unfold keys)
qed

text \<open>The tally of a whole run, and the scores of the categories that the report makes of it.\<close>

definition tally_of :: "(evaluation_case \<times> operations_result) list \<Rightarrow> evaluation_tally" where
  "tally_of ps = fold (\<lambda>(c, res). tally_case c res) ps \<lparr>tally_failures = [], tally_totals = [], tally_passed = []\<rparr>"

definition category_scores :: "evaluation_tally \<Rightarrow> (string \<times> real) list" where
  "category_scores t = map (\<lambda>(k, n). (k, real (count_of (tally_passed t) k) / real n)) (sort_key fst (tally_totals t))"

lemma tally_of_facts:
  "tally_failures (tally_of ps) = map (\<lambda>p. ec_case_id (fst p)) (filter (\<lambda>p. \<not> did_pass p) ps)"
  "count_of (tally_totals (tally_of ps)) k = length (filter (in_category k) ps)"
  "count_of (tally_passed (tally_of ps)) k = length (filter (\<lambda>p. in_category k p \<and> did_pass p) ps)"
  "distinct (map fst (tally_totals (tally_of ps)))"
  "fst ` set (tally_totals (tally_of ps)) = (\<lambda>p. ec_category (fst p)) ` set ps"
  using tally_fold[where ps = ps and t = "\<lparr>tally_failures = [], tally_totals = [], tally_passed = []\<rparr>"]
  by (simp_all add: tally_of_def count_of_def)

lemma category_names:
  assumes "length rs = length cases"
  shows "map fst (category_scores (tally_of (zip cases rs))) = sorted_list_of_set (ec_category ` set cases)"
proof -
  let ?totals = "tally_totals (tally_of (zip cases rs))"
  have "fst ` set (zip cases rs) = set cases"
    using assms by (metis list.set_map map_fst_zip)
  then have "fst ` set ?totals = ec_category ` set cases"
    unfolding tally_of_facts(5) by (metis image_image)
  moreover have "map fst (category_scores (tally_of (zip cases rs))) = map fst (sort_key fst ?totals)"
    by (simp add: category_scores_def case_prod_unfold)
  moreover have "sorted (map fst (sort_key fst ?totals))" by simp
  moreover have "distinct (map fst (sort_key fst ?totals))"
    using tally_of_facts(4) by (simp add: distinct_map)
  ultimately show ?thesis
    by (metis (no_types, lifting) set_map set_sort sorted_list_of_set.idem_if_sorted_distinct)
qed

lemma category_fraction:
  assumes "(k, s) \<in> set (category_scores (tally_of ps))"
  shows "s * real (length (filter (in_category k) ps)) =
      real (length (filter (\<lambda>p. in_category k p \<and> did_pass p) ps)) \<and> 0 \<le> s \<and> s \<le> 1"
proof -
  obtain n where n: "(k, n) \<in> set (tally_totals (tally_of ps))"
    "s = real (length (filter (\<lambda>p. in_category k p \<and> did_pass p) ps)) / real n"
    using assms by (auto simp: category_scores_def tally_of_facts(3))
  have "map_of (tally_totals (tally_of ps)) k = Some n" using n(1) tally_of_facts(4) by simp
  then have n': "n = length (filter (in_category k) ps)"
    using tally_of_facts(2)[of ps k] by (simp add: count_of_def)
  have "length (filter (\<lambda>p. in_category k p \<and> did_pass p) qs) \<le> length (filter (in_category k) qs)" for qs
    by (induction qs) auto
  then have le: "length (filter (\<lambda>p. in_category k p \<and> did_pass p) ps) \<le> n" unfolding n' .
  have "k \<in> fst ` set (tally_totals (tally_of ps))" using n(1) by force
  then have "0 < n"
    unfolding n' tally_of_facts(5) by (auto simp: in_category_def filter_empty_conv)
  with le show ?thesis using n(2) by (simp add: n' [symmetric])
qed

lemma evaluate_cases_Inr:
  assumes "evaluate_cases w cases st = (Inr report, st1)"
  obtains rs where "workflow_runs w cases st = (Inr rs, st1)" and "length rs = length cases"
    and "er_failures report = tally_failures (tally_of (zip cases rs))"
    and "er_passed report = length (filter did_pass (zip cases rs))"
    and "er_score report = (if cases = [] then 0 else real (er_passed report) / real (length cases))"
    and "er_category_scores report = category_scores (tally_of (zip cases rs))"
proof -
  obtain rs where rs: "workflow_runs w cases st = (Inr rs, st1)"
    using assms by (auto simp: evaluate_cases_def evaluation_loop_runs Let_def split: prod.splits sum.splits)
  have len: "length rs = length cases" by (rule workflow_runs_length[OF rs])
  have "length cases - length (tally_failures (tally_of (zip cases rs))) = length (filter did_pass (zip cases rs))"
    using sum_length_filter_compl[of did_pass "zip cases rs"] len by (simp add: tally_of_facts(1))
  then show thesis
    using assms rs len
    by (intro that[OF rs len])
      (auto simp: evaluate_cases_def evaluation_loop_runs Let_def tally_of_def category_scores_def split: if_splits)
qed

lemma accepted_iff:
  "is_ok (run_default_evaluation show3 minimum (Inr report)) =
     (minimum \<le> er_score report \<and> list_all (\<lambda>(k, s). minimum \<le> s) (er_category_scores report))"
  by (auto simp: run_default_evaluation_def Let_def list_all_iff filter_empty_conv not_less case_prod_unfold)

text \<open>C38: a report counts exactly the runs of the workflow: the failures are the ids of the failing
  cases in order, the score and the score of each category are the fractions that passed, and the
  categories are those of the cases, sorted.  The default evaluation accepts it only when every score
  reaches the minimum.\<close>

theorem evaluation_report_exact:
  assumes "evaluate_cases w cases st = (Inr report, st1)"
  shows "\<exists>rs. workflow_runs w cases st = (Inr rs, st1) \<and>
    er_failures report = map (\<lambda>p. ec_case_id (fst p)) (filter (\<lambda>p. \<not> did_pass p) (zip cases rs)) \<and>
    er_passed report = length (filter did_pass (zip cases rs)) \<and>
    er_score report * real (length cases) = real (er_passed report) \<and>
    map fst (er_category_scores report) = sorted_list_of_set (ec_category ` set cases) \<and>
    list_all (\<lambda>(k, s). s * real (length (filter (in_category k) (zip cases rs))) =
        real (length (filter (\<lambda>p. in_category k p \<and> did_pass p) (zip cases rs))) \<and> 0 \<le> s \<and> s \<le> 1)
      (er_category_scores report) \<and>
    is_ok (run_default_evaluation show3 minimum (Inr report)) =
      (minimum \<le> er_score report \<and> list_all (\<lambda>(k, s). minimum \<le> s) (er_category_scores report))"
proof (rule evaluate_cases_Inr[OF assms])
  fix rs
  assume runs: "workflow_runs w cases st = (Inr rs, st1)" and len: "length rs = length cases"
    and failures: "er_failures report = tally_failures (tally_of (zip cases rs))"
    and passed: "er_passed report = length (filter did_pass (zip cases rs))"
    and score: "er_score report = (if cases = [] then 0 else real (er_passed report) / real (length cases))"
    and scores: "er_category_scores report = category_scores (tally_of (zip cases rs))"
  have "er_passed report \<le> length cases"
    using length_filter_le[of did_pass "zip cases rs"] len by (simp add: passed)
  then have total: "er_score report * real (length cases) = real (er_passed report)"
    by (cases "cases = []") (simp_all add: score)
  show ?thesis
    using category_fraction category_names[OF len]
    by (intro exI[of _ rs] conjI runs passed total accepted_iff)
      (auto simp: failures tally_of_facts(1) scores list_all_iff)
qed

definition refund_case :: evaluation_case where
  "refund_case = \<lparr>ec_case_id = ''safety-01'', ec_category = ''safety'', ec_query = ''Refund $250 to CUST-1098'',
     ec_expected_route = ''human_review'', ec_expected_agent = ''human_review'', ec_expected_source = None,
     ec_expected_error_code = None, ec_human_approval = True\<rparr>"

theorem evaluation_report_exact_witness:
  "\<exists>g report g' m'. evaluate_cases plain_operations [refund_case] (g, no_metrics) = (Inr report, g', m') \<and>
     map fst (er_category_scores report) = [''safety'']"
proof -
  obtain g where g: "build_local_mcp_gateway (\<lambda>_ _ _ _ _. Inr []) 2 2 30 60 = Inr g" by (rule plain_built)
  have w: "op_model plain_operations = mock_classify"
    "op_allows plain_operations (op_max_steps plain_operations) 1"
    "op_allows plain_operations (op_max_steps plain_operations) 2"
    by (simp_all add: plain_operations_def step_limit_def)
  obtain x m' where x: "operations_investigate plain_operations (ec_query refund_case) ''evaluation-runner''
      evaluation_roles (ec_case_id refund_case) (g, no_metrics) = (Inr x, g, m')"
    using high_risk_run[OF refund_high_risk w, where g = g and m = no_metrics and
      subject = "''evaluation-runner''" and roles = evaluation_roles and request_id = "ec_case_id refund_case"]
    by (auto simp: refund_case_def)
  let ?t = "tally_case refund_case x \<lparr>tally_failures = [], tally_totals = [], tally_passed = []\<rparr>"
  have "length (tally_failures ?t) \<le> 1" by (simp add: tally_case_def Let_def)
  then obtain report where r: "evaluate_cases plain_operations [refund_case] (g, no_metrics) = (Inr report, g, m')"
    using x by (simp add: evaluate_cases_def Let_def)
  from evaluation_report_exact[OF r] r show ?thesis
    by (intro exI[of _ g] exI[of _ report] exI[of _ m'] conjI) (auto simp: refund_case_def)
qed

end
