(* ===== verification/Approvals.thy ===== *)
theory Approvals
  imports PyStr
begin

text \<open>
  What an approval store promises (state/store.py): records, the clock's timestamps with their ISO
  text, and the contract of the protocol \<open>ApprovalStore\<close> as a state machine \<open>approval_step\<close> over a
  map from approval ids to records.  The locale \<open>approval_store\<close> states that a store implements the
  machine; its lemmas hold for every backend of ApprovalStores.thy.

  \<open>sha256\<close> is a parameter, and so are the uuid and the clock reading of a creation and the clock
  reading of a decision, which are part of the operation.
\<close>

section \<open>Timestamps\<close>

text \<open>An aware \<open>datetime\<close> in UTC.\<close>

datatype timestamp =
  Timestamp (ts_year: nat) (ts_month: nat) (ts_day: nat) (ts_hour: nat) (ts_minute: nat)
    (ts_second: nat) (ts_micro: nat)

definition ts_fields :: "timestamp \<Rightarrow> nat list" where
  "ts_fields t = [ts_year t, ts_month t, ts_day t, ts_hour t, ts_minute t, ts_second t, ts_micro t]"

lemma ts_fields_inj [simp]: "ts_fields t = ts_fields u \<longleftrightarrow> t = u"
  by (cases t; cases u) (auto simp: ts_fields_def)

instantiation timestamp :: linorder
begin

definition less_eq_timestamp :: "timestamp \<Rightarrow> timestamp \<Rightarrow> bool" where
  "less_eq_timestamp t u \<longleftrightarrow> ts_fields t \<le> ts_fields u"

definition less_timestamp :: "timestamp \<Rightarrow> timestamp \<Rightarrow> bool" where
  "less_timestamp t u \<longleftrightarrow> ts_fields t < ts_fields u"

instance
proof
  fix t u v :: timestamp
  show "t < u \<longleftrightarrow> t \<le> u \<and> \<not> u \<le> t"
    unfolding less_eq_timestamp_def less_timestamp_def by (rule less_le_not_le)
  show "t \<le> t" by (simp add: less_eq_timestamp_def)
  show "t \<le> u \<Longrightarrow> u \<le> v \<Longrightarrow> t \<le> v"
    unfolding less_eq_timestamp_def by (rule order_trans)
  show "t \<le> u \<Longrightarrow> u \<le> t \<Longrightarrow> t = u"
    unfolding less_eq_timestamp_def using antisym by fastforce
  show "t \<le> u \<or> u \<le> t"
    unfolding less_eq_timestamp_def by (rule linear)
qed

end

definition ts_valid :: "timestamp \<Rightarrow> bool" where
  "ts_valid t \<longleftrightarrow> ts_year t < 10000 \<and> ts_month t \<le> 12 \<and> ts_day t \<le> 31 \<and> ts_hour t < 24 \<and>
     ts_minute t < 60 \<and> ts_second t < 60 \<and> ts_micro t < 1000000"

fun pad :: "nat \<Rightarrow> nat \<Rightarrow> string" where
  "pad 0 n = []"
| "pad (Suc w) n = char_of (48 + n div 10 ^ w) # pad w (n mod 10 ^ w)"

text \<open>\<open>isoformat\<close> leaves the fraction out when it is zero.\<close>

definition isoformat :: "timestamp \<Rightarrow> string" where
  "isoformat t =
     pad 4 (ts_year t) @ ''-'' @ pad 2 (ts_month t) @ ''-'' @ pad 2 (ts_day t) @ ''T'' @
     pad 2 (ts_hour t) @ '':'' @ pad 2 (ts_minute t) @ '':'' @ pad 2 (ts_second t) @
     (if ts_micro t = 0 then ''+00:00'' else ''.'' @ pad 6 (ts_micro t) @ ''+00:00'')"

lemma length_pad [simp]: "length (pad w n) = w"
  by (induction w arbitrary: n) auto

lemma digit_char_less:
  "a < 10 \<Longrightarrow> b < 10 \<Longrightarrow> (char_of (48 + a) :: char) < char_of (48 + b) \<longleftrightarrow> a < (b::nat)"
  by (simp add: less_char_def)

lemma digit_char_eq:
  assumes "a < 10" and "b < (10::nat)"
  shows "(char_of (48 + a) :: char) = char_of (48 + b) \<longleftrightarrow> a = b"
proof (cases a b rule: linorder_cases)
  case less
  with digit_char_less[OF assms] show ?thesis by (metis order_less_irrefl)
next
  case equal
  then show ?thesis by simp
next
  case greater
  with digit_char_less[OF assms(2,1)] show ?thesis by (metis order_less_irrefl)
qed

lemma div_pow_lt: "n < 10 ^ Suc w \<Longrightarrow> n div 10 ^ w < (10::nat)"
  by (simp add: less_mult_imp_div_less)

lemma pad_eq: "a < 10 ^ w \<Longrightarrow> b < 10 ^ w \<Longrightarrow> pad w a = pad w b \<longleftrightarrow> a = b"
proof (induction w arbitrary: a b)
  case (Suc w)
  have "pad w (a mod 10 ^ w) = pad w (b mod 10 ^ w) \<longleftrightarrow> a mod 10 ^ w = b mod 10 ^ w"
    by (intro Suc.IH) simp_all
  then show ?case
    using digit_char_eq[OF div_pow_lt[OF Suc.prems(1)] div_pow_lt[OF Suc.prems(2)]]
    by simp (metis div_mult_mod_eq)
qed simp

lemma less_div_mod:
  "a < b \<longleftrightarrow> a div p < b div p \<or> a div p = b div p \<and> a mod p < b mod (p::nat)"
proof (cases "a div p" "b div p" rule: linorder_cases)
  case less
  then have "\<not> b \<le> a" using div_le_mono[of b a p] by linarith
  with less show ?thesis by simp
next
  case equal
  have "a = a div p * p + a mod p" "b = b div p * p + b mod p" by simp_all
  with equal have "a < b \<longleftrightarrow> a mod p < b mod p"
    by (metis nat_add_left_cancel_less)
  with equal show ?thesis by simp
next
  case greater
  then have "\<not> a \<le> b" using div_le_mono[of a b p] by linarith
  with greater show ?thesis by simp
qed

lemma pad_less: "a < 10 ^ w \<Longrightarrow> b < 10 ^ w \<Longrightarrow> pad w a < pad w b \<longleftrightarrow> a < b"
proof (induction w arbitrary: a b)
  case (Suc w)
  let ?p = "10 ^ w :: nat"
  have ih: "pad w (a mod ?p) < pad w (b mod ?p) \<longleftrightarrow> a mod ?p < b mod ?p"
    by (intro Suc.IH) simp_all
  have "a < b \<longleftrightarrow> a div ?p < b div ?p \<or> a div ?p = b div ?p \<and> a mod ?p < b mod ?p"
    by (rule less_div_mod)
  then show ?case
    using ih digit_char_less[OF div_pow_lt[OF Suc.prems(1)] div_pow_lt[OF Suc.prems(2)]]
      digit_char_eq[OF div_pow_lt[OF Suc.prems(1)] div_pow_lt[OF Suc.prems(2)]]
    by simp
qed simp

lemma append_less_append:
  fixes xs :: "'a::linorder list"
  assumes "length xs = length ys"
  shows "xs @ as < ys @ bs \<longleftrightarrow> xs < ys \<or> xs = ys \<and> as < bs"
  using assms by (induction xs ys rule: list_induct2) auto

lemmas field_less = append_less_append[where xs = "pad w a" and ys = "pad w b" for w a b]

text \<open>The texts order as the instants do, as the text column of SQLite needs.\<close>

lemma isoformat_less:
  assumes "ts_valid t" and "ts_valid u"
  shows "isoformat t < isoformat u \<longleftrightarrow> t < u"
  using assms
  by (simp add: isoformat_def field_less pad_less pad_eq less_timestamp_def ts_fields_def
      ts_valid_def)

section \<open>Records\<close>

datatype approval_status = Pending | Approved | Rejected

datatype decision = Approve | Reject

fun decided_status :: "decision \<Rightarrow> approval_status" where
  "decided_status Approve = Approved"
| "decided_status Reject = Rejected"

record approval_record =
  ar_approval_id :: string
  ar_request_id :: string
  ar_requester :: string
  ar_tenant :: string
  ar_query_sha256 :: string
  ar_status :: approval_status
  ar_reviewer :: "string option"
  ar_reason :: "string option"
  ar_created_at :: timestamp
  ar_decided_at :: "timestamp option"

definition build_pending_record ::
  "(string \<Rightarrow> string) \<Rightarrow> string \<Rightarrow> timestamp \<Rightarrow> string \<Rightarrow> string \<Rightarrow> string \<Rightarrow> string \<Rightarrow> approval_record" where
  "build_pending_record sha256 uid now request_id requester query tenant =
     \<lparr>ar_approval_id = uid, ar_request_id = request_id, ar_requester = requester, ar_tenant = tenant,
      ar_query_sha256 = sha256 query, ar_status = Pending, ar_reviewer = None, ar_reason = None,
      ar_created_at = now, ar_decided_at = None\<rparr>"

definition decided :: "decision \<Rightarrow> string \<Rightarrow> string \<Rightarrow> timestamp \<Rightarrow> approval_record \<Rightarrow> approval_record" where
  "decided d reviewer reason now r =
     r\<lparr>ar_status := decided_status d, ar_reviewer := Some reviewer, ar_reason := Some reason,
       ar_decided_at := Some now\<rparr>"

definition not_decidable :: exn where
  "not_decidable = ValueError ''Approval is missing, already decided, or belongs to another tenant''"

section \<open>The contract\<close>

text \<open>The operations of the protocol.  A creation carries the uuid it draws and the time it reads, a
  decision the time it reads.\<close>

datatype approval_op =
    CreatePending (op_uid: string) timestamp string string string string
  | Decide string decision string string string timestamp
  | GetRecord string string
  | ListPending string

datatype approval_reply =
    Recorded approval_record
  | Looked_up "approval_record option"
  | Listed "approval_record list"

fun op_tenant :: "approval_op \<Rightarrow> string" where
  "op_tenant (CreatePending uid now request_id requester query tenant) = tenant"
| "op_tenant (Decide i d reviewer reason tenant now) = tenant"
| "op_tenant (GetRecord i tenant) = tenant"
| "op_tenant (ListPending tenant) = tenant"

type_synonym approvals = "string \<rightharpoonup> approval_record"

definition decidable_by :: "string \<Rightarrow> approval_record \<Rightarrow> bool" where
  "decidable_by tenant r \<longleftrightarrow> ar_status r = Pending \<and> ar_tenant r = tenant"

definition visible_to :: "string \<Rightarrow> approvals \<Rightarrow> string \<Rightarrow> approval_record option" where
  "visible_to tenant m i =
     (case m i of None \<Rightarrow> None | Some r \<Rightarrow> if ar_tenant r = tenant then Some r else None)"

text \<open>The pending records of a tenant, oldest first; records of the same instant in any order.\<close>

definition pending_listing :: "string \<Rightarrow> approvals \<Rightarrow> approval_record list \<Rightarrow> bool" where
  "pending_listing tenant m xs \<longleftrightarrow>
     set xs = {r. \<exists>i. m i = Some r \<and> decidable_by tenant r} \<and>
     distinct (map ar_approval_id xs) \<and> sorted (map ar_created_at xs)"

inductive approval_step ::
  "(string \<Rightarrow> string) \<Rightarrow> approval_op \<Rightarrow> approvals \<Rightarrow> exn + approval_reply \<Rightarrow> approvals \<Rightarrow> bool"
  for sha256 where
  created: "m uid = None \<Longrightarrow> r = build_pending_record sha256 uid now request_id requester query tenant \<Longrightarrow>
    approval_step sha256 (CreatePending uid now request_id requester query tenant) m
      (Inr (Recorded r)) (m(uid \<mapsto> r))"
| clash: "m uid \<noteq> None \<Longrightarrow>
    approval_step sha256 (CreatePending uid now request_id requester query tenant) m (Inl e) m"
| decides: "m i = Some r \<Longrightarrow> decidable_by tenant r \<Longrightarrow> r' = decided d reviewer reason now r \<Longrightarrow>
    approval_step sha256 (Decide i d reviewer reason tenant now) m (Inr (Recorded r')) (m(i \<mapsto> r'))"
| refuses: "\<not> (\<exists>r. m i = Some r \<and> decidable_by tenant r) \<Longrightarrow>
    approval_step sha256 (Decide i d reviewer reason tenant now) m (Inl not_decidable) m"
| looks_up: "approval_step sha256 (GetRecord i tenant) m (Inr (Looked_up (visible_to tenant m i))) m"
| lists: "pending_listing tenant m xs \<Longrightarrow>
    approval_step sha256 (ListPending tenant) m (Inr (Listed xs)) m"

inductive_cases create_stepE:
  "approval_step sha256 (CreatePending uid now request_id requester query tenant) m r m'"
inductive_cases decide_stepE: "approval_step sha256 (Decide i d reviewer reason tenant now) m r m'"
inductive_cases get_stepE: "approval_step sha256 (GetRecord i tenant) m r m'"
inductive_cases list_stepE: "approval_step sha256 (ListPending tenant) m r m'"

lemma refuses_other: "m i = Some r \<Longrightarrow> \<not> decidable_by tenant r \<Longrightarrow>
    approval_step sha256 (Decide i d reviewer reason tenant now) m (Inl not_decidable) m"
  by (rule approval_step.refuses) auto

lemma refuses_missing: "m i = None \<Longrightarrow>
    approval_step sha256 (Decide i d reviewer reason tenant now) m (Inl not_decidable) m"
  by (rule approval_step.refuses) auto

lemma clash_taken: "m uid = Some r \<Longrightarrow>
    approval_step sha256 (CreatePending uid now request_id requester query tenant) m (Inl e) m"
  by (rule approval_step.clash) auto

lemmas step_intros = approval_step.created approval_step.decides refuses_other refuses_missing clash_taken
  approval_step.looks_up approval_step.lists

inductive approval_run ::
  "(string \<Rightarrow> string) \<Rightarrow> approval_op list \<Rightarrow> approvals \<Rightarrow> (exn + approval_reply) list \<Rightarrow> approvals \<Rightarrow> bool"
  for sha256 where
  finished: "approval_run sha256 [] m [] m"
| more: "approval_step sha256 x m r m1 \<Longrightarrow> approval_run sha256 xs m1 rs m2 \<Longrightarrow>
    approval_run sha256 (x # xs) m (r # rs) m2"

inductive_cases approval_run_ConsE: "approval_run sha256 (x # xs) m rs m2"
inductive_cases approval_run_NilE: "approval_run sha256 [] m rs m2"

section \<open>Consequences of the contract\<close>

text \<open>Every record is filed under its own id.\<close>

definition filed :: "approvals \<Rightarrow> bool" where
  "filed m \<longleftrightarrow> (\<forall>i r. m i = Some r \<longrightarrow> ar_approval_id r = i)"

lemma filed_empty [simp]: "filed Map.empty"
  by (simp add: filed_def)

lemma build_pending_record_sel [simp]:
  "ar_approval_id (build_pending_record sha256 uid now rid rq q t) = uid"
  "ar_tenant (build_pending_record sha256 uid now rid rq q t) = t"
  "ar_status (build_pending_record sha256 uid now rid rq q t) = Pending"
  "ar_created_at (build_pending_record sha256 uid now rid rq q t) = now"
  "ar_requester (build_pending_record sha256 uid now rid rq q t) = rq"
  "ar_request_id (build_pending_record sha256 uid now rid rq q t) = rid"
  "ar_query_sha256 (build_pending_record sha256 uid now rid rq q t) = sha256 q"
  "ar_decided_at (build_pending_record sha256 uid now rid rq q t) = None"
  by (simp_all add: build_pending_record_def)

lemma decided_sel [simp]:
  "ar_approval_id (decided d rv rs now r) = ar_approval_id r"
  "ar_tenant (decided d rv rs now r) = ar_tenant r"
  "ar_status (decided d rv rs now r) = decided_status d"
  "ar_created_at (decided d rv rs now r) = ar_created_at r"
  "ar_requester (decided d rv rs now r) = ar_requester r"
  "ar_request_id (decided d rv rs now r) = ar_request_id r"
  "ar_query_sha256 (decided d rv rs now r) = ar_query_sha256 r"
  "ar_reviewer (decided d rv rs now r) = Some rv"
  "ar_reason (decided d rv rs now r) = Some rs"
  "ar_decided_at (decided d rv rs now r) = Some now"
  by (simp_all add: decided_def)

lemma decided_status_not_Pending [simp]: "decided_status d \<noteq> Pending"
  by (cases d) auto

lemma approval_step_filed: "approval_step sha256 x m r m' \<Longrightarrow> filed m \<Longrightarrow> filed m'"
  by (induction rule: approval_step.induct) (auto simp: filed_def)

text \<open>A decision is final, and nobody but the tenant's own operations touch its records.\<close>

lemma approval_step_final:
  "approval_step sha256 x m r m' \<Longrightarrow> m i = Some rec \<Longrightarrow> ar_status rec \<noteq> Pending \<Longrightarrow> m' i = Some rec"
  by (induction rule: approval_step.induct) (auto simp: decidable_by_def)

lemma approval_step_keeps:
  "approval_step sha256 x m r m' \<Longrightarrow> m i = Some rec \<Longrightarrow>
     \<exists>rec'. m' i = Some rec' \<and> ar_tenant rec' = ar_tenant rec \<and> ar_requester rec' = ar_requester rec \<and>
       ar_query_sha256 rec' = ar_query_sha256 rec \<and>
       (rec' = rec \<or> ar_tenant rec = op_tenant x \<and> ar_status rec = Pending)"
  by (induction rule: approval_step.induct) (auto simp: decidable_by_def)

lemma approval_step_other_tenant:
  assumes "approval_step sha256 x m r m'" and "op_tenant x \<noteq> t"
  shows "visible_to t m' i = visible_to t m i"
  using assms
  by (induction rule: approval_step.induct) (auto simp: visible_to_def decidable_by_def)

lemma approval_run_filed: "approval_run sha256 xs m rs m' \<Longrightarrow> filed m \<Longrightarrow> filed m'"
  by (induction rule: approval_run.induct) (auto dest: approval_step_filed)

lemma approval_run_final:
  "approval_run sha256 xs m rs m' \<Longrightarrow> m i = Some rec \<Longrightarrow> ar_status rec \<noteq> Pending \<Longrightarrow> m' i = Some rec"
  by (induction rule: approval_run.induct) (auto dest: approval_step_final)

lemma approval_run_other_tenant:
  assumes "approval_run sha256 xs m rs m'" and "list_all (\<lambda>x. op_tenant x \<noteq> t) xs"
  shows "visible_to t m' i = visible_to t m i"
  using assms by (induction rule: approval_run.induct) (auto simp: approval_step_other_tenant)

text \<open>What a reply shows belongs to the tenant that asked.\<close>

fun reply_records :: "exn + approval_reply \<Rightarrow> approval_record list" where
  "reply_records (Inl e) = []"
| "reply_records (Inr (Recorded r)) = [r]"
| "reply_records (Inr (Looked_up None)) = []"
| "reply_records (Inr (Looked_up (Some r))) = [r]"
| "reply_records (Inr (Listed xs)) = xs"

lemma approval_step_reply_tenant:
  "approval_step sha256 x m r m' \<Longrightarrow> rec \<in> set (reply_records r) \<Longrightarrow> ar_tenant rec = op_tenant x"
  by (induction rule: approval_step.induct)
    (auto simp: decidable_by_def visible_to_def pending_listing_def split: option.splits if_splits)

text \<open>The replies that decide the approval \<open>i\<close>.\<close>

fun decides_id :: "string \<Rightarrow> approval_op \<times> (exn + approval_reply) \<Rightarrow> bool" where
  "decides_id i (Decide j d reviewer reason tenant now, Inr x) = (i = j)"
| "decides_id i _ = False"

lemma decides_idE:
  assumes "decides_id i (x, r)"
  obtains d reviewer reason tenant now y where "x = Decide i d reviewer reason tenant now" "r = Inr y"
  using assms by (cases "(i, (x, r))" rule: decides_id.cases) auto

lemma approval_step_decides:
  assumes "approval_step sha256 x m r m'" and "decides_id i (x, r)"
  shows "\<exists>rec rec'. m i = Some rec \<and> ar_status rec = Pending \<and> m' i = Some rec' \<and> ar_status rec' \<noteq> Pending"
  using assms
  by (elim decides_idE) (auto elim!: decide_stepE simp: decidable_by_def)

lemma approval_run_decided_once:
  assumes "approval_run sha256 xs m rs m'"
  shows "length (filter (decides_id i) (zip xs rs)) \<le> 1 \<and>
    (\<forall>rec. m i = Some rec \<longrightarrow> ar_status rec \<noteq> Pending \<longrightarrow> filter (decides_id i) (zip xs rs) = [])"
  using assms
proof (induction rule: approval_run.induct)
  case (more x m r m1 xs rs m2)
  show ?case
  proof (cases "decides_id i (x, r)")
    case True
    from approval_step_decides[OF more.hyps(1) this] more.IH True show ?thesis by fastforce
  next
    case False
    with more.IH approval_step_final[OF more.hyps(1)] show ?thesis by fastforce
  qed
qed simp

lemma approval_run_reply_tenant:
  "approval_run sha256 xs m rs m' \<Longrightarrow>
     list_all2 (\<lambda>x r. list_all (\<lambda>rec. ar_tenant rec = op_tenant x) (reply_records r)) xs rs"
  by (induction rule: approval_run.induct) (auto simp: list_all_iff dest: approval_step_reply_tenant)

section \<open>The gauge of pending approvals\<close>

definition pending_ids :: "string \<Rightarrow> approvals \<Rightarrow> string set" where
  "pending_ids tenant m = {i. \<exists>r. m i = Some r \<and> decidable_by tenant r}"

text \<open>What an operation does to \<open>PENDING_APPROVALS\<close>.\<close>

fun gauge_after :: "approval_op \<Rightarrow> exn + approval_reply \<Rightarrow> (string \<Rightarrow> int) \<Rightarrow> string \<Rightarrow> int" where
  "gauge_after (CreatePending uid now request_id requester query tenant) (Inr y) g = g(tenant := g tenant + 1)"
| "gauge_after (Decide i d reviewer reason tenant now) (Inr y) g = g(tenant := g tenant - 1)"
| "gauge_after x y g = g"

lemma finite_pending_ids: "finite (dom m) \<Longrightarrow> finite (pending_ids t m)"
  by (rule finite_subset[of _ "dom m"]) (auto simp: pending_ids_def)

lemma approval_step_finite: "approval_step sha256 x m r m' \<Longrightarrow> finite (dom m) \<Longrightarrow> finite (dom m')"
  by (induction rule: approval_step.induct) auto

lemma pending_ids_created:
  "m uid = None \<Longrightarrow> r = build_pending_record sha256 uid now rid rq q t \<Longrightarrow>
     pending_ids t' (m(uid \<mapsto> r)) = (if t' = t then insert uid (pending_ids t' m) else pending_ids t' m)"
  by (auto simp: pending_ids_def decidable_by_def)

lemma pending_ids_decided:
  "m i = Some r \<Longrightarrow> decidable_by t r \<Longrightarrow>
     pending_ids t' (m(i \<mapsto> decided d rv rs now r)) = pending_ids t' m - {i}"
  by (auto simp: pending_ids_def decidable_by_def)

lemma approval_step_gauge:
  assumes "approval_step sha256 x m r m'" and "finite (dom m)"
    and "\<forall>t. g t = int (card (pending_ids t m))"
  shows "\<forall>t. gauge_after x r g t = int (card (pending_ids t m'))"
  using assms
proof (induction rule: approval_step.induct)
  case (created m uid r now request_id requester query tenant)
  have "uid \<notin> pending_ids tenant m" using created(1) by (auto simp: pending_ids_def)
  then show ?case
    unfolding pending_ids_created[where m = m, OF created(1,2)]
    using created(4) finite_pending_ids[OF created(3)] by simp
next
  case (decides m i r tenant r' d reviewer reason now)
  have i: "i \<in> pending_ids tenant m" using decides(1,2) by (auto simp: pending_ids_def)
  have o: "i \<notin> pending_ids t m" if "t \<noteq> tenant" for t
    using decides(1,2) that by (auto simp: pending_ids_def decidable_by_def)
  have "0 < card (pending_ids tenant m)"
    using i finite_pending_ids[OF decides(4)] card_gt_0_iff by blast
  then show ?case
    unfolding decides(3) pending_ids_decided[where m = m, OF decides(1,2)]
    using decides(5) i o finite_pending_ids[OF decides(4)] by (auto simp: card_Diff_singleton_if)
qed simp_all

section \<open>Stores\<close>

fun store_run ::
  "(approval_op \<Rightarrow> 's \<Rightarrow> (exn + approval_reply) \<times> 's) \<Rightarrow> approval_op list \<Rightarrow> 's
    \<Rightarrow> (exn + approval_reply) list \<times> 's" where
  "store_run step [] s = ([], s)"
| "store_run step (x # xs) s =
     (let (r, s1) = step x s; (rs, s2) = store_run step xs s1 in (r # rs, s2))"

text \<open>A store implements the contract on the operations it can take: its state stands for a map of
  approvals, and every operation is a step of the machine.\<close>

locale approval_store =
  fixes sha256 :: "string \<Rightarrow> string"
    and step :: "approval_op \<Rightarrow> 's \<Rightarrow> (exn + approval_reply) \<times> 's"
    and inv_store :: "'s \<Rightarrow> bool"
    and usable :: "approval_op \<Rightarrow> bool"
    and content :: "'s \<Rightarrow> approvals"
    and gauge :: "'s \<Rightarrow> string \<Rightarrow> int"
  assumes keeps_inv: "inv_store s \<Longrightarrow> usable x \<Longrightarrow> inv_store (snd (step x s))"
    and refines: "inv_store s \<Longrightarrow> usable x \<Longrightarrow>
      approval_step sha256 x (content s) (fst (step x s)) (content (snd (step x s)))"
    and counts: "inv_store s \<Longrightarrow> usable x \<Longrightarrow>
      gauge (snd (step x s)) = gauge_after x (fst (step x s)) (gauge s)"
begin

lemma run_refines:
  assumes "inv_store s" and "list_all usable xs"
  shows "inv_store (snd (store_run step xs s)) \<and>
    approval_run sha256 xs (content s) (fst (store_run step xs s)) (content (snd (store_run step xs s)))"
  using assms
proof (induction xs arbitrary: s)
  case Nil
  then show ?case by (simp add: approval_run.finished)
next
  case (Cons x xs)
  obtain r s1 where x: "step x s = (r, s1)" by fastforce
  obtain rs s2 where xs: "store_run step xs s1 = (rs, s2)" by fastforce
  have u: "usable x" using Cons.prems(2) by simp
  have "inv_store s1" using keeps_inv[OF Cons.prems(1) u] x by simp
  moreover have "approval_step sha256 x (content s) r (content s1)"
    using refines[OF Cons.prems(1) u] x by simp
  ultimately show ?case
    using Cons.IH[of s1] Cons.prems(2) x xs by (auto intro: approval_run.more)
qed

lemma gauge_exact:
  assumes "inv_store s" and "list_all usable xs" and "finite (dom (content s))"
    and "\<forall>t. gauge s t = int (card (pending_ids t (content s)))"
  shows "\<forall>t. gauge (snd (store_run step xs s)) t =
    int (card (pending_ids t (content (snd (store_run step xs s)))))"
  using assms
proof (induction xs arbitrary: s)
  case (Cons x xs)
  obtain r s1 where x: "step x s = (r, s1)" by fastforce
  obtain rs s2 where xs: "store_run step xs s1 = (rs, s2)" by fastforce
  have u: "usable x" "list_all usable xs" using Cons.prems(2) by simp_all
  have i: "inv_store s1" using keeps_inv[OF Cons.prems(1) u(1)] x by simp
  have st: "approval_step sha256 x (content s) r (content s1)"
    using refines[OF Cons.prems(1) u(1)] x by simp
  have "gauge s1 = gauge_after x r (gauge s)" using counts[OF Cons.prems(1) u(1)] x by simp
  then have "\<forall>t. gauge s1 t = int (card (pending_ids t (content s1)))"
    using approval_step_gauge[OF st Cons.prems(3,4)] by simp
  from Cons.IH[OF i u(2) approval_step_finite[OF st Cons.prems(3)] this] show ?case
    using x xs by simp
qed simp

end

section \<open>Tables of records\<close>

text \<open>The relational stores keep their records in a table with the approval id as primary key.\<close>

definition table_content :: "approval_record list \<Rightarrow> approvals" where
  "table_content rs = map_of (map (\<lambda>r. (ar_approval_id r, r)) rs)"

definition keyed :: "approval_record list \<Rightarrow> bool" where
  "keyed rs \<longleftrightarrow> distinct (map ar_approval_id rs)"

lemma table_content_Nil [simp]: "table_content [] = Map.empty"
  by (simp add: table_content_def)

lemma table_content_None: "table_content rs i = None \<longleftrightarrow> i \<notin> ar_approval_id ` set rs"
  by (auto simp: table_content_def map_of_eq_None_iff image_iff)

lemma table_content_Some:
  "keyed rs \<Longrightarrow> table_content rs i = Some r \<longleftrightarrow> r \<in> set rs \<and> ar_approval_id r = i"
  by (auto simp: table_content_def keyed_def comp_def map_of_eq_Some_iff)

lemma finite_table_content: "finite (dom (table_content rs))"
  by (simp add: table_content_def finite_dom_map_of)

lemma table_content_snoc:
  "ar_approval_id r \<notin> ar_approval_id ` set rs \<Longrightarrow>
     table_content (rs @ [r]) = (table_content rs)(ar_approval_id r \<mapsto> r)"
proof -
  assume "ar_approval_id r \<notin> ar_approval_id ` set rs"
  then have "table_content rs (ar_approval_id r) = None" by (simp add: table_content_None)
  then show ?thesis
    by (intro ext) (auto simp: table_content_def map_add_def split: option.splits)
qed

lemma keyed_snoc: "keyed (rs @ [r]) \<longleftrightarrow> keyed rs \<and> ar_approval_id r \<notin> ar_approval_id ` set rs"
  by (auto simp: keyed_def)

text \<open>An update of the rows that match the key and a condition, which keeps the key.\<close>

definition update_where ::
  "(approval_record \<Rightarrow> bool) \<Rightarrow> (approval_record \<Rightarrow> approval_record) \<Rightarrow> approval_record list \<Rightarrow> approval_record list" where
  "update_where P f rs = map (\<lambda>r. if P r then f r else r) rs"

lemma update_where_keyed [simp]:
  "(\<And>r. ar_approval_id (f r) = ar_approval_id r) \<Longrightarrow> keyed (update_where P f rs) = keyed rs"
proof -
  assume f: "\<And>r. ar_approval_id (f r) = ar_approval_id r"
  have "map ar_approval_id (update_where P f rs) = map ar_approval_id rs"
    using f by (simp add: update_where_def)
  then show ?thesis by (simp add: keyed_def)
qed

lemma update_where_none: "filter P rs = [] \<Longrightarrow> update_where P f rs = rs"
  by (induction rs) (auto simp: update_where_def split: if_splits)

lemma filter_keyed:
  "keyed rs \<Longrightarrow> filter (\<lambda>r. ar_approval_id r = i \<and> P r) rs =
     (case table_content rs i of None \<Rightarrow> [] | Some r \<Rightarrow> if P r then [r] else [])"
proof (induction rs)
  case (Cons r rs)
  show ?case
  proof (cases "ar_approval_id r = i")
    case True
    then have "i \<notin> ar_approval_id ` set rs" using Cons.prems by (simp add: keyed_def)
    then have "filter (\<lambda>r. ar_approval_id r = i \<and> P r) rs = []"
      by (auto simp: filter_empty_conv)
    with True show ?thesis by (simp add: table_content_def)
  next
    case False
    with Cons show ?thesis by (simp add: table_content_def keyed_def)
  qed
qed simp

lemma option_Some_eqI: "(\<And>x. a = Some x \<longleftrightarrow> b = Some x) \<Longrightarrow> a = b"
  by (cases a; cases b) auto

lemma table_content_update:
  assumes "keyed rs" and "table_content rs i = Some r" and "P r"
    and f: "\<And>r. ar_approval_id (f r) = ar_approval_id r"
  shows "table_content (update_where (\<lambda>r. ar_approval_id r = i \<and> P r) f rs) = (table_content rs)(i \<mapsto> f r)"
proof (rule ext)
  fix j
  let ?u = "update_where (\<lambda>r. ar_approval_id r = i \<and> P r) f rs"
  have k: "keyed ?u" using assms(1) f by simp
  have mem: "x \<in> set ?u \<longleftrightarrow> (\<exists>y\<in>set rs. x = (if ar_approval_id y = i \<and> P y then f y else y))" for x
    unfolding update_where_def set_map image_iff ..
  have only: "y = r" if "y \<in> set rs" "ar_approval_id y = i" for y
    using that assms(1,2) by (metis option.inject table_content_Some)
  have r: "r \<in> set rs" "ar_approval_id r = i" using assms(1,2) by (auto simp: table_content_Some)
  have eq: "table_content ?u j = Some x \<longleftrightarrow> ((table_content rs)(i \<mapsto> f r)) j = Some x" for x
  proof (cases "j = i")
    case True
    have "x \<in> set ?u \<and> ar_approval_id x = i \<longleftrightarrow> x = f r"
      unfolding mem using only r f assms(3) by metis
    with True show ?thesis by (auto simp: table_content_Some[OF k])
  next
    case False
    have "x \<in> set ?u \<and> ar_approval_id x = j \<longleftrightarrow> x \<in> set rs \<and> ar_approval_id x = j"
      unfolding mem using f False by metis
    with False show ?thesis by (simp add: table_content_Some[OF k] table_content_Some[OF assms(1)])
  qed
  show "table_content ?u j = ((table_content rs)(i \<mapsto> f r)) j"
    by (rule option_Some_eqI) (rule eq)
qed

lemma find_filter: "List.find P xs = (case filter P xs of [] \<Rightarrow> None | x # _ \<Rightarrow> Some x)"
  by (induction xs) auto

lemma find_visible:
  "keyed rs \<Longrightarrow> List.find (\<lambda>r. ar_approval_id r = i \<and> ar_tenant r = t) rs = visible_to t (table_content rs) i"
  by (simp add: find_filter visible_to_def filter_keyed split: option.splits if_splits)

lemma table_listing:
  assumes "keyed rs"
  shows "pending_listing t (table_content rs) (sort_key ar_created_at (filter (decidable_by t) rs))"
proof -
  have "distinct (map ar_approval_id (filter (decidable_by t) rs))"
    using assms by (simp add: keyed_def distinct_map_filter)
  then have "distinct (map ar_approval_id (sort_key ar_created_at (filter (decidable_by t) rs)))"
    by (simp add: distinct_map)
  then show ?thesis
    using assms by (auto simp: pending_listing_def table_content_Some)
qed

end
