(* ===== verification/PostgresStore.thy ===== *)
theory PostgresStore
  imports Approvals
begin

text \<open>
  The PostgreSQL backend (state/postgres.py): a pool of connections, each with the two places a
  setting can live, and a table under row-level security.  \<open>canon\<close> is the server's reading of a
  \<open>UUID\<close>, a parameter; the server and the network do not fail, and the texts hold no NUL.

  The pool is the queue of the idle connections.  A transaction takes the first one and puts it back
  at the end, and \<open>self._lock\<close> admits one transaction at a time, so an operation is one step.
\<close>

section \<open>Connections\<close>

record pg_connection =
  pc_session :: "string option"
  pc_local :: "string option"

record pg_store =
  pg_rows :: "approval_record list"
  pg_pool :: "pg_connection list"
  pg_gauge :: "string \<Rightarrow> int"

text \<open>\<open>current_setting('app.tenant_id', true)\<close>, and the policy \<open>tenant_isolation\<close>, which both
  \<open>USING\<close> and \<open>WITH CHECK\<close> state.  A server answers the empty text rather than \<open>NULL\<close> once a local setting
  has been reset; either way no record matches, since the name of a tenant is not empty.\<close>

definition current_setting :: "pg_connection \<Rightarrow> string option" where
  "current_setting c = (case pc_local c of Some t \<Rightarrow> Some t | None \<Rightarrow> pc_session c)"

definition tenant_isolation :: "pg_connection \<Rightarrow> approval_record \<Rightarrow> bool" where
  "tenant_isolation c r \<longleftrightarrow> current_setting c = Some (ar_tenant r)"

text \<open>\<open>PostgresConnectionPool\<close>: \<open>good_url\<close> says whether the URL names a PostgreSQL server.\<close>

definition new_pool :: "bool \<Rightarrow> int \<Rightarrow> exn + pg_connection list" where
  "new_pool good_url n =
     (if n < 1 then Inl (ValueError ''Connection pool size must be at least 1'')
      else if \<not> good_url then Inl (ValueError ''connection_url must be a valid PostgreSQL URL'')
      else Inr (replicate (nat n) \<lparr>pc_session = None, pc_local = None\<rparr>))"

text \<open>The store over the rows the table holds already; creating the table and its policy changes no
  row.\<close>

definition new_postgres_store :: "bool \<Rightarrow> int \<Rightarrow> approval_record list \<Rightarrow> exn + pg_store" where
  "new_postgres_store good_url n rows =
     map_sum id (\<lambda>pool. \<lparr>pg_rows = rows, pg_pool = pool, pg_gauge = (\<lambda>_. 0)\<rparr>) (new_pool good_url n)"

text \<open>\<open>_tenant_scoped_cursor\<close> around the statements of \<open>body\<close>, all of whose errors are database
  errors: commit and rollback both reset the transaction-local setting, and rollback the rows.  A
  pool without a connection would wait for ever; no state of the store has an empty pool.\<close>

definition tenant_scoped ::
  "string \<Rightarrow> (pg_connection \<Rightarrow> approval_record list \<Rightarrow> (exn + 'a) \<times> approval_record list) \<Rightarrow> pg_store
    \<Rightarrow> (exn + 'a) \<times> pg_store" where
  "tenant_scoped tenant body st =
     (case pg_pool st of
        [] \<Rightarrow> (Inl (OtherException ''no connection''), st)
      | c # pool \<Rightarrow>
          (case body (c\<lparr>pc_local := Some tenant\<rparr>) (pg_rows st) of
             (Inl e, rows) \<Rightarrow> (Inl e, st\<lparr>pg_pool := pool @ [c\<lparr>pc_local := None\<rparr>]\<rparr>)
           | (Inr x, rows) \<Rightarrow> (Inr x, st\<lparr>pg_rows := rows, pg_pool := pool @ [c\<lparr>pc_local := None\<rparr>]\<rparr>)))"

section \<open>Statements\<close>

definition database_error :: exn where
  "database_error = OtherException ''pg8000.DatabaseError''"

text \<open>\<open>CHAR(64)\<close> pads with blanks and refuses longer texts.\<close>

definition char_64 :: "string \<Rightarrow> string option" where
  "char_64 s = (if length s \<le> 64 then Some (s @ replicate (64 - length s) CHR '' '') else None)"

definition pg_insert ::
  "(string \<Rightarrow> string option) \<Rightarrow> approval_record \<Rightarrow> pg_connection \<Rightarrow> approval_record list
    \<Rightarrow> (exn + unit) \<times> approval_record list" where
  "pg_insert canon r c rows =
     (case (canon (ar_approval_id r), char_64 (ar_query_sha256 r)) of
        (Some i, Some digest) \<Rightarrow>
          (let row = r\<lparr>ar_approval_id := i, ar_query_sha256 := digest\<rparr> in
           if i \<in> ar_approval_id ` set rows \<or> \<not> tenant_isolation c row then (Inl database_error, rows)
           else (Inr (), rows @ [row]))
      | _ \<Rightarrow> (Inl database_error, rows))"

definition pg_update ::
  "(string \<Rightarrow> string option) \<Rightarrow> string \<Rightarrow> (approval_record \<Rightarrow> approval_record) \<Rightarrow> pg_connection
    \<Rightarrow> approval_record list \<Rightarrow> (exn + approval_record option) \<times> approval_record list" where
  "pg_update canon approval_id change c rows =
     (case canon approval_id of
        None \<Rightarrow> (Inl database_error, rows)
      | Some i \<Rightarrow>
          let hit = (\<lambda>r. ar_approval_id r = i \<and> (ar_status r = Pending \<and> tenant_isolation c r)) in
          if \<not> list_all (\<lambda>r. hit r \<longrightarrow> tenant_isolation c (change r)) rows then (Inl database_error, rows)
          else (Inr (map_option change (List.find hit rows)), update_where hit change rows))"

definition pg_select_one ::
  "(string \<Rightarrow> string option) \<Rightarrow> string \<Rightarrow> pg_connection \<Rightarrow> approval_record list
    \<Rightarrow> (exn + approval_record option) \<times> approval_record list" where
  "pg_select_one canon approval_id c rows =
     (case canon approval_id of
        None \<Rightarrow> (Inl database_error, rows)
      | Some i \<Rightarrow> (Inr (List.find (\<lambda>r. ar_approval_id r = i \<and> tenant_isolation c r) rows), rows))"

definition pg_select_pending ::
  "pg_connection \<Rightarrow> approval_record list \<Rightarrow> (exn + approval_record list) \<times> approval_record list" where
  "pg_select_pending c rows =
     (Inr (sort_key ar_created_at (filter (\<lambda>r. ar_status r = Pending \<and> tenant_isolation c r) rows)), rows)"

section \<open>Operations\<close>

definition pg_create ::
  "(string \<Rightarrow> string option) \<Rightarrow> approval_record \<Rightarrow> pg_store \<Rightarrow> (exn + approval_record) \<times> pg_store" where
  "pg_create canon pending st =
     (case tenant_scoped (ar_tenant pending) (pg_insert canon pending) st of
        (Inl e, st1) \<Rightarrow> (Inl e, st1)
      | (Inr _, st1) \<Rightarrow>
          (Inr pending, st1\<lparr>pg_gauge := (pg_gauge st1)(ar_tenant pending := pg_gauge st1 (ar_tenant pending) + 1)\<rparr>))"

definition pg_decide ::
  "(string \<Rightarrow> string option) \<Rightarrow> string \<Rightarrow> decision \<Rightarrow> string \<Rightarrow> string \<Rightarrow> string \<Rightarrow> timestamp
    \<Rightarrow> pg_store \<Rightarrow> (exn + approval_record) \<times> pg_store" where
  "pg_decide canon approval_id d reviewer reason tenant now st =
     (case tenant_scoped tenant (pg_update canon approval_id (decided d reviewer reason now)) st of
        (Inl e, st1) \<Rightarrow> (Inl e, st1)
      | (Inr None, st1) \<Rightarrow> (Inl not_decidable, st1)
      | (Inr (Some r), st1) \<Rightarrow>
          (Inr r, st1\<lparr>pg_gauge := (pg_gauge st1)(tenant := pg_gauge st1 tenant - 1)\<rparr>))"

definition pg_get ::
  "(string \<Rightarrow> string option) \<Rightarrow> string \<Rightarrow> string \<Rightarrow> pg_store \<Rightarrow> (exn + approval_record option) \<times> pg_store" where
  "pg_get canon approval_id tenant st = tenant_scoped tenant (pg_select_one canon approval_id) st"

definition pg_list_pending :: "string \<Rightarrow> pg_store \<Rightarrow> (exn + approval_record list) \<times> pg_store" where
  "pg_list_pending tenant st = tenant_scoped tenant pg_select_pending st"

fun pg_step ::
  "(string \<Rightarrow> string) \<Rightarrow> (string \<Rightarrow> string option) \<Rightarrow> approval_op \<Rightarrow> pg_store
    \<Rightarrow> (exn + approval_reply) \<times> pg_store" where
  "pg_step sha256 canon (CreatePending uid now request_id requester query tenant) st =
     map_prod (map_sum id Recorded) id
       (pg_create canon (build_pending_record sha256 uid now request_id requester query tenant) st)"
| "pg_step sha256 canon (Decide i d reviewer reason tenant now) st =
     map_prod (map_sum id Recorded) id (pg_decide canon i d reviewer reason tenant now st)"
| "pg_step sha256 canon (GetRecord i tenant) st =
     map_prod (map_sum id Looked_up) id (pg_get canon i tenant st)"
| "pg_step sha256 canon (ListPending tenant) st =
     map_prod (map_sum id Listed) id (pg_list_pending tenant st)"

section \<open>The pool\<close>

text \<open>No connection in the pool carries a tenant.\<close>

definition pool_clean :: "pg_store \<Rightarrow> bool" where
  "pool_clean st \<longleftrightarrow> pg_pool st \<noteq> [] \<and> list_all (\<lambda>c. current_setting c = None) (pg_pool st)"

lemma current_setting_None [simp]:
  "current_setting c = None \<longleftrightarrow> pc_local c = None \<and> pc_session c = None"
  by (auto simp: current_setting_def split: option.splits)

lemma tenant_scoped_pool:
  assumes "tenant_scoped tenant body st = (r, st')" and "pool_clean st"
  shows "pool_clean st' \<and> length (pg_pool st') = length (pg_pool st) \<and> pg_gauge st' = pg_gauge st"
  using assms
  by (auto simp: tenant_scoped_def pool_clean_def split: list.splits prod.splits sum.splits)

lemma pg_step_pool:
  assumes "pg_step sha256 canon x st = (r, st')" and "pool_clean st"
  shows "pool_clean st' \<and> length (pg_pool st') = length (pg_pool st)"
proof (cases x)
  case (CreatePending uid now rid rq q t)
  then show ?thesis
    using assms
    by (auto simp: pg_create_def pool_clean_def dest!: tenant_scoped_pool split: prod.splits sum.splits)
next
  case (Decide i d rv rs t now)
  then show ?thesis
    using assms
    by (auto simp: pg_decide_def pool_clean_def dest!: tenant_scoped_pool
        split: prod.splits sum.splits option.splits)
next
  case (GetRecord i t)
  then show ?thesis
    using assms by (cases "pg_get canon i t st") (auto simp: pg_get_def dest!: tenant_scoped_pool)
next
  case (ListPending t)
  then show ?thesis
    using assms by (cases "pg_list_pending t st") (auto simp: pg_list_pending_def dest!: tenant_scoped_pool)
qed

section \<open>The store implements the contract\<close>

definition pg_content :: "pg_store \<Rightarrow> approvals" where
  "pg_content st = table_content (pg_rows st)"

definition pg_inv :: "pg_store \<Rightarrow> bool" where
  "pg_inv st \<longleftrightarrow> keyed (pg_rows st) \<and> pool_clean st"

text \<open>Ids in the server's own form, and digests of 64 characters.\<close>

definition pg_usable :: "(string \<Rightarrow> string) \<Rightarrow> (string \<Rightarrow> string option) \<Rightarrow> approval_op \<Rightarrow> bool" where
  "pg_usable sha256 canon x = (case x of
     CreatePending uid now rid rq q t \<Rightarrow> canon uid = Some uid \<and> length (sha256 q) = 64
   | Decide i d rv rs t now \<Rightarrow> canon i = Some i
   | GetRecord i t \<Rightarrow> canon i = Some i
   | ListPending t \<Rightarrow> True)"

lemma tenant_isolation_scoped [simp]:
  "tenant_isolation (c\<lparr>pc_local := Some t\<rparr>) r \<longleftrightarrow> ar_tenant r = t"
  by (auto simp: tenant_isolation_def current_setting_def)

lemma tenant_scoped_ok:
  assumes "pool_clean st"
  obtains c pool where "pg_pool st = c # pool"
    "\<And>body :: pg_connection \<Rightarrow> approval_record list \<Rightarrow> (exn + 'a) \<times> approval_record list.
       tenant_scoped t body st =
         (case body (c\<lparr>pc_local := Some t\<rparr>) (pg_rows st) of
            (Inl e, rows) \<Rightarrow> (Inl e, st\<lparr>pg_pool := pool @ [c\<lparr>pc_local := None\<rparr>]\<rparr>)
          | (Inr x, rows) \<Rightarrow> (Inr x, st\<lparr>pg_rows := rows, pg_pool := pool @ [c\<lparr>pc_local := None\<rparr>]\<rparr>))"
proof -
  obtain c pool where p: "pg_pool st = c # pool" using assms by (cases "pg_pool st") (auto simp: pool_clean_def)
  show thesis by (rule that[OF p]) (simp add: tenant_scoped_def p)
qed

lemma tenant_scoped_reads:
  assumes "pool_clean st" and "\<And>c. body (c\<lparr>pc_local := Some t\<rparr>) (pg_rows st) = (Inr x, pg_rows st)"
  obtains st1 where "tenant_scoped t body st = (Inr x, st1)" "pg_rows st1 = pg_rows st" "pg_gauge st1 = pg_gauge st"
  using assms by (cases "pg_pool st") (auto simp: tenant_scoped_def pool_clean_def)

lemma pg_create_content:
  assumes "pg_inv st" and "canon uid = Some uid" and "length (sha256 q) = 64"
    and r: "r = build_pending_record sha256 uid now rid rq q t" and "pg_create canon r st = (res, st')"
  shows "if pg_content st uid = None
    then res = Inr r \<and> pg_content st' = (pg_content st)(uid \<mapsto> r) \<and> keyed (pg_rows st') \<and>
      pg_gauge st' = (pg_gauge st)(t := pg_gauge st t + 1)
    else (\<exists>e. res = Inl e) \<and> pg_content st' = pg_content st \<and> keyed (pg_rows st') \<and> pg_gauge st' = pg_gauge st"
proof -
  have sel: "ar_approval_id r = uid" "ar_tenant r = t" "ar_query_sha256 r = sha256 q" by (simp_all add: r)
  have row: "r\<lparr>ar_approval_id := uid, ar_query_sha256 := sha256 q\<rparr> = r" using sel by simp
  obtain c pool where sc: "tenant_scoped t (pg_insert canon r) st =
         (case pg_insert canon r (c\<lparr>pc_local := Some t\<rparr>) (pg_rows st) of
            (Inl e, rows) \<Rightarrow> (Inl e, st\<lparr>pg_pool := pool @ [c\<lparr>pc_local := None\<rparr>]\<rparr>)
          | (Inr x, rows) \<Rightarrow> (Inr x, st\<lparr>pg_rows := rows, pg_pool := pool @ [c\<lparr>pc_local := None\<rparr>]\<rparr>))"
    using tenant_scoped_ok[where t = t and st = st] assms(1) unfolding pg_inv_def by metis
  have ins: "pg_insert canon r (c\<lparr>pc_local := Some t\<rparr>) (pg_rows st) =
      (if uid \<in> ar_approval_id ` set (pg_rows st) then (Inl database_error, pg_rows st)
       else (Inr (), pg_rows st @ [r]))"
    using assms(2,3) sel row by (simp add: pg_insert_def char_64_def Let_def)
  have "keyed (pg_rows st)" using assms(1) by (simp add: pg_inv_def)
  then show ?thesis
    using assms(5) sel table_content_snoc[of r "pg_rows st"] table_content_None[of "pg_rows st" uid]
    by (auto simp: pg_create_def sc ins pg_content_def keyed_snoc)
qed

lemma pg_decide_content:
  assumes "pg_inv st" and "canon i = Some i" and "pg_decide canon i d rv rs t now st = (res, st')"
  shows "keyed (pg_rows st') \<and>
    (case pg_content st i of
       None \<Rightarrow> res = Inl not_decidable \<and> pg_content st' = pg_content st \<and> pg_gauge st' = pg_gauge st
     | Some r \<Rightarrow>
         if decidable_by t r
         then res = Inr (decided d rv rs now r) \<and>
           pg_content st' = (pg_content st)(i \<mapsto> decided d rv rs now r) \<and>
           pg_gauge st' = (pg_gauge st)(t := pg_gauge st t - 1)
         else res = Inl not_decidable \<and> pg_content st' = pg_content st \<and> pg_gauge st' = pg_gauge st)"
proof -
  let ?f = "decided d rv rs now" and ?P = "\<lambda>r. ar_approval_id r = i \<and> decidable_by t r"
  have k: "keyed (pg_rows st)" using assms(1) by (simp add: pg_inv_def)
  obtain c pool where sc: "tenant_scoped t (pg_update canon i ?f) st =
         (case pg_update canon i ?f (c\<lparr>pc_local := Some t\<rparr>) (pg_rows st) of
            (Inl e, rows) \<Rightarrow> (Inl e, st\<lparr>pg_pool := pool @ [c\<lparr>pc_local := None\<rparr>]\<rparr>)
          | (Inr x, rows) \<Rightarrow> (Inr x, st\<lparr>pg_rows := rows, pg_pool := pool @ [c\<lparr>pc_local := None\<rparr>]\<rparr>))"
    using tenant_scoped_ok[where t = t and st = st] assms(1) unfolding pg_inv_def by metis
  have hit: "(\<lambda>r. ar_approval_id r = i \<and> (ar_status r = Pending \<and> tenant_isolation (c\<lparr>pc_local := Some t\<rparr>) r)) = ?P"
    by (auto simp: decidable_by_def)
  have upd: "pg_update canon i ?f (c\<lparr>pc_local := Some t\<rparr>) (pg_rows st) =
      (Inr (map_option ?f (List.find ?P (pg_rows st))), update_where ?P ?f (pg_rows st))"
    using assms(2) unfolding pg_update_def hit Let_def by (auto simp: decidable_by_def list_all_iff)
  have fnd: "List.find ?P (pg_rows st) =
      (case pg_content st i of None \<Rightarrow> None | Some r \<Rightarrow> if decidable_by t r then Some r else None)"
    using filter_keyed[OF k, of i "decidable_by t"]
    by (auto simp: find_filter pg_content_def split: option.splits)
  have none: "update_where ?P ?f (pg_rows st) = pg_rows st" if "List.find ?P (pg_rows st) = None"
    using that by (intro update_where_none) (auto simp: find_filter split: list.splits)
  have "keyed (update_where ?P ?f (pg_rows st))" using k by simp
  then show ?thesis
    using assms(3) fnd none table_content_update[OF k, where P = "decidable_by t" and f = ?f and i = i]
    by (auto simp: pg_decide_def sc upd pg_content_def split: option.splits if_splits)
qed

lemma pg_step_implements:
  assumes "pg_inv st" and "pg_usable sha256 canon x" and "pg_step sha256 canon x st = (r, st')"
  shows "pg_inv st' \<and> approval_step sha256 x (pg_content st) r (pg_content st') \<and>
    pg_gauge st' = gauge_after x r (pg_gauge st)"
proof -
  have pool: "pool_clean st'" using pg_step_pool[OF assms(3)] assms(1) by (simp add: pg_inv_def)
  have k: "keyed (pg_rows st)" and clean: "pool_clean st" using assms(1) by (simp_all add: pg_inv_def)
  show ?thesis
  proof (cases x)
    case (CreatePending uid now rid rq q t)
    define p where "p = build_pending_record sha256 uid now rid rq q t"
    obtain res st1 where c: "pg_create canon p st = (res, st1)" by fastforce
    have u: "canon uid = Some uid" "length (sha256 q) = 64"
      using assms(2) CreatePending by (simp_all add: pg_usable_def)
    from pg_create_content[OF assms(1) u p_def c] show ?thesis
      using assms(3) c pool unfolding CreatePending
      by (auto simp: p_def pg_inv_def intro: step_intros split: if_splits)
  next
    case (Decide i d rv rs t now)
    obtain res st1 where c: "pg_decide canon i d rv rs t now st = (res, st1)" by fastforce
    have u: "canon i = Some i" using assms(2) Decide by (simp add: pg_usable_def)
    from pg_decide_content[OF assms(1) u c] show ?thesis
      using assms(3) c pool unfolding Decide
      by (auto simp: pg_inv_def intro: step_intros split: if_splits option.splits)
  next
    case (GetRecord i t)
    have u: "canon i = Some i" using assms(2) GetRecord by (simp add: pg_usable_def)
    obtain st1 where g: "pg_get canon i t st = (Inr (visible_to t (pg_content st) i), st1)"
      "pg_rows st1 = pg_rows st" "pg_gauge st1 = pg_gauge st"
      using u find_visible[OF k, of i t]
      by (rule_tac tenant_scoped_reads[OF clean, where t = t and body = "pg_select_one canon i"])
        (auto simp: pg_get_def pg_select_one_def pg_content_def)
    then show ?thesis
      using assms(3) pool k unfolding GetRecord
      by (auto simp: pg_inv_def pg_content_def intro: step_intros)
  next
    case (ListPending t)
    obtain st1 where g: "pg_list_pending t st =
        (Inr (sort_key ar_created_at (filter (decidable_by t) (pg_rows st))), st1)"
      "pg_rows st1 = pg_rows st" "pg_gauge st1 = pg_gauge st"
      by (rule_tac tenant_scoped_reads[OF clean, where t = t and body = pg_select_pending])
        (auto simp: pg_list_pending_def pg_select_pending_def decidable_by_def[abs_def])
    then show ?thesis
      using assms(3) pool k table_listing[OF k, of t] unfolding ListPending
      by (auto simp: pg_inv_def pg_content_def intro: step_intros)
  qed
qed

interpretation postgres: approval_store sha256 "pg_step sha256 canon" pg_inv "pg_usable sha256 canon"
  pg_content pg_gauge for sha256 canon
proof (unfold_locales, goal_cases)
  case (1 s x)
  then show ?case using pg_step_implements[of s sha256 canon x] by (metis prod.collapse)
next
  case (2 s x)
  then show ?case using pg_step_implements[of s sha256 canon x] by (metis prod.collapse)
next
  case (3 s x)
  then show ?case using pg_step_implements[of s sha256 canon x] by (metis prod.collapse)
qed

end
