(* ===== verification/SqliteStore.thy ===== *)
theory SqliteStore
  imports Approvals
begin

text \<open>
  The SQLite backend (\<open>SQLiteApprovalStore\<close> of state/store.py).  A row holds texts: the status literal
  and the ISO text of the instants, which SQLite also orders by.  \<open>parse_time\<close> is pydantic's reading of
  an ISO text, a parameter.  Each operation holds the lock while it touches the connection, so it is
  one step; the order of rows of the same instant is that of insertion.
\<close>

section \<open>Rows\<close>

record sqlite_row =
  sq_approval_id :: string
  sq_request_id :: string
  sq_requester :: string
  sq_tenant :: string
  sq_query_sha256 :: string
  sq_status :: string
  sq_reviewer :: "string option"
  sq_reason :: "string option"
  sq_created_at :: string
  sq_decided_at :: "string option"

record sqlite_store =
  sq_rows :: "sqlite_row list"
  sq_gauge :: "string \<Rightarrow> int"

fun status_text :: "approval_status \<Rightarrow> string" where
  "status_text Pending = ''pending''"
| "status_text Approved = ''approved''"
| "status_text Rejected = ''rejected''"

definition status_of :: "string \<Rightarrow> approval_status option" where
  "status_of s = map_of (map (\<lambda>x. (status_text x, x)) [Pending, Approved, Rejected]) s"

lemma status_of_text [simp]: "status_of (status_text x) = Some x"
  by (cases x) (simp_all add: status_of_def)

lemma status_text_pending [simp]: "status_text x = ''pending'' \<longleftrightarrow> x = Pending"
  by (cases x) simp_all

text \<open>\<open>ApprovalRecord.model_validate(dict(row))\<close>.\<close>

fun parse_opt :: "(string \<Rightarrow> timestamp option) \<Rightarrow> string option \<Rightarrow> timestamp option option" where
  "parse_opt parse_time None = Some None"
| "parse_opt parse_time (Some s) = map_option Some (parse_time s)"

definition sqlite_record :: "(string \<Rightarrow> timestamp option) \<Rightarrow> sqlite_row \<Rightarrow> exn + approval_record" where
  "sqlite_record parse_time row =
     (case (status_of (sq_status row), parse_time (sq_created_at row), parse_opt parse_time (sq_decided_at row)) of
        (Some st, Some created, Some dec) \<Rightarrow>
          Inr \<lparr>ar_approval_id = sq_approval_id row, ar_request_id = sq_request_id row,
            ar_requester = sq_requester row, ar_tenant = sq_tenant row,
            ar_query_sha256 = sq_query_sha256 row, ar_status = st, ar_reviewer = sq_reviewer row,
            ar_reason = sq_reason row, ar_created_at = created, ar_decided_at = dec\<rparr>
      | _ \<Rightarrow> Inl ValidationError)"

section \<open>Operations\<close>

definition new_sqlite_store :: "sqlite_row list \<Rightarrow> sqlite_store" where
  "new_sqlite_store rows = \<lparr>sq_rows = rows, sq_gauge = (\<lambda>_. 0)\<rparr>"

definition sqlite_get ::
  "(string \<Rightarrow> timestamp option) \<Rightarrow> string \<Rightarrow> string \<Rightarrow> sqlite_store \<Rightarrow> exn + approval_record option" where
  "sqlite_get parse_time approval_id tenant st =
     (case List.find (\<lambda>row. sq_approval_id row = approval_id \<and> sq_tenant row = tenant) (sq_rows st) of
        None \<Rightarrow> Inr None
      | Some row \<Rightarrow> map_sum id Some (sqlite_record parse_time row))"

definition pending_row :: "approval_record \<Rightarrow> sqlite_row" where
  "pending_row r =
     \<lparr>sq_approval_id = ar_approval_id r, sq_request_id = ar_request_id r, sq_requester = ar_requester r,
      sq_tenant = ar_tenant r, sq_query_sha256 = ar_query_sha256 r, sq_status = ''pending'',
      sq_reviewer = None, sq_reason = None, sq_created_at = isoformat (ar_created_at r),
      sq_decided_at = None\<rparr>"

definition sqlite_create ::
  "(string \<Rightarrow> timestamp option) \<Rightarrow> approval_record \<Rightarrow> sqlite_store \<Rightarrow> (exn + approval_record) \<times> sqlite_store" where
  "sqlite_create parse_time pending st =
     (if ar_approval_id pending \<in> set (map sq_approval_id (sq_rows st))
      then (Inl (OtherException ''sqlite3.IntegrityError''), st)
      else let st1 = st\<lparr>sq_rows := sq_rows st @ [pending_row pending]\<rparr> in
        (case sqlite_get parse_time (ar_approval_id pending) (ar_tenant pending) st1 of
           Inl e \<Rightarrow> (Inl e, st1)
         | Inr None \<Rightarrow> (Inl (RuntimeError ''Approval record was not persisted''), st1)
         | Inr (Some r) \<Rightarrow>
             (Inr r, st1\<lparr>sq_gauge := (sq_gauge st1)(ar_tenant r := sq_gauge st1 (ar_tenant r) + 1)\<rparr>)))"

definition matches :: "string \<Rightarrow> string \<Rightarrow> sqlite_row \<Rightarrow> bool" where
  "matches approval_id tenant row \<longleftrightarrow>
     sq_approval_id row = approval_id \<and> sq_status row = ''pending'' \<and> sq_tenant row = tenant"

definition decided_row :: "decision \<Rightarrow> string \<Rightarrow> string \<Rightarrow> timestamp \<Rightarrow> sqlite_row \<Rightarrow> sqlite_row" where
  "decided_row d reviewer reason now row =
     row\<lparr>sq_status := status_text (decided_status d), sq_reviewer := Some reviewer,
         sq_reason := Some reason, sq_decided_at := Some (isoformat now)\<rparr>"

definition sqlite_decide ::
  "(string \<Rightarrow> timestamp option) \<Rightarrow> string \<Rightarrow> decision \<Rightarrow> string \<Rightarrow> string \<Rightarrow> string \<Rightarrow> timestamp
    \<Rightarrow> sqlite_store \<Rightarrow> (exn + approval_record) \<times> sqlite_store" where
  "sqlite_decide parse_time approval_id d reviewer reason tenant now st =
     (let rowcount = length (filter (matches approval_id tenant) (sq_rows st));
          st1 = st\<lparr>sq_rows := map (\<lambda>row. if matches approval_id tenant row
            then decided_row d reviewer reason now row else row) (sq_rows st)\<rparr> in
      if rowcount \<noteq> 1 then (Inl not_decidable, st1)
      else (case sqlite_get parse_time approval_id tenant st1 of
          Inl e \<Rightarrow> (Inl e, st1)
        | Inr None \<Rightarrow> (Inl (RuntimeError ''Approval decision was not persisted''), st1)
        | Inr (Some r) \<Rightarrow>
            (Inr r, st1\<lparr>sq_gauge := (sq_gauge st1)(ar_tenant r := sq_gauge st1 (ar_tenant r) - 1)\<rparr>)))"

definition sqlite_list_pending ::
  "(string \<Rightarrow> timestamp option) \<Rightarrow> string \<Rightarrow> sqlite_store \<Rightarrow> exn + approval_record list" where
  "sqlite_list_pending parse_time tenant st =
     map_outcome (sqlite_record parse_time)
       (sort_key sq_created_at (filter (\<lambda>row. sq_tenant row = tenant \<and> sq_status row = ''pending'') (sq_rows st)))"

fun sqlite_step ::
  "(string \<Rightarrow> string) \<Rightarrow> (string \<Rightarrow> timestamp option) \<Rightarrow> approval_op \<Rightarrow> sqlite_store
    \<Rightarrow> (exn + approval_reply) \<times> sqlite_store" where
  "sqlite_step sha256 parse_time (CreatePending uid now request_id requester query tenant) st =
     (let (r, st1) = sqlite_create parse_time
        (build_pending_record sha256 uid now request_id requester query tenant) st
      in (map_sum id Recorded r, st1))"
| "sqlite_step sha256 parse_time (Decide i d reviewer reason tenant now) st =
     (let (r, st1) = sqlite_decide parse_time i d reviewer reason tenant now st
      in (map_sum id Recorded r, st1))"
| "sqlite_step sha256 parse_time (GetRecord i tenant) st =
     (map_sum id Looked_up (sqlite_get parse_time i tenant st), st)"
| "sqlite_step sha256 parse_time (ListPending tenant) st =
     (map_sum id Listed (sqlite_list_pending parse_time tenant st), st)"

section \<open>The rows are the text of records\<close>

definition row_of :: "approval_record \<Rightarrow> sqlite_row" where
  "row_of r =
     \<lparr>sq_approval_id = ar_approval_id r, sq_request_id = ar_request_id r, sq_requester = ar_requester r,
      sq_tenant = ar_tenant r, sq_query_sha256 = ar_query_sha256 r, sq_status = status_text (ar_status r),
      sq_reviewer = ar_reviewer r, sq_reason = ar_reason r, sq_created_at = isoformat (ar_created_at r),
      sq_decided_at = map_option isoformat (ar_decided_at r)\<rparr>"

definition timed :: "approval_record \<Rightarrow> bool" where
  "timed r \<longleftrightarrow> ts_valid (ar_created_at r) \<and> pred_option ts_valid (ar_decided_at r)"

definition reads_iso :: "(string \<Rightarrow> timestamp option) \<Rightarrow> bool" where
  "reads_iso parse_time \<longleftrightarrow> (\<forall>t. ts_valid t \<longrightarrow> parse_time (isoformat t) = Some t)"

lemma row_of_sel [simp]:
  "sq_approval_id (row_of r) = ar_approval_id r" "sq_tenant (row_of r) = ar_tenant r"
  "sq_status (row_of r) = status_text (ar_status r)" "sq_created_at (row_of r) = isoformat (ar_created_at r)"
  by (simp_all add: row_of_def)

lemma sqlite_record_row_of [simp]:
  "reads_iso parse_time \<Longrightarrow> timed r \<Longrightarrow> sqlite_record parse_time (row_of r) = Inr r"
  by (cases "ar_decided_at r") (simp_all add: sqlite_record_def row_of_def reads_iso_def timed_def)

lemma pending_row_of: "pending_row (build_pending_record sha256 uid now rid rq q t) =
    row_of (build_pending_record sha256 uid now rid rq q t)"
  by (simp add: pending_row_def row_of_def build_pending_record_def)

lemma decided_row_of: "decided_row d rv rs now (row_of r) = row_of (decided d rv rs now r)"
  by (simp add: decided_row_def row_of_def decided_def)

lemma matches_row_of [simp]:
  "matches i t (row_of r) \<longleftrightarrow> ar_approval_id r = i \<and> decidable_by t r"
  by (auto simp: matches_def decidable_by_def)

text \<open>The store holds the table of records \<open>rs\<close>.\<close>

definition sqlite_table :: "(string \<Rightarrow> timestamp option) \<Rightarrow> sqlite_store \<Rightarrow> approval_record list" where
  "sqlite_table parse_time st = map (\<lambda>row. projr (sqlite_record parse_time row)) (sq_rows st)"

definition sqlite_inv :: "(string \<Rightarrow> timestamp option) \<Rightarrow> sqlite_store \<Rightarrow> bool" where
  "sqlite_inv parse_time st \<longleftrightarrow> sq_rows st = map row_of (sqlite_table parse_time st) \<and>
     list_all timed (sqlite_table parse_time st) \<and> keyed (sqlite_table parse_time st)"

definition op_times_valid :: "approval_op \<Rightarrow> bool" where
  "op_times_valid x = (case x of
     CreatePending uid now rid rq q t \<Rightarrow> ts_valid now
   | Decide i d rv rs t now \<Rightarrow> ts_valid now
   | _ \<Rightarrow> True)"

lemma sqlite_invI:
  assumes "reads_iso parse_time" and "sq_rows st = map row_of rs" and "list_all timed rs" and "keyed rs"
  shows "sqlite_inv parse_time st" and "sqlite_table parse_time st = rs"
proof -
  show t: "sqlite_table parse_time st = rs"
    using assms(1-3) by (auto simp: sqlite_table_def list_all_iff intro!: map_idI)
  show "sqlite_inv parse_time st" unfolding sqlite_inv_def t using assms by simp
qed

lemma find_map: "List.find P (map f xs) = map_option f (List.find (\<lambda>x. P (f x)) xs)"
  by (induction xs) auto

lemma sqlite_get_table:
  assumes "reads_iso parse_time" and "sq_rows st = map row_of rs" and "list_all timed rs" and "keyed rs"
  shows "sqlite_get parse_time i t st = Inr (visible_to t (table_content rs) i)"
proof -
  have "List.find (\<lambda>row. sq_approval_id row = i \<and> sq_tenant row = t) (sq_rows st) =
      map_option row_of (visible_to t (table_content rs) i)"
    using find_visible[OF assms(4)] by (simp add: assms(2) find_map)
  moreover have "timed r" if "visible_to t (table_content rs) i = Some r" for r
    using that assms(3,4)
    by (auto simp: visible_to_def table_content_Some list_all_iff split: option.splits if_splits)
  ultimately show ?thesis
    using assms(1) by (auto simp: sqlite_get_def split: option.splits)
qed

lemma sort_key_iso:
  "list_all timed rs \<Longrightarrow> sort_key sq_created_at (map row_of rs) = map row_of (sort_key ar_created_at rs)"
proof (induction rs)
  case (Cons r rs)
  have ins: "insort_key sq_created_at (row_of r) (map row_of xs) = map row_of (insort_key ar_created_at r xs)"
    if "list_all timed xs" for xs
    using that
  proof (induction xs)
    case (Cons x xs)
    have "isoformat (ar_created_at r) \<le> isoformat (ar_created_at x) \<longleftrightarrow> ar_created_at r \<le> ar_created_at x"
      using isoformat_less[of "ar_created_at x" "ar_created_at r"] Cons.prems \<open>list_all timed (r # rs)\<close>
      by (simp add: timed_def not_less [symmetric])
    with Cons show ?case by simp
  qed simp
  have "list_all timed (sort_key ar_created_at rs)" using Cons.prems by (simp add: list_all_iff)
  with Cons ins show ?case by simp
qed simp

section \<open>The store implements the contract\<close>

definition sqlite_content :: "(string \<Rightarrow> timestamp option) \<Rightarrow> sqlite_store \<Rightarrow> approvals" where
  "sqlite_content parse_time st = table_content (sqlite_table parse_time st)"

lemma sqlite_create_table:
  assumes "reads_iso parse_time" and "sqlite_inv parse_time st" and "ts_valid now"
    and r: "r = build_pending_record sha256 uid now rid rq q t"
    and "sqlite_create parse_time r st = (res, st')"
  shows "sqlite_inv parse_time st'"
    and "if sqlite_content parse_time st uid = None
      then res = Inr r \<and> sqlite_content parse_time st' = (sqlite_content parse_time st)(uid \<mapsto> r) \<and>
        sq_gauge st' = (sq_gauge st)(t := sq_gauge st t + 1)
      else (\<exists>e. res = Inl e) \<and> st' = st"
proof -
  let ?rs = "sqlite_table parse_time st"
  have inv: "sq_rows st = map row_of ?rs" "list_all timed ?rs" "keyed ?rs"
    using assms(2) by (simp_all add: sqlite_inv_def)
  have ids: "ar_approval_id r \<in> set (map sq_approval_id (sq_rows st)) \<longleftrightarrow> table_content ?rs uid \<noteq> None"
    by (subst inv(1)) (auto simp: table_content_None r comp_def)
  have timed: "timed r" using assms(3) r by (simp add: timed_def)
  have sel: "ar_approval_id r = uid" "ar_tenant r = t" by (simp_all add: r)
  show "sqlite_inv parse_time st'" and "if sqlite_content parse_time st uid = None
      then res = Inr r \<and> sqlite_content parse_time st' = (sqlite_content parse_time st)(uid \<mapsto> r) \<and>
        sq_gauge st' = (sq_gauge st)(t := sq_gauge st t + 1)
      else (\<exists>e. res = Inl e) \<and> st' = st"
  proof (atomize (full), cases "table_content ?rs uid")
    case None
    let ?st = "st\<lparr>sq_rows := sq_rows st @ [pending_row r]\<rparr>"
    have fresh: "ar_approval_id r \<notin> ar_approval_id ` set ?rs" using None by (simp add: table_content_None r)
    have rows: "sq_rows ?st = map row_of (?rs @ [r])"
      using inv(1) by (simp add: pending_row_of r)
    have rs': "list_all timed (?rs @ [r])" "keyed (?rs @ [r])"
      using inv fresh timed by (simp_all add: keyed_snoc)
    have c: "table_content (?rs @ [r]) = (table_content ?rs)(uid \<mapsto> r)"
      using table_content_snoc[OF fresh] r by simp
    have "sqlite_get parse_time (ar_approval_id r) (ar_tenant r) ?st = Inr (Some r)"
      using sqlite_get_table[OF assms(1) rows rs', of uid t] sel by (simp add: c visible_to_def)
    with assms(5) ids None have res: "res = Inr r" "sq_rows st' = map row_of (?rs @ [r])"
      "sq_gauge st' = (sq_gauge st)(t := sq_gauge st t + 1)"
      using rows by (auto simp: sqlite_create_def Let_def r)
    from sqlite_invI[OF assms(1) res(2) rs'] res c None
    show "sqlite_inv parse_time st' \<and> (if sqlite_content parse_time st uid = None
      then res = Inr r \<and> sqlite_content parse_time st' = (sqlite_content parse_time st)(uid \<mapsto> r) \<and>
        sq_gauge st' = (sq_gauge st)(t := sq_gauge st t + 1)
      else (\<exists>e. res = Inl e) \<and> st' = st)"
      by (simp add: sqlite_content_def)
  next
    case (Some x)
    with assms(2,5) ids show "sqlite_inv parse_time st' \<and> (if sqlite_content parse_time st uid = None
      then res = Inr r \<and> sqlite_content parse_time st' = (sqlite_content parse_time st)(uid \<mapsto> r) \<and>
        sq_gauge st' = (sq_gauge st)(t := sq_gauge st t + 1)
      else (\<exists>e. res = Inl e) \<and> st' = st)"
      by (auto simp: sqlite_create_def sqlite_content_def)
  qed
qed

lemma sqlite_decide_table:
  assumes "reads_iso parse_time" and "sqlite_inv parse_time st" and "ts_valid now"
    and "sqlite_decide parse_time i d rv rs t now st = (res, st')"
  shows "sqlite_inv parse_time st' \<and>
    (case sqlite_content parse_time st i of
       None \<Rightarrow> res = Inl not_decidable \<and> st' = st
     | Some r \<Rightarrow>
         if decidable_by t r
         then res = Inr (decided d rv rs now r) \<and>
           sqlite_content parse_time st' = (sqlite_content parse_time st)(i \<mapsto> decided d rv rs now r) \<and>
           sq_gauge st' = (sq_gauge st)(t := sq_gauge st t - 1)
         else res = Inl not_decidable \<and> st' = st)"
proof -
  let ?rs = "sqlite_table parse_time st" and ?P = "\<lambda>r. ar_approval_id r = i \<and> decidable_by t r"
  let ?us = "update_where ?P (decided d rv rs now) ?rs"
  let ?st = "st\<lparr>sq_rows := map (\<lambda>row. if matches i t row then decided_row d rv rs now row else row) (sq_rows st)\<rparr>"
  have inv: "sq_rows st = map row_of ?rs" "list_all timed ?rs" "keyed ?rs"
    using assms(2) by (simp_all add: sqlite_inv_def)
  have rows: "sq_rows ?st = map row_of ?us"
    by (simp, subst inv(1)) (simp add: update_where_def decided_row_of)
  have "filter (matches i t) (sq_rows st) = map row_of (filter ?P ?rs)"
    by (subst inv(1)) (simp add: filter_map comp_def)
  then have count: "length (filter (matches i t) (sq_rows st)) = length (filter ?P ?rs)" by simp
  note hit = filter_keyed[OF inv(3), of i "decidable_by t"]
  have us: "list_all timed ?us" "keyed ?us"
    using inv(2,3) assms(3) by (auto simp: update_where_def list_all_iff timed_def) (simp add: update_where_keyed[unfolded update_where_def])
  show ?thesis
  proof (cases "\<exists>r. table_content ?rs i = Some r \<and> decidable_by t r")
    case True
    then obtain r where r: "table_content ?rs i = Some r" "decidable_by t r" by blast
    have c: "table_content ?us = (table_content ?rs)(i \<mapsto> decided d rv rs now r)"
      using table_content_update[OF inv(3) r(1), where P = "decidable_by t" and f = "decided d rv rs now"] r(2)
      by simp
    have tn: "ar_tenant (decided d rv rs now r) = t" using r(2) by (simp add: decidable_by_def)
    have "sqlite_get parse_time i t ?st = Inr (Some (decided d rv rs now r))"
      using sqlite_get_table[OF assms(1) rows us] tn by (simp add: c visible_to_def)
    with assms(4) count hit r have res: "res = Inr (decided d rv rs now r)" "sq_rows st' = map row_of ?us"
      "sq_gauge st' = (sq_gauge st)(t := sq_gauge st t - 1)"
      using rows tn by (auto simp: sqlite_decide_def Let_def)
    from sqlite_invI[OF assms(1) res(2) us] res r c show ?thesis by (simp add: sqlite_content_def)
  next
    case False
    then have none: "filter ?P ?rs = []" using hit by (auto split: option.splits)
    then have "map (\<lambda>row. if matches i t row then decided_row d rv rs now row else row) (sq_rows st) = sq_rows st"
      using update_where_none[of ?P ?rs "decided d rv rs now"] rows inv(1) by simp
    with assms(2,4) count none False show ?thesis
      by (auto simp: sqlite_decide_def Let_def sqlite_content_def split: option.splits)
  qed
qed

lemma sqlite_list_table:
  assumes "reads_iso parse_time" and "sqlite_inv parse_time st"
  shows "\<exists>xs. sqlite_list_pending parse_time t st = Inr xs \<and> pending_listing t (sqlite_content parse_time st) xs"
proof -
  let ?rs = "sqlite_table parse_time st"
  let ?xs = "sort_key ar_created_at (filter (decidable_by t) ?rs)"
  have inv: "sq_rows st = map row_of ?rs" "list_all timed ?rs" "keyed ?rs"
    using assms(2) by (simp_all add: sqlite_inv_def)
  have timed: "list_all timed (filter (decidable_by t) ?rs)" "list_all timed ?xs"
    using inv(2) by (auto simp: list_all_iff)
  have "filter (\<lambda>row. sq_tenant row = t \<and> sq_status row = ''pending'') (sq_rows st) =
      map row_of (filter (decidable_by t) ?rs)"
    by (subst inv(1)) (simp add: filter_map comp_def decidable_by_def[abs_def] conj_commute)
  then have "sqlite_list_pending parse_time t st = map_outcome (sqlite_record parse_time) (map row_of ?xs)"
    using sort_key_iso[OF timed(1)] by (simp add: sqlite_list_pending_def)
  also have "\<dots> = Inr ?xs"
    using timed(2) assms(1) by (simp add: map_outcome_Inr list_all_iff)
  finally show ?thesis
    using table_listing[OF inv(3)] by (auto simp: sqlite_content_def)
qed

lemma sqlite_step_implements:
  assumes "reads_iso parse_time" and "sqlite_inv parse_time st" and "op_times_valid x"
    and "sqlite_step sha256 parse_time x st = (r, st')"
  shows "sqlite_inv parse_time st' \<and>
    approval_step sha256 x (sqlite_content parse_time st) r (sqlite_content parse_time st') \<and>
    sq_gauge st' = gauge_after x r (sq_gauge st)"
proof (cases x)
  case (CreatePending uid now rid rq q t)
  define p where "p = build_pending_record sha256 uid now rid rq q t"
  obtain res st1 where c: "sqlite_create parse_time p st = (res, st1)" by fastforce
  have now: "ts_valid now" using assms(3) CreatePending by (simp add: op_times_valid_def)
  have r: "r = map_sum id Recorded res" "st' = st1"
    using assms(4) c by (simp_all add: CreatePending p_def)
  note t = sqlite_create_table[OF assms(1,2) now p_def c]
  show ?thesis
    using t r unfolding CreatePending
    by (auto simp: p_def intro: step_intros split: if_splits)
next
  case (Decide i d rv rs t now)
  obtain res st1 where c: "sqlite_decide parse_time i d rv rs t now st = (res, st1)" by fastforce
  have now: "ts_valid now" using assms(3) Decide by (simp add: op_times_valid_def)
  have r: "r = map_sum id Recorded res" "st' = st1"
    using assms(4) c by (simp_all add: Decide)
  show ?thesis
    using sqlite_decide_table[OF assms(1,2) now c] r unfolding Decide
    by (auto intro: step_intros split: if_splits option.splits)
next
  case (GetRecord i t)
  have "sqlite_get parse_time i t st = Inr (visible_to t (sqlite_content parse_time st) i)"
    using sqlite_get_table[OF assms(1)] assms(2) by (simp add: sqlite_inv_def sqlite_content_def)
  with assms(2,4) show ?thesis
    unfolding GetRecord by (auto intro: step_intros)
next
  case (ListPending t)
  obtain xs where "sqlite_list_pending parse_time t st = Inr xs"
    "pending_listing t (sqlite_content parse_time st) xs"
    using sqlite_list_table[OF assms(1,2)] by blast
  with assms(2,4) show ?thesis
    unfolding ListPending by (auto intro: step_intros)
qed

interpretation sqlite: approval_store sha256 "sqlite_step sha256 parse_time"
  "\<lambda>st. reads_iso parse_time \<and> sqlite_inv parse_time st" op_times_valid "sqlite_content parse_time" sq_gauge
  for sha256 parse_time
proof (unfold_locales, goal_cases)
  case (1 s x)
  then show ?case using sqlite_step_implements[of parse_time s x sha256] by (metis prod.collapse)
next
  case (2 s x)
  then show ?case using sqlite_step_implements[of parse_time s x sha256] by (metis prod.collapse)
next
  case (3 s x)
  then show ?case using sqlite_step_implements[of parse_time s x sha256] by (metis prod.collapse)
qed

end
