(* ===== verification/RedisStore.thy ===== *)
theory RedisStore
  imports SqliteStore "HOL-Library.Monad_Syntax"
begin

text \<open>
  The Redis backend (state/redis.py): a record is a JSON text under its own key, and a set per tenant
  indexes the pending ids.  JSON texts are of a type \<open>'x\<close>, written and read by pydantic, by Redis'
  \<open>cjson\<close> and by Python's \<open>json\<close>, all parameters: \<open>codec_ok\<close> says that each reads the fields that
  another wrote.  The server does not fail, and an operation of several commands is one step; the
  order of \<open>SMEMBERS\<close> is that of insertion.
\<close>

section \<open>Documents\<close>

text \<open>The fields of a JSON object, each a text or null.\<close>

type_synonym json_doc = "(string \<times> string option) list"

record 'x json_codec =
  jc_dump :: "json_doc \<Rightarrow> 'x"
  jc_read :: "'x \<Rightarrow> json_doc option"
  jc_encode :: "json_doc \<Rightarrow> 'x"
  jc_decode :: "'x \<Rightarrow> json_doc option"
  jc_loads :: "'x \<Rightarrow> json_doc option"
  jc_blank :: "'x \<Rightarrow> bool"
  jc_show_time :: "timestamp \<Rightarrow> string"
  jc_parse_time :: "string \<Rightarrow> timestamp option"

definition record_columns :: "string list" where
  "record_columns = [''approval_id'', ''request_id'', ''requester'', ''tenant'', ''query_sha256'', ''status'',
     ''reviewer'', ''reason'', ''created_at'', ''decided_at'']"

text \<open>\<open>model_dump_json\<close>.\<close>

definition doc_of :: "(timestamp \<Rightarrow> string) \<Rightarrow> approval_record \<Rightarrow> json_doc" where
  "doc_of show_time r = zip record_columns
     [Some (ar_approval_id r), Some (ar_request_id r), Some (ar_requester r), Some (ar_tenant r),
      Some (ar_query_sha256 r), Some (status_text (ar_status r)), ar_reviewer r, ar_reason r,
      Some (show_time (ar_created_at r)), map_option show_time (ar_decided_at r)]"

text \<open>\<open>model_validate\<close>: exactly the fields of the record, the status a literal, the times readable.\<close>

definition field_text :: "(string \<rightharpoonup> string option) \<Rightarrow> string \<Rightarrow> string option" where
  "field_text m k = (case m k of Some (Some s) \<Rightarrow> Some s | _ \<Rightarrow> None)"

definition record_of_fields ::
  "(string \<Rightarrow> timestamp option) \<Rightarrow> (string \<rightharpoonup> string option) \<Rightarrow> approval_record option" where
  "record_of_fields parse_time m = do {
     i \<leftarrow> field_text m ''approval_id'';
     rid \<leftarrow> field_text m ''request_id'';
     rq \<leftarrow> field_text m ''requester'';
     t \<leftarrow> field_text m ''tenant'';
     q \<leftarrow> field_text m ''query_sha256'';
     st \<leftarrow> Option.bind (field_text m ''status'') status_of;
     reviewer \<leftarrow> m ''reviewer'';
     reason \<leftarrow> m ''reason'';
     created \<leftarrow> Option.bind (field_text m ''created_at'') parse_time;
     dec \<leftarrow> Option.bind (m ''decided_at'') (parse_opt parse_time);
     Some \<lparr>ar_approval_id = i, ar_request_id = rid, ar_requester = rq, ar_tenant = t,
       ar_query_sha256 = q, ar_status = st, ar_reviewer = reviewer, ar_reason = reason,
       ar_created_at = created, ar_decided_at = dec\<rparr>
   }"

definition validate_doc :: "(string \<Rightarrow> timestamp option) \<Rightarrow> json_doc \<Rightarrow> exn + approval_record" where
  "validate_doc parse_time d =
     (if list_all (\<lambda>(k, v). k \<in> set record_columns) d
      then (case record_of_fields parse_time (map_of d) of
              None \<Rightarrow> Inl ValidationError
            | Some r \<Rightarrow> Inr r)
      else Inl ValidationError)"

section \<open>The server\<close>

datatype 'x redis_value = RedisText 'x | RedisSet "string list"

record 'x redis_store =
  rd_prefix :: string
  rd_keys :: "string \<rightharpoonup> 'x redis_value"
  rd_gauge :: "string \<Rightarrow> int"

definition wrong_type :: exn where
  "wrong_type = OtherException ''redis.ResponseError''"

definition redis_get :: "string \<Rightarrow> (string \<rightharpoonup> 'x redis_value) \<Rightarrow> exn + 'x option" where
  "redis_get k m =
     (case m k of None \<Rightarrow> Inr None | Some (RedisText x) \<Rightarrow> Inr (Some x) | Some (RedisSet xs) \<Rightarrow> Inl wrong_type)"

definition redis_members :: "string \<Rightarrow> (string \<rightharpoonup> 'x redis_value) \<Rightarrow> exn + string list" where
  "redis_members k m =
     (case m k of None \<Rightarrow> Inr [] | Some (RedisText x) \<Rightarrow> Inl wrong_type | Some (RedisSet xs) \<Rightarrow> Inr xs)"

definition redis_sadd ::
  "string \<Rightarrow> string \<Rightarrow> (string \<rightharpoonup> 'x redis_value) \<Rightarrow> exn + (string \<rightharpoonup> 'x redis_value)" where
  "redis_sadd k i m =
     (case redis_members k m of Inl e \<Rightarrow> Inl e | Inr xs \<Rightarrow> Inr (m(k \<mapsto> RedisSet (List.insert i xs))))"

text \<open>A set that becomes empty is removed.\<close>

definition redis_srem ::
  "string \<Rightarrow> string \<Rightarrow> (string \<rightharpoonup> 'x redis_value) \<Rightarrow> exn + (string \<rightharpoonup> 'x redis_value)" where
  "redis_srem k i m =
     (case redis_members k m of
        Inl e \<Rightarrow> Inl e
      | Inr xs \<Rightarrow> (let ys = removeAll i xs in Inr (m(k := (if ys = [] then None else Some (RedisSet ys))))))"

text \<open>\<open>DECIDE_SCRIPT\<close>, which the server runs as one command.\<close>

definition decide_script ::
  "'x json_codec \<Rightarrow> string \<Rightarrow> decision \<Rightarrow> string \<Rightarrow> string \<Rightarrow> string \<Rightarrow> string
    \<Rightarrow> (string \<rightharpoonup> 'x redis_value) \<Rightarrow> (exn + 'x option) \<times> (string \<rightharpoonup> 'x redis_value)" where
  "decide_script codec k d reviewer reason now tenant m =
     (case redis_get k m of
        Inl e \<Rightarrow> (Inl e, m)
      | Inr None \<Rightarrow> (Inr None, m)
      | Inr (Some current) \<Rightarrow>
          (case jc_decode codec current of
             None \<Rightarrow> (Inl wrong_type, m)
           | Some doc \<Rightarrow>
               if field_text (map_of doc) ''status'' \<noteq> Some ''pending'' then (Inr None, m)
               else if field_text (map_of doc) ''tenant'' \<noteq> Some tenant then (Inr None, m)
               else let updated = jc_encode codec
                      (AList.update ''decided_at'' (Some now) (AList.update ''reason'' (Some reason)
                        (AList.update ''reviewer'' (Some reviewer)
                          (AList.update ''status'' (Some (status_text (decided_status d))) doc))))
                    in (Inr (Some updated), m(k \<mapsto> RedisText updated))))"

section \<open>Operations\<close>

definition new_redis_store :: "string \<Rightarrow> (string \<rightharpoonup> 'x redis_value) \<Rightarrow> 'x redis_store" where
  "new_redis_store key_prefix keys = \<lparr>rd_prefix = key_prefix, rd_keys = keys, rd_gauge = (\<lambda>_. 0)\<rparr>"

definition default_prefix :: string where
  "default_prefix = ''agent-platform:approval:''"

definition index_prefix :: string where
  "index_prefix = ''pending-index:''"

definition record_key :: "'x redis_store \<Rightarrow> string \<Rightarrow> string" where
  "record_key st approval_id = rd_prefix st @ approval_id"

definition pending_key :: "'x redis_store \<Rightarrow> string \<Rightarrow> string" where
  "pending_key st tenant = rd_prefix st @ index_prefix @ tenant"

definition redis_create ::
  "'x json_codec \<Rightarrow> approval_record \<Rightarrow> 'x redis_store \<Rightarrow> (exn + approval_record) \<times> 'x redis_store" where
  "redis_create codec pending st =
     (let k = record_key st (ar_approval_id pending); t = ar_tenant pending in
      if rd_keys st k \<noteq> None then (Inl (RuntimeError ''Approval record was not persisted''), st)
      else let st1 = st\<lparr>rd_keys := (rd_keys st)(k \<mapsto> RedisText (jc_dump codec (doc_of (jc_show_time codec) pending)))\<rparr> in
        (case redis_sadd (pending_key st t) (ar_approval_id pending) (rd_keys st1) of
           Inl e \<Rightarrow> (Inl e, st1)
         | Inr m \<Rightarrow> (Inr pending, st1\<lparr>rd_keys := m, rd_gauge := (rd_gauge st)(t := rd_gauge st t + 1)\<rparr>)))"

definition redis_decide ::
  "'x json_codec \<Rightarrow> string \<Rightarrow> decision \<Rightarrow> string \<Rightarrow> string \<Rightarrow> string \<Rightarrow> timestamp \<Rightarrow> 'x redis_store
    \<Rightarrow> (exn + approval_record) \<times> 'x redis_store" where
  "redis_decide codec approval_id d reviewer reason tenant now st =
     (case decide_script codec (record_key st approval_id) d reviewer reason (isoformat now) tenant (rd_keys st) of
        (Inl e, m) \<Rightarrow> (Inl e, st\<lparr>rd_keys := m\<rparr>)
      | (Inr None, m) \<Rightarrow> (Inl not_decidable, st\<lparr>rd_keys := m\<rparr>)
      | (Inr (Some updated), m) \<Rightarrow>
          (case jc_loads codec updated of
             None \<Rightarrow> (Inl (ValueError ''JSONDecodeError''), st\<lparr>rd_keys := m\<rparr>)
           | Some doc \<Rightarrow>
               (case validate_doc (jc_parse_time codec) doc of
                  Inl e \<Rightarrow> (Inl e, st\<lparr>rd_keys := m\<rparr>)
                | Inr r \<Rightarrow>
                    (case redis_srem (pending_key st (ar_tenant r)) approval_id m of
                       Inl e \<Rightarrow> (Inl e, st\<lparr>rd_keys := m\<rparr>)
                     | Inr m1 \<Rightarrow>
                         (Inr r, st\<lparr>rd_keys := m1,
                            rd_gauge := (rd_gauge st)(ar_tenant r := rd_gauge st (ar_tenant r) - 1)\<rparr>)))))"

definition redis_lookup ::
  "'x json_codec \<Rightarrow> string \<Rightarrow> string \<Rightarrow> 'x redis_store \<Rightarrow> exn + approval_record option" where
  "redis_lookup codec approval_id tenant st =
     (case redis_get (record_key st approval_id) (rd_keys st) of
        Inl e \<Rightarrow> Inl e
      | Inr None \<Rightarrow> Inr None
      | Inr (Some x) \<Rightarrow>
          if jc_blank codec x then Inr None
          else (case jc_read codec x of
             None \<Rightarrow> Inl ValidationError
           | Some doc \<Rightarrow>
               map_sum id (\<lambda>r. if ar_tenant r = tenant then Some r else None) (validate_doc (jc_parse_time codec) doc)))"

definition redis_list_pending ::
  "'x json_codec \<Rightarrow> string \<Rightarrow> 'x redis_store \<Rightarrow> exn + approval_record list" where
  "redis_list_pending codec tenant st =
     (case redis_members (pending_key st tenant) (rd_keys st) of
        Inl e \<Rightarrow> Inl e
      | Inr ids \<Rightarrow>
          map_sum id (\<lambda>rs. sort_key ar_created_at (filter (\<lambda>r. ar_status r = Pending) (List.map_filter id rs)))
            (map_outcome (\<lambda>i. redis_lookup codec i tenant st) ids))"

fun redis_step ::
  "(string \<Rightarrow> string) \<Rightarrow> 'x json_codec \<Rightarrow> approval_op \<Rightarrow> 'x redis_store \<Rightarrow> (exn + approval_reply) \<times> 'x redis_store" where
  "redis_step sha256 codec (CreatePending uid now request_id requester query tenant) st =
     map_prod (map_sum id Recorded) id
       (redis_create codec (build_pending_record sha256 uid now request_id requester query tenant) st)"
| "redis_step sha256 codec (Decide i d reviewer reason tenant now) st =
     map_prod (map_sum id Recorded) id (redis_decide codec i d reviewer reason tenant now st)"
| "redis_step sha256 codec (GetRecord i tenant) st =
     (map_sum id Looked_up (redis_lookup codec i tenant st), st)"
| "redis_step sha256 codec (ListPending tenant) st =
     (map_sum id Listed (redis_list_pending codec tenant st), st)"

section \<open>Documents carry records\<close>

text \<open>Every reader recovers the fields that a writer put down, and the times are read back.\<close>

definition codec_ok :: "'x json_codec \<Rightarrow> bool" where
  "codec_ok c \<longleftrightarrow>
     (\<forall>d. distinct (map fst d) \<longrightarrow>
        (\<forall>w\<in>{jc_dump c, jc_encode c}. \<not> jc_blank c (w d) \<and>
           (\<forall>f\<in>{jc_read c, jc_decode c, jc_loads c}.
              \<exists>d'. f (w d) = Some d' \<and> distinct (map fst d') \<and> map_of d' = map_of d))) \<and>
     (\<forall>t. ts_valid t \<longrightarrow> jc_parse_time c (jc_show_time c t) = Some t \<and> jc_parse_time c (isoformat t) = Some t)"

text \<open>The text \<open>x\<close> holds the record \<open>r\<close>.\<close>

definition carries :: "'x json_codec \<Rightarrow> json_doc \<Rightarrow> approval_record \<Rightarrow> bool" where
  "carries c d r \<longleftrightarrow> distinct (map fst d) \<and> set (map fst d) = set record_columns \<and>
     record_of_fields (jc_parse_time c) (map_of d) = Some r"

definition holds :: "'x json_codec \<Rightarrow> 'x \<Rightarrow> approval_record \<Rightarrow> bool" where
  "holds c x r \<longleftrightarrow> \<not> jc_blank c x \<and>
     (\<forall>f\<in>{jc_read c, jc_decode c, jc_loads c}. \<exists>d. f x = Some d \<and> carries c d r)"

lemma carries_cong:
  "carries c d r \<Longrightarrow> distinct (map fst d') \<Longrightarrow> map_of d' = map_of d \<Longrightarrow> carries c d' r"
  by (auto simp: carries_def dom_map_of_conv_image_fst [symmetric])

lemma holds_written:
  assumes "codec_ok c" and "carries c d r" and "w \<in> {jc_dump c, jc_encode c}"
  shows "holds c (w d) r"
proof -
  have d: "distinct (map fst d)" using assms(2) by (simp add: carries_def)
  with assms(1,3) have "\<not> jc_blank c (w d)" "\<forall>f\<in>{jc_read c, jc_decode c, jc_loads c}.
      \<exists>d'. f (w d) = Some d' \<and> distinct (map fst d') \<and> map_of d' = map_of d"
    unfolding codec_ok_def by blast+
  then show ?thesis unfolding holds_def using carries_cong[OF assms(2)] by blast
qed

lemma carries_validate: "carries c d r \<Longrightarrow> validate_doc (jc_parse_time c) d = Inr r"
  by (force simp: carries_def validate_doc_def list_all_iff split: option.splits)

lemma carries_doc_of:
  assumes "codec_ok c" and "timed r"
  shows "carries c (doc_of (jc_show_time c) r) r"
proof -
  have "jc_parse_time c (jc_show_time c (ar_created_at r)) = Some (ar_created_at r)"
    using assms by (simp add: codec_ok_def timed_def)
  moreover have "parse_opt (jc_parse_time c) (map_option (jc_show_time c) (ar_decided_at r)) = Some (ar_decided_at r)"
    using assms by (cases "ar_decided_at r") (simp_all add: codec_ok_def timed_def)
  ultimately show ?thesis
    by (simp add: carries_def doc_of_def record_columns_def record_of_fields_def field_text_def)
qed

section \<open>The store implements the contract\<close>

text \<open>Record keys and index keys share the prefix; an id like that of an index is no record's.\<close>

definition good_id :: "string \<Rightarrow> bool" where
  "good_id i \<longleftrightarrow> \<not> starts_with index_prefix i"

definition redis_content :: "'x json_codec \<Rightarrow> 'x redis_store \<Rightarrow> approvals" where
  "redis_content c st i =
     (if good_id i
      then (case rd_keys st (record_key st i) of
              Some (RedisText x) \<Rightarrow> Option.bind (jc_read c x) (\<lambda>d. record_of_fields (jc_parse_time c) (map_of d))
            | _ \<Rightarrow> None)
      else None)"

definition index_of :: "'x redis_store \<Rightarrow> string \<Rightarrow> string list" where
  "index_of st t = (case redis_members (pending_key st t) (rd_keys st) of Inl e \<Rightarrow> [] | Inr xs \<Rightarrow> xs)"

definition redis_inv :: "'x json_codec \<Rightarrow> 'x redis_store \<Rightarrow> bool" where
  "redis_inv c st \<longleftrightarrow>
     (\<forall>i. good_id i \<longrightarrow> rd_keys st (record_key st i) = None \<or>
        (\<exists>x r. rd_keys st (record_key st i) = Some (RedisText x) \<and> holds c x r \<and> ar_approval_id r = i)) \<and>
     (\<forall>t. redis_members (pending_key st t) (rd_keys st) = Inr (index_of st t) \<and>
        distinct (index_of st t) \<and> list_all good_id (index_of st t)) \<and>
     (\<forall>i r. redis_content c st i = Some r \<longrightarrow> ar_status r = Pending \<longrightarrow> i \<in> set (index_of st (ar_tenant r)))"

definition redis_usable :: "approval_op \<Rightarrow> bool" where
  "redis_usable x = (case x of
     CreatePending uid now rid rq q t \<Rightarrow> good_id uid \<and> ts_valid now
   | Decide i d rv rs t now \<Rightarrow> good_id i \<and> ts_valid now
   | GetRecord i t \<Rightarrow> good_id i
   | ListPending t \<Rightarrow> True)"

lemma key_neq [simp]:
  "good_id i \<Longrightarrow> record_key st i \<noteq> pending_key st t"
  "good_id i \<Longrightarrow> pending_key st t \<noteq> record_key st i"
  "record_key st i = record_key st j \<longleftrightarrow> i = j"
  "pending_key st t = pending_key st u \<longleftrightarrow> t = u"
  by (auto simp: record_key_def pending_key_def good_id_def)

lemma holds_read: "holds c x r \<Longrightarrow> Option.bind (jc_read c x) (\<lambda>d. record_of_fields (jc_parse_time c) (map_of d)) = Some r"
  by (auto simp: holds_def carries_def)

lemma redis_recordE:
  assumes "redis_inv c st" and "good_id i"
  obtains "rd_keys st (record_key st i) = None" "redis_content c st i = None"
  | x r where "rd_keys st (record_key st i) = Some (RedisText x)" "holds c x r" "ar_approval_id r = i"
    "redis_content c st i = Some r"
proof -
  have "rd_keys st (record_key st i) = None \<or>
      (\<exists>x r. rd_keys st (record_key st i) = Some (RedisText x) \<and> holds c x r \<and> ar_approval_id r = i)"
    using assms by (simp add: redis_inv_def)
  then consider "rd_keys st (record_key st i) = None"
    | x r where "rd_keys st (record_key st i) = Some (RedisText x)" "holds c x r" "ar_approval_id r = i"
    by metis
  then show thesis
  proof cases
    case 1
    with assms(2) show thesis by (intro that(1)) (simp_all add: redis_content_def)
  next
    case (2 x r)
    with assms(2) holds_read[OF 2(2)] show thesis by (intro that(2)[of x r]) (simp_all add: redis_content_def)
  qed
qed

lemma redis_index:
  assumes "redis_inv c st"
  shows "redis_members (pending_key st t) (rd_keys st) = Inr (index_of st t)" "distinct (index_of st t)"
    "list_all good_id (index_of st t)"
    "redis_content c st i = Some r \<Longrightarrow> ar_status r = Pending \<Longrightarrow> i \<in> set (index_of st (ar_tenant r))"
  using assms unfolding redis_inv_def by blast+

lemma redis_content_good: "redis_content c st i = Some r \<Longrightarrow> good_id i"
  by (auto simp: redis_content_def split: if_splits)

text \<open>One record and the index of its tenant change.\<close>

lemma redis_inv_change:
  assumes "redis_inv c st" and "good_id i" and "holds c x r" and "ar_approval_id r = i"
    and "distinct ys" and "list_all good_id ys"
    and "set (index_of st (ar_tenant r)) - {i} \<subseteq> set ys" and "ar_status r = Pending \<Longrightarrow> i \<in> set ys"
    and "\<And>r'. redis_content c st i = Some r' \<Longrightarrow> ar_tenant r' = ar_tenant r"
    and st': "rd_prefix st' = rd_prefix st"
      "rd_keys st' = (rd_keys st)(record_key st i \<mapsto> RedisText x,
         pending_key st (ar_tenant r) := (if ys = [] then None else Some (RedisSet ys)))"
  shows "redis_inv c st' \<and> redis_content c st' = (redis_content c st)(i \<mapsto> r)"
proof -
  have keys: "record_key st' = record_key st" "pending_key st' = pending_key st"
    using st'(1) by (simp_all add: record_key_def pending_key_def fun_eq_iff)
  have content: "redis_content c st' = (redis_content c st)(i \<mapsto> r)"
    using assms(2) holds_read[OF assms(3)] by (intro ext) (auto simp: redis_content_def keys st'(2))
  have members: "redis_members (pending_key st' t) (rd_keys st') =
      Inr (if t = ar_tenant r then ys else index_of st t)" for t
    using redis_index(1)[OF assms(1), of t] assms(2)
    by (simp add: redis_members_def keys st'(2) index_of_def split: option.splits redis_value.splits)
  then have index: "index_of st' t = (if t = ar_tenant r then ys else index_of st t)" for t
    by (simp add: index_of_def)
  have "rd_keys st' (record_key st' j) = None \<or>
      (\<exists>x r. rd_keys st' (record_key st' j) = Some (RedisText x) \<and> holds c x r \<and> ar_approval_id r = j)"
    if "good_id j" for j
    using that assms(1-4) by (cases "j = i") (auto simp: redis_inv_def keys st'(2))
  moreover have "j \<in> set (index_of st' (ar_tenant r'))"
    if "redis_content c st' j = Some r'" "ar_status r' = Pending" for j r'
    using that assms(7,8) redis_index(4)[OF assms(1), of j r'] content
    by (cases "j = i") (auto simp: index)
  ultimately show ?thesis
    unfolding redis_inv_def using members index assms(5,6) redis_index(2,3)[OF assms(1)] content by simp
qed

lemma redis_create_content:
  assumes "redis_inv c st" and "codec_ok c" and "good_id uid" and "ts_valid now"
    and r: "r = build_pending_record sha256 uid now rid rq q t" and "redis_create c r st = (res, st')"
  shows "if redis_content c st uid = None
    then res = Inr r \<and> redis_inv c st' \<and> redis_content c st' = (redis_content c st)(uid \<mapsto> r) \<and>
      rd_gauge st' = (rd_gauge st)(t := rd_gauge st t + 1)
    else (\<exists>e. res = Inl e) \<and> st' = st"
proof -
  have sel: "ar_approval_id r = uid" "ar_tenant r = t" "ar_status r = Pending" by (simp_all add: r)
  have "timed r" using assms(4) by (simp add: r timed_def)
  then have x: "holds c (jc_dump c (doc_of (jc_show_time c) r)) r"
    using assms(2) by (intro holds_written carries_doc_of) auto
  show ?thesis
  proof (rule redis_recordE[OF assms(1,3)], goal_cases)
    case 1
    let ?m = "(rd_keys st)(record_key st uid \<mapsto> RedisText (jc_dump c (doc_of (jc_show_time c) r)))"
    let ?ys = "List.insert uid (index_of st t)"
    have mem: "redis_members (pending_key st t) ?m = Inr (index_of st t)"
      using redis_index(1)[OF assms(1), of t] assms(3) by (simp add: redis_members_def)
    have ne: "?ys \<noteq> []" by (auto simp: List.insert_def)
    have res: "res = Inr r" "rd_prefix st' = rd_prefix st"
      "rd_keys st' = ?m(pending_key st t := (if ?ys = [] then None else Some (RedisSet ?ys)))"
      "rd_gauge st' = (rd_gauge st)(t := rd_gauge st t + 1)"
      using assms(6) 1(1) mem sel ne by (auto simp: redis_create_def Let_def redis_sadd_def)
    have "redis_inv c st' \<and> redis_content c st' = (redis_content c st)(uid \<mapsto> r)"
      by (rule redis_inv_change[OF assms(1,3) x sel(1), where ys = ?ys])
        (use assms(3) redis_index(2,3)[OF assms(1)] res sel 1 in
          \<open>auto simp: list_all_iff List.insert_def\<close>)
    with res 1 show ?case by simp
  next
    case (2 x r')
    with assms(6) sel show ?case by (auto simp: redis_create_def Let_def)
  qed
qed

lemma status_of_Some: "status_of s = Some x \<longleftrightarrow> s = status_text x"
  by (cases x) (auto simp: status_of_def split: if_splits)

lemma record_of_fields_Some:
  "record_of_fields p m = Some r \<longleftrightarrow>
     field_text m ''approval_id'' = Some (ar_approval_id r) \<and> field_text m ''request_id'' = Some (ar_request_id r) \<and>
     field_text m ''requester'' = Some (ar_requester r) \<and> field_text m ''tenant'' = Some (ar_tenant r) \<and>
     field_text m ''query_sha256'' = Some (ar_query_sha256 r) \<and>
     field_text m ''status'' = Some (status_text (ar_status r)) \<and>
     m ''reviewer'' = Some (ar_reviewer r) \<and> m ''reason'' = Some (ar_reason r) \<and>
     Option.bind (field_text m ''created_at'') p = Some (ar_created_at r) \<and>
     Option.bind (m ''decided_at'') (parse_opt p) = Some (ar_decided_at r)"
  by (cases r) (auto simp: record_of_fields_def bind_eq_Some_conv status_of_Some)

lemma carries_fields:
  assumes "carries c d r"
  shows "field_text (map_of d) ''status'' = Some (status_text (ar_status r))"
    and "field_text (map_of d) ''tenant'' = Some (ar_tenant r)"
  using assms by (simp_all add: carries_def record_of_fields_Some)

lemma field_text_upd [simp]:
  "field_text (m(k \<mapsto> v)) k' = (if k' = k then v else field_text m k')"
  by (simp add: field_text_def split: option.splits)

lemma record_of_fields_decided:
  assumes "record_of_fields p m = Some r" and "p now = Some t"
  shows "record_of_fields p (m(''status'' \<mapsto> Some (status_text (decided_status d)), ''reviewer'' \<mapsto> Some rv,
      ''reason'' \<mapsto> Some rs, ''decided_at'' \<mapsto> Some now)) = Some (decided d rv rs t r)"
  using assms unfolding record_of_fields_Some by simp

lemma carries_decided:
  assumes "carries c d r" and "jc_parse_time c now = Some t"
  shows "carries c (AList.update ''decided_at'' (Some now) (AList.update ''reason'' (Some rs)
    (AList.update ''reviewer'' (Some rv) (AList.update ''status'' (Some (status_text (decided_status dc))) d))))
    (decided dc rv rs t r)"
proof -
  have "k \<in> set (map fst d)" if "k \<in> set record_columns" for k
    using that assms(1) by (simp add: carries_def)
  then have k: "''status'' \<in> set (map fst d)" "''reviewer'' \<in> set (map fst d)" "''reason'' \<in> set (map fst d)"
    "''decided_at'' \<in> set (map fst d)"
    by (simp_all add: record_columns_def)
  have fst_upd: "map fst (AList.update k v e) = map fst e" if "k \<in> set (map fst e)" for k and v :: "string option" and e
    using that by (simp add: keys_update)
  show ?thesis
    unfolding carries_def
    using assms(1) k record_of_fields_decided[where p = "jc_parse_time c" and m = "map_of d" and r = r and
      d = dc and rv = rv and rs = rs and now = now and t = t] assms(2)
    by (simp add: carries_def fst_upd map_of_update)
qed

lemma redis_decide_content:
  assumes "redis_inv c st" and "codec_ok c" and "good_id i" and "ts_valid now"
    and "redis_decide c i d rv rs t now st = (res, st')"
  shows "redis_inv c st' \<and>
    (case redis_content c st i of
       None \<Rightarrow> res = Inl not_decidable \<and> st' = st
     | Some r \<Rightarrow>
         if decidable_by t r
         then res = Inr (decided d rv rs now r) \<and>
           redis_content c st' = (redis_content c st)(i \<mapsto> decided d rv rs now r) \<and>
           rd_gauge st' = (rd_gauge st)(t := rd_gauge st t - 1)
         else res = Inl not_decidable \<and> st' = st)"
proof (rule redis_recordE[OF assms(1,3)], goal_cases)
  case 1
  with assms(1,5) show ?case by (auto simp: redis_decide_def decide_script_def redis_get_def)
next
  case (2 x r)
  obtain e where e: "jc_decode c x = Some e" "carries c e r" using 2(2) by (auto simp: holds_def)
  show ?case
  proof (cases "decidable_by t r")
    case False
    then have "decide_script c (record_key st i) d rv rs (isoformat now) t (rd_keys st) = (Inr None, rd_keys st)"
      using 2(1) e(1) carries_fields[OF e(2)] by (auto simp: decide_script_def redis_get_def decidable_by_def)
    with assms(1,5) 2 False show ?thesis by (auto simp: redis_decide_def)
  next
    case True
    let ?r = "decided d rv rs now r"
    let ?e = "AList.update ''decided_at'' (Some (isoformat now)) (AList.update ''reason'' (Some rs)
      (AList.update ''reviewer'' (Some rv) (AList.update ''status'' (Some (status_text (decided_status d))) e)))"
    let ?m = "(rd_keys st)(record_key st i \<mapsto> RedisText (jc_encode c ?e))"
    let ?ys = "removeAll i (index_of st t)"
    have t: "ar_tenant r = t" "ar_status r = Pending" using True by (simp_all add: decidable_by_def)
    have scr: "decide_script c (record_key st i) d rv rs (isoformat now) t (rd_keys st) = (Inr (Some (jc_encode c ?e)), ?m)"
      using 2(1) e(1) carries_fields[OF e(2)] t by (simp add: decide_script_def redis_get_def Let_def)
    have "jc_parse_time c (isoformat now) = Some now" using assms(2,4) by (simp add: codec_ok_def)
    then have h: "holds c (jc_encode c ?e) ?r"
      using assms(2) e(2) by (intro holds_written carries_decided) auto
    then obtain e' where l: "jc_loads c (jc_encode c ?e) = Some e'" "carries c e' ?r"
      by (auto simp: holds_def)
    have mem: "redis_members (pending_key st t) ?m = Inr (index_of st t)"
      using redis_index(1)[OF assms(1), of t] assms(3) by (simp add: redis_members_def)
    have res: "res = Inr ?r" "rd_prefix st' = rd_prefix st"
      "rd_keys st' = ?m(pending_key st t := (if ?ys = [] then None else Some (RedisSet ?ys)))"
      "rd_gauge st' = (rd_gauge st)(t := rd_gauge st t - 1)"
      using assms(5) scr l(1) carries_validate[OF l(2)] mem t
      by (auto simp: redis_decide_def redis_srem_def Let_def)
    have "redis_inv c st' \<and> redis_content c st' = (redis_content c st)(i \<mapsto> ?r)"
      by (rule redis_inv_change[OF assms(1,3) h, where ys = ?ys])
        (use redis_index(2,3)[OF assms(1)] res t 2(3,4) in \<open>auto simp: list_all_iff distinct_removeAll\<close>)
    with res 2(4) True show ?thesis by simp
  qed
qed

lemma redis_lookup_content:
  assumes "redis_inv c st" and "good_id i"
  shows "redis_lookup c i t st = Inr (visible_to t (redis_content c st) i)"
proof (rule redis_recordE[OF assms], goal_cases)
  case 1
  then show ?case by (simp add: redis_lookup_def redis_get_def visible_to_def)
next
  case (2 x r)
  obtain d where "jc_read c x = Some d" "carries c d r" "\<not> jc_blank c x" using 2(2) by (auto simp: holds_def)
  with 2 carries_validate[of c d r] show ?case by (simp add: redis_lookup_def redis_get_def visible_to_def)
qed

lemma map_filter_id: "List.map_filter id (map f xs) = List.map_filter f xs"
  by (induction xs) (auto simp: List.map_filter_simps split: option.splits)

lemma distinct_map_filter_key:
  "(\<And>i r. f i = Some r \<Longrightarrow> g r = i) \<Longrightarrow> distinct xs \<Longrightarrow> distinct (map g (List.map_filter f xs))"
  by (induction xs) (auto simp: List.map_filter_def)

lemma set_map_filter: "set (List.map_filter f xs) = {y. \<exists>x\<in>set xs. f x = Some y}"
  by (induction xs) (auto simp: List.map_filter_simps split: option.splits)

lemma redis_list_content:
  assumes "redis_inv c st"
  shows "\<exists>xs. redis_list_pending c t st = Inr xs \<and> pending_listing t (redis_content c st) xs"
proof -
  let ?f = "visible_to t (redis_content c st)" and ?ids = "index_of st t"
  let ?rs = "filter (\<lambda>r. ar_status r = Pending) (List.map_filter ?f ?ids)"
  have "map (\<lambda>i. redis_lookup c i t st) ?ids = map Inr (map ?f ?ids)"
    using redis_lookup_content[OF assms] redis_index(3)[OF assms, of t] by (simp add: list_all_iff)
  then have out: "map_outcome (\<lambda>i. redis_lookup c i t st) ?ids = Inr (map ?f ?ids)"
    by (simp add: map_outcome_Inr)
  have list: "redis_list_pending c t st = Inr (sort_key ar_created_at ?rs)"
    using out redis_index(1)[OF assms, of t] by (simp add: redis_list_pending_def map_filter_id)
  have key: "ar_approval_id r = i" if "?f i = Some r" for i r
    using that redis_content_good[of c st i r]
    by (auto simp: visible_to_def split: option.splits if_splits elim: redis_recordE[OF assms])
  have "distinct (map ar_approval_id (List.map_filter ?f ?ids))"
    using key redis_index(2)[OF assms] by (rule distinct_map_filter_key)
  then have d: "distinct (map ar_approval_id (sort_key ar_created_at ?rs))"
    by (simp add: distinct_map_filter distinct_map inj_on_def)
  have "set (sort_key ar_created_at ?rs) = {r. \<exists>i. redis_content c st i = Some r \<and> decidable_by t r}"
    using redis_index(4)[OF assms]
    by (simp add: set_map_filter) (auto simp: visible_to_def decidable_by_def split: option.splits if_splits)
  with list d show ?thesis by (auto simp: pending_listing_def)
qed

lemma redis_step_implements:
  assumes "codec_ok c" and "redis_inv c st" and "redis_usable x" and "redis_step sha256 c x st = (r, st')"
  shows "redis_inv c st' \<and> approval_step sha256 x (redis_content c st) r (redis_content c st') \<and>
    rd_gauge st' = gauge_after x r (rd_gauge st)"
proof (cases x)
  case (CreatePending uid now rid rq q t)
  define p where "p = build_pending_record sha256 uid now rid rq q t"
  obtain res st1 where cr: "redis_create c p st = (res, st1)" by fastforce
  have u: "good_id uid" "ts_valid now" using assms(3) CreatePending by (simp_all add: redis_usable_def)
  from redis_create_content[OF assms(2,1) u p_def cr] show ?thesis
    using assms(2,4) cr unfolding CreatePending
    by (auto simp: p_def intro: step_intros split: if_splits)
next
  case (Decide i d rv rs t now)
  obtain res st1 where de: "redis_decide c i d rv rs t now st = (res, st1)" by fastforce
  have u: "good_id i" "ts_valid now" using assms(3) Decide by (simp_all add: redis_usable_def)
  from redis_decide_content[OF assms(2,1) u de] show ?thesis
    using assms(4) de unfolding Decide
    by (auto intro: step_intros split: if_splits option.splits)
next
  case (GetRecord i t)
  then have "good_id i" using assms(3) by (simp add: redis_usable_def)
  from redis_lookup_content[OF assms(2) this] assms(2,4) show ?thesis
    unfolding GetRecord by (auto intro: step_intros)
next
  case (ListPending t)
  obtain xs where "redis_list_pending c t st = Inr xs" "pending_listing t (redis_content c st) xs"
    using redis_list_content[OF assms(2)] by blast
  with assms(2,4) show ?thesis unfolding ListPending by (auto intro: step_intros)
qed

interpretation redis: approval_store sha256 "redis_step sha256 c" "\<lambda>st. codec_ok c \<and> redis_inv c st"
  redis_usable "redis_content c" rd_gauge for sha256 and c :: "'x json_codec"
proof (unfold_locales, goal_cases)
  case (1 s x)
  then show ?case using redis_step_implements[of c s x sha256] by (metis prod.collapse)
next
  case (2 s x)
  then show ?case using redis_step_implements[of c s x sha256] by (metis prod.collapse)
next
  case (3 s x)
  then show ?case using redis_step_implements[of c s x sha256] by (metis prod.collapse)
qed

end
