(* ===== verification/ApprovalStores.thy ===== *)
theory ApprovalStores
  imports Config PostgresStore RedisStore
begin

text \<open>
  The choice of the approval store (state/factory.py) and what holds of every store it builds:
  \<open>store_step\<close> dispatches an operation of the protocol \<open>ApprovalStore\<close> to the backend in use.
\<close>

section \<open>Construction\<close>

datatype 'x open_store =
    OnSqlite sqlite_store
  | OnPostgres pg_store
  | OnRedis "'x redis_store"

text \<open>What the constructors find outside: the rows of a database file, whether a URL is a PostgreSQL
  one and the rows of its table, and the keys of a Redis server or the error of its \<open>PING\<close>.\<close>

record 'x store_world =
  sw_sqlite :: "string \<Rightarrow> sqlite_row list"
  sw_postgres_url :: "string \<Rightarrow> bool"
  sw_postgres :: "string \<Rightarrow> approval_record list"
  sw_redis :: "string \<Rightarrow> exn + (string \<rightharpoonup> 'x redis_value)"

fun backend_name :: "state_backend \<Rightarrow> string" where
  "backend_name SqliteBackend = ''sqlite''"
| "backend_name PostgresqlBackend = ''postgresql''"
| "backend_name RedisBackend = ''redis''"

definition build_approval_store ::
  "'x store_world \<Rightarrow> state_backend \<Rightarrow> string \<Rightarrow> string option \<Rightarrow> exn + 'x open_store" where
  "build_approval_store w backend sqlite_path connection_url =
     (if backend = SqliteBackend then Inr (OnSqlite (new_sqlite_store (sw_sqlite w sqlite_path)))
      else case connection_url of
          None \<Rightarrow> Inl (ValueError (''STATE_CONNECTION_URL is required for the '' @ backend_name backend @ '' backend''))
        | Some url \<Rightarrow>
            if url = []
            then Inl (ValueError (''STATE_CONNECTION_URL is required for the '' @ backend_name backend @ '' backend''))
            else if backend = PostgresqlBackend
            then map_sum id OnPostgres (new_postgres_store (sw_postgres_url w url) 5 (sw_postgres w url))
            else map_sum id (\<lambda>keys. OnRedis (new_redis_store default_prefix keys)) (sw_redis w url))"

record 'x store_params =
  sp_sha256 :: "string \<Rightarrow> string"
  sp_parse_time :: "string \<Rightarrow> timestamp option"
  sp_canon :: "string \<Rightarrow> string option"
  sp_codec :: "'x json_codec"

fun store_step ::
  "'x store_params \<Rightarrow> approval_op \<Rightarrow> 'x open_store \<Rightarrow> (exn + approval_reply) \<times> 'x open_store" where
  "store_step p x (OnSqlite st) =
     map_prod id OnSqlite (sqlite_step (sp_sha256 p) (sp_parse_time p) x st)"
| "store_step p x (OnPostgres st) =
     map_prod id OnPostgres (pg_step (sp_sha256 p) (sp_canon p) x st)"
| "store_step p x (OnRedis st) =
     map_prod id OnRedis (redis_step (sp_sha256 p) (sp_codec p) x st)"

section \<open>Every backend implements the contract\<close>

fun store_inv :: "'x store_params \<Rightarrow> 'x open_store \<Rightarrow> bool" where
  "store_inv p (OnSqlite st) = (reads_iso (sp_parse_time p) \<and> sqlite_inv (sp_parse_time p) st)"
| "store_inv p (OnPostgres st) = pg_inv st"
| "store_inv p (OnRedis st) = (codec_ok (sp_codec p) \<and> redis_inv (sp_codec p) st)"

fun store_content :: "'x store_params \<Rightarrow> 'x open_store \<Rightarrow> approvals" where
  "store_content p (OnSqlite st) = sqlite_content (sp_parse_time p) st"
| "store_content p (OnPostgres st) = pg_content st"
| "store_content p (OnRedis st) = redis_content (sp_codec p) st"

fun store_gauge :: "'x open_store \<Rightarrow> string \<Rightarrow> int" where
  "store_gauge (OnSqlite st) = sq_gauge st"
| "store_gauge (OnPostgres st) = pg_gauge st"
| "store_gauge (OnRedis st) = rd_gauge st"

text \<open>Operations that every backend can take: the clock reads a real date, an id is in the form the
  server gives it and not that of an index, a digest has 64 characters.\<close>

definition op_usable :: "'x store_params \<Rightarrow> approval_op \<Rightarrow> bool" where
  "op_usable p x \<longleftrightarrow> op_times_valid x \<and> pg_usable (sp_sha256 p) (sp_canon p) x \<and> redis_usable x"

interpretation opened: approval_store "sp_sha256 p" "store_step p" "store_inv p" "op_usable p"
  "store_content p" store_gauge for p :: "'x store_params"
proof (unfold_locales, goal_cases)
  case (1 s x)
  then show ?case
    by (cases s) (auto simp: op_usable_def intro!: sqlite.keeps_inv[THEN conjunct2] postgres.keeps_inv
        redis.keeps_inv[THEN conjunct2])
next
  case (2 s x)
  then show ?case
    by (cases s) (auto simp: op_usable_def intro: sqlite.refines postgres.refines redis.refines)
next
  case (3 s x)
  then show ?case
    by (cases s) (auto simp: op_usable_def sqlite.counts postgres.counts redis.counts)
qed

text \<open>Stores over empty storage.\<close>

definition empty_world :: "'x store_world \<Rightarrow> bool" where
  "empty_world w \<longleftrightarrow> (\<forall>path. sw_sqlite w path = []) \<and> (\<forall>url. sw_postgres w url = []) \<and>
     (\<forall>url keys. sw_redis w url = Inr keys \<longrightarrow> keys = Map.empty)"

definition params_ok :: "'x store_params \<Rightarrow> bool" where
  "params_ok p \<longleftrightarrow> reads_iso (sp_parse_time p) \<and> codec_ok (sp_codec p)"

lemma new_pool_clean:
  "new_pool good n = Inr pool \<Longrightarrow> pool \<noteq> [] \<and> length pool = nat n \<and> list_all (\<lambda>c. current_setting c = None) pool"
  by (auto simp: new_pool_def list_all_iff split: if_splits)

lemma build_approval_store_empty:
  assumes "build_approval_store w backend path url = Inr st" and "empty_world w" and "params_ok p"
  shows "store_inv p st \<and> store_content p st = Map.empty \<and> store_gauge st = (\<lambda>_. 0)"
proof (cases st)
  case (OnSqlite s)
  have "sq_rows s = map row_of []" "sq_gauge s = (\<lambda>_. 0)"
    using assms(1,2) OnSqlite
    by (auto simp: build_approval_store_def new_sqlite_store_def empty_world_def
        split: if_splits option.splits sum.splits simp: map_sum_def)
  with assms(3) sqlite_invI[of "sp_parse_time p" s "[]"] show ?thesis
    by (simp add: OnSqlite params_ok_def keyed_def sqlite_content_def)
next
  case (OnPostgres s)
  then obtain u where "new_postgres_store (sw_postgres_url w u) 5 (sw_postgres w u) = Inr s"
    using assms(1)
    by (auto simp: build_approval_store_def map_sum_def split: if_splits option.splits sum.splits)
  then have "pg_rows s = []" "pool_clean s" "pg_gauge s = (\<lambda>_. 0)"
    using assms(2) new_pool_clean[of "sw_postgres_url w u" 5]
    by (auto simp: new_postgres_store_def empty_world_def pool_clean_def map_sum_def split: sum.splits)
  then show ?thesis by (simp add: OnPostgres pg_inv_def keyed_def pg_content_def)
next
  case (OnRedis s)
  then have "rd_keys s = Map.empty" "rd_gauge s = (\<lambda>_. 0)"
    using assms(1,2)
    by (auto simp: build_approval_store_def new_redis_store_def empty_world_def map_sum_def
        split: if_splits option.splits sum.splits)
  then show ?thesis
    using assms(3)
    by (auto simp: OnRedis params_ok_def redis_inv_def redis_content_def index_of_def redis_members_def)
qed

section \<open>Properties\<close>

text \<open>C34: whichever backend the settings choose, over empty storage every sequence of operations with
  canonical ids and valid times runs as the contract of \<open>ApprovalStore\<close> says, replies and errors included, and the gauge of pending
  approvals of a tenant is the number of its pending records.\<close>

theorem approval_store_refines:
  assumes "build_approval_store w backend path url = Inr st" and "empty_world w" and "params_ok p"
    and "list_all (op_usable p) xs" and "store_run (store_step p) xs st = (rs, st')"
  shows "approval_run (sp_sha256 p) xs Map.empty rs (store_content p st') \<and>
    store_gauge st' t = int (card (pending_ids t (store_content p st')))"
proof -
  note e = build_approval_store_empty[OF assms(1-3)]
  have "\<forall>t. store_gauge st t = int (card (pending_ids t (store_content p st)))"
    using e by (simp add: pending_ids_def)
  with opened.run_refines[of p st xs] opened.gauge_exact[of p st xs] e assms(4,5)
  show ?thesis by simp
qed

text \<open>C35: an approval is decided at most once, a reply shows only records of the tenant that asked,
  and operations of other tenants change nothing that a tenant can look up.\<close>

theorem approvals_governed:
  assumes "build_approval_store w backend path url = Inr st" and "empty_world w" and "params_ok p"
    and "list_all (op_usable p) (xs @ ys)" and "list_all (\<lambda>x. op_tenant x \<noteq> t) ys"
    and "op_usable p (GetRecord i t)"
    and "store_run (store_step p) xs st = (rs, st1)" and "store_run (store_step p) ys st1 = (rs', st2)"
  shows "length (filter (decides_id i) (zip xs rs)) \<le> 1 \<and>
    list_all2 (\<lambda>x r. list_all (\<lambda>rec. ar_tenant rec = op_tenant x) (reply_records r)) xs rs \<and>
    fst (store_step p (GetRecord i t) st2) = fst (store_step p (GetRecord i t) st1)"
proof -
  note e = build_approval_store_empty[OF assms(1-3)]
  have u: "list_all (op_usable p) xs" "list_all (op_usable p) ys" using assms(4) by simp_all
  have r1: "store_inv p st1" "approval_run (sp_sha256 p) xs Map.empty rs (store_content p st1)"
    using opened.run_refines[of p st xs] e u(1) assms(7) by simp_all
  have r2: "store_inv p st2" "approval_run (sp_sha256 p) ys (store_content p st1) rs' (store_content p st2)"
    using opened.run_refines[OF r1(1) u(2)] assms(8) by simp_all
  have look: "fst (store_step p (GetRecord i t) s) = Inr (Looked_up (visible_to t (store_content p s) i))"
    if "store_inv p s" for s
    using opened.refines[OF that assms(6)] by (auto elim: get_stepE)
  have "visible_to t (store_content p st2) i = visible_to t (store_content p st1) i"
    by (rule approval_run_other_tenant[OF r2(2) assms(5)])
  then show ?thesis
    using approval_run_decided_once[OF r1(2)] approval_run_reply_tenant[OF r1(2)] look r1(1) r2(1) by simp
qed

text \<open>C36: no connection that goes back to the pool carries a tenant, whatever the operations did and
  whether they failed: outside a transaction a connection sees no row, and the pool keeps its size.\<close>

theorem pool_leaves_no_trace:
  assumes "new_postgres_store good_url n rows = Inr st" and "store_run (pg_step sha256 canon) xs st = (rs, st')"
  shows "length (pg_pool st') = nat n \<and>
    list_all (\<lambda>c. current_setting c = None \<and> filter (tenant_isolation c) (pg_rows st') = []) (pg_pool st')"
proof -
  have "pool_clean st \<and> length (pg_pool st) = nat n"
    using assms(1) new_pool_clean[of good_url n]
    by (auto simp: new_postgres_store_def pool_clean_def map_sum_def split: sum.splits)
  then have "pool_clean st' \<and> length (pg_pool st') = nat n"
    using assms(2)
  proof (induction xs arbitrary: st rs)
    case (Cons x xs)
    obtain r st1 where s: "pg_step sha256 canon x st = (r, st1)" by fastforce
    with Cons.IH[of st1] Cons.prems pg_step_pool[OF s] show ?case by (auto split: prod.splits)
  qed simp
  then show ?thesis by (auto simp: pool_clean_def list_all_iff filter_empty_conv tenant_isolation_def current_setting_def)
qed

section \<open>A run on each backend\<close>

text \<open>A reader of ISO texts, by the places of the fields.\<close>

definition read_iso :: "string \<Rightarrow> timestamp option" where
  "read_iso s =
     (let n = (\<lambda>i w. read_nat (take w (drop i s))) in
      Some (Timestamp (n 0 4) (n 5 2) (n 8 2) (n 11 2) (n 14 2) (n 17 2)
        (if take 1 (drop 19 s) = ''.'' then n 20 6 else 0)))"

lemma foldl_pad: "k < 10 ^ w \<Longrightarrow> foldl (\<lambda>a c. 10 * a + (code c - 48)) m (pad w k) = m * 10 ^ w + k"
proof (induction w arbitrary: m k)
  case (Suc w)
  have "k div 10 ^ w < 10" using Suc.prems by (rule div_pow_lt)
  then have "code (char_of (48 + k div 10 ^ w)) - 48 = k div 10 ^ w" by (simp add: code_def)
  then have "foldl (\<lambda>a c. 10 * a + (code c - 48)) m (pad (Suc w) k) =
      (10 * m + k div 10 ^ w) * 10 ^ w + k mod 10 ^ w"
    using Suc.IH[of "k mod 10 ^ w" "10 * m + k div 10 ^ w"] by simp
  also have "\<dots> = m * 10 ^ Suc w + k" by (simp add: algebra_simps)
  finally show ?case .
qed simp

lemma read_pad [simp]: "k < 10 ^ w \<Longrightarrow> read_nat (pad w k) = k"
  using foldl_pad[of k w 0] by (simp add: read_nat_def)

lemma reads_iso_read_iso: "reads_iso read_iso"
proof -
  have "read_iso (isoformat t) = Some t" if "ts_valid t" for t
    using that by (cases t) (simp add: read_iso_def isoformat_def ts_valid_def Let_def)
  then show ?thesis by (simp add: reads_iso_def)
qed

definition doc_codec :: "json_doc json_codec" where
  "doc_codec = \<lparr>jc_dump = id, jc_read = Some, jc_encode = id, jc_decode = Some, jc_loads = Some,
     jc_blank = (\<lambda>_. False), jc_show_time = isoformat, jc_parse_time = read_iso\<rparr>"

definition sample_params :: "json_doc store_params" where
  "sample_params = \<lparr>sp_sha256 = (\<lambda>_. replicate 64 CHR ''0''), sp_parse_time = read_iso, sp_canon = Some,
     sp_codec = doc_codec\<rparr>"

definition sample_world :: "json_doc store_world" where
  "sample_world = \<lparr>sw_sqlite = (\<lambda>_. []), sw_postgres_url = (\<lambda>_. True), sw_postgres = (\<lambda>_. []),
     sw_redis = (\<lambda>_. Inr Map.empty)\<rparr>"

definition noon :: "nat \<Rightarrow> timestamp" where
  "noon k = Timestamp 2026 1 31 12 0 0 k"

definition sample_ops :: "approval_op list" where
  "sample_ops =
     [CreatePending ''7f'' (noon 0) ''r-1'' ''ops-7'' ''refund'' ''retail'',
      Decide ''7f'' Approve ''lead'' ''ok'' ''cards'' (noon 1),
      Decide ''7f'' Approve ''lead'' ''ok'' ''retail'' (noon 1),
      Decide ''7f'' Reject ''lead'' ''no'' ''retail'' (noon 2), ListPending ''retail'']"

lemma sample_params_ok: "params_ok sample_params"
  using reads_iso_read_iso
  by (auto simp: params_ok_def sample_params_def codec_ok_def doc_codec_def reads_iso_def)

lemma sample_world_empty: "empty_world sample_world"
  by (simp add: empty_world_def sample_world_def)

lemma sample_store:
  obtains st where "build_approval_store sample_world RedisBackend [] (Some ''redis'') = Inr st"
  by (simp add: build_approval_store_def sample_world_def)

lemma sample_ops_usable: "list_all (op_usable sample_params) sample_ops"
  by (simp add: sample_ops_def op_usable_def op_times_valid_def ts_valid_def noon_def pg_usable_def
      redis_usable_def sample_params_def good_id_def index_prefix_def starts_with_def)

theorem approval_store_refines_witness:
  "\<exists>st rs st'. build_approval_store sample_world RedisBackend [] (Some ''redis'') = Inr st \<and>
     store_run (store_step sample_params) sample_ops st = (rs, st') \<and>
     approval_run (sp_sha256 sample_params) sample_ops Map.empty rs (store_content sample_params st')"
proof -
  obtain st where st: "build_approval_store sample_world RedisBackend [] (Some ''redis'') = Inr st"
    by (rule sample_store)
  obtain rs st' where r: "store_run (store_step sample_params) sample_ops st = (rs, st')" by fastforce
  from approval_store_refines[OF st sample_world_empty sample_params_ok sample_ops_usable r] st r
  show ?thesis by blast
qed

theorem approvals_governed_witness:
  "\<exists>st rs st1. build_approval_store sample_world RedisBackend [] (Some ''redis'') = Inr st \<and>
     store_run (store_step sample_params) sample_ops st = (rs, st1) \<and>
     length (filter (decides_id ''7f'') (zip sample_ops rs)) \<le> 1"
proof -
  obtain st where st: "build_approval_store sample_world RedisBackend [] (Some ''redis'') = Inr st"
    by (rule sample_store)
  obtain rs st1 where r: "store_run (store_step sample_params) sample_ops st = (rs, st1)" by fastforce
  define y where "y = ListPending ''cards''"
  obtain rs' st2 where r2: "store_run (store_step sample_params) [y] st1 = (rs', st2)" by fastforce
  have "op_usable sample_params y" "op_usable sample_params (GetRecord ''7f'' ''retail'')"
    by (simp_all add: y_def op_usable_def op_times_valid_def pg_usable_def redis_usable_def sample_params_def
        good_id_def index_prefix_def starts_with_def)
  then have u: "list_all (op_usable sample_params) (sample_ops @ [y])" "list_all (\<lambda>x. op_tenant x \<noteq> ''retail'') [y]"
    "op_usable sample_params (GetRecord ''7f'' ''retail'')"
    using sample_ops_usable by (simp_all add: y_def)
  from approvals_governed[OF st sample_world_empty sample_params_ok u r r2] st r show ?thesis by blast
qed

theorem pool_leaves_no_trace_witness:
  "\<exists>st rs st'. new_postgres_store True 2 [] = Inr st \<and>
     store_run (pg_step (\<lambda>_. replicate 64 CHR ''0'') Some) sample_ops st = (rs, st') \<and>
     length (pg_pool st') = 2 \<and> list_all (\<lambda>c. current_setting c = None) (pg_pool st')"
proof -
  obtain st where st: "new_postgres_store True 2 [] = Inr st"
    by (simp add: new_postgres_store_def new_pool_def)
  obtain rs st' where r: "store_run (pg_step (\<lambda>_. replicate 64 CHR ''0'') Some) sample_ops st = (rs, st')"
    by fastforce
  from pool_leaves_no_trace[OF st r] st r show ?thesis by (auto simp: list_all_iff)
qed

end
