(* ===== verification/App.thy ===== *)
theory App
  imports RateLimit Auth RemoteAuth Http Groundedness AzureSearch ModelFactory Orchestration Skills ApprovalStores
    Evaluation
begin

text \<open>
  The gateway application (gateway/app.py, gateway/models.py): \<open>create_app\<close> assembles the components
  from the settings, and one function per route runs the guards of the route, validates the payload
  and calls the components.  A handler takes the application and the request and returns the
  response or the exception, and the application after it.

  FastAPI runs the dependencies of a route before its handler and each dependency once: the principal,
  the rate limit, the roles, then the tenant; an invalid payload is reported after them.  What a
  request reads outside (clocks, the uuid of an approval) are fields of the request.
\<close>

section \<open>Requests and responses\<close>

record web_request =
  wr_headers :: auth_headers
  wr_now :: real
  wr_request_id :: string
  wr_uid :: string
  wr_stamp :: timestamp
  wr_elapsed :: real
  wr_generation :: generation_env

definition request_invalid :: exn where
  "request_invalid = HTTPException 422 ''Unprocessable Content'' []"

definition new_route_request :: "string \<Rightarrow> exn + string" where
  "new_route_request query =
     (let q = field_strip query in
      if 1 \<le> length q \<and> length q \<le> 2000 then Inr q else Inl request_invalid)"

definition new_rag_answer_request :: "string \<Rightarrow> exn + string" where
  "new_rag_answer_request query =
     (let q = field_strip query in
      if 1 \<le> length q \<and> length q \<le> 500 then Inr q else Inl request_invalid)"

record generate_payload =
  gp_model :: string
  gp_messages :: "(chat_role \<times> string) list"
  gp_max_tokens :: int
  gp_temperature :: real

definition new_generate_request ::
  "generate_payload \<Rightarrow> exn + string \<times> chat_message list" where
  "new_generate_request q =
     (let m = field_strip (gp_model q) in
      if 1 \<le> length m \<and> length m \<le> 200 \<and> 1 \<le> length (gp_messages q) \<and> length (gp_messages q) \<le> 50 \<and>
         1 \<le> gp_max_tokens q \<and> gp_max_tokens q \<le> 4096 \<and> 0 \<le> gp_temperature q \<and> gp_temperature q \<le> 2
      then (case map_outcome (\<lambda>(r, c). new_chat_message r c) (gp_messages q) of
              Inl e \<Rightarrow> Inl request_invalid
            | Inr messages \<Rightarrow> Inr (m, messages))
      else Inl request_invalid)"

record platform_info_response =
  pi_name :: string
  pi_environment :: app_env
  pi_authenticated_subject :: string

record route_response =
  rr_decision :: routing_decision
  rr_steps :: int
  rr_error_code :: "string option"

record investigation_response =
  ir_decision :: routing_decision
  ir_result :: agent_result
  ir_steps :: int
  ir_approval_id :: "string option"

record generate_response =
  gn_content :: string
  gn_model :: string
  gn_provider :: string
  gn_usage :: token_usage
  gn_estimated_cost_gbp :: real
  gn_finish_reason :: string

record rag_answer_response =
  ra_answer :: string
  ra_citations :: "citation list"
  ra_report :: groundedness_report

section \<open>The application\<close>

record 'x app_params =
  pa_store :: "'x store_params"
  pa_digest :: "string \<Rightarrow> nat list"
  pa_round6 :: "real \<Rightarrow> real"
  pa_round4 :: "real \<Rightarrow> real"

record 'x app =
  ap_settings :: settings
  ap_limiter :: rate_limiter
  ap_mcp :: local_gateway
  ap_index :: index_backend
  ap_rag :: rag_metrics
  ap_minimum_overlap :: real
  ap_skills :: skill_registry
  ap_tenants :: tenant_registry
  ap_resolver :: "string \<Rightarrow> exn + jwt_identity"
  ap_approvals :: "'x open_store"
  ap_operations :: "local_gateway operations"
  ap_model_gateway :: model_gateway
  ap_completions :: counter
  ap_durations :: histogram

text \<open>What \<open>create_app\<close> finds outside: the services of the model gateway, the knowledge base files and
  the Azure index, the registries read from their directories, the token library, the state, the
  step limit of LangGraph, and the hash, rounding and clock of the tool gateway.\<close>

record ('x, 'k) app_world =
  aw_models :: model_services
  aw_parse :: "string \<Rightarrow> string \<Rightarrow> exn + knowledge_document"
  aw_files :: "(string \<times> string) list"
  aw_search :: search_service
  aw_documents :: "azure_document list"
  aw_skills :: "exn + skill_registry"
  aw_tenants :: "exn + tenant_registry"
  aw_jwt :: "'k jwt_library"
  aw_state :: "'x store_world"
  aw_allows :: "int \<Rightarrow> nat \<Rightarrow> bool"
  aw_sha256 :: "string \<Rightarrow> string"
  aw_round3 :: "real \<Rightarrow> real"
  aw_clock :: "nat \<Rightarrow> call_times"

definition identity_of :: "'k jwt_library \<Rightarrow> settings \<Rightarrow> tenant_registry \<Rightarrow> exn + (string \<Rightarrow> exn + jwt_identity)" where
  "identity_of jwt s registry =
     (if jwt_configured s
      then (case new_identity_resolver (the (st_jwt_jwks_uri s)) (the (st_jwt_issuer s)) (the (st_jwt_audience s))
                   registry (st_jwt_tenant_claim s) of
              Inl e \<Rightarrow> Inl e
            | Inr r \<Rightarrow> Inr (resolve jwt r))
      else Inr (\<lambda>_. Inl (OtherException ''AttributeError'')))"

definition assemble_app ::
  "'x app_params \<Rightarrow> ('x, 'k) app_world \<Rightarrow> settings \<Rightarrow> index_backend \<Rightarrow> exn + 'x app" where
  "assemble_app p w s idx =
     (case build_local_mcp_gateway (backend_retriever idx (pa_digest p) (pa_round6 p)) (st_mcp_tool_timeout_seconds s)
             (st_mcp_max_attempts s) (st_mcp_rate_limit s) (st_mcp_rate_window_seconds s) of
        Inl e \<Rightarrow> Inl e
      | Inr mcp \<Rightarrow>
     (case new_groundedness_evaluator (st_rag_groundedness_minimum_term_overlap s) of
        Inl e \<Rightarrow> Inl e
      | Inr overlap \<Rightarrow>
     (case aw_skills w of
        Inl e \<Rightarrow> Inl e
      | Inr skills \<Rightarrow>
     (case aw_tenants w of
        Inl e \<Rightarrow> Inl e
      | Inr tenants \<Rightarrow>
     (case identity_of (aw_jwt w) s tenants of
        Inl e \<Rightarrow> Inl e
      | Inr resolver \<Rightarrow>
     (case build_approval_store (aw_state w) (st_state_backend s) (st_state_database_path s) (st_state_connection_url s) of
        Inl e \<Rightarrow> Inl e
      | Inr approvals \<Rightarrow>
     (case new_operations (aw_allows w) (st_max_workflow_steps s) mock_classify
             (local_invoke (aw_sha256 w) (aw_round3 w) (aw_clock w)) of
        Inl e \<Rightarrow> Inl e
      | Inr operations \<Rightarrow>
     (case build_model_gateway (aw_models w) s (Some tenants) no_metrics of
        Inl e \<Rightarrow> Inl e
      | Inr gw \<Rightarrow>
          Inr \<lparr>ap_settings = s,
            ap_limiter = new_rate_limiter (st_rate_limit_requests s) (st_rate_limit_window_seconds s),
            ap_mcp = mcp, ap_index = idx, ap_rag = no_rag_metrics, ap_minimum_overlap = overlap,
            ap_skills = skills, ap_tenants = tenants, ap_resolver = resolver, ap_approvals = approvals,
            ap_operations = operations, ap_model_gateway = gw, ap_completions = (\<lambda>_. 0),
            ap_durations = (\<lambda>_. [])\<rparr>))))))))"

text \<open>Building the default index may not return (see Chunking); \<open>None\<close> stands for that.\<close>

definition create_app ::
  "'x app_params \<Rightarrow> ('x, 'k) app_world \<Rightarrow> settings \<Rightarrow> (exn + 'x app) option" where
  "create_app p w s =
     map_option (\<lambda>r. case r of Inl e \<Rightarrow> Inl e | Inr idx \<Rightarrow> assemble_app p w s idx)
       (build_index (aw_parse w) (pa_digest p) (aw_files w) (aw_search w) (aw_documents w) s)"

section \<open>The guards of a route\<close>

definition admit ::
  "string set \<Rightarrow> web_request \<Rightarrow> 'x app \<Rightarrow> (exn + principal \<times> request_identity) \<times> 'x app" where
  "admit required q a =
     (case get_principal (ap_settings a) (ap_resolver a) (wr_headers q) None of
        (Inl e, _) \<Rightarrow> (Inl e, a)
      | (Inr p, st) \<Rightarrow>
          (case enforce_rate_limit (wr_now q) p (ap_limiter a) of
             (Inl e, l) \<Rightarrow> (Inl e, a\<lparr>ap_limiter := l\<rparr>)
           | (Inr _, l) \<Rightarrow>
               ((case require_roles required p of Inl e \<Rightarrow> Inl e | Inr _ \<Rightarrow> Inr (p, st)),
                a\<lparr>ap_limiter := l\<rparr>)))"

definition admit_tenant ::
  "string set \<Rightarrow> web_request \<Rightarrow> 'x app \<Rightarrow> (exn + principal \<times> tenant_context) \<times> 'x app" where
  "admit_tenant required q a =
     (case admit required q a of
        (Inl e, a1) \<Rightarrow> (Inl e, a1)
      | (Inr (p, st), a1) \<Rightarrow>
          ((case get_tenant_context (ap_settings a) (ap_tenants a) (wr_headers q) st of
              Inl e \<Rightarrow> Inl e
            | Inr tc \<Rightarrow> Inr (p, tc)), a1))"

section \<open>Handlers\<close>

definition platform_info :: "web_request \<Rightarrow> 'x app \<Rightarrow> (exn + platform_info_response) \<times> 'x app" where
  "platform_info q a =
     (case admit {''platform.viewer''} q a of
        (Inl e, a1) \<Rightarrow> (Inl e, a1)
      | (Inr (p, _), a1) \<Rightarrow>
          (Inr \<lparr>pi_name = st_app_name (ap_settings a), pi_environment = st_app_env (ap_settings a),
             pi_authenticated_subject = p_subject p\<rparr>, a1))"

text \<open>The supervisor is that of the operations workflow's model and step limit.\<close>

definition route_workflow :: "string \<Rightarrow> web_request \<Rightarrow> 'x app \<Rightarrow> (exn + route_response) \<times> 'x app" where
  "route_workflow query q a =
     (case admit {''agent.invoke''} q a of
        (Inl e, a1) \<Rightarrow> (Inl e, a1)
      | (Inr _, a1) \<Rightarrow>
          (case new_route_request query of
             Inl e \<Rightarrow> (Inl e, a1)
           | Inr query' \<Rightarrow>
               let w = ap_operations a1; gw = ap_model_gateway a1 in
               (case supervisor_route (op_allows w) (op_max_steps w) (op_model w) query' (mgw_metrics gw) of
                  (Inl e, m) \<Rightarrow> (Inl e, a1\<lparr>ap_model_gateway := gw\<lparr>mgw_metrics := m\<rparr>\<rparr>)
                | (Inr r, m) \<Rightarrow>
                    (Inr \<lparr>rr_decision = sr_decision r, rr_steps = sr_steps r, rr_error_code = sr_error_code r\<rparr>,
                     a1\<lparr>ap_model_gateway := gw\<lparr>mgw_metrics := m\<rparr>\<rparr>))))"

text \<open>The roles under which the tools run: those of the principal and the tenant's entitlements.\<close>

definition document_scope :: "principal \<Rightarrow> tenant_context \<Rightarrow> string set" where
  "document_scope p tc = p_roles p \<union> tb_entitlements (tc_bundle tc)"

text \<open>\<open>create_pending\<close> on the store in use, when the result asks for a human.\<close>

definition request_approval ::
  "'x app_params \<Rightarrow> string \<Rightarrow> string \<Rightarrow> string \<Rightarrow> web_request \<Rightarrow> 'x open_store
    \<Rightarrow> (exn + string) \<times> 'x open_store" where
  "request_approval p requester query tenant q st =
     (case store_step (pa_store p)
             (CreatePending (wr_uid q) (wr_stamp q) (wr_request_id q) requester query tenant) st of
        (Inl e, st1) \<Rightarrow> (Inl e, st1)
      | (Inr (Recorded r), st1) \<Rightarrow> (Inr (ar_approval_id r), st1)
      | (Inr _, st1) \<Rightarrow> (Inl (OtherException ''AttributeError''), st1))"

definition bool_text :: "bool \<Rightarrow> string" where
  "bool_text b = (if b then ''true'' else ''false'')"

definition completed :: "string \<Rightarrow> operations_result \<Rightarrow> web_request \<Rightarrow> 'x app \<Rightarrow> 'x app" where
  "completed tenant res q a =
     (let r = or_result res; route = route_name (rd_route (or_decision res)) in
      a\<lparr>ap_completions := inc [tenant, route, agent_text (rs_agent r), bool_text (rs_requires_human_approval r),
           safe_error_code (Some (case rs_error_code r of None \<Rightarrow> ''none'' | Some c \<Rightarrow> if c = [] then ''none'' else c))]
           (ap_completions a),
        ap_durations := observe [tenant, route] (wr_elapsed q) (ap_durations a)\<rparr>)"

definition run_operations ::
  "string \<Rightarrow> string \<Rightarrow> string set \<Rightarrow> web_request \<Rightarrow> 'x app \<Rightarrow> (exn + operations_result) \<times> 'x app" where
  "run_operations query subject roles q a =
     (case operations_investigate (ap_operations a) query subject roles (wr_request_id q)
             (ap_mcp a, mgw_metrics (ap_model_gateway a)) of
        (r, g, m) \<Rightarrow> (r, a\<lparr>ap_mcp := g, ap_model_gateway := (ap_model_gateway a)\<lparr>mgw_metrics := m\<rparr>\<rparr>))"

definition investigate_for ::
  "'x app_params \<Rightarrow> string \<Rightarrow> principal \<Rightarrow> tenant_context \<Rightarrow> web_request \<Rightarrow> 'x app
    \<Rightarrow> (exn + investigation_response) \<times> 'x app" where
  "investigate_for p query who tc q a =
     (case run_operations query (p_subject who) (document_scope who tc) q a of
        (Inl e, a2) \<Rightarrow> (Inl e, a2)
      | (Inr res, a2) \<Rightarrow>
          (case (if rs_requires_human_approval (or_result res)
                 then map_prod (map_sum id Some) id
                   (request_approval p (p_subject who) query (tc_tenant tc) q (ap_approvals a2))
                 else (Inr None, ap_approvals a2)) of
             (Inl e, st) \<Rightarrow> (Inl e, a2\<lparr>ap_approvals := st\<rparr>)
           | (Inr approval_id, st) \<Rightarrow>
               (Inr \<lparr>ir_decision = or_decision res, ir_result = or_result res, ir_steps = or_steps res,
                  ir_approval_id = approval_id\<rparr>,
                completed (tc_tenant tc) res q (a2\<lparr>ap_approvals := st\<rparr>))))"

definition investigate_workflow ::
  "'x app_params \<Rightarrow> string \<Rightarrow> web_request \<Rightarrow> 'x app \<Rightarrow> (exn + investigation_response) \<times> 'x app" where
  "investigate_workflow p query q a =
     (case admit_tenant {''agent.invoke''} q a of
        (Inl e, a1) \<Rightarrow> (Inl e, a1)
      | (Inr (who, tc), a1) \<Rightarrow>
          (case new_route_request query of
             Inl e \<Rightarrow> (Inl e, a1)
           | Inr query' \<Rightarrow> investigate_for p query' who tc q a1))"

definition list_skills :: "web_request \<Rightarrow> 'x app \<Rightarrow> (exn + skill_definition list) \<times> 'x app" where
  "list_skills q a =
     (case admit_tenant {''platform.viewer''} q a of
        (Inl e, a1) \<Rightarrow> (Inl e, a1)
      | (Inr (_, tc), a1) \<Rightarrow>
          (Inr (filter (\<lambda>d. sd_name d \<in> tb_allowed_skills (tc_bundle tc)) (list_approved (ap_skills a1))), a1))"

text \<open>The \<open>except\<close> clauses of the two handlers that call the model gateway.\<close>

fun gateway_error :: "exn \<Rightarrow> exn" where
  "gateway_error (ModelNotAllowed m) = HTTPException 403 m []"
| "gateway_error (ModelBudgetExceeded m) = HTTPException 403 m []"
| "gateway_error (PiiBlockedError m types) = HTTPException 400 m []"
| "gateway_error (ContentSafetyBlockedError m findings) = HTTPException 400 m []"
| "gateway_error (ModelProviderFailure m) = HTTPException 503 ''The model provider is currently unavailable'' []"
| "gateway_error e = e"

definition generate_for ::
  "generate_payload \<Rightarrow> string \<Rightarrow> web_request \<Rightarrow> 'x app \<Rightarrow> (exn + generate_response) \<times> 'x app" where
  "generate_for payload tenant q a =
     (case new_generate_request payload of
        Inl e \<Rightarrow> (Inl e, a)
      | Inr (model, messages) \<Rightarrow>
          (case new_generation_request model messages tenant ''model-gateway-api''
                  (gp_max_tokens payload) (gp_temperature payload) of
             Inl e \<Rightarrow> (Inl e, a)
           | Inr gq \<Rightarrow>
               (case generate (wr_generation q) gq (ap_model_gateway a) of
                  (Inl e, gw) \<Rightarrow> (Inl (gateway_error e), a\<lparr>ap_model_gateway := gw\<rparr>)
                | (Inr r, gw) \<Rightarrow>
                    (Inr \<lparr>gn_content = gs_content r, gn_model = gs_model r, gn_provider = gs_provider r,
                       gn_usage = gs_usage r, gn_estimated_cost_gbp = gs_estimated_cost_gbp r,
                       gn_finish_reason = gs_finish_reason r\<rparr>, a\<lparr>ap_model_gateway := gw\<rparr>))))"

definition generate_route ::
  "generate_payload \<Rightarrow> web_request \<Rightarrow> 'x app \<Rightarrow> (exn + generate_response) \<times> 'x app" where
  "generate_route payload q a =
     (case admit_tenant {''agent.invoke''} q a of
        (Inl e, a1) \<Rightarrow> (Inl e, a1)
      | (Inr (_, tc), a1) \<Rightarrow> generate_for payload (tc_tenant tc) q a1)"

text \<open>Retrieval under the tenant's entitlements, the synthesis and its evaluation.\<close>

definition retrieve_for ::
  "'x app_params \<Rightarrow> string \<Rightarrow> tenant_context \<Rightarrow> 'x app \<Rightarrow> (exn + retrieval_result) \<times> 'x app" where
  "retrieve_for p query tc a =
     (case retrieve (backend_search (ap_index a)) (embed_text (pa_digest p) 256) (pa_round6 p) query
             (tb_entitlements (tc_bundle tc)) 3 (ap_rag a) of
        (r, m) \<Rightarrow> (r, a\<lparr>ap_rag := m\<rparr>))"

definition synthesize_for ::
  "string \<Rightarrow> retrieval_result \<Rightarrow> string \<Rightarrow> web_request \<Rightarrow> 'x app \<Rightarrow> (exn + string) \<times> 'x app" where
  "synthesize_for query evidence tenant q a =
     (case synthesize_grounded_answer (wr_generation q) (st_rag_synthesis_model (ap_settings a)) query evidence
             tenant (ap_model_gateway a) of
        (r, gw) \<Rightarrow> (r, a\<lparr>ap_model_gateway := gw\<rparr>))"

definition rag_answer_for ::
  "'x app_params \<Rightarrow> string \<Rightarrow> tenant_context \<Rightarrow> web_request \<Rightarrow> 'x app \<Rightarrow> (exn + rag_answer_response) \<times> 'x app" where
  "rag_answer_for p query tc q a =
     (case retrieve_for p query tc a of
        (Inl e, a2) \<Rightarrow> (Inl e, a2)
      | (Inr evidence, a2) \<Rightarrow>
          (case synthesize_for query evidence (tc_tenant tc) q a2 of
             (Inl e, a3) \<Rightarrow> (Inl (gateway_error e), a3)
           | (Inr answer, a3) \<Rightarrow>
               (case evaluate_groundedness (pa_round4 p) (ap_minimum_overlap a3) answer evidence of
                  Inl e \<Rightarrow> (Inl e, a3)
                | Inr report \<Rightarrow>
                    (Inr \<lparr>ra_answer = answer, ra_citations = map rh_citation evidence, ra_report = report\<rparr>, a3))))"

definition rag_answer ::
  "'x app_params \<Rightarrow> string \<Rightarrow> web_request \<Rightarrow> 'x app \<Rightarrow> (exn + rag_answer_response) \<times> 'x app" where
  "rag_answer p query q a =
     (case admit_tenant {''agent.invoke''} q a of
        (Inl e, a1) \<Rightarrow> (Inl e, a1)
      | (Inr (_, tc), a1) \<Rightarrow>
          (case new_rag_answer_request query of
             Inl e \<Rightarrow> (Inl e, a1)
           | Inr query' \<Rightarrow> rag_answer_for p query' tc q a1))"

end
