(* ===== verification/Demo.thy ===== *)
theory Demo
  imports App
begin

text \<open>
  The browser demonstration of gateway/app.py: the pages, which are text with escaped values, and the
  two form handlers.  They authenticate nobody; a request runs as a fixed principal for the tenant the
  form names, behind a rate limit per source address.  FastAPI reads an empty form field as a missing
  one.

  A page has characters outside the modelled range in one place, the dash of its headings, which is a
  parameter; so is the formatting of a score with two decimals.
\<close>

section \<open>Text\<close>

text \<open>\<open>html.escape\<close>.\<close>

fun escape_char :: "char \<Rightarrow> string" where
  "escape_char c =
     (if c = CHR 0x26 then ''&amp;'' else if c = CHR 0x3C then ''&lt;'' else if c = CHR 0x3E then ''&gt;''
      else if c = CHR 0x22 then ''&quot;'' else if c = CHR 0x27 then ''&#x27;'' else [c])"

definition html_escape :: "string \<Rightarrow> string" where
  "html_escape s = concat (map escape_char s)"

definition quoted :: "string \<Rightarrow> string" where
  "quoted s = [CHR 0x22] @ s @ [CHR 0x22]"

definition py_bool :: "bool \<Rightarrow> string" where
  "py_bool b = (if b then ''True'' else ''False'')"

record page_text =
  pg_dash :: string
  pg_two_decimals :: "real \<Rightarrow> string"

section \<open>The pages\<close>

definition demo_principal :: principal where
  "demo_principal = \<lparr>p_subject = ''browser-demo'', p_roles = {''agent.invoke''}\<rparr>"

definition demo_tenant_options :: "tenant_registry \<Rightarrow> string" where
  "demo_tenant_options r =
     concat (map (\<lambda>name. ''<option value='' @ quoted (html_escape name) @ ''>'' @ html_escape name @ ''</option>'')
       (sorted_set (map fst r)))"

definition demo_tenant :: "tenant_registry \<Rightarrow> string \<Rightarrow> exn + tenant_context" where
  "demo_tenant r tenant =
     (case tr_get r tenant of
        Inl (UnknownTenantError m) \<Rightarrow> Inl (HTTPException 400 m [])
      | Inl e \<Rightarrow> Inl e
      | Inr bundle \<Rightarrow> Inr \<lparr>tc_tenant = tenant, tc_bundle = bundle\<rparr>)"

definition demo_form :: "string \<Rightarrow> string \<Rightarrow> string \<Rightarrow> string \<Rightarrow> string list" where
  "demo_form action options example button =
     [''<form method='' @ quoted ''post'' @ '' action='' @ quoted action @ ''>'',
      ''  <label>Tenant: <select name='' @ quoted ''tenant'' @ ''>'' @ options @ ''</select></label>'',
      ''  <label>Query:'',
      ''    <input type='' @ quoted ''text'' @ '' name='' @ quoted ''query'' @ '' size='' @ quoted ''60'',
      ''           value='' @ quoted example @ ''>'',
      ''  </label>'',
      ''  <button type='' @ quoted ''submit'' @ ''>'' @ button @ ''</button>'',
      ''</form>'']"

definition demo_page :: "page_text \<Rightarrow> 'x app \<Rightarrow> string \<Rightarrow> string" where
  "demo_page t a result_html =
     (let prefix = st_api_prefix (ap_settings a); tenant_options = demo_tenant_options (ap_tenants a) in
      join newline
        ([''<!doctype html>'', ''<html lang='' @ quoted ''en'' @ ''>'',
          ''<head><meta charset='' @ quoted ''utf-8'' @ ''><title>NovaBank AI Agent Platform '' @ pg_dash t @
            '' Demo</title></head>'',
          ''<body>'', ''<h1>NovaBank AI Agent Platform '' @ pg_dash t @ '' Live Demo</h1>'',
          ''<p>Synthetic data only. Requests here run as a fixed demo user identity'',
          ''(subject=browser-demo, roles=agent.invoke) acting on behalf of whichever'',
          ''tenant you pick below; access to this deployment is controlled by IP'',
          ''restriction, not this form. Switching the tenant changes what the same'',
          ''question can retrieve '' @ pg_dash t @ '' that isolation is enforced server-side, not by'',
          ''this form hiding options.</p>'', [], ''<h2>Investigate a customer</h2>''] @
         demo_form (prefix @ ''/demo/investigate'') tenant_options
           ''Look up account status for customer CUST-1098'' ''Investigate'' @
         [[], ''<h2>Ask a policy question</h2>''] @
         demo_form (prefix @ ''/demo/rag'') tenant_options
           ''What is required before a refund above GBP 100 can be approved?'' ''Ask'' @
         [[], result_html, ''</body>'', ''</html>'']))"

fun source_text :: "source_type \<Rightarrow> string" where
  "source_text CustomerSource = ''customer''"
| "source_text AccountSource = ''account''"
| "source_text TransactionSource = ''transaction''"
| "source_text PolicySource = ''policy''"

definition evidence_item :: "evidence \<Rightarrow> string" where
  "evidence_item e =
     ''<li>'' @ html_escape (ev_source_id e) @ '' ('' @ html_escape (source_text (ev_source_type e)) @ ''): '' @
     html_escape (ev_detail e) @ ''</li>''"

definition investigation_html :: "page_text \<Rightarrow> operations_result \<Rightarrow> string" where
  "investigation_html t res =
     join newline
       [[], ''<h2>Result</h2>'',
        ''<p><b>Route:</b> '' @ html_escape (route_name (rd_route (or_decision res))),
        ''   '' @ pg_dash t @ '' '' @ html_escape (rd_reason (or_decision res)) @ ''</p>'',
        ''<p><b>Agent:</b> '' @ html_escape (agent_text (rs_agent (or_result res))) @ ''</p>'',
        ''<p><b>Summary:</b> '' @ html_escape (rs_summary (or_result res)) @ ''</p>'',
        ''<ul>'' @ concat (map evidence_item (rs_evidence (or_result res))) @ ''</ul>'',
        ''<p><b>Requires human approval:</b> '' @ py_bool (rs_requires_human_approval (or_result res)) @ ''</p>'', []]"

definition no_visible_text :: "page_text \<Rightarrow> string" where
  "no_visible_text t =
     ''<i>(the model returned no visible text '' @ pg_dash t @ '' its response budget was '' @
     ''spent on internal reasoning; see docs/portfolio/live-verification.md)</i>''"

definition citation_item :: "retrieval_hit \<Rightarrow> string" where
  "citation_item h = ''<li>'' @ html_escape (ci_chunk_id (rh_citation h)) @ ''</li>''"

definition answer_html :: "page_text \<Rightarrow> string \<Rightarrow> retrieval_result \<Rightarrow> groundedness_report \<Rightarrow> string" where
  "answer_html t answer evidence report =
     join newline
       [[], ''<h2>Answer</h2>'',
        ''<p>'' @ (if html_escape answer = [] then no_visible_text t else html_escape answer) @ ''</p>'',
        ''<p><b>Grounded:</b> '' @ py_bool (gr_is_grounded report),
        ''   (term overlap '' @ pg_two_decimals t (gr_term_overlap_score report) @ '')</p>'',
        ''<ul>'' @ concat (map citation_item evidence) @ ''</ul>'', []]"

definition blocked_html :: "string \<Rightarrow> string" where
  "blocked_html message = ''<h2>Blocked</h2><p>'' @ html_escape message @ ''</p>''"

section \<open>The handlers\<close>

definition admit_demo :: "string option \<Rightarrow> web_request \<Rightarrow> 'x app \<Rightarrow> (exn + unit) \<times> 'x app" where
  "admit_demo client_host q a =
     (case enforce_demo_rate_limit (wr_now q) client_host (ap_limiter a) of
        (r, l) \<Rightarrow> (r, a\<lparr>ap_limiter := l\<rparr>))"

definition demo_investigate_for ::
  "'x app_params \<Rightarrow> page_text \<Rightarrow> string \<Rightarrow> tenant_context \<Rightarrow> web_request \<Rightarrow> 'x app \<Rightarrow> (exn + string) \<times> 'x app" where
  "demo_investigate_for p t query tc q a =
     (case run_operations query (p_subject demo_principal) (document_scope demo_principal tc) q a of
        (Inl e, a2) \<Rightarrow> (Inl e, a2)
      | (Inr res, a2) \<Rightarrow>
          (case (if rs_requires_human_approval (or_result res)
                 then map_prod (map_sum id (\<lambda>_. ())) id
                   (request_approval p (p_subject demo_principal) query (tc_tenant tc) q (ap_approvals a2))
                 else (Inr (), ap_approvals a2)) of
             (Inl e, st) \<Rightarrow> (Inl e, a2\<lparr>ap_approvals := st\<rparr>)
           | (Inr _, st) \<Rightarrow>
               (Inr (demo_page t a2 (investigation_html t res)), a2\<lparr>ap_approvals := st\<rparr>)))"

definition demo_investigate ::
  "'x app_params \<Rightarrow> page_text \<Rightarrow> string option \<Rightarrow> string \<Rightarrow> string \<Rightarrow> web_request \<Rightarrow> 'x app
    \<Rightarrow> (exn + string) \<times> 'x app" where
  "demo_investigate p t client_host query tenant q a =
     (case admit_demo client_host q a of
        (Inl e, a1) \<Rightarrow> (Inl e, a1)
      | (Inr _, a1) \<Rightarrow>
          if query = [] \<or> tenant = [] then (Inl request_invalid, a1)
          else (case demo_tenant (ap_tenants a1) tenant of
                  Inl e \<Rightarrow> (Inl e, a1)
                | Inr tc \<Rightarrow> demo_investigate_for p t query tc q a1))"

text \<open>The message of the exceptions that the \<open>except\<close> clause of \<open>demo_rag\<close> names.\<close>

fun blocked_message :: "exn \<Rightarrow> string option" where
  "blocked_message (ModelNotAllowed m) = Some m"
| "blocked_message (ModelBudgetExceeded m) = Some m"
| "blocked_message (PiiBlockedError m types) = Some m"
| "blocked_message (ContentSafetyBlockedError m findings) = Some m"
| "blocked_message (ModelProviderFailure m) = Some m"
| "blocked_message e = None"

definition demo_rag_for ::
  "'x app_params \<Rightarrow> page_text \<Rightarrow> string \<Rightarrow> tenant_context \<Rightarrow> web_request \<Rightarrow> 'x app \<Rightarrow> (exn + string) \<times> 'x app" where
  "demo_rag_for p t query tc q a =
     (case retrieve_for p query tc a of
        (Inl e, a2) \<Rightarrow> (Inl e, a2)
      | (Inr evidence, a2) \<Rightarrow>
          (case synthesize_for query evidence (tc_tenant tc) q a2 of
             (Inl e, a3) \<Rightarrow>
               ((case blocked_message e of
                   None \<Rightarrow> Inl e
                 | Some m \<Rightarrow> Inr (demo_page t a3 (blocked_html m))), a3)
           | (Inr answer, a3) \<Rightarrow>
               (case evaluate_groundedness (pa_round4 p) (ap_minimum_overlap a3) answer evidence of
                  Inl e \<Rightarrow> (Inl e, a3)
                | Inr report \<Rightarrow> (Inr (demo_page t a3 (answer_html t answer evidence report)), a3))))"

definition demo_rag ::
  "'x app_params \<Rightarrow> page_text \<Rightarrow> string option \<Rightarrow> string \<Rightarrow> string \<Rightarrow> web_request \<Rightarrow> 'x app
    \<Rightarrow> (exn + string) \<times> 'x app" where
  "demo_rag p t client_host query tenant q a =
     (case admit_demo client_host q a of
        (Inl e, a1) \<Rightarrow> (Inl e, a1)
      | (Inr _, a1) \<Rightarrow>
          if query = [] \<or> tenant = [] then (Inl request_invalid, a1)
          else (case demo_tenant (ap_tenants a1) tenant of
                  Inl e \<Rightarrow> (Inl e, a1)
                | Inr tc \<Rightarrow> demo_rag_for p t query tc q a1))"

section \<open>Data never becomes markup\<close>

text \<open>The characters of a page that can open or close a tag or an attribute value.\<close>

definition markup_char :: "char \<Rightarrow> bool" where
  "markup_char c \<longleftrightarrow> c = CHR 0x3C \<or> c = CHR 0x3E \<or> c = CHR 0x22 \<or> c = CHR 0x27"

definition markup :: "string \<Rightarrow> string" where
  "markup s = filter markup_char s"

named_theorems markup_rules "how markup goes through the pages"

lemma markup_append [markup_rules]: "markup (x @ y) = markup x @ markup y"
  by (simp add: markup_def)

lemma markup_join [markup_rules]: "markup (join sep ws) = join (markup sep) (map markup ws)"
  by (induction sep ws rule: join.induct) (simp_all add: markup_def)

lemma markup_escape [markup_rules]: "markup (html_escape s) = []"
proof -
  have "filter markup_char (escape_char c) = []" for c by (simp add: markup_char_def)
  then show ?thesis
    by (induction s) (simp_all add: markup_def html_escape_def del: escape_char.simps)
qed

lemma markup_bool [markup_rules]: "markup (py_bool b) = []"
  by (simp add: py_bool_def markup_def markup_char_def)

lemma markup_route [markup_rules]: "markup (if c then x else y) = (if c then markup x else markup y)"
  by simp

lemma markup_concat: "markup (concat ws) = concat (map markup ws)"
  by (induction ws) (simp_all add: markup_def)

text \<open>Every list item has the same markup, whatever it shows.\<close>

lemma markup_items:
  assumes "\<And>x y. markup (f x) = markup (f y)" and "length xs = length ys"
  shows "markup (concat (map f xs)) = markup (concat (map f ys))"
  using assms(2)
proof (induction xs ys rule: list_induct2)
  case (Cons x xs y ys)
  then show ?case using assms(1)[of x y] by (simp add: markup_append)
qed simp

lemma markup_evidence_item: "markup (evidence_item e) = markup (evidence_item e')"
  by (simp only: evidence_item_def markup_rules append_Nil)

lemma markup_citation_item: "markup (citation_item h) = markup (citation_item h')"
  by (simp only: citation_item_def markup_rules append_Nil)

lemma markup_demo_page: "markup h = markup h' \<Longrightarrow> markup (demo_page t a h) = markup (demo_page t a h')"
  by (simp only: demo_page_def Let_def markup_rules map_append list.map)

lemma markup_investigation:
  assumes "length (rs_evidence (or_result x)) = length (rs_evidence (or_result y))"
  shows "markup (investigation_html t x) = markup (investigation_html t y)"
  by (simp only: investigation_html_def markup_rules list.map
      markup_items[of evidence_item, OF markup_evidence_item assms])

lemma html_escape_Nil [simp]: "html_escape s = [] \<longleftrightarrow> s = []"
  by (cases s) (simp_all add: html_escape_def)

lemma markup_answer:
  assumes "length evidence = length evidence'" and "(answer = []) = (answer' = [])"
    and "\<And>v. markup (pg_two_decimals t v) = []"
  shows "markup (answer_html t answer evidence report) = markup (answer_html t answer' evidence' report')"
  by (simp only: answer_html_def markup_rules list.map html_escape_Nil assms(2,3)
      markup_items[of citation_item, OF markup_citation_item assms(1)])

text \<open>C26: what a page of the demonstration shows never adds markup to it.  The tags and quotes of the
  page are the same for any two results with as many items, for any two answers that are both empty
  or both not, and for any two messages of a blocked request.\<close>

theorem demo_pages_escape:
  assumes "\<And>v. markup (pg_two_decimals t v) = []"
    and "length (rs_evidence (or_result x)) = length (rs_evidence (or_result y))"
    and "length evidence = length evidence'" and "(answer = []) = (answer' = [])"
  shows "markup (demo_page t a (investigation_html t x)) = markup (demo_page t a (investigation_html t y)) \<and>
    markup (demo_page t a (answer_html t answer evidence report)) =
      markup (demo_page t a (answer_html t answer' evidence' report')) \<and>
    markup (demo_page t a (blocked_html message)) = markup (demo_page t a (blocked_html message'))"
proof (intro conjI)
  show "markup (demo_page t a (blocked_html message)) = markup (demo_page t a (blocked_html message'))"
    by (rule markup_demo_page) (simp only: blocked_html_def markup_rules)
qed (intro markup_demo_page markup_investigation markup_answer assms)+

end
