(* ===== verification/AppSafety.thy ===== *)
theory AppSafety
  imports Demo
begin

text \<open>
  What holds of the whole application: \<open>handle\<close> is the routing table over the handlers of App.thy and
  Demo.thy, \<open>reachable\<close> the states of an application that \<open>create_app\<close> built and that has served any
  requests.  \<open>app_inv\<close> is the invariant of these states; \<open>touched\<close> says what a request for one tenant
  leaves alone.
\<close>

section \<open>Requests of all routes\<close>

datatype web_call =
    GetInfo
  | PostRoute string
  | PostInvestigate string
  | GetSkills
  | PostGenerate generate_payload
  | PostAnswer string
  | GetDemo
  | PostDemoInvestigate "string option" string string
  | PostDemoRag "string option" string string

datatype web_response =
    InfoReply platform_info_response
  | RouteReply route_response
  | InvestigationReply investigation_response
  | SkillsReply "skill_definition list"
  | GenerateReply generate_response
  | AnswerReply rag_answer_response
  | PageReply string

fun handle ::
  "'x app_params \<Rightarrow> page_text \<Rightarrow> web_call \<Rightarrow> web_request \<Rightarrow> 'x app \<Rightarrow> (exn + web_response) \<times> 'x app" where
  "handle p t GetInfo q a = map_prod (map_sum id InfoReply) id (platform_info q a)"
| "handle p t (PostRoute query) q a = map_prod (map_sum id RouteReply) id (route_workflow query q a)"
| "handle p t (PostInvestigate query) q a =
     map_prod (map_sum id InvestigationReply) id (investigate_workflow p query q a)"
| "handle p t GetSkills q a = map_prod (map_sum id SkillsReply) id (list_skills q a)"
| "handle p t (PostGenerate payload) q a = map_prod (map_sum id GenerateReply) id (generate_route payload q a)"
| "handle p t (PostAnswer query) q a = map_prod (map_sum id AnswerReply) id (rag_answer p query q a)"
| "handle p t GetDemo q a = (Inr (PageReply (demo_page t a [])), a)"
| "handle p t (PostDemoInvestigate host query tenant) q a =
     map_prod (map_sum id PageReply) id (demo_investigate p t host query tenant q a)"
| "handle p t (PostDemoRag host query tenant) q a =
     map_prod (map_sum id PageReply) id (demo_rag p t host query tenant q a)"

definition tenant_of :: "web_request \<Rightarrow> 'x app \<Rightarrow> string option" where
  "tenant_of q a =
     (case authenticate (ap_settings a) (ap_resolver a) (ap_tenants a) (wr_headers q) of
        Inl e \<Rightarrow> None
      | Inr (who, tc) \<Rightarrow> Some (tc_tenant tc))"

text \<open>The tenant for which a request acts, if it acts for one.\<close>

fun acts_for :: "web_call \<Rightarrow> web_request \<Rightarrow> 'x app \<Rightarrow> string option" where
  "acts_for GetInfo q a = None"
| "acts_for (PostRoute query) q a = None"
| "acts_for (PostInvestigate query) q a = tenant_of q a"
| "acts_for GetSkills q a = None"
| "acts_for (PostGenerate payload) q a = tenant_of q a"
| "acts_for (PostAnswer query) q a = tenant_of q a"
| "acts_for GetDemo q a = None"
| "acts_for (PostDemoInvestigate host query tenant) q a = Some tenant"
| "acts_for (PostDemoRag host query tenant) q a = Some tenant"

text \<open>The uuid and the time a request draws are ones that every backend takes, and digests have 64
  characters.\<close>

definition request_usable :: "'x app_params \<Rightarrow> web_request \<Rightarrow> bool" where
  "request_usable p q \<longleftrightarrow>
     ts_valid (wr_stamp q) \<and> sp_canon (pa_store p) (wr_uid q) = Some (wr_uid q) \<and> good_id (wr_uid q) \<and>
     (\<forall>s. length (sp_sha256 (pa_store p) s) = 64)"

text \<open>What startup finds: an empty state, a search service as documented whose documents ingestion put
  there, and the tenants of a registry of valid bundles.\<close>

definition world_ok :: "('x, 'k) app_world \<Rightarrow> bool" where
  "world_ok w \<longleftrightarrow> empty_world (aw_state w) \<and> service_documented (aw_search w) \<and>
     (\<forall>d\<in>set (aw_documents w). ad_allowed_roles d \<subseteq> set known_chunk_roles \<and> (\<exists>c. d = azure_document_of c)) \<and>
     (\<forall>r. aw_tenants w = Inr r \<longrightarrow> registry_wf r \<and> list_all (\<lambda>(n, b). bundle_valid b) r)"

inductive reachable ::
  "'x app_params \<Rightarrow> page_text \<Rightarrow> ('x, 'k) app_world \<Rightarrow> settings \<Rightarrow> 'x app \<Rightarrow> bool"
  for p t w s where
  started: "create_app p w s = Some (Inr a) \<Longrightarrow> reachable p t w s a"
| served: "reachable p t w s a \<Longrightarrow> request_usable p q \<Longrightarrow> handle p t c q a = (r, a') \<Longrightarrow>
    reachable p t w s a'"

section \<open>The invariant\<close>

definition app_inv :: "'x app_params \<Rightarrow> 'x app \<Rightarrow> bool" where
  "app_inv p a \<longleftrightarrow>
     store_inv (pa_store p) (ap_approvals a) \<and>
     local_good (backend_retriever (ap_index a) (pa_digest p) (pa_round6 p)) (ap_mcp a) \<and>
     (\<exists>sha256 round3 clock. op_call (ap_operations a) = local_invoke sha256 round3 clock) \<and>
     op_model (ap_operations a) = mock_classify \<and>
     backend_inv (ap_index a) \<and>
     registry_wf (ap_tenants a) \<and> list_all (\<lambda>(n, b). bundle_valid b) (ap_tenants a)"

definition content :: "'x app_params \<Rightarrow> 'x app \<Rightarrow> approvals" where
  "content p a = store_content (pa_store p) (ap_approvals a)"

definition ledger :: "'x app \<Rightarrow> string \<Rightarrow> charge list" where
  "ledger a = bp_spend (mgw_budget (ap_model_gateway a))"

text \<open>The parts of an application that no request changes.\<close>

definition same_app :: "'x app \<Rightarrow> 'x app \<Rightarrow> bool" where
  "same_app a a' \<longleftrightarrow> ap_settings a' = ap_settings a \<and> ap_index a' = ap_index a \<and>
     ap_minimum_overlap a' = ap_minimum_overlap a \<and> ap_skills a' = ap_skills a \<and>
     ap_tenants a' = ap_tenants a \<and> ap_resolver a' = ap_resolver a \<and> ap_operations a' = ap_operations a"

definition touched :: "'x app_params \<Rightarrow> string option \<Rightarrow> 'x app \<Rightarrow> 'x app \<Rightarrow> bool" where
  "touched p t a a' \<longleftrightarrow> same_app a a' \<and> (app_inv p a \<longrightarrow> app_inv p a') \<and>
     (\<forall>u. t \<noteq> Some u \<longrightarrow> ledger a' u = ledger a u \<and>
        (\<forall>i. visible_to u (content p a') i = visible_to u (content p a) i))"

lemma touched_refl [simp]: "touched p t a a"
  by (simp add: touched_def same_app_def)

lemma touched_trans: "touched p t a b \<Longrightarrow> touched p t b c \<Longrightarrow> touched p t a c"
  by (auto simp: touched_def same_app_def)

lemma touched_None: "touched p None a b \<Longrightarrow> touched p t a b"
  by (auto simp: touched_def)

text \<open>A change of the limiter or of metrics touches nobody.\<close>

lemma touched_plain [simp]:
  "touched p t a (a\<lparr>ap_limiter := l\<rparr>)"
  "touched p t a (a\<lparr>ap_rag := m\<rparr>)"
  "touched p t a (a\<lparr>ap_model_gateway := (ap_model_gateway a)\<lparr>mgw_metrics := gm\<rparr>\<rparr>)"
  "touched p t a (a\<lparr>ap_completions := cs, ap_durations := ds\<rparr>)"
  by (simp_all add: touched_def same_app_def app_inv_def content_def ledger_def)

lemma touched_completed [simp]: "touched p t a (completed tenant res q a)"
  by (simp add: completed_def Let_def)

section \<open>Admission\<close>

lemma admit_touched: "admit required q a = (r, a1) \<Longrightarrow> touched p t a a1"
  by (auto simp: admit_def split: prod.splits sum.splits)

lemma admit_Inr:
  assumes "admit required q a = (Inr (who, st), a1)"
  shows "get_principal (ap_settings a) (ap_resolver a) (wr_headers q) None = (Inr who, st) \<and>
    required \<subseteq> p_roles who \<and> enforce_rate_limit (wr_now q) who (ap_limiter a) = (Inr who, ap_limiter a1) \<and>
    a1 = a\<lparr>ap_limiter := ap_limiter a1\<rparr>"
  using assms
  by (auto simp: admit_def require_roles_def enforce_rate_limit_def split: prod.splits sum.splits if_splits)

lemma admit_tenant_touched: "admit_tenant required q a = (r, a1) \<Longrightarrow> touched p t a a1"
  by (auto simp: admit_tenant_def split: prod.splits sum.splits dest: admit_touched)

lemma admit_tenant_Inr:
  assumes "admit_tenant required q a = (Inr (who, tc), a1)"
  shows "authenticate (ap_settings a) (ap_resolver a) (ap_tenants a) (wr_headers q) = Inr (who, tc) \<and>
    required \<subseteq> p_roles who \<and> enforce_rate_limit (wr_now q) who (ap_limiter a) = (Inr who, ap_limiter a1) \<and>
    a1 = a\<lparr>ap_limiter := ap_limiter a1\<rparr>"
proof -
  obtain st where ad: "admit required q a = (Inr (who, st), a1)"
    and ctx: "get_tenant_context (ap_settings a) (ap_tenants a) (wr_headers q) st = Inr tc"
    using assms by (auto simp: admit_tenant_def split: prod.splits sum.splits)
  from admit_Inr[OF ad] ctx show ?thesis by (simp add: authenticate_def)
qed

section \<open>What the calls of a handler touch\<close>

lemma ledger_generate:
  assumes "generate env gq gw = (r, gw')" and "u \<noteq> gq_tenant gq"
  shows "bp_spend (mgw_budget gw') u = bp_spend (mgw_budget gw) u"
proof -
  have c: "bp_spend (snd (check_and_reserve sg now t x b)) u = bp_spend b u" if "u \<noteq> t" for sg now t x b
    using that by (simp add: check_and_reserve_def Let_def split: sum.splits)
  have r: "mgw_budget (snd (generate_reserved env gq sq b m gw)) = b" for sq b m
    by (auto simp: generate_reserved_def split: prod.splits sum.splits)
  have s: "bp_spend (mgw_budget (snd (generate_sanitized env gq sq m gw))) u = bp_spend (mgw_budget gw) u" for sq m
    using c[OF assms(2)] r
    by (auto simp: generate_sanitized_def split: prod.splits sum.splits) (metis snd_conv)+
  show ?thesis
    using assms(1) s by (auto simp: generate_def split: prod.splits sum.splits) (metis snd_conv)
qed

lemma touched_gateway:
  assumes "\<And>u. t \<noteq> Some u \<Longrightarrow> bp_spend (mgw_budget gw) u = ledger a u"
  shows "touched p t a (a\<lparr>ap_model_gateway := gw\<rparr>)"
  using assms by (simp add: touched_def same_app_def app_inv_def content_def ledger_def)

lemma plain_name:
  assumes "full_match (slug_pattern 2 63) n"
  shows "field_strip n = n"
proof -
  have "\<not> slug_char c" if "is_white_space c" for c
    using that by (auto simp: is_white_space_def slug_char_def is_lower_az_def is_digit_def code_def Let_def)
  then have "drawn_from (\<lambda>c. \<not> is_white_space c) (slug_pattern 2 63)"
    by (auto simp: slug_pattern_def slug_char_def)
  from full_match_drawn[OF this assms] have n: "list_all (\<lambda>c. \<not> is_white_space c) n" .
  moreover from this have "list_all (\<lambda>c. \<not> is_white_space c) (rev n)" by (simp add: list_all_iff)
  moreover have "dropWhile P m = m" if "list_all (\<lambda>c. \<not> P c) m" for P :: "char \<Rightarrow> bool" and m
    using that by (cases m) simp_all
  ultimately have "dropWhile is_white_space n = n" "dropWhile is_white_space (rev n) = rev n"
    by blast+
  then show ?thesis by (simp add: field_strip_def)
qed

lemma registered_plain:
  assumes "app_inv p a" and "tr_get (ap_tenants a) n = Inr b"
  shows "field_strip n = n"
proof -
  have "(n, b) \<in> set (ap_tenants a)" using assms(2) by (auto simp: tr_get_Inr dest: map_of_SomeD)
  with assms(1) have "bundle_valid b" "tb_name b = n"
    by (auto simp: app_inv_def registry_wf_def list_all_iff)
  then show ?thesis by (auto simp: bundle_valid_def plain_name)
qed

section \<open>What a run of the workflow touches\<close>

lemma run_operations_frame:
  assumes "app_inv p a" and "run_operations query subject roles q a = (r, a2)"
  shows "touched p t a a2 \<and> ap_approvals a2 = ap_approvals a \<and>
    (\<exists>route. recorded (route_tools route) 2 (as_caller subject roles (wr_request_id q) route)
         (mg_audit (ap_mcp a)) (mg_audit (ap_mcp a2)) \<and>
       (\<forall>x. r = Inr x \<longrightarrow> rd_route (or_decision x) = route))"
proof -
  obtain r0 g m where o: "operations_investigate (ap_operations a) query subject roles (wr_request_id q)
      (ap_mcp a, mgw_metrics (ap_model_gateway a)) = (r0, g, m)"
    by (metis prod_cases3)
  have a2: "r = r0" "a2 = a\<lparr>ap_mcp := g, ap_model_gateway := (ap_model_gateway a)\<lparr>mgw_metrics := m\<rparr>\<rparr>"
    using assms(2) o by (simp_all add: run_operations_def)
  obtain sha256 round3 clock where call: "op_call (ap_operations a) = local_invoke sha256 round3 clock"
    using assms(1) by (auto simp: app_inv_def)
  have good: "local_good (backend_retriever (ap_index a) (pa_digest p) (pa_round6 p)) (ap_mcp a)"
    using assms(1) by (simp add: app_inv_def)
  from operations_frame[OF good call o] obtain route where
    g: "local_good (backend_retriever (ap_index a) (pa_digest p) (pa_round6 p)) g"
    and rec: "recorded (route_tools route) 2 (as_caller subject roles (wr_request_id q) route) (mg_audit (ap_mcp a)) (mg_audit g)"
    and res: "\<forall>x. r0 = Inr x \<longrightarrow> rd_route (or_decision x) = route"
    by (cases r0) auto
  have "touched p t a a2"
    using g by (simp add: a2 touched_def same_app_def app_inv_def content_def ledger_def)
  with rec res show ?thesis by (auto simp: a2)
qed

lemma create_usable:
  "request_usable p q \<Longrightarrow>
     op_usable (pa_store p) (CreatePending (wr_uid q) (wr_stamp q) rid requester query tenant)"
  by (simp add: request_usable_def op_usable_def op_times_valid_def pg_usable_def redis_usable_def)

text \<open>A request for approval is recorded under a fresh id, or nothing changes.\<close>

definition pending_for ::
  "'x app_params \<Rightarrow> string \<Rightarrow> string \<Rightarrow> string \<Rightarrow> web_request \<Rightarrow> approval_record" where
  "pending_for p requester query tenant q =
     build_pending_record (sp_sha256 (pa_store p)) (wr_uid q) (wr_stamp q) (wr_request_id q) requester query tenant"

lemma request_approval_frame:
  assumes "store_inv (pa_store p) st" and "request_usable p q"
    and "request_approval p requester query tenant q st = (r, st1)"
  shows "store_inv (pa_store p) st1 \<and>
    (case r of
       Inl e \<Rightarrow> store_content (pa_store p) st1 = store_content (pa_store p) st \<and>
         store_content (pa_store p) st (wr_uid q) \<noteq> None
     | Inr i \<Rightarrow> i = wr_uid q \<and> store_content (pa_store p) st i = None \<and>
         store_content (pa_store p) st1 =
           (store_content (pa_store p) st)(i \<mapsto> pending_for p requester query tenant q))"
proof -
  define x where "x = CreatePending (wr_uid q) (wr_stamp q) (wr_request_id q) requester query tenant"
  have u: "op_usable (pa_store p) x" using assms(2) by (simp add: x_def create_usable)
  obtain r0 st0 where s: "store_step (pa_store p) x st = (r0, st0)" by fastforce
  have "store_inv (pa_store p) st0"
    "approval_step (sp_sha256 (pa_store p)) x (store_content (pa_store p) st) r0 (store_content (pa_store p) st0)"
    using opened.keeps_inv[OF assms(1) u] opened.refines[OF assms(1) u] s by simp_all
  with assms(3) s show ?thesis
    unfolding x_def by (auto simp: request_approval_def pending_for_def elim!: create_stepE)
qed

lemma visible_update:
  "m i = None \<Longrightarrow> ar_tenant r = t \<Longrightarrow> t \<noteq> u \<Longrightarrow> visible_to u (m(i \<mapsto> r)) j = visible_to u m j"
  by (auto simp: visible_to_def)

lemma touched_approval:
  assumes "app_inv p a" and "request_usable p q"
    and "request_approval p requester query tenant q (ap_approvals a) = (r, st)"
  shows "touched p (Some tenant) a (a\<lparr>ap_approvals := st\<rparr>)"
proof -
  have "store_inv (pa_store p) (ap_approvals a)" using assms(1) by (simp add: app_inv_def)
  note f = request_approval_frame[OF this assms(2,3)]
  have "ar_tenant (pending_for p requester query tenant q) = tenant" by (simp add: pending_for_def)
  then have "visible_to u (store_content (pa_store p) st) i = visible_to u (content p a) i" if "tenant \<noteq> u" for u i
    using f that by (cases r) (auto simp: content_def visible_update)
  then show ?thesis
    using f assms(1) by (auto simp: touched_def same_app_def app_inv_def content_def ledger_def)
qed

section \<open>What the handlers touch\<close>

lemma touched_inv: "touched p t a b \<Longrightarrow> app_inv p a \<Longrightarrow> app_inv p b"
  by (simp add: touched_def)

lemma touched_same: "touched p t a b \<Longrightarrow> same_app a b"
  by (simp add: touched_def)

lemma investigate_for_frame:
  assumes "app_inv p a" and "request_usable p q" and "investigate_for p query who tc q a = (r, a')"
  shows "touched p (Some (tc_tenant tc)) a a' \<and>
    (\<forall>x. r = Inr x \<longrightarrow>
       recorded (route_tools (rd_route (ir_decision x))) 2
         (as_caller (p_subject who) (document_scope who tc) (wr_request_id q) (rd_route (ir_decision x)))
         (mg_audit (ap_mcp a)) (mg_audit (ap_mcp a')) \<and>
       (if rs_requires_human_approval (ir_result x)
        then ir_approval_id x = Some (wr_uid q) \<and> content p a (wr_uid q) = None \<and>
          content p a' = (content p a)(wr_uid q \<mapsto> pending_for p (p_subject who) query (tc_tenant tc) q)
        else ir_approval_id x = None \<and> ap_approvals a' = ap_approvals a))"
proof -
  obtain r1 a2 where run: "run_operations query (p_subject who) (document_scope who tc) q a = (r1, a2)"
    by fastforce
  note f = run_operations_frame[OF assms(1) run, where t = "Some (tc_tenant tc)"]
  then have t2: "touched p (Some (tc_tenant tc)) a a2" and ap: "ap_approvals a2 = ap_approvals a" by simp_all
  have i2: "app_inv p a2" by (rule touched_inv[OF t2 assms(1)])
  show ?thesis
  proof (cases r1)
    case (Inl e)
    with assms(3) run t2 show ?thesis by (auto simp: investigate_for_def)
  next
    case (Inr res)
    show ?thesis
    proof (cases "rs_requires_human_approval (or_result res)")
      case False
      then have r: "r = Inr \<lparr>ir_decision = or_decision res, ir_result = or_result res, ir_steps = or_steps res,
          ir_approval_id = None\<rparr>" "a' = completed (tc_tenant tc) res q a2"
        using assms(3) run Inr by (simp_all add: investigate_for_def)
      have "touched p (Some (tc_tenant tc)) a a'" unfolding r(2) by (rule touched_trans[OF t2]) simp
      with f False Inr show ?thesis by (auto simp: r completed_def Let_def)
    next
      case True
      obtain r2 st where ask: "request_approval p (p_subject who) query (tc_tenant tc) q (ap_approvals a2) = (r2, st)"
        by fastforce
      have t3: "touched p (Some (tc_tenant tc)) a (a2\<lparr>ap_approvals := st\<rparr>)"
        by (rule touched_trans[OF t2 touched_approval[OF i2 assms(2) ask]])
      have "store_inv (pa_store p) (ap_approvals a2)" using i2 by (simp add: app_inv_def)
      note g = request_approval_frame[OF this assms(2) ask]
      show ?thesis
      proof (cases r2)
        case err: (Inl e)
        with assms(3) run Inr True ask t3 show ?thesis by (auto simp: investigate_for_def)
      next
        case ok: (Inr i)
        then have r: "r = Inr \<lparr>ir_decision = or_decision res, ir_result = or_result res, ir_steps = or_steps res,
            ir_approval_id = Some i\<rparr>" "a' = completed (tc_tenant tc) res q (a2\<lparr>ap_approvals := st\<rparr>)"
          using assms(3) run Inr True ask by (simp_all add: investigate_for_def)
        have "touched p (Some (tc_tenant tc)) a a'" unfolding r(2) by (rule touched_trans[OF t3]) simp
        with f g True Inr ok show ?thesis by (auto simp: r completed_def Let_def content_def ap)
      qed
    qed
  qed
qed

lemma tenant_of_admitted:
  assumes "admit_tenant required q a = (Inr (who, tc), a1)"
  shows "tenant_of q a = Some (tc_tenant tc)"
  using admit_tenant_Inr[OF assms] by (simp add: tenant_of_def)

text \<open>A handler that admits the caller and then acts for the tenant.\<close>

lemma admitted_touched:
  assumes "app_inv p a"
    and "(case admit_tenant required q a of (Inl e, a1) \<Rightarrow> (Inl e, a1) | (Inr (who, tc), a1) \<Rightarrow> act who tc a1) = (r, a')"
    and "\<And>who tc a1 r a'. app_inv p a1 \<Longrightarrow> same_app a a1 \<Longrightarrow> tenant_of q a = Some (tc_tenant tc) \<Longrightarrow>
      act who tc a1 = (r, a') \<Longrightarrow> touched p (tenant_of q a) a1 a'"
  shows "touched p (tenant_of q a) a a'"
proof -
  obtain r1 a1 where ad: "admit_tenant required q a = (r1, a1)" by fastforce
  note t1 = admit_tenant_touched[OF ad]
  show ?thesis
  proof (cases r1)
    case (Inl e)
    with assms(2) ad t1 show ?thesis by simp
  next
    case (Inr x)
    then obtain who tc where x: "r1 = Inr (who, tc)" by (cases x) auto
    with assms(2) ad have "act who tc a1 = (r, a')" by simp
    with assms(3)[OF touched_inv[OF t1 assms(1)] touched_same[OF t1]] tenant_of_admitted ad x
    have "touched p (tenant_of q a) a1 a'" by blast
    then show ?thesis by (rule touched_trans[OF t1])
  qed
qed

lemma investigate_touched:
  assumes "app_inv p a" and "request_usable p q" and "investigate_workflow p query q a = (r, a')"
  shows "touched p (tenant_of q a) a a'"
proof (rule admitted_touched[OF assms(1)])
  show "(case admit_tenant {''agent.invoke''} q a of (Inl e, a1) \<Rightarrow> (Inl e, a1)
      | (Inr (who, tc), a1) \<Rightarrow> (case new_route_request query of Inl e \<Rightarrow> (Inl e, a1)
           | Inr query' \<Rightarrow> investigate_for p query' who tc q a1)) = (r, a')"
    using assms(3) by (simp add: investigate_workflow_def)
qed (use assms(2) investigate_for_frame in \<open>fastforce split: sum.splits\<close>)

lemma touched_generate:
  assumes "generate env gq (ap_model_gateway a) = (r, gw)" and "gq_tenant gq = tenant"
  shows "touched p (Some tenant) a (a\<lparr>ap_model_gateway := gw\<rparr>)"
  using ledger_generate[OF assms(1)] assms(2) by (intro touched_gateway) (auto simp: ledger_def)

lemma retrieve_for_frame:
  "retrieve_for p query tc a = (r, a') \<Longrightarrow> touched p t a a' \<and> ap_index a' = ap_index a"
  by (auto simp: retrieve_for_def split: prod.splits)

lemma synthesize_touched:
  assumes "synthesize_for query evidence tenant q a = (r, a')" and "field_strip tenant = tenant"
  shows "touched p (Some tenant) a a'"
proof -
  obtain r1 gw where s: "synthesize_grounded_answer (wr_generation q) (st_rag_synthesis_model (ap_settings a))
      query evidence tenant (ap_model_gateway a) = (r1, gw)" by fastforce
  have "bp_spend (mgw_budget gw) u = ledger a u" if "tenant \<noteq> u" for u
    using s that ledger_generate assms(2)
    by (auto simp: synthesize_grounded_answer_def new_generation_request_def Let_def ledger_def
        split: if_splits sum.splits prod.splits)
  then show ?thesis
    using assms(1) s by (auto simp: synthesize_for_def intro!: touched_gateway)
qed

lemma rag_answer_for_touched:
  assumes "rag_answer_for p query tc q a = (r, a')" and "field_strip (tc_tenant tc) = tc_tenant tc"
  shows "touched p (Some (tc_tenant tc)) a a'"
proof -
  obtain r1 a2 where e: "retrieve_for p query tc a = (r1, a2)" by fastforce
  note t2 = retrieve_for_frame[OF e, THEN conjunct1]
  show ?thesis
  proof (cases r1)
    case (Inl x)
    with assms(1) e t2 show ?thesis by (simp add: rag_answer_for_def)
  next
    case (Inr evidence)
    obtain r2 a3 where s: "synthesize_for query evidence (tc_tenant tc) q a2 = (r2, a3)" by fastforce
    have "a' = a3" using assms(1) e Inr s by (auto simp: rag_answer_for_def split: sum.splits)
    with touched_trans[OF t2 synthesize_touched[OF s assms(2)]] show ?thesis by simp
  qed
qed

lemma demo_rag_for_touched:
  assumes "demo_rag_for p pt query tc q a = (r, a')" and "field_strip (tc_tenant tc) = tc_tenant tc"
  shows "touched p (Some (tc_tenant tc)) a a'"
proof -
  obtain r1 a2 where e: "retrieve_for p query tc a = (r1, a2)" by fastforce
  note t2 = retrieve_for_frame[OF e, THEN conjunct1]
  show ?thesis
  proof (cases r1)
    case (Inl x)
    with assms(1) e t2 show ?thesis by (simp add: demo_rag_for_def)
  next
    case (Inr evidence)
    obtain r2 a3 where s: "synthesize_for query evidence (tc_tenant tc) q a2 = (r2, a3)" by fastforce
    have "a' = a3" using assms(1) e Inr s by (auto simp: demo_rag_for_def split: sum.splits)
    with touched_trans[OF t2 synthesize_touched[OF s assms(2)]] show ?thesis by simp
  qed
qed

lemma demo_investigate_for_touched:
  assumes "app_inv p a" and "request_usable p q" and "demo_investigate_for p pt query tc q a = (r, a')"
  shows "touched p (Some (tc_tenant tc)) a a'"
proof -
  obtain r1 a2 where run: "run_operations query (p_subject demo_principal) (document_scope demo_principal tc) q a = (r1, a2)"
    by fastforce
  have t2: "touched p (Some (tc_tenant tc)) a a2" using run_operations_frame[OF assms(1) run] by simp
  obtain r2 st where ask: "request_approval p (p_subject demo_principal) query (tc_tenant tc) q (ap_approvals a2) = (r2, st)"
    by fastforce
  have t3: "touched p (Some (tc_tenant tc)) a (a2\<lparr>ap_approvals := st\<rparr>)"
    by (rule touched_trans[OF t2 touched_approval[OF touched_inv[OF t2 assms(1)] assms(2) ask]])
  have "a' = a2 \<or> a' = a2\<lparr>ap_approvals := st\<rparr>"
    using assms(3) run ask
    by (cases r2) (auto simp: demo_investigate_for_def split: sum.splits if_splits)
  with t2 t3 show ?thesis by auto
qed

lemma tenant_known:
  "authenticate s resolver registry h = Inr (who, tc) \<Longrightarrow> \<exists>b. tr_get registry (tc_tenant tc) = Inr b"
  by (cases "local_env s") (auto simp: authenticate_jwt_mode authenticate_local_mode)

lemma tenant_of_plain:
  assumes "app_inv p a" and "tenant_of q a = Some n"
  shows "field_strip n = n"
  using assms(2) tenant_known registered_plain[OF assms(1)]
  by (fastforce simp: tenant_of_def split: sum.splits)

lemma rag_answer_touched:
  assumes "app_inv p a" and "rag_answer p query q a = (r, a')"
  shows "touched p (tenant_of q a) a a'"
proof (rule admitted_touched[OF assms(1)])
  show "(case admit_tenant {''agent.invoke''} q a of (Inl e, a1) \<Rightarrow> (Inl e, a1)
      | (Inr (who, tc), a1) \<Rightarrow> (case new_rag_answer_request query of Inl e \<Rightarrow> (Inl e, a1)
           | Inr query' \<Rightarrow> rag_answer_for p query' tc q a1)) = (r, a')"
    using assms(2) by (simp add: rag_answer_def)
qed (use tenant_of_plain[OF assms(1)] rag_answer_for_touched in \<open>fastforce split: sum.splits\<close>)

lemma generate_for_touched:
  assumes "generate_for payload tenant q a = (r, a')" and "field_strip tenant = tenant"
  shows "touched p (Some tenant) a a'"
proof -
  have "gq_tenant gq = tenant"
    if "new_generation_request model messages tenant agent mt temp = Inr gq" for model messages agent mt temp gq
    using that assms(2) by (auto simp: new_generation_request_def Let_def split: if_splits)
  then show ?thesis
    using assms(1) by (auto simp: generate_for_def split: sum.splits prod.splits intro: touched_generate)
qed

lemma generate_touched:
  assumes "app_inv p a" and "generate_route payload q a = (r, a')"
  shows "touched p (tenant_of q a) a a'"
proof (rule admitted_touched[OF assms(1)])
  show "(case admit_tenant {''agent.invoke''} q a of (Inl e, a1) \<Rightarrow> (Inl e, a1)
      | (Inr (who, tc), a1) \<Rightarrow> generate_for payload (tc_tenant tc) q a1) = (r, a')"
    using assms(2) by (simp add: generate_route_def)
qed (use tenant_of_plain[OF assms(1)] generate_for_touched in fastforce)

lemma list_skills_touched: "list_skills q a = (r, a') \<Longrightarrow> touched p t a a'"
  using admit_tenant_touched by (auto simp: list_skills_def split: prod.splits sum.splits)

lemma platform_info_touched: "platform_info q a = (r, a') \<Longrightarrow> touched p t a a'"
  using admit_touched by (auto simp: platform_info_def split: prod.splits sum.splits)

lemma route_workflow_touched:
  assumes "route_workflow query q a = (r, a')"
  shows "touched p t a a'"
proof -
  obtain r1 a1 where ad: "admit {''agent.invoke''} q a = (r1, a1)" by fastforce
  have "a' = a1 \<or> (\<exists>m. a' = a1\<lparr>ap_model_gateway := (ap_model_gateway a1)\<lparr>mgw_metrics := m\<rparr>\<rparr>)"
    using assms ad by (auto simp: route_workflow_def Let_def split: prod.splits sum.splits)
  with touched_trans[OF admit_touched[OF ad]] admit_touched[OF ad] show ?thesis by auto
qed

text \<open>The demonstration routes: the tenant of the form.\<close>

lemma demo_touched:
  assumes "app_inv p a"
    and "(case admit_demo host q a of (Inl e, a1) \<Rightarrow> (Inl e, a1)
      | (Inr _, a1) \<Rightarrow> if query = [] \<or> tenant = [] then (Inl request_invalid, a1)
          else (case demo_tenant (ap_tenants a1) tenant of Inl e \<Rightarrow> (Inl e, a1) | Inr tc \<Rightarrow> act tc a1)) = (r, a')"
    and "\<And>tc a1 r a'. app_inv p a1 \<Longrightarrow> field_strip (tc_tenant tc) = tc_tenant tc \<Longrightarrow> act tc a1 = (r, a') \<Longrightarrow>
      touched p (Some (tc_tenant tc)) a1 a'"
  shows "touched p (Some tenant) a a'"
proof -
  obtain r1 a1 where ad: "admit_demo host q a = (r1, a1)" by fastforce
  have t1: "touched p (Some tenant) a a1" using ad by (auto simp: admit_demo_def split: prod.splits)
  have i1: "app_inv p a1" by (rule touched_inv[OF t1 assms(1)])
  have dt: "tc_tenant tc = tenant \<and> field_strip tenant = tenant" if "demo_tenant (ap_tenants a1) tenant = Inr tc" for tc
    using that registered_plain[OF i1] by (auto simp: demo_tenant_def split: sum.splits exn.splits)
  from assms(2) ad consider "a' = a1" | tc where "demo_tenant (ap_tenants a1) tenant = Inr tc" "act tc a1 = (r, a')"
    by (auto split: sum.splits if_splits)
  then show ?thesis
  proof cases
    case 1
    with t1 show ?thesis by simp
  next
    case 2
    with assms(3)[OF i1] dt[OF 2(1)] have "touched p (Some tenant) a1 a'" by metis
    then show ?thesis by (rule touched_trans[OF t1])
  qed
qed

lemma handle_touched:
  assumes "app_inv p a" and "request_usable p q" and "handle p t c q a = (r, a')"
  shows "touched p (acts_for c q a) a a'"
proof (cases c)
  case (PostDemoInvestigate host query tenant)
  obtain r0 where h: "demo_investigate p t host query tenant q a = (r0, a')"
    using assms(3) PostDemoInvestigate by (auto simp: map_prod_def split: prod.splits)
  have "touched p (Some tenant) a a'"
    by (rule demo_touched[OF assms(1) h[unfolded demo_investigate_def]])
      (rule demo_investigate_for_touched[OF _ assms(2)])
  then show ?thesis by (simp add: PostDemoInvestigate)
next
  case (PostDemoRag host query tenant)
  obtain r0 where h: "demo_rag p t host query tenant q a = (r0, a')"
    using assms(3) PostDemoRag by (auto simp: map_prod_def split: prod.splits)
  have "touched p (Some tenant) a a'"
    by (rule demo_touched[OF assms(1) h[unfolded demo_rag_def]]) (rule demo_rag_for_touched)
  then show ?thesis by (simp add: PostDemoRag)
qed (use assms in \<open>auto simp: map_prod_def split: prod.splits
      intro: platform_info_touched route_workflow_touched investigate_touched list_skills_touched
        generate_touched rag_answer_touched\<close>)

section \<open>Every reachable state is safe\<close>

lemma sum_bind_Inr:
  "(case x of Inl e \<Rightarrow> Inl e | Inr y \<Rightarrow> f y) = Inr z \<longleftrightarrow> (\<exists>y. x = Inr y \<and> f y = Inr z)"
  "map_sum id g x = Inr v \<longleftrightarrow> (\<exists>y. x = Inr y \<and> g y = v)"
  by (cases x; simp)+

lemma build_index_inv:
  assumes "build_index parse digest files service docs s = Some (Inr idx)"
    and "service_documented service"
    and "\<forall>d\<in>set docs. ad_allowed_roles d \<subseteq> set known_chunk_roles \<and> (\<exists>c. d = azure_document_of c)"
  shows "backend_inv idx"
proof (cases "st_rag_provider s = AzureSearchRag")
  case True
  with assms show ?thesis
    by (auto simp: build_index_def new_azure_index_def azure_inv_def map_sum_def split: if_splits sum.splits)
next
  case False
  with assms(1) obtain i where "load_documents parse (embed_text digest 256) (sort_key fst files) [] = Some (Inr i)"
    "idx = LocalIndex i"
    by (auto simp: build_index_def build_default_index_def sum_bind_Inr)
  moreover have "index_inv []" by (simp add: index_inv_def index_chunks_def)
  ultimately show ?thesis
    using load_documents_inv[where P = "\<lambda>_. True"] by (auto simp: index_chunks_def)
qed

lemma assemble_app_Inr:
  assumes "assemble_app p w s idx = Inr a"
  shows "build_local_mcp_gateway (backend_retriever idx (pa_digest p) (pa_round6 p)) (st_mcp_tool_timeout_seconds s)
      (st_mcp_max_attempts s) (st_mcp_rate_limit s) (st_mcp_rate_window_seconds s) = Inr (ap_mcp a)"
    and "aw_tenants w = Inr (ap_tenants a)"
    and "build_approval_store (aw_state w) (st_state_backend s) (st_state_database_path s)
      (st_state_connection_url s) = Inr (ap_approvals a)"
    and "new_operations (aw_allows w) (st_max_workflow_steps s) mock_classify
      (local_invoke (aw_sha256 w) (aw_round3 w) (aw_clock w)) = Inr (ap_operations a)"
    and "build_model_gateway (aw_models w) s (Some (ap_tenants a)) no_metrics = Inr (ap_model_gateway a)"
    and "identity_of (aw_jwt w) s (ap_tenants a) = Inr (ap_resolver a)"
    and "ap_settings a = s" and "ap_index a = idx"
    and "ap_limiter a = new_rate_limiter (st_rate_limit_requests s) (st_rate_limit_window_seconds s)"
  using assms by (auto simp: assemble_app_def split: sum.splits)

lemma create_app_Inr:
  assumes "create_app p w s = Some (Inr a)"
  obtains idx where "build_index (aw_parse w) (pa_digest p) (aw_files w) (aw_search w) (aw_documents w) s = Some (Inr idx)"
    and "assemble_app p w s idx = Inr a"
  using assms by (auto simp: create_app_def sum_bind_Inr)

lemma new_operations_Inr:
  "new_operations allows n model call = Inr w \<Longrightarrow>
     op_call w = call \<and> op_model w = model \<and> op_allows w = allows \<and> op_max_steps w = n"
  by (auto simp: new_operations_def new_supervisor_def split: sum.splits if_splits)

lemma create_app_inv:
  assumes "create_app p w s = Some (Inr a)" and "world_ok w" and "params_ok (pa_store p)"
  shows "app_inv p a \<and> content p a = Map.empty"
proof -
  obtain idx where idx: "build_index (aw_parse w) (pa_digest p) (aw_files w) (aw_search w) (aw_documents w) s = Some (Inr idx)"
    and a: "assemble_app p w s idx = Inr a"
    by (rule create_app_Inr[OF assms(1)])
  note f = assemble_app_Inr[OF a]
  have w: "empty_world (aw_state w)" "service_documented (aw_search w)"
    "\<forall>d\<in>set (aw_documents w). ad_allowed_roles d \<subseteq> set known_chunk_roles \<and> (\<exists>c. d = azure_document_of c)"
    "registry_wf (ap_tenants a) \<and> list_all (\<lambda>(n, b). bundle_valid b) (ap_tenants a)"
    using assms(2) f(2) by (auto simp: world_ok_def)
  have "backend_inv (ap_index a)" using build_index_inv[OF idx w(2,3)] f(8) by simp
  moreover have "local_good (backend_retriever (ap_index a) (pa_digest p) (pa_round6 p)) (ap_mcp a)"
    using build_local_good(1)[OF f(1)] f(8) by simp
  moreover have "op_call (ap_operations a) = local_invoke (aw_sha256 w) (aw_round3 w) (aw_clock w)"
    "op_model (ap_operations a) = mock_classify"
    using new_operations_Inr[OF f(4)] by simp_all
  ultimately show ?thesis
    using build_approval_store_empty[OF f(3) w(1) assms(3)] w(4) by (auto simp: app_inv_def content_def)
qed

lemma reachable_inv:
  assumes "reachable p t w s a" and "world_ok w" and "params_ok (pa_store p)"
  shows "app_inv p a \<and> ap_settings a = s"
  using assms
proof (induction rule: reachable.induct)
  case (started a)
  then show ?case
    using create_app_inv assemble_app_Inr(7) by (metis create_app_Inr)
next
  case (served a q c r a')
  then have "touched p (acts_for c q a) a a'" using handle_touched by metis
  with served show ?case by (auto simp: touched_def same_app_def)
qed

section \<open>Properties\<close>

fun serve ::
  "'x app_params \<Rightarrow> page_text \<Rightarrow> (web_call \<times> web_request) list \<Rightarrow> 'x app \<Rightarrow> (exn + web_response) list \<times> 'x app" where
  "serve p t [] a = ([], a)"
| "serve p t ((c, q) # qs) a =
     (case handle p t c q a of (r, a1) \<Rightarrow> case serve p t qs a1 of (rs, a2) \<Rightarrow> (r # rs, a2))"

lemma acts_for_same: "same_app a b \<Longrightarrow> acts_for c q b = acts_for c q a"
  by (cases c) (simp_all add: same_app_def tenant_of_def)

lemma serve_touched:
  assumes "serve p t qs a = (rs, a')" and "app_inv p a" and "list_all (\<lambda>(c, q). request_usable p q) qs"
    and "list_all (\<lambda>(c, q). acts_for c q a \<noteq> Some u) qs"
  shows "same_app a a' \<and> ledger a' u = ledger a u \<and>
    (\<forall>i. visible_to u (content p a') i = visible_to u (content p a) i)"
  using assms
proof (induction qs arbitrary: a rs)
  case Nil
  then show ?case by (simp add: same_app_def)
next
  case (Cons x qs)
  obtain c q where x: "x = (c, q)" by (cases x)
  obtain r a1 where h: "handle p t c q a = (r, a1)" by fastforce
  obtain rs' where rest: "serve p t qs a1 = (rs', a')"
    using Cons.prems(1) x h by (auto split: prod.splits)
  have t1: "touched p (acts_for c q a) a a1"
    using handle_touched[OF Cons.prems(2) _ h] Cons.prems(3) x by simp
  have same: "same_app a a1" and i1: "app_inv p a1" by (rule touched_same[OF t1], rule touched_inv[OF t1 Cons.prems(2)])
  have "same_app a1 a' \<and> ledger a' u = ledger a1 u \<and>
      (\<forall>i. visible_to u (content p a') i = visible_to u (content p a1) i)"
    using Cons.IH[OF rest i1] Cons.prems(3,4) x acts_for_same[OF same] by (auto simp: list_all_iff)
  then show ?case using t1 Cons.prems(4) x by (auto simp: touched_def same_app_def)
qed

text \<open>C39: a successful investigation, in any state the application can reach, was asked for by an
  authenticated caller with \<open>agent.invoke\<close> and a known tenant; its tool calls are on the audit trail in
  the caller's name, at most two and only tools of the decided route; and an approval is on record,
  fresh, pending, in the caller's tenant and under the id of the response, exactly when the result
  requires one.\<close>

theorem investigate_governed:
  assumes "reachable p t w s a" and "world_ok w" and "params_ok (pa_store p)" and "request_usable p q"
    and "investigate_workflow p query q a = (Inr x, a')"
  shows "\<exists>who tc. authenticate s (ap_resolver a) (ap_tenants a) (wr_headers q) = Inr (who, tc) \<and>
    ''agent.invoke'' \<in> p_roles who \<and>
    recorded (route_tools (rd_route (ir_decision x))) 2
      (as_caller (p_subject who) (document_scope who tc) (wr_request_id q) (rd_route (ir_decision x)))
      (mg_audit (ap_mcp a)) (mg_audit (ap_mcp a')) \<and>
    (if rs_requires_human_approval (ir_result x)
     then ir_approval_id x = Some (wr_uid q) \<and> content p a (wr_uid q) = None \<and>
       content p a' = (content p a)
         (wr_uid q \<mapsto> pending_for p (p_subject who) (field_strip query) (tc_tenant tc) q)
     else ir_approval_id x = None \<and> ap_approvals a' = ap_approvals a)"
proof -
  note inv = reachable_inv[OF assms(1-3)]
  obtain r1 a1 where ad: "admit_tenant {''agent.invoke''} q a = (r1, a1)" by fastforce
  with assms(5) obtain who tc where r1: "r1 = Inr (who, tc)"
    by (cases r1) (auto simp: investigate_workflow_def)
  note adm = admit_tenant_Inr[OF ad[unfolded r1]]
  have q: "investigate_for p (field_strip query) who tc q a1 = (Inr x, a')"
    using assms(5) ad r1 by (auto simp: investigate_workflow_def new_route_request_def Let_def split: if_splits)
  have a1: "a1 = a\<lparr>ap_limiter := ap_limiter a1\<rparr>" using adm by blast
  have same: "ap_mcp a1 = ap_mcp a" "ap_approvals a1 = ap_approvals a" by (subst a1, simp)+
  have "app_inv p a1" by (rule touched_inv[OF admit_tenant_touched[OF ad]]) (simp add: inv)
  note f = investigate_for_frame[OF this assms(4) q, THEN conjunct2, rule_format, OF refl]
  have cont: "content p a1 = content p a" by (simp add: content_def same)
  have "authenticate s (ap_resolver a) (ap_tenants a) (wr_headers q) = Inr (who, tc)" "''agent.invoke'' \<in> p_roles who"
    using adm inv by auto
  with f[unfolded same cont] show ?thesis by blast
qed

text \<open>C40: whatever requests are served, on any routes and for any other tenants, the approvals that a
  tenant can look up and the ledger of its budget stay as they were, and so do the settings, the
  tenants, the skills and the index.\<close>

theorem requests_isolated:
  assumes "reachable p t w s a" and "world_ok w" and "params_ok (pa_store p)"
    and "list_all (\<lambda>(c, q). request_usable p q) qs" and "list_all (\<lambda>(c, q). acts_for c q a \<noteq> Some u) qs"
    and "serve p t qs a = (rs, a')"
  shows "(\<forall>i. visible_to u (content p a') i = visible_to u (content p a) i) \<and> ledger a' u = ledger a u \<and>
    same_app a a'"
  using serve_touched[OF assms(6) _ assms(4,5)] reachable_inv[OF assms(1-3)] by blast

lemma rag_answer_for_Inr:
  assumes "rag_answer_for p query tc q a = (Inr x, a')"
  obtains evidence m a3 where
    "retrieve (backend_search (ap_index a)) (embed_text (pa_digest p) 256) (pa_round6 p) query
       (tb_entitlements (tc_bundle tc)) 3 (ap_rag a) = (Inr evidence, m)"
    and "synthesize_for query evidence (tc_tenant tc) q (a\<lparr>ap_rag := m\<rparr>) = (Inr (ra_answer x), a')"
    and "evaluate_groundedness (pa_round4 p) (ap_minimum_overlap a') (ra_answer x) evidence = Inr (ra_report x)"
    and "ra_citations x = map rh_citation evidence"
  using assms
  by (auto simp: rag_answer_for_def retrieve_for_def split: prod.splits sum.split_asm)

text \<open>C4: an answer from the knowledge base, in any state the application can reach, goes to an
  authenticated caller with \<open>agent.invoke\<close>.  It rests on at most three chunks, every one of them in the
  index and with all its roles among the entitlements of the caller's tenant, whatever roles the
  caller has; these are the citations of the response, and the groundedness reported is that of the
  answer on these chunks.\<close>

theorem rag_answer_confined:
  assumes "reachable p t w s a" and "world_ok w" and "params_ok (pa_store p)"
    and "rag_answer p query q a = (Inr x, a')"
  shows "\<exists>who tc evidence. authenticate s (ap_resolver a) (ap_tenants a) (wr_headers q) = Inr (who, tc) \<and>
    ''agent.invoke'' \<in> p_roles who \<and> length evidence \<le> 3 \<and> ra_citations x = map rh_citation evidence \<and>
    (\<forall>h\<in>set evidence. \<exists>c\<in>backend_holds (ap_index a).
       kc_allowed_roles c \<subseteq> tb_entitlements (tc_bundle tc) \<and>
       rh_text h = field_strip (kc_text c) \<and> rh_citation h = cite c) \<and>
    evaluate_groundedness (pa_round4 p) (ap_minimum_overlap a) (ra_answer x) evidence = Inr (ra_report x)"
proof -
  note inv = reachable_inv[OF assms(1-3)]
  obtain r1 a1 where ad: "admit_tenant {''agent.invoke''} q a = (r1, a1)" by fastforce
  with assms(4) obtain who tc where r1: "r1 = Inr (who, tc)"
    by (cases r1) (auto simp: rag_answer_def)
  note adm = admit_tenant_Inr[OF ad[unfolded r1]]
  obtain query' where q: "rag_answer_for p query' tc q a1 = (Inr x, a')"
    using assms(4) ad r1 by (auto simp: rag_answer_def split: sum.split_asm)
  note t1 = admit_tenant_touched[OF ad, of p None]
  have same: "ap_index a1 = ap_index a" "ap_minimum_overlap a1 = ap_minimum_overlap a"
    using touched_same[OF t1] by (simp_all add: same_app_def)
  have idx: "backend_inv (ap_index a)" using inv by (simp add: app_inv_def)
  obtain evidence m a3 where
    r: "retrieve (backend_search (ap_index a1)) (embed_text (pa_digest p) 256) (pa_round6 p) query'
       (tb_entitlements (tc_bundle tc)) 3 (ap_rag a1) = (Inr evidence, m)"
    and syn: "synthesize_for query' evidence (tc_tenant tc) q (a1\<lparr>ap_rag := m\<rparr>) = (Inr (ra_answer x), a')"
    and ev: "evaluate_groundedness (pa_round4 p) (ap_minimum_overlap a') (ra_answer x) evidence = Inr (ra_report x)"
    and cit: "ra_citations x = map rh_citation evidence"
    by (rule rag_answer_for_Inr[OF q])
  have "ap_minimum_overlap a' = ap_minimum_overlap a1"
    using syn by (auto simp: synthesize_for_def split: prod.splits)
  with ev same have ev': "evaluate_groundedness (pa_round4 p) (ap_minimum_overlap a) (ra_answer x) evidence = Inr (ra_report x)"
    by simp
  have conf: "\<forall>h\<in>set evidence. \<exists>c\<in>backend_holds (ap_index a). kc_allowed_roles c \<subseteq> tb_entitlements (tc_bundle tc) \<and>
       rh_text h = field_strip (kc_text c) \<and> rh_citation h = cite c"
    using backend.retrieve_authorized[OF idx r[unfolded same]] by blast
  have "length evidence \<le> 3" using backend.retrieve_bounded[OF idx r[unfolded same]] by simp
  moreover have "authenticate s (ap_resolver a) (ap_tenants a) (wr_headers q) = Inr (who, tc)" "''agent.invoke'' \<in> p_roles who"
    using adm inv by auto
  ultimately show ?thesis using cit conf ev' by blast
qed

section \<open>The scope of the specialist agents\<close>

text \<open>A token whose roles name a document domain beside the tenant, and a document of that domain.\<close>

definition domain_jwt :: "unit jwt_library" where
  "domain_jwt = \<lparr>signing_key = (\<lambda>_. Inr ()),
     jwt_decode = (\<lambda>_ _ _ _. Inr [(''sub'', PStr ''u-17''),
       (''roles'', PList [PStr ''agent.invoke'', PStr ''complaints'', PStr ''retail-banking''])])\<rparr>"

definition complaints_chunk :: knowledge_chunk where
  "complaints_chunk = \<lparr>kc_chunk_id = ''C-1#chunk-1'', kc_document_id = ''C-1'', kc_title = ''t'', kc_version = ''1'',
     kc_classification = ''internal'', kc_allowed_roles = {''complaints''}, kc_text = ''x'',
     kc_provenance_sha256 = ''0'', kc_embedding = [1]\<rparr>"

text \<open>C24: the comment in \<open>investigate_workflow\<close> says that a caller still sees only documents within its
  own tenant's domains.  The scope is the union of the caller's roles and the tenant's entitlements,
  so a role of the token that is also a document role opens documents that the tenant is not
  entitled to.\<close>

theorem document_scope_not_confined:
  "\<exists>who tc. authenticate production_settings (resolve domain_jwt sample_resolver) sample_registry sample_headers =
       Inr (who, tc) \<and>
     ''complaints'' \<in> set known_chunk_roles \<and> ''complaints'' \<notin> tb_entitlements (tc_bundle tc) \<and>
     local_search [(''C-1#chunk-1'', complaints_chunk)] ''q'' [1] (tb_entitlements (tc_bundle tc)) 3 = Inr [] \<and>
     local_search [(''C-1#chunk-1'', complaints_chunk)] ''q'' [1] (document_scope who tc) 3 = Inr [(1, complaints_chunk)]"
proof -
  have e: "\<not> local_env production_settings" "jwt_configured production_settings" by (simp_all add: sample_defs)
  let ?who = "\<lparr>p_subject = ''u-17'', p_roles = {''agent.invoke'', ''complaints''}\<rparr>"
  let ?tc = "\<lparr>tc_tenant = ''retail-banking'', tc_bundle = sample_bundle ''retail-banking''\<rparr>"
  have "resolve domain_jwt sample_resolver ''tok'' = Inr \<lparr>ji_principal = ?who, ji_tenant = ''retail-banking''\<rparr>"
    unfolding resolve_Inr verified_claims_Inr resolve_claims_Inr
    by (auto simp: domain_jwt_def sample_defs dict_get_def py_or_def tr_names_def as_str_iff List.map_filter_def)
  then have "authenticate production_settings (resolve domain_jwt sample_resolver) sample_registry sample_headers =
      Inr (?who, ?tc)"
    unfolding authenticate_jwt_mode[OF e(1)] using e(2) bearer_tok
    by (auto simp: sample_headers_def tr_get_def sample_registry_def)
  moreover have "''complaints'' \<in> set known_chunk_roles" by (simp add: known_chunk_roles_def)
  moreover have "''complaints'' \<notin> tb_entitlements (sample_bundle ''retail-banking'')" by (simp add: sample_bundle_def)
  ultimately show ?thesis
    by (intro exI[of _ ?who] exI[of _ ?tc])
      (simp add: local_search_def complaints_chunk_def score_chunk_def similarity_def py_take_def document_scope_def
        sort_key_def)
qed

end
