(* ===== verification/AppRun.thy ===== *)
theory AppRun
  imports AppSafety
begin

text \<open>
  An application that starts: the default settings, two tenants, an empty knowledge base and an
  in-memory store.  Requests on it are the witnesses of the properties of AppSafety.thy.
\<close>

section \<open>A world to start in\<close>

definition start_world :: "(json_doc, unit) app_world" where
  "start_world =
     \<lparr>aw_models = sample_services, aw_parse = (\<lambda>_ _. Inl ValidationError), aw_files = [],
      aw_search = sample_service, aw_documents = [], aw_skills = Inr [], aw_tenants = Inr sample_registry,
      aw_jwt = sample_jwt, aw_state = sample_world, aw_allows = step_limit, aw_sha256 = id, aw_round3 = id,
      aw_clock = (\<lambda>n. sample_times (real n))\<rparr>"

definition start_params :: "json_doc app_params" where
  "start_params = \<lparr>pa_store = sample_params, pa_digest = (\<lambda>_. [0, 0, 0, 0, 0]), pa_round6 = id, pa_round4 = id\<rparr>"

definition plain_text :: page_text where
  "plain_text = \<lparr>pg_dash = ''-'', pg_two_decimals = (\<lambda>_. ''0.00'')\<rparr>"

lemma start_world_ok: "world_ok start_world"
  using sample_world_empty sample_service_documented sample_registry_wf sample_bundle_valid
  by (simp add: world_ok_def start_world_def sample_registry_def)

lemma start_params_ok: "params_ok (pa_store start_params)"
  by (simp add: start_params_def sample_params_ok)

text \<open>Settings with the bundled index and the SQLite store always start on an empty knowledge base.\<close>

lemma app_starts:
  assumes "load_settings s = Inr s" and "st_rag_provider s = LocalRag" and "st_state_backend s = SqliteBackend"
    and "\<not> jwt_configured s" and "st_azure_openai_api_version s \<noteq> []"
    and "is_ok (new_content_safety_policy (st_content_safety_thresholds s))"
    and "aw_files w = []" and "aw_skills w = Inr sk" and "aw_tenants w = Inr r"
    and "\<forall>(n, b)\<in>set r. bundle_valid b"
  shows "\<exists>a. create_app p w s = Some (Inr a) \<and> assemble_app p w s (LocalIndex []) = Inr a \<and>
    ap_minimum_overlap a = st_rag_groundedness_minimum_term_overlap s \<and>
    op_model (ap_operations a) = mock_classify \<and> op_allows (ap_operations a) = aw_allows w \<and>
    op_max_steps (ap_operations a) = st_max_workflow_steps s"
proof -
  let ?retr = "backend_retriever (LocalIndex []) (pa_digest p) (pa_round6 p)"
  have v: "fields_valid s" using assms(1) by (simp add: load_settings_Inr)
  obtain mcp where mcp: "build_local_mcp_gateway ?retr (st_mcp_tool_timeout_seconds s) (st_mcp_max_attempts s)
      (st_mcp_rate_limit s) (st_mcp_rate_window_seconds s) = Inr mcp"
    using build_local_mcp_gateway_ok[of "st_mcp_tool_timeout_seconds s" "st_mcp_max_attempts s" "st_mcp_rate_limit s"] v
    by (auto simp: fields_valid_def is_ok_iff)
  obtain gw where gw: "build_model_gateway (aw_models w) s (Some r) no_metrics = Inr gw"
    using built_gateway[OF assms(1,5,6,10)] by blast
  obtain ops where ops: "new_operations (aw_allows w) (st_max_workflow_steps s) mock_classify
      (local_invoke (aw_sha256 w) (aw_round3 w) (aw_clock w)) = Inr ops"
    using v by (auto simp: new_operations_def new_supervisor_def fields_valid_def)
  have overlap: "new_groundedness_evaluator (st_rag_groundedness_minimum_term_overlap s) =
      Inr (st_rag_groundedness_minimum_term_overlap s)"
    using v by (simp add: new_groundedness_evaluator_def fields_valid_def)
  obtain st where st: "build_approval_store (aw_state w) (st_state_backend s) (st_state_database_path s)
      (st_state_connection_url s) = Inr st"
    using assms(3) by (simp add: build_approval_store_def)
  have "build_index (aw_parse w) (pa_digest p) (aw_files w) (aw_search w) (aw_documents w) s = Some (Inr (LocalIndex []))"
    using assms(2,7) by (simp add: build_index_def build_default_index_def sort_key_def)
  moreover obtain a where "assemble_app p w s (LocalIndex []) = Inr a"
    "ap_minimum_overlap a = st_rag_groundedness_minimum_term_overlap s" "ap_operations a = ops"
    using mcp gw ops overlap st assms(4,8,9) by (auto simp: assemble_app_def identity_of_def)
  ultimately show ?thesis
    using new_operations_Inr[OF ops] by (auto simp: create_app_def)
qed

lemma default_starts:
  "st_rag_provider default_settings = LocalRag" "st_state_backend default_settings = SqliteBackend"
  "\<not> jwt_configured default_settings" "st_azure_openai_api_version default_settings \<noteq> []"
  "is_ok (new_content_safety_policy (st_content_safety_thresholds default_settings))"
  by (simp_all add: default_settings_def jwt_configured_def given_def new_content_safety_policy_def)

lemma started_app:
  obtains a where "create_app start_params start_world default_settings = Some (Inr a)"
    and "ap_index a = LocalIndex []" and "ap_minimum_overlap a = 1 / 2"
    and "ap_limiter a = new_rate_limiter 60 60" and "ap_tenants a = sample_registry"
    and "ap_settings a = default_settings"
    and "op_model (ap_operations a) = mock_classify" and "op_allows (ap_operations a) = step_limit"
    and "op_max_steps (ap_operations a) = 8"
proof -
  have w: "aw_files start_world = []" "aw_skills start_world = Inr []" "aw_tenants start_world = Inr sample_registry"
    "\<forall>(n, b)\<in>set sample_registry. bundle_valid b"
    using sample_bundle_valid by (simp_all add: start_world_def sample_registry_def)
  from app_starts[OF load_default_settings default_starts w, where p = start_params]
  obtain a where a: "create_app start_params start_world default_settings = Some (Inr a)"
    "assemble_app start_params start_world default_settings (LocalIndex []) = Inr a"
    "ap_minimum_overlap a = 1 / 2" "op_model (ap_operations a) = mock_classify"
    "op_allows (ap_operations a) = step_limit" "op_max_steps (ap_operations a) = 8"
    by (auto simp: default_settings_def start_world_def)
  note f = assemble_app_Inr[OF a(2)]
  have "ap_tenants a = sample_registry" using f(2) by (simp add: start_world_def)
  moreover have "ap_limiter a = new_rate_limiter 60 60" using f(9) by (simp add: default_settings_def)
  ultimately show thesis using that a f(7,8) by simp
qed

section \<open>Requests on it\<close>

definition operator_request :: web_request where
  "operator_request = \<lparr>wr_headers = \<lparr>ah_user = Some ''ops-7'', ah_roles = ''agent.invoke'',
       ah_authorization = None, ah_tenant = Some ''wealth''\<rparr>,
     wr_now = 0, wr_request_id = ''r-1'', wr_uid = ''7f'', wr_stamp = noon 0, wr_elapsed = 0,
     wr_generation = sample_env\<rparr>"

lemma operator_usable: "request_usable start_params operator_request"
  by (simp add: request_usable_def start_params_def operator_request_def sample_params_def noon_def ts_valid_def
      good_id_def index_prefix_def starts_with_def)

definition operator :: principal where
  "operator = \<lparr>p_subject = ''ops-7'', p_roles = {''agent.invoke''}\<rparr>"

definition wealth :: tenant_context where
  "wealth = \<lparr>tc_tenant = ''wealth'', tc_bundle = sample_bundle ''wealth''\<rparr>"

lemma operator_texts:
  "strip ''ops-7'' = ''ops-7''" "strip ''wealth'' = ''wealth''"
  "set (filter (\<lambda>r. r \<noteq> []) (map strip (split_on (CHR '','') ''agent.invoke''))) = {''agent.invoke''}"
  by (simp_all add: strip_def lstrip_def is_space_def code_def)

lemma operator_admitted:
  assumes "ap_settings a = default_settings" and "ap_tenants a = sample_registry"
    and "ap_limiter a = new_rate_limiter 60 60"
  shows "\<exists>a1. admit_tenant {''agent.invoke''} operator_request a = (Inr (operator, wealth), a1) \<and>
    same_app a a1 \<and> ap_approvals a1 = ap_approvals a \<and> ap_mcp a1 = ap_mcp a"
proof -
  have loc: "local_env (ap_settings a)" by (simp add: assms default_settings_def local_env_def)
  have pr: "get_principal (ap_settings a) (ap_resolver a) (wr_headers operator_request) None = (Inr operator, None)"
    using loc operator_texts by (simp add: get_principal_def operator_request_def operator_def)
  have ctx: "get_tenant_context (ap_settings a) (ap_tenants a) (wr_headers operator_request) None = Inr wealth"
    using loc operator_texts
    by (simp add: get_tenant_context_def operator_request_def wealth_def assms(2) tr_get_def sample_registry_def)
  have "\<exists>l. enforce_rate_limit (wr_now operator_request) operator (ap_limiter a) = (Inr operator, l)"
    by (simp add: assms(3) enforce_rate_limit_def rl_check_def new_rate_limiter_def Let_def)
  then show ?thesis
    using pr ctx by (auto simp: admit_tenant_def admit_def require_roles_def operator_def same_app_def)
qed

text \<open>A refund is recorded for approval.\<close>

lemma refund_recorded:
  assumes "create_app start_params start_world default_settings = Some (Inr a)"
    and "ap_settings a = default_settings" and "ap_tenants a = sample_registry"
    and "ap_limiter a = new_rate_limiter 60 60"
    and "op_model (ap_operations a) = mock_classify" and "op_allows (ap_operations a) = step_limit"
    and "op_max_steps (ap_operations a) = 8"
  shows "\<exists>x a'. investigate_workflow start_params ''Refund $250 to CUST-1098'' operator_request a = (Inr x, a') \<and>
    rs_requires_human_approval (ir_result x)"
proof -
  obtain a1 where a1: "admit_tenant {''agent.invoke''} operator_request a = (Inr (operator, wealth), a1)"
    "same_app a a1" "ap_approvals a1 = ap_approvals a"
    using operator_admitted[OF assms(2-4)] by blast
  note inv = create_app_inv[OF assms(1) start_world_ok start_params_ok]
  have i1: "app_inv start_params a1"
    using touched_inv[OF admit_tenant_touched[OF a1(1)]] inv by blast
  have q: "new_route_request ''Refund $250 to CUST-1098'' = Inr ''Refund $250 to CUST-1098''"
    by (simp add: new_route_request_def Let_def field_strip_def is_white_space_def code_def)
  have w: "op_model (ap_operations a1) = mock_classify" "op_allows (ap_operations a1) (op_max_steps (ap_operations a1)) 1"
    "op_allows (ap_operations a1) (op_max_steps (ap_operations a1)) 2"
    using a1(2) assms(5-7) by (simp_all add: same_app_def step_limit_def)
  obtain x m where run: "operations_investigate (ap_operations a1) ''Refund $250 to CUST-1098'' (p_subject operator)
      (document_scope operator wealth) (wr_request_id operator_request) (ap_mcp a1, mgw_metrics (ap_model_gateway a1)) =
      (Inr x, ap_mcp a1, m)" and app: "rs_requires_human_approval (or_result x)"
    using high_risk_run[OF refund_high_risk w] by blast
  obtain a2 where r: "run_operations ''Refund $250 to CUST-1098'' (p_subject operator)
      (document_scope operator wealth) operator_request a1 = (Inr x, a2)"
    using run by (simp add: run_operations_def)
  have a2: "ap_approvals a2 = ap_approvals a" "app_inv start_params a2"
    using run_operations_frame[OF i1 r] a1(3) touched_inv i1 by (auto simp: touched_def)
  obtain r3 st where ask: "request_approval start_params (p_subject operator) ''Refund $250 to CUST-1098''
      (tc_tenant wealth) operator_request (ap_approvals a2) = (r3, st)" by fastforce
  have "store_inv (pa_store start_params) (ap_approvals a2)" using a2(2) by (simp add: app_inv_def)
  note g = request_approval_frame[OF this operator_usable ask]
  have "store_content (pa_store start_params) (ap_approvals a2) = Map.empty"
    using inv by (simp add: a2(1) content_def)
  with g obtain i where "r3 = Inr i" by (cases r3) auto
  with a1(1) q r app ask show ?thesis
    by (auto simp: investigate_workflow_def investigate_for_def)
qed

theorem investigate_governed_witness:
  "\<exists>a x a' (who :: principal) (tc :: tenant_context). create_app start_params start_world default_settings = Some (Inr a) \<and>
     investigate_workflow start_params ''Refund $250 to CUST-1098'' operator_request a = (Inr x, a') \<and>
     ''agent.invoke'' \<in> p_roles who \<and> ir_approval_id x = Some ''7f'' \<and>
     content start_params a' ''7f'' =
       Some (pending_for start_params (p_subject who) (field_strip ''Refund $250 to CUST-1098'') (tc_tenant tc) operator_request)"
proof -
  obtain a where a: "create_app start_params start_world default_settings = Some (Inr a)"
    "ap_limiter a = new_rate_limiter 60 60" "ap_tenants a = sample_registry" "ap_settings a = default_settings"
    "op_model (ap_operations a) = mock_classify" "op_allows (ap_operations a) = step_limit"
    "op_max_steps (ap_operations a) = 8"
    by (rule started_app)
  obtain x a' where x: "investigate_workflow start_params ''Refund $250 to CUST-1098'' operator_request a = (Inr x, a')"
    "rs_requires_human_approval (ir_result x)"
    using refund_recorded[OF a(1,4,3,2,5,6,7)] by blast
  have u: "wr_uid operator_request = ''7f''" by (simp add: operator_request_def)
  from investigate_governed[OF reachable.started[OF a(1), where t = plain_text] start_world_ok start_params_ok
      operator_usable x(1), unfolded u if_P[OF x(2)]]
  obtain who :: principal and tc :: tenant_context where "''agent.invoke'' \<in> p_roles who" "ir_approval_id x = Some ''7f''"
    "content start_params a' = (content start_params a)(''7f'' \<mapsto> pending_for start_params (p_subject who)
       (field_strip ''Refund $250 to CUST-1098'') (tc_tenant tc) operator_request)"
    by blast
  with a(1) x(1) show ?thesis
    by (intro exI[of _ a] exI[of _ x] exI[of _ a'] exI[of _ who] exI[of _ tc] conjI) simp_all
qed

theorem requests_isolated_witness:
  "\<exists>a rs a'. create_app start_params start_world default_settings = Some (Inr a) \<and>
     serve start_params plain_text [(PostInvestigate ''Refund $250 to CUST-1098'', operator_request),
       (PostDemoRag None ''refund'' ''wealth'', operator_request)] a = (rs, a') \<and>
     ledger a' ''retail-banking'' = ledger a ''retail-banking''"
proof -
  obtain a where a: "create_app start_params start_world default_settings = Some (Inr a)"
    "ap_limiter a = new_rate_limiter 60 60" "ap_tenants a = sample_registry" "ap_settings a = default_settings"
    by (rule started_app)
  obtain a1 where "admit_tenant {''agent.invoke''} operator_request a = (Inr (operator, wealth), a1)"
    using operator_admitted[OF a(4,3,2)] by blast
  from tenant_of_admitted[OF this] have t: "tenant_of operator_request a = Some ''wealth''"
    by (simp add: wealth_def)
  define qs where "qs = [(PostInvestigate ''Refund $250 to CUST-1098'', operator_request),
       (PostDemoRag None ''refund'' ''wealth'', operator_request)]"
  have u: "list_all (\<lambda>(c, q). request_usable start_params q) qs"
    "list_all (\<lambda>(c, q). acts_for c q a \<noteq> Some ''retail-banking'') qs"
    using operator_usable t by (simp_all add: qs_def)
  obtain rs a' where s: "serve start_params plain_text qs a = (rs, a')" by fastforce
  from requests_isolated[OF reachable.started[OF a(1)] start_world_ok start_params_ok u s] s a(1)
  show ?thesis unfolding qs_def by blast
qed

text \<open>Nothing is retrieved from the empty index.\<close>

lemma empty_answer:
  assumes "create_app start_params start_world default_settings = Some (Inr a)"
    and "ap_index a = LocalIndex []"
    and "ap_limiter a = new_rate_limiter 60 60" and "ap_tenants a = sample_registry"
    and "ap_settings a = default_settings"
  shows "\<exists>x a'. rag_answer start_params ''refund'' operator_request a = (Inr x, a') \<and> ra_citations x = []"
proof -
  obtain a1 where a1: "admit_tenant {''agent.invoke''} operator_request a = (Inr (operator, wealth), a1)"
    "same_app a a1"
    using operator_admitted[OF assms(5,4,3)] by blast
  have q: "new_rag_answer_request ''refund'' = Inr ''refund''"
    by (simp add: new_rag_answer_request_def Let_def field_strip_def is_white_space_def code_def)
  have idx: "ap_index a1 = LocalIndex []" using a1(2) assms(2) by (simp add: same_app_def)
  have "strip ''refund'' \<noteq> []" by (simp add: strip_def lstrip_def is_space_def code_def)
  then obtain m where r: "retrieve_for start_params ''refund'' wealth a1 = (Inr [], a1\<lparr>ap_rag := m\<rparr>)"
    by (simp add: retrieve_for_def retrieve_def idx local_search_def py_take_def sort_key_def)
  define answer where "answer = ''No relevant evidence was found; unable to answer from authorised sources.''"
  have "0 \<le> term_overlap id xs ys \<and> term_overlap id xs ys \<le> 1" for xs ys
    by (rule term_overlap_range) simp_all
  then obtain report where
    "evaluate_groundedness (pa_round4 start_params) (ap_minimum_overlap a1) answer [] = Inr report"
    by (simp add: evaluate_groundedness_def Let_def start_params_def)
  with a1(1) q r show ?thesis
    by (simp add: rag_answer_def rag_answer_for_def synthesize_for_def synthesize_grounded_answer_def
        answer_def[symmetric])
qed

theorem rag_answer_confined_witness:
  "\<exists>a x a'. create_app start_params start_world default_settings = Some (Inr a) \<and>
     rag_answer start_params ''refund'' operator_request a = (Inr x, a') \<and> length (ra_citations x) \<le> 3"
proof -
  obtain a where a: "create_app start_params start_world default_settings = Some (Inr a)"
    "ap_index a = LocalIndex []" "ap_limiter a = new_rate_limiter 60 60" "ap_tenants a = sample_registry"
    "ap_settings a = default_settings"
    by (rule started_app)
  obtain x a' where x: "rag_answer start_params ''refund'' operator_request a = (Inr x, a')"
    using empty_answer[OF a] by blast
  from rag_answer_confined[OF reachable.started[OF a(1), where t = plain_text] start_world_ok start_params_ok x] x a(1)
  show ?thesis by (metis length_map)
qed

theorem demo_pages_escape_witness:
  "\<exists>a. create_app start_params start_world default_settings = Some (Inr a) \<and>
     markup (demo_page plain_text a (blocked_html ''<script>'')) = markup (demo_page plain_text a (blocked_html []))"
proof -
  obtain a where a: "create_app start_params start_world default_settings = Some (Inr a)"
    by (rule started_app)
  have "markup (pg_two_decimals plain_text v) = []" for v
    by (simp add: plain_text_def markup_def markup_char_def)
  from demo_pages_escape[OF this refl refl refl, where a = a and message = "''<script>''" and message' = "[]"] a
  show ?thesis by blast
qed

end
