(* ===== verification/Sdk.thy ===== *)
theory Sdk
  imports Auth Http
begin

text \<open>
  The synchronous client of the gateway (sdk/client.py) and what the gateway reads of its requests.

  \<open>httpx\<close> is not part of the repository: \<open>post\<close> is the parameter that sends a request of a client and
  yields the status of the response and the result of \<open>response.json()\<close>, or the error of the
  transport (a closed client is such an error).  Header values arrive as they were sent.
\<close>

section \<open>The client\<close>

record sdk_client =
  sc_base_url :: string
  sc_timeout :: real
  sc_headers :: "(string \<times> string) list"
  sc_closed :: bool

definition new_sdk_client :: "string \<Rightarrow> string \<Rightarrow> string set \<Rightarrow> string \<Rightarrow> real \<Rightarrow> sdk_client" where
  "new_sdk_client base_url user roles tenant timeout_seconds =
     \<lparr>sc_base_url = base_url, sc_timeout = timeout_seconds,
      sc_headers = [(''X-Local-User'', user), (''X-Local-Roles'', join '','' (sorted_list_of_set roles)),
        (''X-Local-Tenant'', tenant)],
      sc_closed = False\<rparr>"

record sdk_request =
  sr_path :: string
  sr_json :: pyval
  sr_headers :: "(string \<times> string) list"

definition sdk_request_for :: "string \<Rightarrow> string \<Rightarrow> sdk_request" where
  "sdk_request_for query request_id =
     \<lparr>sr_path = ''/api/v1/workflows/investigate'', sr_json = PDict [(''query'', PStr query)],
      sr_headers = [(''X-Request-ID'', request_id)]\<rparr>"

definition raise_for_status :: "int \<Rightarrow> exn + unit" where
  "raise_for_status status =
     (if 200 \<le> status \<and> status < 300 then Inr () else Inl (OtherException ''httpx.HTTPStatusError''))"

definition sdk_investigate ::
  "(sdk_client \<Rightarrow> sdk_request \<Rightarrow> exn + int \<times> (exn + pyval)) \<Rightarrow> sdk_client \<Rightarrow> string \<Rightarrow> string \<Rightarrow> exn + pyval" where
  "sdk_investigate post c query request_id =
     (case post c (sdk_request_for query request_id) of
        Inl e \<Rightarrow> Inl e
      | Inr (status, body) \<Rightarrow> (case raise_for_status status of Inl e \<Rightarrow> Inl e | Inr _ \<Rightarrow> body))"

definition sdk_close :: "sdk_client \<Rightarrow> sdk_client" where
  "sdk_close c = c\<lparr>sc_closed := True\<rparr>"

text \<open>\<open>with AgentPlatformClient(...) as client\<close>: the block runs on the client, which is closed after it
  whether it raised or not.\<close>

definition with_client :: "sdk_client \<Rightarrow> (sdk_client \<Rightarrow> exn + 'a) \<Rightarrow> (exn + 'a) \<times> sdk_client" where
  "with_client c block = (block c, sdk_close c)"

section \<open>What the gateway reads\<close>

text \<open>Header names are compared without case, and the first of a name counts.\<close>

definition header_value :: "string \<Rightarrow> (string \<times> string) list \<Rightarrow> string option" where
  "header_value name hs = map_of (map (\<lambda>(k, v). (str_lower k, v)) hs) name"

definition received_auth :: "(string \<times> string) list \<Rightarrow> auth_headers" where
  "received_auth hs =
     \<lparr>ah_user = header_value ''x-local-user'' hs,
      ah_roles = (case header_value ''x-local-roles'' hs of None \<Rightarrow> [] | Some r \<Rightarrow> r),
      ah_authorization = header_value ''authorization'' hs,
      ah_tenant = header_value ''x-local-tenant'' hs\<rparr>"

definition received_request :: "(string \<times> string) list \<Rightarrow> string \<Rightarrow> string option \<Rightarrow> http_request" where
  "received_request hs path body_length =
     \<lparr>rq_method = ''POST'', rq_path = path, rq_request_id = header_value ''x-request-id'' hs,
      rq_content_length = body_length\<rparr>"

definition sent_headers :: "sdk_client \<Rightarrow> sdk_request \<Rightarrow> (string \<times> string) list" where
  "sent_headers c q = sc_headers c @ sr_headers q"

section \<open>Round trip\<close>

definition plain_role :: "string \<Rightarrow> bool" where
  "plain_role r \<longleftrightarrow> r \<noteq> [] \<and> strip r = r \<and> CHR '','' \<notin> set r"

lemma set_strip: "set (strip s) \<subseteq> set s"
proof -
  have "set (dropWhile is_space t) \<subseteq> set t" for t using set_dropWhileD by fast
  from this[of "rev (lstrip s)"] this[of s] show ?thesis by (auto simp: strip_def lstrip_def)
qed

lemma listed_roles_plain:
  "r \<in> set (filter (\<lambda>r. r \<noteq> []) (map strip (split_on (CHR '','') s))) \<Longrightarrow> plain_role r"
  by (auto simp: plain_role_def dest: subsetD[OF set_strip] split_on_no_sep)

lemma roles_listed:
  assumes "finite roles" and "\<forall>r\<in>roles. plain_role r"
  shows "set (filter (\<lambda>r. r \<noteq> []) (map strip (split_on (CHR '','') (join '','' (sorted_list_of_set roles))))) = roles"
proof (cases "roles = {}")
  case False
  then have "sorted_list_of_set roles \<noteq> []" using assms(1) by simp
  then have "split_on (CHR '','') (join '','' (sorted_list_of_set roles)) = sorted_list_of_set roles"
    using assms by (intro split_on_join) (simp_all add: plain_role_def)
  with assms show ?thesis by (force simp: plain_role_def)
qed (simp add: strip_def lstrip_def)

lemma header_names [simp]:
  "str_lower ''X-Local-User'' = ''x-local-user''" "str_lower ''X-Local-Roles'' = ''x-local-roles''"
  "str_lower ''X-Local-Tenant'' = ''x-local-tenant''" "str_lower ''X-Request-ID'' = ''x-request-id''"
  by code_simp+

lemma sent_values:
  assumes "hs = sent_headers (new_sdk_client base user roles tenant timeout) (sdk_request_for query rid)"
  shows "received_auth hs = \<lparr>ah_user = Some user, ah_roles = join '','' (sorted_list_of_set roles),
      ah_authorization = None, ah_tenant = Some tenant\<rparr>"
    and "rq_request_id (received_request hs path n) = Some rid"
  by (simp_all add: assms sent_headers_def new_sdk_client_def sdk_request_for_def received_auth_def
      received_request_def header_value_def)

text \<open>C20: in the local environment the gateway reads back the identity that a client was made with:
  its user, its tenant and the request id (when it is a well-formed one), and exactly its roles if and
  only if every role is a non-empty text without a comma or surrounding blanks.\<close>

theorem sdk_identity_roundtrip:
  assumes "local_env s" and "finite roles" and "strip user \<noteq> []" and "strip tenant \<noteq> []"
    and "strip tenant \<in> tr_names registry"
    and "hs = sent_headers (new_sdk_client base user roles tenant timeout) (sdk_request_for query rid)"
  shows "\<exists>p t. authenticate s resolver registry (received_auth hs) = Inr (p, t) \<and>
    p_subject p = strip user \<and> tc_tenant t = strip tenant \<and> tr_get registry (strip tenant) = Inr (tc_bundle t) \<and>
    (p_roles p = roles \<longleftrightarrow> (\<forall>r\<in>roles. plain_role r)) \<and>
    choose_request_id uuid (received_request hs path n) =
      (if full_match request_id_pattern rid then rid else uuid)"
proof -
  let ?roles = "set (filter (\<lambda>r. r \<noteq> []) (map strip (split_on (CHR '','') (join '','' (sorted_list_of_set roles)))))"
  obtain b where b: "tr_get registry (strip tenant) = Inr b" using tr_get_known[OF assms(5)] by blast
  have "authenticate s resolver registry (received_auth hs) =
      Inr (\<lparr>p_subject = strip user, p_roles = ?roles\<rparr>, \<lparr>tc_tenant = strip tenant, tc_bundle = b\<rparr>)"
    unfolding authenticate_local_mode[OF assms(1)] sent_values(1)[OF assms(6)] using assms(3,4) b by simp
  moreover have "?roles = roles \<longleftrightarrow> (\<forall>r\<in>roles. plain_role r)"
    using roles_listed[OF assms(2)] listed_roles_plain by blast
  moreover have "choose_request_id uuid (received_request hs path n) =
      (if full_match request_id_pattern rid then rid else uuid)"
    by (simp add: choose_request_id_def sent_values(2)[OF assms(6)])
  ultimately show ?thesis using b by auto
qed

text \<open>The result of a call: a successful status, and then what the body holds.\<close>

lemma sdk_investigate_Inr:
  "sdk_investigate post c query rid = Inr v \<longleftrightarrow>
     (\<exists>status. post c (sdk_request_for query rid) = Inr (status, Inr v) \<and> 200 \<le> status \<and> status < 300)"
  by (auto simp: sdk_investigate_def raise_for_status_def split: sum.splits prod.splits)

definition local_settings :: settings where
  "local_settings = production_settings\<lparr>st_app_env := LocalEnv\<rparr>"

theorem sdk_identity_roundtrip_witness:
  "\<exists>p t. authenticate local_settings (resolve sample_jwt sample_resolver) sample_registry
      (received_auth (sent_headers (new_sdk_client ''http://gw'' ''ops-7'' {''agent.invoke'', ''platform.viewer''}
        ''wealth'' 30) (sdk_request_for ''Check TXN-48291'' ''r-1''))) = Inr (p, t) \<and>
     p_subject p = ''ops-7'' \<and> p_roles p = {''agent.invoke'', ''platform.viewer''} \<and> tc_tenant t = ''wealth''"
proof -
  have s: "strip ''ops-7'' = ''ops-7''" "strip ''wealth'' = ''wealth''" "strip ''agent.invoke'' = ''agent.invoke''"
    "strip ''platform.viewer'' = ''platform.viewer''"
    by code_simp+
  have "local_env local_settings" "''wealth'' \<in> tr_names sample_registry"
    by (simp_all add: local_env_def local_settings_def tr_names_def sample_registry_def)
  then show ?thesis
    using sdk_identity_roundtrip[where s = local_settings and resolver = "resolve sample_jwt sample_resolver"
        and registry = sample_registry and user = "''ops-7''" and tenant = "''wealth''" and base = "''http://gw''"
        and roles = "{''agent.invoke'', ''platform.viewer''}" and timeout = 30 and query = "''Check TXN-48291''"
        and rid = "''r-1''" and uuid = "[]" and path = "[]" and n = None, OF _ _ _ _ _ refl]
    by (auto simp: s plain_role_def)
qed

end
