(* ===== verification/DurableState.thy ===== *)
theory DurableState
  imports ApprovalStores
begin

text \<open>
  Storage that outlives a store, and the two scripts that exercise it: scripts/verify-durable-state.py,
  which closes a store and decides an approval on a second one over the same storage, and the recovery
  exercise of scripts/operational-readiness.py.  The scripts take a factory of stores; here it is
  \<open>open_d\<close>, a function of the storage, with \<open>close_d\<close> for what a store leaves behind.  The locale
  \<open>durable_store\<close> adds to the contract of a store that a store opened on what another left holds the
  same approvals.

  What a store leaves behind is all its rows: each operation of the backends ends its own transaction
  (the \<open>with\<close> block of the connection commits), and the databases keep what is committed.

  The uuid and the clock readings of a run and the bytes of a database file are parameters.
\<close>

section \<open>Replies\<close>

fun recorded :: "exn + approval_reply \<Rightarrow> exn + approval_record" where
  "recorded (Inl e) = Inl e"
| "recorded (Inr (Recorded r)) = Inr r"
| "recorded (Inr _) = Inl (OtherException ''AttributeError'')"

fun looked_up :: "exn + approval_reply \<Rightarrow> exn + approval_record option" where
  "looked_up (Inl e) = Inl e"
| "looked_up (Inr (Looked_up r)) = Inr r"
| "looked_up (Inr _) = Inl (OtherException ''AttributeError'')"

definition still_pending :: "approval_record option \<Rightarrow> bool" where
  "still_pending found \<longleftrightarrow> (case found of None \<Rightarrow> False | Some r \<Rightarrow> ar_status r = Pending)"

section \<open>Waiting for a backend\<close>

text \<open>\<open>probe n\<close> is the outcome of the attempt \<open>n\<close> to open a store and close it.\<close>

fun wait_attempts :: "(nat \<Rightarrow> exn + unit) \<Rightarrow> nat list \<Rightarrow> exn + unit" where
  "wait_attempts probe [] = Inl (RuntimeError ''durable backend did not become connectable'')"
| "wait_attempts probe (n # ns) =
     (case probe n of
        Inr _ \<Rightarrow> Inr ()
      | Inl e \<Rightarrow> if is_exception e then wait_attempts probe ns else Inl e)"

definition wait_until_connectable :: "(nat \<Rightarrow> exn + unit) \<Rightarrow> nat \<Rightarrow> exn + unit" where
  "wait_until_connectable probe attempts = wait_attempts probe [0..<attempts]"

lemma wait_attempts_Inr:
  "\<forall>n\<in>set ns. \<forall>e. probe n = Inl e \<longrightarrow> is_exception e \<Longrightarrow>
     wait_attempts probe ns = (if \<exists>n\<in>set ns. is_ok (probe n) then Inr ()
       else Inl (RuntimeError ''durable backend did not become connectable''))"
  by (induction ns) (auto split: sum.splits)

section \<open>The integration check\<close>

definition verify_tenant :: string where
  "verify_tenant = ''payment-disputes''"

definition verify_query :: string where
  "verify_query = ''sensitive synthetic request that must not be retained''"

definition verify_create :: "string \<Rightarrow> timestamp \<Rightarrow> approval_op" where
  "verify_create uid now =
     CreatePending uid now ''durable-integration-request'' ''local-integration'' verify_query verify_tenant"

definition verify_approve :: "string \<Rightarrow> timestamp \<Rightarrow> approval_op" where
  "verify_approve i now =
     Decide i Approve ''local-reviewer'' ''local integration evidence checked'' verify_tenant now"

definition verify_reject :: "string \<Rightarrow> timestamp \<Rightarrow> approval_op" where
  "verify_reject i now = Decide i Reject ''second-reviewer'' ''must be rejected atomically'' verify_tenant now"

text \<open>What the script does on the second store: \<open>i\<close> is the id of the approval, \<open>t1\<close> and \<open>t2\<close> the times
  of the two decisions.\<close>

definition verify_reopened ::
  "(approval_op \<Rightarrow> 's \<Rightarrow> (exn + approval_reply) \<times> 's) \<Rightarrow> string \<Rightarrow> timestamp \<Rightarrow> timestamp \<Rightarrow> 's
    \<Rightarrow> (exn + unit) \<times> 's" where
  "verify_reopened step i t1 t2 s =
     (let (found, s1) = step (GetRecord i verify_tenant) s in
      case looked_up found of
        Inl e \<Rightarrow> (Inl e, s1)
      | Inr persisted \<Rightarrow>
          if \<not> still_pending persisted
          then (Inl (RuntimeError ''pending approval did not survive reconnect''), s1)
          else let (reply, s2) = step (verify_approve i t1) s1 in
            (case recorded reply of
               Inl e \<Rightarrow> (Inl e, s2)
             | Inr approved \<Rightarrow>
                 if ar_status approved \<noteq> Approved
                 then (Inl (RuntimeError ''approval decision was not persisted''), s2)
                 else let (again, s3) = step (verify_reject i t2) s2 in
                   (case recorded again of
                      Inl e \<Rightarrow> (if is_value_error e then Inr () else Inl e, s3)
                    | Inr _ \<Rightarrow> (Inl (OtherException ''AssertionError''), s3))))"

definition verify ::
  "(approval_op \<Rightarrow> 's \<Rightarrow> (exn + approval_reply) \<times> 's) \<Rightarrow> ('d \<Rightarrow> exn + 's) \<Rightarrow> ('s \<Rightarrow> 'd)
    \<Rightarrow> string \<Rightarrow> timestamp \<Rightarrow> timestamp \<Rightarrow> timestamp \<Rightarrow> 'd \<Rightarrow> (exn + unit) \<times> 'd" where
  "verify step open_d close_d uid t0 t1 t2 d =
     (case open_d d of
        Inl e \<Rightarrow> (Inl e, d)
      | Inr s \<Rightarrow>
          let (reply, s1) = step (verify_create uid t0) s; d1 = close_d s1 in
          (case recorded reply of
             Inl e \<Rightarrow> (Inl e, d1)
           | Inr pending \<Rightarrow>
               if length (ar_query_sha256 pending) \<noteq> 64
               then (Inl (RuntimeError ''backend did not persist a SHA-256 query digest''), d1)
               else (case open_d d1 of
                       Inl e \<Rightarrow> (Inl e, d1)
                     | Inr reopened \<Rightarrow>
                         let (r, s2) = verify_reopened step (ar_approval_id pending) t1 t2 reopened
                         in (r, close_d s2))))"

section \<open>Durable stores\<close>

locale durable_store = approval_store sha256 step inv_store usable content gauge
  for sha256 :: "string \<Rightarrow> string"
    and step :: "approval_op \<Rightarrow> 's \<Rightarrow> (exn + approval_reply) \<times> 's"
    and inv_store :: "'s \<Rightarrow> bool"
    and usable :: "approval_op \<Rightarrow> bool"
    and content :: "'s \<Rightarrow> approvals"
    and gauge :: "'s \<Rightarrow> string \<Rightarrow> int" +
  fixes open_d :: "'d \<Rightarrow> exn + 's"
    and close_d :: "'s \<Rightarrow> 'd"
  assumes reopens: "inv_store s \<Longrightarrow>
      \<exists>s1. open_d (close_d s) = Inr s1 \<and> inv_store s1 \<and> content s1 = content s"
begin

lemma creates:
  assumes "inv_store s" and "usable (CreatePending uid now rid rq q t)" and "content s uid = None"
  obtains s1 where
    "step (CreatePending uid now rid rq q t) s = (Inr (Recorded (build_pending_record sha256 uid now rid rq q t)), s1)"
    "inv_store s1" "content s1 = (content s)(uid \<mapsto> build_pending_record sha256 uid now rid rq q t)"
  using keeps_inv[OF assms(1,2)] refines[OF assms(1,2)] assms(3)
  by (elim create_stepE) (auto intro!: that prod_eqI)

lemma finds:
  assumes "inv_store s" and "usable (GetRecord i t)" and "content s i = Some r" and "ar_tenant r = t"
  obtains s1 where "step (GetRecord i t) s = (Inr (Looked_up (Some r)), s1)" "inv_store s1" "content s1 = content s"
  using keeps_inv[OF assms(1,2)] refines[OF assms(1,2)] assms(3,4)
  by (elim get_stepE) (auto simp: visible_to_def intro!: that prod_eqI)

lemma settles:
  assumes "inv_store s" and "usable (Decide i d rv rs t now)" and "content s i = Some r" and "decidable_by t r"
  obtains s1 where "step (Decide i d rv rs t now) s = (Inr (Recorded (decided d rv rs now r)), s1)" "inv_store s1"
    "content s1 = (content s)(i \<mapsto> decided d rv rs now r)"
  using keeps_inv[OF assms(1,2)] refines[OF assms(1,2)] assms(3,4)
  by (elim decide_stepE) (auto intro!: that prod_eqI)

lemma settled:
  assumes "inv_store s" and "usable (Decide i d rv rs t now)" and "content s i = Some r" and "\<not> decidable_by t r"
  obtains s1 where "step (Decide i d rv rs t now) s = (Inl not_decidable, s1)" "inv_store s1" "content s1 = content s"
  using keeps_inv[OF assms(1,2)] refines[OF assms(1,2)] assms(3,4)
  by (elim decide_stepE) (auto intro!: that prod_eqI)

lemma verify_reopened_passes:
  assumes "inv_store s" and "content s i = Some r" and "decidable_by verify_tenant r"
    and u: "usable (GetRecord i verify_tenant)" "usable (verify_approve i t1)" "usable (verify_reject i t2)"
  shows "\<exists>s3. verify_reopened step i t1 t2 s = (Inr (), s3) \<and> inv_store s3 \<and> content s3 = (content s)(i \<mapsto>
    decided Approve ''local-reviewer'' ''local integration evidence checked'' t1 r)"
proof -
  let ?r = "decided Approve ''local-reviewer'' ''local integration evidence checked'' t1 r"
  have r: "ar_tenant r = verify_tenant" "ar_status r = Pending" using assms(3) by (simp_all add: decidable_by_def)
  obtain s1 where s1: "step (GetRecord i verify_tenant) s = (Inr (Looked_up (Some r)), s1)" "inv_store s1"
    "content s1 = content s"
    using finds[OF assms(1) u(1) assms(2) r(1)] by blast
  obtain s2 where s2: "step (verify_approve i t1) s1 = (Inr (Recorded ?r), s2)" "inv_store s2"
    "content s2 = (content s1)(i \<mapsto> ?r)"
    using settles[OF s1(2) u(2)[unfolded verify_approve_def]] assms(2,3) s1(3) unfolding verify_approve_def by metis
  have "content s2 i = Some ?r" "\<not> decidable_by verify_tenant ?r" by (simp_all add: s2(3) decidable_by_def)
  then obtain s3 where "step (verify_reject i t2) s2 = (Inl not_decidable, s3)" "inv_store s3" "content s3 = content s2"
    using settled[OF s2(2) u(3)[unfolded verify_reject_def]] unfolding verify_reject_def by metis
  then show ?thesis
    using s1 s2 r by (simp add: verify_reopened_def still_pending_def not_decidable_def)
qed

lemma verify_passes:
  assumes "open_d d = Inr s" and "inv_store s" and "content s uid = None" and "length (sha256 verify_query) = 64"
    and "usable (verify_create uid t0)" and "usable (GetRecord uid verify_tenant)"
    and "usable (verify_approve uid t1)" and "usable (verify_reject uid t2)"
  shows "\<exists>s'. verify step open_d close_d uid t0 t1 t2 d = (Inr (), close_d s') \<and> inv_store s' \<and>
    content s' = (content s)(uid \<mapsto> decided Approve ''local-reviewer'' ''local integration evidence checked'' t1
      (build_pending_record sha256 uid t0 ''durable-integration-request'' ''local-integration'' verify_query verify_tenant))"
proof -
  let ?r = "build_pending_record sha256 uid t0 ''durable-integration-request'' ''local-integration'' verify_query verify_tenant"
  obtain s1 where s1: "step (verify_create uid t0) s = (Inr (Recorded ?r), s1)" "inv_store s1"
    "content s1 = (content s)(uid \<mapsto> ?r)"
    using creates[OF assms(2) assms(5)[unfolded verify_create_def] assms(3)] unfolding verify_create_def by metis
  obtain s2 where s2: "open_d (close_d s1) = Inr s2" "inv_store s2" "content s2 = content s1"
    using reopens[OF s1(2)] by blast
  have "content s2 uid = Some ?r" "decidable_by verify_tenant ?r" by (simp_all add: s1(3) s2(3) decidable_by_def)
  from verify_reopened_passes[OF s2(2) this assms(6-8)] show ?thesis
    using assms(1,4) s1 s2 by (auto simp: verify_def)
qed

end

section \<open>The storage of the three backends\<close>

text \<open>What is left when a store is closed: the rows of a file, the rows of a table (and whether its URL
  names a PostgreSQL server), the keys of a server (or the error of its \<open>PING\<close>).\<close>

datatype 'x storage =
    SqliteFile "sqlite_row list"
  | PostgresTable bool "approval_record list"
  | RedisServer "exn + (string \<rightharpoonup> 'x redis_value)"

fun open_storage :: "'x storage \<Rightarrow> exn + 'x open_store" where
  "open_storage (SqliteFile rows) = Inr (OnSqlite (new_sqlite_store rows))"
| "open_storage (PostgresTable good_url rows) = map_sum id OnPostgres (new_postgres_store good_url 5 rows)"
| "open_storage (RedisServer answer) =
     map_sum id (\<lambda>keys. OnRedis (new_redis_store default_prefix keys)) answer"

fun close_store :: "'x open_store \<Rightarrow> 'x storage" where
  "close_store (OnSqlite st) = SqliteFile (sq_rows st)"
| "close_store (OnPostgres st) = PostgresTable True (pg_rows st)"
| "close_store (OnRedis st) = RedisServer (Inr (rd_keys st))"

text \<open>The key prefix of a Redis store is the one that every store of the scripts has.\<close>

fun default_keys :: "'x open_store \<Rightarrow> bool" where
  "default_keys (OnRedis st) = (rd_prefix st = default_prefix)"
| "default_keys _ = True"

definition store_ready :: "'x store_params \<Rightarrow> 'x open_store \<Rightarrow> bool" where
  "store_ready p st \<longleftrightarrow> store_inv p st \<and> default_keys st"

lemma redis_step_prefix: "rd_prefix (snd (redis_step sha256 c x st)) = rd_prefix st"
  by (cases x)
    (auto simp: redis_create_def redis_decide_def Let_def split: sum.splits option.splits prod.splits)

lemma store_step_default: "default_keys st \<Longrightarrow> default_keys (snd (store_step p x st))"
  by (cases st) (simp_all add: redis_step_prefix)

lemma redis_same_keys:
  "rd_keys st1 = rd_keys st \<Longrightarrow> rd_prefix st1 = rd_prefix st \<Longrightarrow>
     redis_inv c st1 = redis_inv c st \<and> redis_content c st1 = redis_content c st"
proof -
  assume *: "rd_keys st1 = rd_keys st" "rd_prefix st1 = rd_prefix st"
  then have k: "record_key st1 = record_key st" "pending_key st1 = pending_key st"
    by (simp_all add: record_key_def[abs_def] pending_key_def[abs_def])
  have "redis_content c st1 = redis_content c st" "index_of st1 = index_of st"
    unfolding redis_content_def[abs_def] index_of_def[abs_def] * k by (rule refl)+
  then show ?thesis by (simp add: redis_inv_def * k)
qed

lemma sqlite_same_rows:
  "sq_rows st1 = sq_rows st \<Longrightarrow>
     sqlite_inv pt st1 = sqlite_inv pt st \<and> sqlite_content pt st1 = sqlite_content pt st"
  by (simp add: sqlite_inv_def sqlite_content_def sqlite_table_def)

interpretation durable: durable_store "sp_sha256 p" "store_step p" "store_ready p" "op_usable p" "store_content p"
  store_gauge open_storage close_store for p :: "'x store_params"
proof (unfold_locales, goal_cases)
  case (1 s x)
  then show ?case using opened.keeps_inv[of p s x] store_step_default[of s p x] by (simp add: store_ready_def)
next
  case (2 s x)
  then show ?case using opened.refines[of p s x] by (simp add: store_ready_def)
next
  case (3 s x)
  then show ?case using opened.counts[of p s x] by (simp add: store_ready_def)
next
  case (4 s)
  show ?case
  proof (cases s)
    case (OnSqlite st)
    with 4 sqlite_same_rows[of "new_sqlite_store (sq_rows st)" st "sp_parse_time p"] show ?thesis
      by (simp add: store_ready_def new_sqlite_store_def)
  next
    case (OnPostgres st)
    with 4 show ?thesis
      by (simp add: store_ready_def new_postgres_store_def new_pool_def pg_inv_def pool_clean_def pg_content_def
          list_all_iff)
  next
    case (OnRedis st)
    with 4 redis_same_keys[of "new_redis_store default_prefix (rd_keys st)" st "sp_codec p"] show ?thesis
      by (simp add: store_ready_def new_redis_store_def)
  qed
qed

text \<open>The scripts run on an id and times that the backends can take.\<close>

definition run_usable :: "'x store_params \<Rightarrow> string \<Rightarrow> timestamp list \<Rightarrow> bool" where
  "run_usable p uid ts \<longleftrightarrow> sp_canon p uid = Some uid \<and> good_id uid \<and> list_all ts_valid ts \<and>
     length (sp_sha256 p verify_query) = 64"

lemma run_usable_ops:
  assumes "run_usable p uid [t0, t1, t2]"
  shows "op_usable p (verify_create uid t0)" "op_usable p (GetRecord uid verify_tenant)"
    "op_usable p (verify_approve uid t1)" "op_usable p (verify_reject uid t2)"
  using assms
  by (simp_all add: run_usable_def op_usable_def op_times_valid_def pg_usable_def redis_usable_def verify_create_def
      verify_approve_def verify_reject_def)

text \<open>\<open>main\<close>: both backends, after both can be reached.\<close>

definition durable_main ::
  "'x store_params \<Rightarrow> (nat \<Rightarrow> exn + unit) \<Rightarrow> (nat \<Rightarrow> exn + unit) \<Rightarrow> (string \<times> timestamp \<times> timestamp \<times> timestamp)
    \<Rightarrow> (string \<times> timestamp \<times> timestamp \<times> timestamp) \<Rightarrow> 'x storage \<Rightarrow> 'x storage \<Rightarrow> exn + unit" where
  "durable_main p probe_pg probe_redis run_pg run_redis pg redis =
     (case wait_until_connectable probe_pg 10 of
        Inl e \<Rightarrow> Inl e
      | Inr _ \<Rightarrow>
     (case wait_until_connectable probe_redis 10 of
        Inl e \<Rightarrow> Inl e
      | Inr _ \<Rightarrow>
     (case (case run_pg of (uid, t0, t1, t2) \<Rightarrow> fst (verify (store_step p) open_storage close_store uid t0 t1 t2 pg)) of
        Inl e \<Rightarrow> Inl e
      | Inr _ \<Rightarrow>
          (case run_redis of (uid, t0, t1, t2) \<Rightarrow>
             fst (verify (store_step p) open_storage close_store uid t0 t1 t2 redis)))))"

section \<open>The recovery exercise\<close>

record recovery_report =
  rc_created :: nat
  rc_recovered :: nat
  rc_lost :: nat
  rc_query_absent :: bool
  rc_seconds :: real

definition recovery_query :: string where
  "recovery_query = ''synthetic recovery request that must never be retained''"

text \<open>A primary file, its backup and the restored copy; \<open>file_bytes\<close> gives the bytes of a file.\<close>

definition recovery_exercise ::
  "(string \<Rightarrow> string) \<Rightarrow> (string \<Rightarrow> timestamp option) \<Rightarrow> (sqlite_row list \<Rightarrow> string) \<Rightarrow> (real \<Rightarrow> real)
    \<Rightarrow> string \<Rightarrow> timestamp \<Rightarrow> real \<Rightarrow> exn + recovery_report" where
  "recovery_exercise sha256 parse_time file_bytes round4 uid now elapsed =
     (let (reply, store) = sqlite_step sha256 parse_time
            (CreatePending uid now ''dr-exercise-request'' ''dr-exercise-operator'' recovery_query verify_tenant)
            (new_sqlite_store []) in
      case recorded reply of
        Inl e \<Rightarrow> Inl e
      | Inr pending \<Rightarrow>
          let backup = sq_rows store; recovered = new_sqlite_store backup in
          (case sqlite_get parse_time (ar_approval_id pending) verify_tenant recovered of
             Inl e \<Rightarrow> Inl e
           | Inr found \<Rightarrow>
               if \<not> still_pending found
               then Inl (RuntimeError ''restored approval record failed integrity validation'')
               else if contains recovery_query (file_bytes backup)
               then Inl (RuntimeError ''backup retained sensitive query text'')
               else Inr \<lparr>rc_created = 1, rc_recovered = 1, rc_lost = 0, rc_query_absent = True,
                      rc_seconds = round4 elapsed\<rparr>))"

text \<open>The copy always has the record, and no column of it holds the query.\<close>

lemma recovery_exercise_outcome:
  assumes "reads_iso parse_time" and "ts_valid now"
    and r_def: "r = build_pending_record sha256 uid now ''dr-exercise-request'' ''dr-exercise-operator'' recovery_query
      verify_tenant"
  shows "recovery_exercise sha256 parse_time file_bytes round4 uid now elapsed =
    (if contains recovery_query (file_bytes [row_of r]) then Inl (RuntimeError ''backup retained sensitive query text'')
     else Inr \<lparr>rc_created = 1, rc_recovered = 1, rc_lost = 0, rc_query_absent = True, rc_seconds = round4 elapsed\<rparr>)"
proof -
  have row: "pending_row r = row_of r" by (simp add: r_def pending_row_def row_of_def build_pending_record_def)
  have read: "sqlite_record parse_time (row_of r) = Inr r"
    using assms(1,2) by (simp add: timed_def r_def)
  have sel: "ar_approval_id r = uid" "ar_tenant r = verify_tenant" "ar_status r = Pending" by (simp_all add: r_def)
  have got: "sqlite_get parse_time uid verify_tenant st = Inr (Some r)" if "sq_rows st = [row_of r]" for st
    using that read sel by (simp add: sqlite_get_def)
  define st1 where "st1 = \<lparr>sq_rows = [row_of r], sq_gauge = (\<lambda>_. 0)(verify_tenant := 1)\<rparr>"
  have "sqlite_create parse_time r (new_sqlite_store []) = (Inr r, st1)"
    using row got sel by (simp add: sqlite_create_def new_sqlite_store_def st1_def Let_def)
  then show ?thesis
    using got sel
    by (simp add: recovery_exercise_def r_def[symmetric] Let_def new_sqlite_store_def st1_def still_pending_def)
qed

section \<open>Properties\<close>

text \<open>C25: on every backend the integration check passes over any storage that a store could have left,
  as long as the id is new and the texts are such as the backends can take: the approval survives the
  reconnection, is decided once, and the storage keeps it decided, together with all it held before.\<close>

theorem durable_state_verified:
  assumes "open_storage d = Inr st" and "store_ready p st" and "store_content p st uid = None"
    and "run_usable p uid [t0, t1, t2]"
  shows "\<exists>d' st'. verify (store_step p) open_storage close_store uid t0 t1 t2 d = (Inr (), d') \<and>
    open_storage d' = Inr st' \<and> store_ready p st' \<and>
    store_content p st' = (store_content p st)(uid \<mapsto>
      decided Approve ''local-reviewer'' ''local integration evidence checked'' t1
        (build_pending_record (sp_sha256 p) uid t0 ''durable-integration-request'' ''local-integration''
           verify_query verify_tenant))"
proof -
  have "length (sp_sha256 p verify_query) = 64" using assms(4) by (simp add: run_usable_def)
  from durable.verify_passes[OF assms(1-3) this run_usable_ops[OF assms(4)]]
  obtain s' where s': "verify (store_step p) open_storage close_store uid t0 t1 t2 d = (Inr (), close_store s')"
    "store_ready p s'" "store_content p s' = (store_content p st)(uid \<mapsto>
      decided Approve ''local-reviewer'' ''local integration evidence checked'' t1
        (build_pending_record (sp_sha256 p) uid t0 ''durable-integration-request'' ''local-integration''
           verify_query verify_tenant))"
    by blast
  with durable.reopens[OF s'(2)] show ?thesis by auto
qed

theorem durable_state_verified_witness:
  "\<exists>d' st'. verify (store_step sample_params) open_storage close_store ''7f'' (noon 0) (noon 1) (noon 2)
      (RedisServer (Inr Map.empty)) = (Inr (), d') \<and> open_storage d' = Inr st' \<and>
     map_option ar_status (store_content sample_params st' ''7f'') = Some Approved"
proof -
  let ?st = "OnRedis (new_redis_store default_prefix Map.empty)"
  have o: "open_storage (RedisServer (Inr Map.empty)) = Inr ?st" by simp
  have ready: "store_ready sample_params ?st" "store_content sample_params ?st ''7f'' = None"
    using sample_params_ok
    by (simp_all add: store_ready_def params_ok_def new_redis_store_def redis_inv_def redis_content_def index_of_def
        redis_members_def)
  have u: "run_usable sample_params ''7f'' [noon 0, noon 1, noon 2]"
    by (simp add: run_usable_def sample_params_def good_id_def index_prefix_def starts_with_def ts_valid_def noon_def)
  from durable_state_verified[OF o ready u] show ?thesis by fastforce
qed

end
