(* ===== verification/LoadTest.thy ===== *)
theory LoadTest
  imports McpLocal
begin

text \<open>
  The load and failure check of the tool gateway (scripts/load-failure-test.py): many concurrent calls
  of one tool, once on the local tools and once on a tool that always times out.

  The clock readings of every call and the measured durations are parameters, and so is the rounding
  of the report.  \<open>asyncio.gather\<close> starts the calls in order; a call touches the gateway's queues when
  it starts and its audit trail when it ends, so what the script checks of the trail, a statement on
  all its records, does not depend on the order in which the calls end.
\<close>

section \<open>Calls in parallel\<close>

definition load_caller :: "nat \<Rightarrow> exn + caller_context" where
  "load_caller i = new_caller_context (''load-client-'' @ show_nat (i mod 10)) {''agent.invoke''} ''customer''
     (''load-request-'' @ show_nat i)"

definition load_call :: "(nat \<Rightarrow> call_times) \<Rightarrow> string \<Rightarrow> nat \<Rightarrow> exn + mcp_call" where
  "load_call clock tool i =
     map_sum id (\<lambda>c. (clock i, tool, [(''customer_id'', PStr ''CUST-1098'')], c)) (load_caller i)"

fun gather_calls ::
  "(string \<Rightarrow> string) \<Rightarrow> (real \<Rightarrow> real) \<Rightarrow> mcp_call list \<Rightarrow> ('i, 'o) mcp_gateway
    \<Rightarrow> (exn + 'o) list \<times> ('i, 'o) mcp_gateway" where
  "gather_calls sha256 round3 [] g = ([], g)"
| "gather_calls sha256 round3 ((ct, tool, args, caller) # calls) g =
     (let (r, g1) = mcp_invoke sha256 round3 ct tool args caller g;
          (rs, g2) = gather_calls sha256 round3 calls g1
      in (r # rs, g2))"

definition run_load ::
  "(string \<Rightarrow> string) \<Rightarrow> (real \<Rightarrow> real) \<Rightarrow> retriever \<Rightarrow> (nat \<Rightarrow> call_times) \<Rightarrow> real \<Rightarrow> nat \<Rightarrow> exn + real" where
  "run_load sha256 round3 retr clock elapsed volume =
     (case build_local_mcp_gateway retr 2 2 1000 60 of
        Inl e \<Rightarrow> Inl e
      | Inr g \<Rightarrow>
     (case map_outcome (load_call clock ''customer.get_customer'') [0..<volume] of
        Inl e \<Rightarrow> Inl e
      | Inr calls \<Rightarrow>
          let (rs, g1) = gather_calls sha256 round3 calls g in
          (case map_outcome id rs of
             Inl e \<Rightarrow> Inl e
           | Inr results \<Rightarrow>
               if length results \<noteq> volume \<or> length (mg_audit g1) \<noteq> volume
               then Inl (RuntimeError ''load test lost results or audit records'')
               else Inr elapsed)))"

text \<open>The tool sleeps longer than any timeout of less than 50 ms allows.\<close>

fun unavailable :: "real \<Rightarrow> nat \<Rightarrow> tool_input \<Rightarrow> caller_context \<Rightarrow> exn + tool_output" where
  "unavailable timeout n (CustomerRequest i) caller =
     (if timeout < 5 / 100 then Inl TimeoutError else Inl (RuntimeError i))"
| "unavailable timeout n _ caller = Inl (OtherException ''AttributeError'')"

definition unavailable_tool :: "(tool_input, tool_output) tool_registration" where
  "unavailable_tool =
     \<lparr>tg_name = ''customer.unavailable'', tg_allowed_agents = {''customer''}, tg_required_roles = {''agent.invoke''},
      tg_input_model = customer_request, tg_output_model = expect_output is_customer_out, tg_handler = unavailable\<rparr>"

definition is_tool_failure :: "exn + 'o \<Rightarrow> bool" where
  "is_tool_failure r \<longleftrightarrow> (case r of Inl (MCPToolFailure _) \<Rightarrow> True | _ \<Rightarrow> False)"

definition run_failures ::
  "(string \<Rightarrow> string) \<Rightarrow> (real \<Rightarrow> real) \<Rightarrow> (nat \<Rightarrow> call_times) \<Rightarrow> real \<Rightarrow> nat \<Rightarrow> exn + real" where
  "run_failures sha256 round3 clock elapsed volume =
     (case new_mcp_gateway (5 / 1000) 2 1000 60 [] of
        Inl e \<Rightarrow> Inl e
      | Inr g0 \<Rightarrow>
     (case mcp_register unavailable_tool g0 of
        Inl e \<Rightarrow> Inl e
      | Inr g \<Rightarrow>
     (case map_outcome (load_call clock ''customer.unavailable'') [0..<volume] of
        Inl e \<Rightarrow> Inl e
      | Inr calls \<Rightarrow>
          let (rs, g1) = gather_calls sha256 round3 calls g in
          if \<not> list_all is_tool_failure rs then Inl (RuntimeError ''injected failures did not fail closed'')
          else if list_ex (\<lambda>rec. au_attempt_count rec \<noteq> 2 \<or> au_outcome rec \<noteq> TimedOut) (mg_audit g1)
          then Inl (RuntimeError ''timeouts were not bounded and audited'')
          else Inr elapsed)))"

section \<open>The report\<close>

record performance_baseline =
  pb_profile :: string
  pb_requests :: nat
  pb_samples :: nat
  pb_minimum_rps :: real
  pb_maximum_seconds :: real

record load_report =
  lr_profile :: string
  lr_requests :: nat
  lr_samples :: nat
  lr_elapsed :: "real list"
  lr_rps :: "real list"
  lr_median_rps :: real
  lr_failures :: nat
  lr_failure_seconds :: real
  lr_passed :: bool

text \<open>\<open>statistics.median\<close> of a list that is not empty.\<close>

definition median :: "real list \<Rightarrow> real" where
  "median xs =
     (let ys = sort xs; n = length ys in
      if n mod 2 = 1 then ys ! (n div 2) else (ys ! (n div 2 - 1) + ys ! (n div 2)) / 2)"

definition rate_of :: "nat \<Rightarrow> real \<Rightarrow> exn + real" where
  "rate_of requests elapsed =
     (if elapsed = 0 then Inl (OtherException ''ZeroDivisionError'') else Inr (real requests / elapsed))"

text \<open>\<open>main\<close> on the outcomes of the runs: \<open>load k n\<close> is that of the \<open>k\<close>-th run, of \<open>n\<close> requests, and
  \<open>failures\<close> that of the injected failures.\<close>

definition load_main ::
  "(nat \<Rightarrow> nat \<Rightarrow> exn + real) \<Rightarrow> exn + real \<Rightarrow> (real \<Rightarrow> real) \<Rightarrow> (real \<Rightarrow> real) \<Rightarrow> performance_baseline
    \<Rightarrow> (exn + unit) \<times> load_report option" where
  "load_main load failures round2 round4 b =
     (if pb_requests b < 1 \<or> pb_samples b < 1
      then (Inl (RuntimeError ''performance baseline requests and samples must be positive''), None)
      else case load 0 (min 25 (pb_requests b)) of
        Inl e \<Rightarrow> (Inl e, None)
      | Inr _ \<Rightarrow>
     (case map_outcome (\<lambda>k. load k (pb_requests b)) [1..<Suc (pb_samples b)] of
        Inl e \<Rightarrow> (Inl e, None)
      | Inr elapsed \<Rightarrow>
     (case map_outcome (rate_of (pb_requests b)) elapsed of
        Inl e \<Rightarrow> (Inl e, None)
      | Inr rates \<Rightarrow>
     (case failures of
        Inl e \<Rightarrow> (Inl e, None)
      | Inr seconds \<Rightarrow>
          let passed = (pb_minimum_rps b \<le> median rates \<and> seconds \<le> pb_maximum_seconds b) in
          ((if passed then Inr ()
            else Inl (RuntimeError ''local performance or failure-containment baseline was not met'')),
           Some \<lparr>lr_profile = pb_profile b, lr_requests = pb_requests b, lr_samples = pb_samples b,
             lr_elapsed = map round4 elapsed, lr_rps = map round2 rates, lr_median_rps = round2 (median rates),
             lr_failures = 25, lr_failure_seconds = round4 seconds, lr_passed = passed\<rparr>)))))"

section \<open>Callers\<close>

lemma length_show_nat: "n < 10 ^ Suc k \<Longrightarrow> length (show_nat n) \<le> Suc k"
proof (induction k arbitrary: n)
  case 0
  then show ?case by (subst show_nat.simps) simp
next
  case (Suc k)
  have "n div 10 < 10 ^ Suc k" using Suc.prems by (simp add: less_mult_imp_div_less)
  from Suc.IH[OF this] show ?case by (subst show_nat.simps) simp
qed

lemma show_nat_not_white: "c \<in> set (show_nat n) \<Longrightarrow> \<not> is_white_space c"
  using show_nat_digits[of n] by (auto simp: is_white_space_def is_digit_def Let_def)

lemma labelled_plain:
  "\<forall>c\<in>set l. \<not> is_white_space c \<Longrightarrow> field_strip (l @ show_nat n) = l @ show_nat n"
  by (rule field_strip_plain) (auto dest: show_nat_not_white)

definition load_context :: "nat \<Rightarrow> caller_context" where
  "load_context i = \<lparr>cc_subject = ''load-client-'' @ show_nat (i mod 10), cc_roles = {''agent.invoke''},
     cc_agent = ''customer'', cc_request_id = ''load-request-'' @ show_nat i\<rparr>"

lemma load_caller_ok: "i < 1000 \<Longrightarrow> load_caller i = Inr (load_context i)"
proof -
  assume i: "i < 1000"
  have "length (show_nat i) \<le> 3" "length (show_nat (i mod 10)) \<le> 1"
    using length_show_nat[of i 2] length_show_nat[of "i mod 10" 0] i by simp_all
  moreover have "field_strip (''load-client-'' @ show_nat (i mod 10)) = ''load-client-'' @ show_nat (i mod 10)"
    "field_strip (''load-request-'' @ show_nat i) = ''load-request-'' @ show_nat i"
    by (intro labelled_plain; simp add: is_white_space_def code_def)+
  moreover have "field_strip ''agent.invoke'' = ''agent.invoke''"
    by (simp add: field_strip_def is_white_space_def code_def)
  ultimately show ?thesis
    by (simp add: load_caller_def new_caller_context_def load_context_def agent_names_def Let_def)
qed

definition load_calls :: "(nat \<Rightarrow> call_times) \<Rightarrow> string \<Rightarrow> nat \<Rightarrow> mcp_call list" where
  "load_calls clock tool volume =
     map (\<lambda>i. (clock i, tool, [(''customer_id'', PStr ''CUST-1098'')], load_context i)) [0..<volume]"

lemma load_calls_made:
  assumes "volume \<le> 1000"
  shows "map_outcome (load_call clock tool) [0..<volume] = Inr (load_calls clock tool volume)"
proof -
  have "load_call clock tool i = Inr (clock i, tool, [(''customer_id'', PStr ''CUST-1098'')], load_context i)"
    if "i < volume" for i
    using load_caller_ok[of i] that assms by (simp add: load_call_def)
  then show ?thesis by (simp add: load_calls_def map_outcome_Inr)
qed

section \<open>Calls that all end alike\<close>

text \<open>A call that is permitted, has valid arguments and whose attempts end in \<open>res\<close>.\<close>

definition ends_in ::
  "('i, 'o) mcp_gateway \<Rightarrow> (exn + 'o) \<times> audit_outcome \<times> nat \<Rightarrow> mcp_call \<Rightarrow> bool" where
  "ends_in g res call \<longleftrightarrow> (case call of (ct, tool, args, caller) \<Rightarrow>
     permitted g tool caller \<and>
     (\<forall>reg. map_of (mg_tools g) tool = Some reg \<longrightarrow>
        (\<exists>v. tg_input_model reg args = Inr v \<and>
           attempt_loop (\<lambda>n. tg_handler reg (mg_timeout g) n v caller) (tg_output_model reg) (mg_max_attempts g)
             [1..<Suc (mg_max_attempts g)] 0 Errored = res)))"

definition call_key :: "mcp_call \<Rightarrow> string" where
  "call_key call = (case call of (ct, tool, args, caller) \<Rightarrow> tool_key tool caller)"

text \<open>There is room in every queue for the calls to come.\<close>

definition has_room :: "('i, 'o) mcp_gateway \<Rightarrow> mcp_call list \<Rightarrow> bool" where
  "has_room g calls \<longleftrightarrow> (\<forall>key. int (length (mg_requests g key) + length (filter (\<lambda>c. call_key c = key) calls))
     \<le> mg_rate_limit g)"

lemma mcp_admit_room:
  assumes "int (length (mg_requests g key)) < mg_rate_limit g"
  shows "fst (mcp_admit now key g) = Inr ()"
    and "length (mg_requests (snd (mcp_admit now key g)) k) \<le>
      length (mg_requests g k) + (if k = key then 1 else 0)"
  using assms length_dropWhile_le[of "\<lambda>t. t \<le> now - of_int (mg_rate_window g)" "mg_requests g key"]
  by (auto simp: mcp_admit_def Let_def)

lemma invoke_ends:
  assumes "ends_in g (r, oc, n) (ct, tool, args, caller)" and "has_room g ((ct, tool, args, caller) # calls)"
    and "mcp_invoke sha256 round3 ct tool args caller g = (x, g1)"
  shows "x = r" and "mg_audit g1 = mg_audit g @ [call_record g1]" and "au_outcome (call_record g1) = oc"
    and "au_attempt_count (call_record g1) = n" and "has_room g1 calls" and "ends_in g1 = ends_in g"
proof -
  have p: "permitted g tool caller" using assms(1) by (simp add: ends_in_def)
  have "int (length (mg_requests g (tool_key tool caller)) + 1) \<le> mg_rate_limit g"
    using assms(2)[unfolded has_room_def, rule_format, of "tool_key tool caller"] by (simp add: call_key_def)
  then have room: "int (length (mg_requests g (tool_key tool caller))) < mg_rate_limit g" by simp
  note adm = mcp_admit_room[OF room, of "ct_now ct"]
  obtain reg where reg: "map_of (mg_tools g) tool = Some reg" and body: "invoke_body (ct_now ct) tool args caller g =
       ((case fst (mcp_admit (ct_now ct) (tool_key tool caller) g) of
           Inl e \<Rightarrow> (Inl e, Denied, 0)
         | Inr _ \<Rightarrow>
             (case tg_input_model reg args of
                Inl _ \<Rightarrow> (Inl (MCPInvalidArguments ''Tool arguments failed schema validation''), Invalid, 0)
              | Inr validated \<Rightarrow>
                  attempt_loop (\<lambda>n. tg_handler reg (mg_timeout g) n validated caller)
                    (tg_output_model reg) (mg_max_attempts g) [1..<Suc (mg_max_attempts g)] 0 Errored)),
        snd (mcp_admit (ct_now ct) (tool_key tool caller) g))"
    using invoke_body_permitted[OF p] by blast
  let ?g1 = "snd (mcp_admit (ct_now ct) (tool_key tool caller) g)"
  have "invoke_body (ct_now ct) tool args caller g = ((r, oc, n), ?g1)"
    using assms(1) reg body adm(1) by (auto simp: ends_in_def simp del: upt_Suc)
  note inv = mcp_invoke_body[OF this assms(3)]
  show "x = r" "mg_audit g1 = mg_audit g @ [call_record g1]" "au_outcome (call_record g1) = oc"
    "au_attempt_count (call_record g1) = n"
    using inv by simp_all
  have "int (length (mg_requests g1 k) + length (filter (\<lambda>c. call_key c = k) calls)) \<le> mg_rate_limit g1" for k
    using assms(2)[unfolded has_room_def, rule_format, of k] adm(2)[of k] inv
    by (auto simp: call_key_def split: if_splits)
  then show "has_room g1 calls" by (simp add: has_room_def)
  have "permitted g1 = permitted g" using inv by (simp add: permitted_def[abs_def])
  then show "ends_in g1 = ends_in g" using inv by (simp add: ends_in_def[abs_def])
qed

lemma gather_ends:
  assumes "gather_calls sha256 round3 calls g = (rs, g1)" and "has_room g calls"
    and "list_all (ends_in g (r, oc, n)) calls"
  shows "rs = replicate (length calls) r \<and> (\<exists>recs. mg_audit g1 = mg_audit g @ recs \<and> length recs = length calls \<and>
    list_all (\<lambda>rec. au_outcome rec = oc \<and> au_attempt_count rec = n) recs)"
  using assms
proof (induction calls arbitrary: g rs g1)
  case Nil
  then show ?case by simp
next
  case (Cons c calls)
  obtain ct tool args caller where c: "c = (ct, tool, args, caller)" by (metis prod.exhaust)
  obtain x g2 where i: "mcp_invoke sha256 round3 ct tool args caller g = (x, g2)" by fastforce
  obtain rs2 g3 where rest: "gather_calls sha256 round3 calls g2 = (rs2, g3)" by fastforce
  have "ends_in g (r, oc, n) (ct, tool, args, caller)" using Cons.prems(3) c by simp
  note e = invoke_ends[OF this Cons.prems(2)[unfolded c] i]
  have "rs2 = replicate (length calls) r \<and> (\<exists>recs. mg_audit g3 = mg_audit g2 @ recs \<and> length recs = length calls \<and>
    list_all (\<lambda>rec. au_outcome rec = oc \<and> au_attempt_count rec = n) recs)"
    using Cons.IH[OF rest e(5)] Cons.prems(3) e(6) by simp
  then obtain recs where recs: "rs2 = replicate (length calls) r" "mg_audit g3 = mg_audit g2 @ recs"
    "length recs = length calls" "list_all (\<lambda>rec. au_outcome rec = oc \<and> au_attempt_count rec = n) recs"
    by blast
  have "rs = x # rs2" "g1 = g3" using Cons.prems(1) i rest by (auto simp: c)
  with recs e(1-4) show ?case by (intro conjI exI[of _ "call_record g2 # recs"]) simp_all
qed

lemma load_has_room:
  assumes "mg_requests g = (\<lambda>_. [])" and "mg_rate_limit g = 1000" and "volume \<le> 1000"
  shows "has_room g (load_calls clock tool volume)"
proof -
  have "length (filter P (load_calls clock tool volume)) \<le> 1000" for P
    using length_filter_le[of P "load_calls clock tool volume"] assms(3) by (simp add: load_calls_def)
  then show ?thesis using assms(1,2) by (simp add: has_room_def)
qed

section \<open>Both runs pass\<close>

lemma map_outcome_same: "map_outcome id (replicate n (Inr x)) = Inr (replicate n x)"
  by (induction n) simp_all

lemma customer_args: "customer_request [(''customer_id'', PStr ''CUST-1098'')] = Inr (CustomerRequest ''CUST-1098'')"
  by (simp add: customer_request_def only_field_def dict_get_def as_str_iff)
     (code_simp)

lemma known_customer: "\<exists>out. tool_get_customer ''CUST-1098'' = Inr out \<and> is_customer_out out"
  by (simp add: tool_get_customer_def get_customer_def bank_customers_def)

lemma local_ends:
  assumes "build_local_mcp_gateway retr 2 2 1000 60 = Inr g" and "tool_get_customer ''CUST-1098'' = Inr out"
    and "is_customer_out out"
  shows "list_all (ends_in g (Inr out, Success, 1)) (load_calls clock ''customer.get_customer'' volume)"
proof -
  have tools: "map_of (mg_tools g) ''customer.get_customer'' = Some \<lparr>tg_name = ''customer.get_customer'',
      tg_allowed_agents = {''customer''}, tg_required_roles = {''agent.invoke''}, tg_input_model = customer_request,
      tg_output_model = expect_output is_customer_out, tg_handler = handle_customer\<rparr>"
    using build_local_good(1)[OF assms(1)] by (simp add: local_good_def local_tools_def)
  obtain k where k: "mg_max_attempts g = Suc k"
    using build_local_good(1)[OF assms(1)] by (cases "mg_max_attempts g") (simp_all add: local_good_def)
  show ?thesis
    using assms(2,3) customer_args
    by (auto simp: list_all_iff load_calls_def ends_in_def permitted_def tools load_context_def attempt_result_def
        expect_output_def k upt_conv_Cons simp del: upt_Suc)
qed

lemma run_load_passes:
  assumes "volume \<le> 1000"
  shows "run_load sha256 round3 retr clock elapsed volume = Inr elapsed"
proof -
  obtain g where g: "build_local_mcp_gateway retr 2 2 1000 60 = Inr g"
    using build_local_mcp_gateway_ok[of 2 2 1000 retr 60] by (auto simp: is_ok_iff)
  obtain out where out: "tool_get_customer ''CUST-1098'' = Inr out" "is_customer_out out" using known_customer by blast
  obtain rs g1 where run: "gather_calls sha256 round3 (load_calls clock ''customer.get_customer'' volume) g = (rs, g1)"
    by fastforce
  note b = build_local_good[OF g]
  from gather_ends[OF run load_has_room[OF b(4,5) assms] local_ends[OF g out]]
  have "rs = replicate volume (Inr out)" "length (mg_audit g1) = volume" using b(2) by (auto simp: load_calls_def)
  then show ?thesis
    using run g map_outcome_same[of volume out] by (simp add: run_load_def load_calls_made[OF assms])
qed

lemma run_failures_passes:
  assumes "volume \<le> 1000"
  shows "run_failures sha256 round3 clock elapsed volume = Inr elapsed"
proof -
  define g where "g = \<lparr>mg_timeout = 5 / 1000, mg_max_attempts = 2, mg_rate_limit = 1000, mg_rate_window = 60,
      mg_tools = [(''customer.unavailable'', unavailable_tool)], mg_requests = (\<lambda>_. []), mg_audit = [],
      mg_calls = (\<lambda>_. 0), mg_duration = (\<lambda>_. [])\<rparr>"
  obtain rs g1 where run: "gather_calls sha256 round3 (load_calls clock ''customer.unavailable'' volume) g = (rs, g1)"
    by fastforce
  have room: "has_room g (load_calls clock ''customer.unavailable'' volume)"
    using load_has_room[of g volume clock "''customer.unavailable''"] assms by (simp add: g_def)
  have ends: "list_all (ends_in g (Inl (MCPToolFailure ''Tool execution timed out''), TimedOut, 2))
      (load_calls clock ''customer.unavailable'' volume)"
    using customer_args
    by (auto simp: list_all_iff load_calls_def ends_in_def permitted_def g_def unavailable_tool_def load_context_def
        attempt_result_def upt_conv_Cons simp del: upt_Suc)
  from gather_ends[OF run room ends] have "list_all is_tool_failure rs"
    "\<not> list_ex (\<lambda>rec. au_attempt_count rec \<noteq> 2 \<or> au_outcome rec \<noteq> TimedOut) (mg_audit g1)"
    by (auto simp: is_tool_failure_def list_all_iff list_ex_iff g_def)
  then show ?thesis
    using run
    by (simp add: run_failures_def load_calls_made[OF assms] new_mcp_gateway_def mcp_register_def unavailable_tool_def
        g_def)
qed

text \<open>So the outcome of the whole check is that of the measured times against the baseline.\<close>

lemma load_main_exact:
  assumes "1 \<le> pb_requests b" and "pb_requests b \<le> 1000" and "1 \<le> pb_samples b" and "\<And>k. 0 < elapsed k"
  shows "fst (load_main (\<lambda>k. run_load sha256 round3 retr clock (elapsed k))
      (run_failures sha256 round3 clock seconds 25) round2 round4 b) = Inr () \<longleftrightarrow>
    pb_minimum_rps b \<le> median (map (\<lambda>k. real (pb_requests b) / elapsed k) [1..<Suc (pb_samples b)]) \<and>
    seconds \<le> pb_maximum_seconds b"
proof -
  have "map_outcome (\<lambda>k. run_load sha256 round3 retr clock (elapsed k) (pb_requests b)) [1..<Suc (pb_samples b)] =
      Inr (map elapsed [1..<Suc (pb_samples b)])"
    unfolding map_outcome_Inr using assms(2) by (simp add: run_load_passes del: upt_Suc)
  moreover have "map_outcome (rate_of (pb_requests b)) (map elapsed [1..<Suc (pb_samples b)]) =
      Inr (map (\<lambda>k. real (pb_requests b) / elapsed k) [1..<Suc (pb_samples b)])"
    unfolding map_outcome_Inr using assms(4) by (simp add: rate_of_def less_imp_neq[THEN not_sym] del: upt_Suc)
  ultimately show ?thesis
    using assms(1-3) by (simp add: load_main_def run_load_passes run_failures_passes Let_def del: upt_Suc)
qed




end
