(* ===== verification/Readiness.thy ===== *)
theory Readiness
  imports Ingestion PyVal
begin

text \<open>
  The readiness checks of the repository: scripts/portfolio-evidence.py, scripts/preproduction-readiness.py,
  the evidence exercise of scripts/operational-readiness.py, and the age check of a demonstration
  environment (scripts/environment\_age\_check.py with cost\_control.py).

  A script reads files below the root: \<open>repo\<close> maps a path to its text, or to \<open>None\<close> when no file is
  there.  \<open>json.loads\<close>, \<open>yaml.safe_load\<close>, \<open>datetime.fromisoformat\<close> and the formatting of floats are
  parameters.  A script prints its report and writes it to a file; here it is returned.
\<close>

section \<open>Reports\<close>

type_synonym repository = "string \<Rightarrow> string option"

type_synonym checks = "(string \<times> bool) list"

definition read_text :: "repository \<Rightarrow> string \<Rightarrow> exn + string" where
  "read_text repo path =
     (case repo path of None \<Rightarrow> Inl (OtherException ''FileNotFoundError'') | Some t \<Rightarrow> Inr t)"

definition is_file :: "repository \<Rightarrow> string \<Rightarrow> bool" where
  "is_file repo path \<longleftrightarrow> repo path \<noteq> None"

definition all_passed :: "checks \<Rightarrow> bool" where
  "all_passed checks \<longleftrightarrow> list_all snd checks"

text \<open>\<open>s.count(p)\<close>: the matches of \<open>p\<close> from the left that do not overlap.\<close>

function count_text :: "string \<Rightarrow> string \<Rightarrow> nat" where
  "count_text p [] = (if p = [] then 1 else 0)"
| "count_text p (c # cs) =
     (if p = [] then Suc (count_text p cs)
      else if starts_with p (c # cs) then Suc (count_text p (drop (length p - 1) cs))
      else count_text p cs)"
  by pat_completeness auto
termination by (relation "measure (\<lambda>(p, s). length s)") auto

text \<open>\<open>s.strip(c)\<close> for one character.\<close>

definition strip_char :: "char \<Rightarrow> string \<Rightarrow> string" where
  "strip_char d s = rev (dropWhile (\<lambda>c. c = d) (rev (dropWhile (\<lambda>c. c = d) s)))"

section \<open>The evidence matrix\<close>

definition verification_labels :: "string list" where
  "verification_labels = [''`VERIFIED-LIVE`'', ''`VERIFIED-LOCAL`'', ''`UNVERIFIED`'']"

text \<open>The loop over the lines; the flag is \<open>in_matrix\<close>.\<close>

fun scan_matrix :: "bool \<Rightarrow> string list \<Rightarrow> string list" where
  "scan_matrix inside [] = []"
| "scan_matrix inside (line # rest) =
     (if strip line = ''## Matrix'' then scan_matrix True rest
      else if inside \<and> starts_with ''## '' line then []
      else if \<not> inside \<or> \<not> starts_with ''| '' line then scan_matrix inside rest
      else if contains ''---'' line \<or> starts_with ''| Capability'' line then scan_matrix inside rest
      else line # scan_matrix inside rest)"

definition matrix_rows :: "string \<Rightarrow> string list" where
  "matrix_rows content = scan_matrix False (splitlines content)"

definition row_label :: "string \<Rightarrow> string option" where
  "row_label row =
     (let columns = map strip (split_on (CHR ''|'') (strip_char (CHR ''|'') (strip row))) in
      if length columns < 2 then None
      else if columns ! 1 \<in> set verification_labels then Some (columns ! 1) else None)"

section \<open>The portfolio\<close>

definition required_documents :: "(string \<times> string list) list" where
  "required_documents =
     [(''README.md'', [''Project statement'', ''Reviewer path'', ''Reproduce the evidence'']),
      (''architecture-diagrams.md'', [''Logical platform'', ''Secure request sequence'', ''Delivery and security gates'']),
      (''evidence-matrix.md'', [''Role evidence matrix'', ''Honest boundary'']),
      (''demo-guide.md'', [''Ten-minute interview'', ''Likely questions'']),
      (''limitations.md'', [''Current limitations'', ''Mandatory production gates''])]"

definition required_evidence_paths :: "string list" where
  "required_evidence_paths =
     [''src/enterprise_genai_platform/orchestration/operations.py'',
      ''src/enterprise_genai_platform/mcp_boundary/gateway.py'',
      ''src/enterprise_genai_platform/evaluation/golden_cases.json'',
      ''infrastructure/helm/agent-platform/Chart.yaml'', ''infrastructure/terraform/main.tf'',
      ''.github/workflows/ci.yaml'', ''docs/runbook.md'', ''docs/privacy-model-risk.md'',
      ''docs/portfolio/live-verification.md'']"

definition portfolio_path :: "string \<Rightarrow> string" where
  "portfolio_path filename = ''docs/portfolio/'' @ filename"

definition document_check :: "repository \<Rightarrow> string \<times> string list \<Rightarrow> string \<times> bool" where
  "document_check repo d =
     (let content = (case repo (portfolio_path (fst d)) of None \<Rightarrow> [] | Some t \<Rightarrow> t) in
      (''document:'' @ fst d, content \<noteq> [] \<and> list_all (\<lambda>marker. contains marker content) (snd d)))"

definition matrix_checks :: "string \<Rightarrow> checks" where
  "matrix_checks content =
     (let rows = matrix_rows content in
      [(''evidence_matrix:has_rows'', 0 < length rows),
       (''evidence_matrix:every_row_labeled'', rows \<noteq> [] \<and> list_all (\<lambda>row. row_label row \<noteq> None) rows)])"

definition portfolio_checks :: "repository \<Rightarrow> exn + checks" where
  "portfolio_checks repo =
     (case read_text repo (portfolio_path ''architecture-diagrams.md'') of
        Inl e \<Rightarrow> Inl e
      | Inr architecture \<Rightarrow>
     (case read_text repo (portfolio_path ''limitations.md'') of
        Inl e \<Rightarrow> Inl e
      | Inr limitations \<Rightarrow>
     (case read_text repo (portfolio_path ''evidence-matrix.md'') of
        Inl e \<Rightarrow> Inl e
      | Inr matrix \<Rightarrow>
          Inr (map (document_check repo) required_documents @
            map (\<lambda>path. (''evidence:'' @ path, is_file repo path)) required_evidence_paths @
            [(''architecture:three_mermaid_diagrams'', count_text ''```mermaid'' architecture = 3),
             (''claims:cloud_is_explicitly_gated'', contains ''separately approved activity'' limitations)] @
            matrix_checks matrix))))"

definition portfolio_main :: "repository \<Rightarrow> (exn + unit) \<times> checks option" where
  "portfolio_main repo =
     (case portfolio_checks repo of
        Inl e \<Rightarrow> (Inl e, None)
      | Inr checks \<Rightarrow>
          ((if all_passed checks then Inr () else Inl (RuntimeError ''portfolio evidence pack is incomplete'')),
           Some checks))"

section \<open>Before production\<close>

definition preproduction_files :: "string list" where
  "preproduction_files =
     [''docs/azure-sandbox-cost-review.md'', ''docs/azure-private-module-design.md'',
      ''docs/azure-identity-network-review.md'', ''docs/preproduction-readiness.md'',
      ''infrastructure/terraform/backend.hcl.example'', ''config/azure-retail-price-snapshot.json'',
      ''.security-reports/terraform-zero-plan.json'']"

text \<open>\<open>value == 0\<close>, \<open>value is False\<close> and \<open>d[k]\<close>.\<close>

fun equals_zero :: "pyval \<Rightarrow> bool" where
  "equals_zero (PInt n) = (n = 0)"
| "equals_zero (PBool b) = (\<not> b)"
| "equals_zero (PFloat r) = (r = ''0.0'' \<or> r = ''-0.0'')"
| "equals_zero _ = False"

definition is_false :: "pyval \<Rightarrow> bool" where
  "is_false v \<longleftrightarrow> v = PBool False"

fun subscript :: "pyval \<Rightarrow> string \<Rightarrow> exn + pyval" where
  "subscript (PDict d) k = (case map_of d k of None \<Rightarrow> Inl (OtherException ''KeyError'') | Some v \<Rightarrow> Inr v)"
| "subscript _ k = Inl (OtherException ''TypeError'')"

definition load_json :: "(string \<Rightarrow> exn + pyval) \<Rightarrow> repository \<Rightarrow> string \<Rightarrow> exn + pyval" where
  "load_json loads repo path = (case read_text repo path of Inl e \<Rightarrow> Inl e | Inr t \<Rightarrow> loads t)"

definition executable_steps :: "string \<Rightarrow> string" where
  "executable_steps workflow =
     join [char_of (10 :: nat)] (filter (\<lambda>line. starts_with ''- run:'' (lstrip line)) (splitlines workflow))"

definition preproduction_checks :: "(string \<Rightarrow> exn + pyval) \<Rightarrow> repository \<Rightarrow> exn + checks" where
  "preproduction_checks loads repo =
     (case read_text repo ''infrastructure/terraform/backend.hcl.example'' of
        Inl e \<Rightarrow> Inl e
      | Inr backend \<Rightarrow>
     (case read_text repo ''.github/workflows/ci.yaml'' of
        Inl e \<Rightarrow> Inl e
      | Inr workflow \<Rightarrow>
     (case load_json loads repo ''.security-reports/terraform-zero-plan.json'' of
        Inl e \<Rightarrow> Inl e
      | Inr plan \<Rightarrow>
     (case load_json loads repo ''config/azure-retail-price-snapshot.json'' of
        Inl e \<Rightarrow> Inl e
      | Inr prices \<Rightarrow>
     (case map_outcome (\<lambda>(v, k). subscript v k)
             [(plan, ''resource_changes''), (plan, ''cloud_resources_created''), (prices, ''within_budget'')] of
        Inl e \<Rightarrow> Inl e
      | Inr values \<Rightarrow>
          Inr (map (\<lambda>path. (''file:'' @ path, is_file repo path)) preproduction_files @
            [(''state_uses_oidc'', contains ''use_oidc             = true'' backend),
             (''state_uses_azuread'', contains ''use_azuread_auth     = true'' backend),
             (''ci_has_no_azure_login'', \<not> contains ''azure/login'' workflow \<and> \<not> contains ''az login'' workflow),
             (''ci_has_no_apply'', \<not> contains ''terraform apply'' (executable_steps workflow)),
             (''default_plan_zero_changes'', equals_zero (values ! 0)),
             (''default_plan_created_nothing'', equals_zero (values ! 1)),
             (''non_zero_plan_cost_blocked'', is_false (values ! 2))]))))))"

definition preproduction_main :: "(string \<Rightarrow> exn + pyval) \<Rightarrow> repository \<Rightarrow> (exn + unit) \<times> checks option" where
  "preproduction_main loads repo =
     (case preproduction_checks loads repo of
        Inl e \<Rightarrow> (Inl e, None)
      | Inr checks \<Rightarrow>
          ((if all_passed checks then Inr ()
            else Inl (RuntimeError ''local pre-production preparation is incomplete'')), Some checks))"

section \<open>Operational evidence\<close>

definition required_alerts :: "string list" where
  "required_alerts =
     [''AgentGatewayHighErrorRate'', ''AgentGatewayFastErrorBudgetBurn'', ''AgentGatewaySlowErrorBudgetBurn'',
      ''AgentWorkflowP95LatencyHigh'', ''MCPToolFailures'', ''PendingHumanApprovals'']"

definition required_evidence :: "string list" where
  "required_evidence =
     [''docs/architecture/overview.md'', ''docs/disaster-recovery.md'', ''docs/ownership.md'',
      ''docs/privacy-model-risk.md'', ''docs/runbook.md'', ''docs/slo.md'', ''docs/threat-model.md'']"

text \<open>Iteration over a value, \<open>k in value\<close> and \<open>value.get(k, [])\<close>.\<close>

fun py_items :: "pyval \<Rightarrow> exn + pyval list" where
  "py_items (PList xs) = Inr xs"
| "py_items (PDict d) = Inr (map (\<lambda>(k, v). PStr k) d)"
| "py_items (PStr s) = Inr (map (\<lambda>c. PStr [c]) s)"
| "py_items _ = Inl (OtherException ''TypeError'')"

fun py_has :: "string \<Rightarrow> pyval \<Rightarrow> exn + bool" where
  "py_has k (PList xs) = Inr (PStr k \<in> set xs)"
| "py_has k (PDict d) = Inr (k \<in> set (map fst d))"
| "py_has k (PStr s) = Inr (contains k s)"
| "py_has k _ = Inl (OtherException ''TypeError'')"

fun get_list :: "pyval \<Rightarrow> string \<Rightarrow> exn + pyval list" where
  "get_list (PDict d) k = (case map_of d k of None \<Rightarrow> Inr [] | Some v \<Rightarrow> py_items v)"
| "get_list _ k = Inl (OtherException ''AttributeError'')"

definition rule_alert :: "pyval \<Rightarrow> exn + pyval list" where
  "rule_alert rule =
     (case py_has ''alert'' rule of
        Inl e \<Rightarrow> Inl e
      | Inr False \<Rightarrow> Inr []
      | Inr True \<Rightarrow>
          (case subscript rule ''alert'' of
             Inl e \<Rightarrow> Inl e
           | Inr (PList xs) \<Rightarrow> Inl (OtherException ''TypeError'')
           | Inr (PDict d) \<Rightarrow> Inl (OtherException ''TypeError'')
           | Inr v \<Rightarrow> Inr [v]))"

definition group_alerts :: "pyval \<Rightarrow> exn + pyval list" where
  "group_alerts g =
     (case get_list g ''rules'' of
        Inl e \<Rightarrow> Inl e
      | Inr rules \<Rightarrow> map_sum id concat (map_outcome rule_alert rules))"

definition alert_names :: "pyval \<Rightarrow> exn + pyval list" where
  "alert_names alerts =
     (case get_list alerts ''groups'' of
        Inl e \<Rightarrow> Inl e
      | Inr gs \<Rightarrow> map_sum id concat (map_outcome group_alerts gs))"

definition evidence_exercise :: "(string \<Rightarrow> exn + pyval) \<Rightarrow> repository \<Rightarrow> exn + nat \<times> nat" where
  "evidence_exercise safe_load repo =
     (let missing = filter (\<lambda>path. \<not> is_file repo path) required_evidence in
      if missing \<noteq> [] then Inl (RuntimeError (''missing operational evidence: '' @ join '', '' (sort missing)))
      else case load_json safe_load repo ''observability/prometheus/alerts.yml'' of
        Inl e \<Rightarrow> Inl e
      | Inr alerts \<Rightarrow>
     (case alert_names alerts of
        Inl e \<Rightarrow> Inl e
      | Inr names \<Rightarrow>
          let absent = filter (\<lambda>a. PStr a \<notin> set names) required_alerts in
          if absent \<noteq> [] then Inl (RuntimeError (''missing required alerts: '' @ join '', '' (sort absent)))
          else Inr (length required_evidence, length required_alerts)))"

section \<open>The age of an environment\<close>

text \<open>\<open>datetime.fromisoformat\<close> yields the local instant in seconds and the offset of its zone, if any.\<close>

definition parse_utc :: "(string \<Rightarrow> exn + real \<times> real option) \<Rightarrow> string \<Rightarrow> exn + real" where
  "parse_utc fromisoformat s =
     (case fromisoformat (replace_char (CHR ''Z'') ''+00:00'' s) of
        Inl e \<Rightarrow> Inl e
      | Inr (t, None) \<Rightarrow> Inl (ValueError ''timestamp must include a timezone'')
      | Inr (t, Some offset) \<Rightarrow> Inr (t - offset))"

record age_report =
  ag_hours :: real
  ag_overdue :: bool
  ag_output :: string
  ag_message :: string

definition age_message :: "(real \<Rightarrow> string) \<Rightarrow> bool \<Rightarrow> real \<Rightarrow> int \<Rightarrow> string" where
  "age_message show1 overdue age_hours max_hours =
     (if overdue
      then ''::warning::Azure demo environment is '' @ show1 age_hours @ '' hours old; limit is '' @
        show_int max_hours @ '' hours''
      else ''Azure demo environment age is '' @ show1 age_hours @ '' hours; limit is '' @
        show_int max_hours @ '' hours'')"

definition age_check ::
  "(string \<Rightarrow> exn + real \<times> real option) \<Rightarrow> (real \<Rightarrow> string) \<Rightarrow> string \<Rightarrow> string option \<Rightarrow> real \<Rightarrow> int
    \<Rightarrow> exn + age_report" where
  "age_check fromisoformat show1 created now_arg clock max_hours =
     (case parse_utc fromisoformat created of
        Inl e \<Rightarrow> Inl e
      | Inr created_at \<Rightarrow>
     (case (case now_arg of
              None \<Rightarrow> Inr clock
            | Some a \<Rightarrow> if a = [] then Inr clock else parse_utc fromisoformat a) of
        Inl e \<Rightarrow> Inl e
      | Inr now \<Rightarrow>
          let age_hours = max 0 ((now - created_at) / 3600); overdue = of_int max_hours < age_hours in
          Inr \<lparr>ag_hours = age_hours, ag_overdue = overdue,
            ag_output = ''overdue='' @ (if overdue then ''true'' else ''false'') @ [char_of (10 :: nat)] @
              ''age_hours='' @ show1 age_hours @ [char_of (10 :: nat)],
            ag_message = age_message show1 overdue age_hours max_hours\<rparr>))"

section \<open>Facts\<close>

lemma scan_matrix_row: "row \<in> set (scan_matrix inside ls) \<Longrightarrow> row \<in> set ls \<and> starts_with ''| '' row"
  by (induction inside ls rule: scan_matrix.induct) (auto split: if_splits)

text \<open>Nothing before the heading counts.\<close>

lemma scan_matrix_before:
  "list_all (\<lambda>l. strip l \<noteq> ''## Matrix'') pre \<Longrightarrow> scan_matrix False (pre @ ls) = scan_matrix False ls"
  by (induction pre) auto

lemma row_label_Some: "row_label row = Some label \<Longrightarrow> label \<in> set verification_labels"
  by (auto simp: row_label_def Let_def split: if_splits)

lemma portfolio_main_Inr:
  "fst (portfolio_main repo) = Inr () \<longleftrightarrow> (\<exists>checks. portfolio_checks repo = Inr checks \<and> all_passed checks)"
  by (auto simp: portfolio_main_def split: sum.splits)

text \<open>A portfolio passes only with every required file in place and every counted row of the matrix
  labelled.\<close>

lemma portfolio_complete:
  assumes "fst (portfolio_main repo) = Inr ()"
  shows "list_all (is_file repo) required_evidence_paths"
    and "list_all (\<lambda>d. \<exists>t. repo (portfolio_path (fst d)) = Some t \<and> list_all (\<lambda>m. contains m t) (snd d))
      required_documents"
    and "\<exists>t. repo (portfolio_path ''evidence-matrix.md'') = Some t \<and> matrix_rows t \<noteq> [] \<and>
      list_all (\<lambda>row. \<exists>l\<in>set verification_labels. row_label row = Some l) (matrix_rows t)"
proof -
  obtain checks architecture limitations matrix where c: "checks = map (document_check repo) required_documents @
      map (\<lambda>path. (''evidence:'' @ path, is_file repo path)) required_evidence_paths @
      [(''architecture:three_mermaid_diagrams'', count_text ''```mermaid'' architecture = 3),
       (''claims:cloud_is_explicitly_gated'', contains ''separately approved activity'' limitations)] @
      matrix_checks matrix" "all_passed checks" "read_text repo (portfolio_path ''evidence-matrix.md'') = Inr matrix"
    using assms by (auto simp: portfolio_main_Inr portfolio_checks_def split: sum.splits)
  have p: "list_all snd (map (document_check repo) required_documents)"
    "list_all snd (map (\<lambda>path. (''evidence:'' @ path, is_file repo path)) required_evidence_paths)"
    "list_all snd (matrix_checks matrix)"
    using c(2) unfolding c(1) all_passed_def by simp_all
  show "list_all (is_file repo) required_evidence_paths" using p(2) by (simp add: list_all_iff)
  show "list_all (\<lambda>d. \<exists>t. repo (portfolio_path (fst d)) = Some t \<and> list_all (\<lambda>m. contains m t) (snd d))
      required_documents"
    using p(1) by (auto simp: list_all_iff document_check_def Let_def split: option.splits)
  show "\<exists>t. repo (portfolio_path ''evidence-matrix.md'') = Some t \<and> matrix_rows t \<noteq> [] \<and>
      list_all (\<lambda>row. \<exists>l\<in>set verification_labels. row_label row = Some l) (matrix_rows t)"
    using p(3) c(3) row_label_Some
    by (fastforce simp: matrix_checks_def Let_def read_text_def list_all_iff split: option.splits)
qed

text \<open>An environment is overdue exactly when more than the limit has passed, and a creation in the
  future counts as age zero.\<close>

lemma age_check_Inr:
  assumes "age_check fromiso show1 created None now limit = Inr report"
  shows "\<exists>t. parse_utc fromiso created = Inr t \<and> 0 \<le> ag_hours report \<and>
    (now \<le> t \<longrightarrow> ag_hours report = 0) \<and>
    (0 \<le> limit \<longrightarrow> (ag_overdue report \<longleftrightarrow> of_int limit * 3600 < now - t))"
proof -
  obtain t where t: "parse_utc fromiso created = Inr t"
    and r: "ag_hours report = max 0 ((now - t) / 3600)" "ag_overdue report \<longleftrightarrow> of_int limit < max 0 ((now - t) / 3600)"
    using assms by (auto simp: age_check_def Let_def split: sum.splits)
  have "ag_overdue report \<longleftrightarrow> of_int limit * 3600 < now - t" if "0 \<le> limit"
    using that unfolding r(2) less_max_iff_disj by (simp add: less_divide_eq)
  with t r(1) show ?thesis by auto
qed

end
