(* ===== verification/IngestAzure.thy ===== *)
theory IngestAzure
  imports AzureSearch
begin

text \<open>
  Filling the Azure index: the schema of \<open>AzureSearchIndex.ensure_index\<close>, the documents that \<open>add\<close> writes,
  and scripts/ingest\_azure\_search.py.  \<open>create_or_update\<close> is the call to the service that stores a
  schema; the rest of the service is the \<open>search_service\<close> of AzureSearch.
\<close>

section \<open>The schema\<close>

datatype field_type = TextField | TextListField | VectorField

record search_field =
  sf_name :: string
  sf_type :: field_type
  sf_key :: bool
  sf_filterable :: bool
  sf_searchable :: bool
  sf_dimensions :: "nat option"

definition simple_field :: "string \<Rightarrow> field_type \<Rightarrow> bool \<Rightarrow> search_field" where
  "simple_field name ty filterable =
     \<lparr>sf_name = name, sf_type = ty, sf_key = False, sf_filterable = filterable, sf_searchable = False,
      sf_dimensions = None\<rparr>"

definition searchable_field :: "string \<Rightarrow> search_field" where
  "searchable_field name = (simple_field name TextField False)\<lparr>sf_searchable := True\<rparr>"

definition index_fields :: "nat \<Rightarrow> search_field list" where
  "index_fields dimensions =
     [(simple_field ''search_key'' TextField False)\<lparr>sf_key := True\<rparr>,
      simple_field ''chunk_id'' TextField True,
      simple_field ''document_id'' TextField True,
      searchable_field ''title'',
      simple_field ''version'' TextField False,
      simple_field ''classification'' TextField True,
      simple_field ''allowed_roles'' TextListField True,
      searchable_field ''text'',
      simple_field ''provenance_sha256'' TextField False,
      (simple_field ''embedding'' VectorField False)\<lparr>sf_searchable := True, sf_dimensions := Some dimensions\<rparr>]"

definition ensure_index :: "(search_field list \<Rightarrow> exn + unit) \<Rightarrow> azure_index \<Rightarrow> exn + unit" where
  "ensure_index create_or_update az = create_or_update (index_fields (az_dimensions az))"

datatype field_value = TextValue string | TextListValue "string list" | VectorValue "real list"

text \<open>The dictionary that \<open>add\<close> makes of a chunk, and the fields a query selects.\<close>

definition document_fields :: "azure_document \<Rightarrow> (string \<times> field_value) list" where
  "document_fields d =
     [(''search_key'', TextValue (ad_search_key d)), (''chunk_id'', TextValue (ad_chunk_id d)),
      (''document_id'', TextValue (ad_document_id d)), (''title'', TextValue (ad_title d)),
      (''version'', TextValue (ad_version d)), (''classification'', TextValue (ad_classification d)),
      (''allowed_roles'', TextListValue (sorted_list_of_set (ad_allowed_roles d))), (''text'', TextValue (ad_text d)),
      (''provenance_sha256'', TextValue (ad_provenance_sha256 d)), (''embedding'', VectorValue (ad_embedding d))]"

definition selected_fields :: "string list" where
  "selected_fields = [''chunk_id'', ''document_id'', ''title'', ''version'', ''classification'', ''allowed_roles'',
     ''text'', ''provenance_sha256'']"

fun fits :: "search_field \<Rightarrow> field_value \<Rightarrow> bool" where
  "fits f (TextValue s) = (sf_type f = TextField)"
| "fits f (TextListValue xs) = (sf_type f = TextListField)"
| "fits f (VectorValue v) = (sf_type f = VectorField \<and> sf_dimensions f = Some (length v))"

section \<open>The script\<close>

text \<open>The loop over the files; the number is \<open>chunk_count\<close>.  \<open>None\<close> is a document on which chunking does
  not return.\<close>

fun ingest_documents ::
  "(string \<Rightarrow> string \<Rightarrow> exn + knowledge_document) \<Rightarrow> (string \<Rightarrow> real list) \<Rightarrow> (string set \<Rightarrow> string)
    \<Rightarrow> (string \<times> string) list \<Rightarrow> nat \<Rightarrow> azure_index \<Rightarrow> ((exn + nat) \<times> azure_index) option" where
  "ingest_documents parse emb show_roles [] n az = Some (Inr n, az)"
| "ingest_documents parse emb show_roles ((name, raw) # files) n az =
     (if \<not> ends_with ''.md'' name then ingest_documents parse emb show_roles files n az
      else case parse raw name of
          Inl e \<Rightarrow> Some (Inl e, az)
        | Inr d \<Rightarrow>
            (case chunk_document emb 500 80 d of
               None \<Rightarrow> None
             | Some (Inl e) \<Rightarrow> Some (Inl e, az)
             | Some (Inr chunks) \<Rightarrow>
                 (case azure_add show_roles chunks az of
                    (Inl e, az1) \<Rightarrow> Some (Inl e, az1)
                  | (Inr _, az1) \<Rightarrow>
                      ingest_documents parse emb show_roles files (n + length chunks) az1)))"

definition ingest_main ::
  "(string \<Rightarrow> string \<Rightarrow> exn + knowledge_document) \<Rightarrow> (string \<Rightarrow> nat list) \<Rightarrow> (string set \<Rightarrow> string)
    \<Rightarrow> (search_field list \<Rightarrow> exn + unit) \<Rightarrow> search_service \<Rightarrow> (string \<times> string) list \<Rightarrow> settings
    \<Rightarrow> azure_document list \<Rightarrow> ((exn + nat) \<times> azure_document list) option" where
  "ingest_main parse digest show_roles create_or_update service files s docs =
     (if st_rag_provider s \<noteq> AzureSearchRag \<or> \<not> given (st_azure_search_endpoint s)
      then Some (Inl (OtherException ''SystemExit''), docs)
      else case new_azure_index service docs (the (st_azure_search_endpoint s)) (st_azure_search_index_name s) 256 of
        Inl e \<Rightarrow> Some (Inl e, docs)
      | Inr az \<Rightarrow>
     (case ensure_index create_or_update az of
        Inl e \<Rightarrow> Some (Inl e, docs)
      | Inr _ \<Rightarrow>
          map_option (map_prod id az_documents)
            (ingest_documents parse (embed_text digest 256) show_roles (sort_key fst files) 0 az)))"

section \<open>What the script leaves in the index\<close>

text \<open>A document of the index that an accepted file could have given.\<close>

definition from_files ::
  "(string \<Rightarrow> string \<Rightarrow> exn + knowledge_document) \<Rightarrow> (string \<Rightarrow> real list) \<Rightarrow> (string \<times> string) list
    \<Rightarrow> azure_document \<Rightarrow> bool" where
  "from_files parse emb files doc \<longleftrightarrow>
     (\<exists>name raw d i t. (name, raw) \<in> set files \<and> parse raw name = Inr d \<and> doc = azure_document_of (make_chunk emb d i t))"

lemma azure_add_documents:
  assumes "service_documented (az_service az)" and "azure_add show_roles chunks az = (r, az')"
  shows "az_service az' = az_service az \<and> az_dimensions az' = az_dimensions az \<and>
    set (az_documents az') \<subseteq> set (az_documents az) \<union> azure_document_of ` set chunks"
  using assms service_upload[OF assms(1)]
  by (fastforce simp: azure_add_def split: if_splits option.splits sum.splits)

lemma from_files_mono: "from_files parse emb files d \<Longrightarrow> from_files parse emb (f # files) d"
  unfolding from_files_def set_simps by blast

lemma ingest_documents_inv:
  assumes "ingest_documents parse emb show_roles files n az = Some (r, az')" and "azure_inv az"
  shows "azure_inv az' \<and> az_service az' = az_service az \<and>
    (\<forall>d\<in>set (az_documents az'). d \<in> set (az_documents az) \<or> from_files parse emb files d)"
  using assms
proof (induction files arbitrary: n az)
  case Nil
  then show ?case by simp
next
  case (Cons f files)
  obtain name raw where f: "f = (name, raw)" by (cases f)
  show ?case
  proof (cases "ends_with ''.md'' name")
    case False
    with Cons f from_files_mono show ?thesis by fastforce
  next
    case True
    show ?thesis
    proof (cases "parse raw name")
      case (Inl e)
      with Cons.prems True f show ?thesis by simp
    next
      case d: (Inr d)
      show ?thesis
      proof (cases "\<exists>chunks. chunk_document emb 500 80 d = Some (Inr chunks)")
        case False
        with Cons.prems True f d show ?thesis by (auto split: option.splits sum.splits)
      next
        case True
        then obtain chunks where chunks: "chunk_document emb 500 80 d = Some (Inr chunks)" by blast
        obtain r1 az1 where add: "azure_add show_roles chunks az = (r1, az1)" by fastforce
        have made: "\<forall>c\<in>set chunks. \<exists>i t. c = make_chunk emb d i t" using chunk_document_made[OF chunks] .
        have "service_documented (az_service az)" using Cons.prems(2) by (simp add: azure_inv_def)
        note docs = azure_add_documents[OF this add]
        have inv1: "azure_inv az1" using azure_add_inv[OF Cons.prems(2) add] by simp
        have new: "x \<in> set (az_documents az) \<or> from_files parse emb (f # files) x" if "x \<in> set (az_documents az1)" for x
          using subsetD[OF conjunct2[OF conjunct2[OF docs]] that] made d f unfolding from_files_def
          by (metis UnE imageE list.set_intros(1))
        show ?thesis
        proof (cases r1)
          case (Inl e)
          with Cons.prems(1) \<open>ends_with ''.md'' name\<close> f d chunks add have "az' = az1" by simp
          with inv1 docs new show ?thesis by simp
        next
          case (Inr u)
          with Cons.prems(1) \<open>ends_with ''.md'' name\<close> f d chunks add
          have "ingest_documents parse emb show_roles files (n + length chunks) az1 = Some (r, az')" by simp
          from Cons.IH[OF this inv1] docs new from_files_mono show ?thesis by metis
        qed
      qed
    qed
  qed
qed

text \<open>Every document the script writes fits the schema it has created, field by field; the field of the
  access filter is filterable, the key field is one, and a query selects fields of the schema only.\<close>

lemma written_documents_fit:
  assumes "from_files parse (embed_text digest n) files d"
  shows "list_all2 (\<lambda>f (k, v). sf_name f = k \<and> fits f v) (index_fields n) (document_fields d)"
proof -
  have "length (ad_embedding d) = n"
    using assms by (auto simp: from_files_def azure_document_of_def make_chunk_def embed_text_length)
  then show ?thesis
    by (simp add: index_fields_def document_fields_def simple_field_def searchable_field_def)
qed

lemma schema_complete:
  "set selected_fields \<subseteq> sf_name ` set (index_fields n)"
  "\<exists>f\<in>set (index_fields n). sf_name f = ''allowed_roles'' \<and> sf_filterable f"
  "map sf_name (filter sf_key (index_fields n)) = [''search_key'']"
  by (auto simp: selected_fields_def index_fields_def simple_field_def searchable_field_def)

text \<open>What holds of the index after the script, whether it finished or stopped at an error: the documents
  are those it held before and documents made of accepted files, all of them within the vocabulary of
  roles that the access filter knows.\<close>

lemma ingest_main_inv:
  assumes "ingest_main parse digest show_roles create service files s docs = Some (r, docs')"
    and "service_documented service"
    and "\<forall>d\<in>set docs. ad_allowed_roles d \<subseteq> set known_chunk_roles \<and> (\<exists>c. d = azure_document_of c)"
    and "d \<in> set docs'"
  shows "ad_allowed_roles d \<subseteq> set known_chunk_roles \<and> (d \<in> set docs \<or>
    from_files parse (embed_text digest 256) files d \<and>
    list_all2 (\<lambda>f (k, v). sf_name f = k \<and> fits f v) (index_fields 256) (document_fields d))"
proof (cases "docs' = docs")
  case True
  with assms(3,4) show ?thesis by simp
next
  case False
  then obtain az az' where az: "new_azure_index service docs (the (st_azure_search_endpoint s))
      (st_azure_search_index_name s) 256 = Inr az"
    and run: "ingest_documents parse (embed_text digest 256) show_roles (sort_key fst files) 0 az = Some (r, az')"
    and docs': "docs' = az_documents az'"
    using assms(1) by (auto simp: ingest_main_def split: if_splits sum.splits)
  have "az_service az = service" "az_documents az = docs"
    using az by (auto simp: new_azure_index_def split: if_splits)
  moreover from this have inv: "azure_inv az" using assms(2,3) by (simp add: azure_inv_def)
  moreover have "from_files parse emb (sort_key fst files) x = from_files parse emb files x" for emb x
    by (simp add: from_files_def)
  ultimately show ?thesis
    using ingest_documents_inv[OF run inv] assms(4) written_documents_fit[of parse digest 256 files d]
    by (auto simp: docs' azure_inv_def)
qed

end
