(* ===== verification/RemoteServer.thy ===== *)
theory RemoteServer
  imports RemoteAuth McpLocal
begin

text \<open>
  The entry points of the MCP servers: the authenticated remote one (mcp/remote-server/server.py) with
  which tools it serves under which token verifier, and the local ones (mcp/customer-server/server.py,
  mcp/payments-server/server.py, mcp/policy-server/server.py).  \<open>env\<close> is the environment, \<open>read_key\<close> reads the file of
  the public key, and \<open>default_retriever\<close> is the outcome of \<open>build_default_retriever()\<close>.  A main returns what it
  hands to \<open>server.run\<close>, the server and the transport; running it is the MCP library's.
\<close>

definition env_required :: "(string \<Rightarrow> string option) \<Rightarrow> string \<Rightarrow> exn + string" where
  "env_required env name = (case env name of None \<Rightarrow> Inl (OtherException ''KeyError'') | Some v \<Rightarrow> Inr v)"

definition env_default :: "(string \<Rightarrow> string option) \<Rightarrow> string \<Rightarrow> string \<Rightarrow> string" where
  "env_default env name d = (case env name of None \<Rightarrow> d | Some v \<Rightarrow> v)"

definition implementation_of :: "retriever \<Rightarrow> string \<Rightarrow> server_tools" where
  "implementation_of retr domain =
     (if domain = ''customer'' then CustomerTools else if domain = ''payments'' then PaymentTools else PolicyTools retr)"

record remote_setup =
  rp_server :: remote_server
  rp_verifier :: token_verifier
  rp_issuer_url :: string
  rp_resource_url :: string
  rp_transport :: string

definition remote_server_main ::
  "(string \<Rightarrow> string option) \<Rightarrow> (string \<Rightarrow> exn + string) \<Rightarrow> exn + retriever \<Rightarrow> exn + remote_setup" where
  "remote_server_main env read_key default_retriever =
     (let domain = env_default env ''MCP_DOMAIN'' ''customer'' in
      if domain \<notin> {''customer'', ''payments'', ''policy''}
      then Inl (ValueError ''MCP_DOMAIN must be customer, payments, or policy'')
      else case env_required env ''MCP_JWT_PUBLIC_KEY_FILE'' of
        Inl e \<Rightarrow> Inl e
      | Inr key_file \<Rightarrow>
     (case read_key key_file of
        Inl e \<Rightarrow> Inl e
      | Inr public_key \<Rightarrow>
     (case env_required env ''MCP_JWT_ISSUER'' of
        Inl e \<Rightarrow> Inl e
      | Inr issuer \<Rightarrow>
          let resource_url = env_default env ''MCP_RESOURCE_URL'' ''http://127.0.0.1:18100/mcp'' in
          (case new_token_verifier public_key issuer resource_url of
             Inl e \<Rightarrow> Inl e
           | Inr v \<Rightarrow>
          (case default_retriever of
             Inl e \<Rightarrow> Inl e
           | Inr retr \<Rightarrow>
          (case create_remote_mcp domain (implementation_of retr domain) of
             Inl e \<Rightarrow> Inl e
           | Inr server \<Rightarrow>
               Inr \<lparr>rp_server = server, rp_verifier = v, rp_issuer_url = issuer,
                 rp_resource_url = resource_url, rp_transport = ''streamable-http''\<rparr>))))))"

text \<open>A server that starts serves the tools of one domain, under the scope of that domain and on the
  loopback interface, and takes tokens for its own URL only, from an issuer that uses HTTPS.\<close>

lemma remote_server_confined:
  assumes "remote_server_main env read_key retr = Inr setup"
  shows "\<exists>domain\<in>{''customer'', ''payments'', ''policy''}.
    rs_required_scopes (rp_server setup) = [''mcp:'' @ domain] \<and> rs_host (rp_server setup) = ''127.0.0.1'' \<and>
    list_all (\<lambda>(name, f). starts_with (domain @ ''.'') name) (rs_tools (rp_server setup)) \<and>
    tv_audience (rp_verifier setup) = rp_resource_url setup \<and> tv_issuer (rp_verifier setup) = rp_issuer_url setup \<and>
    starts_with ''https://'' (rp_issuer_url setup)"
proof -
  define domain where "domain = env_default env ''MCP_DOMAIN'' ''customer''"
  have domain: "domain \<in> {''customer'', ''payments'', ''policy''}"
    using assms by (auto simp: remote_server_main_def domain_def[symmetric] Let_def split: if_splits)
  then obtain r key where s: "create_remote_mcp domain (implementation_of r domain) = Inr (rp_server setup)"
    and v: "new_token_verifier key (rp_issuer_url setup) (rp_resource_url setup) = Inr (rp_verifier setup)"
    using assms
    by (auto simp: remote_server_main_def domain_def[symmetric] Let_def split: sum.splits option.splits)
  have "tv_audience (rp_verifier setup) = rp_resource_url setup" "tv_issuer (rp_verifier setup) = rp_issuer_url setup"
    "starts_with ''https://'' (rp_issuer_url setup)"
    using v by (auto simp: new_token_verifier_def split: if_splits dest: sym)
  moreover obtain server where server: "rp_server setup = server" by blast
  ultimately show ?thesis
    using domain s unfolding server
    by (intro bexI[OF _ domain])
      (auto simp: create_remote_mcp_def implementation_of_def starts_with_def Let_def)
qed

section \<open>The local servers\<close>

definition customer_server_main :: "local_server \<times> string" where
  "customer_server_main = (create_customer_mcp, ''stdio'')"

definition payments_server_main :: "local_server \<times> string" where
  "payments_server_main = (create_payments_mcp, ''stdio'')"

definition policy_server_main :: "exn + retriever \<Rightarrow> exn + local_server \<times> string" where
  "policy_server_main default_retriever =
     (case default_retriever of Inl e \<Rightarrow> Inl e | Inr retr \<Rightarrow> Inr (create_policy_mcp retr, ''stdio''))"

text \<open>The local servers run without a token, so they listen on no network, and a tool there answers as the
  handler behind the governed gateway does; but the policy server, which has no caller to ask for, finds
  nothing in the knowledge base.\<close>

lemma local_servers_answer:
  assumes "(name, f) \<in> set (ls_tools (fst customer_server_main)) \<union> set (ls_tools (fst payments_server_main))"
    and "tg_name reg = name" and "reg \<in> set (local_tools retr)" and "tg_input_model reg args = Inr i"
  shows "f timeout n i = tg_handler reg timeout n i caller"
  using assms
  by (auto simp: customer_server_main_def payments_server_main_def create_customer_mcp_def create_payments_mcp_def
      local_tools_def customer_request_def transaction_request_def Let_def split: option.splits if_splits)

lemma local_policy_server_blind:
  assumes "policy_server_main (Inr (backend_retriever (LocalIndex idx) digest round6)) = Inr (server, t)"
    and "(''policy.search'', f) \<in> set (ls_tools server)"
    and "\<forall>(k, c)\<in>set idx. kc_allowed_roles c \<noteq> {} \<and> kc_allowed_roles c \<subseteq> set known_chunk_roles"
  shows "t = ''stdio'' \<and> f timeout n (PolicySearchRequest q limit) \<in>
    {Inr (PoliciesOut [])} \<union> range (\<lambda>m. Inl (ValueError m))"
proof -
  have "t = ''stdio''" "f = remote_policy_search (backend_retriever (LocalIndex idx) digest round6) {}"
    using assms(1,2) by (auto simp: policy_server_main_def create_policy_mcp_def)
  with unentitled_search_blind[OF assms(3), of "{}" digest round6 timeout n q limit] show ?thesis by (metis inf_bot_left)
qed

end
