(* ===== verification/GroundednessGate.thy ===== *)
theory GroundednessGate
  imports App
begin

text \<open>
  The quality gate of the groundedness evaluator (scripts/groundedness-evaluation.py): four answers whose
  verdict is known, and one sample through the application's own retriever, model gateway and
  evaluator.  The report is returned, not written.
\<close>

section \<open>Known cases\<close>

record groundedness_case =
  gc_case_id :: string
  gc_answer :: string
  gc_expected :: bool

definition evidence_text :: string where
  "evidence_text = ''Refunds above GBP 100 require approval from an operations officer.''"

definition evidence_chunk_id :: string where
  "evidence_chunk_id = ''POL-REF-002#chunk-1''"

definition gate_evidence :: retrieval_result where
  "gate_evidence =
     [\<lparr>rh_text = evidence_text, rh_score = 9 / 10,
       rh_citation = \<lparr>ci_document_id = ''POL-REF-002'', ci_chunk_id = evidence_chunk_id,
         ci_title = ''Refund Approval'', ci_version = ''1.0'', ci_provenance_sha256 = replicate 64 CHR ''a''\<rparr>\<rparr>]"

definition grounded_case :: groundedness_case where
  "grounded_case = \<lparr>gc_case_id = ''grounded-and-cited'',
     gc_answer = ''Refunds above GBP 100 require operations officer approval ['' @ evidence_chunk_id @ ''].'',
     gc_expected = True\<rparr>"

definition unrelated_case :: groundedness_case where
  "unrelated_case = \<lparr>gc_case_id = ''unrelated-to-evidence'',
     gc_answer = ''The weather today is sunny with a light breeze from the coast.'', gc_expected = False\<rparr>"

definition uncited_case :: groundedness_case where
  "uncited_case = \<lparr>gc_case_id = ''correct-but-uncited'',
     gc_answer = ''Refunds above GBP 100 require approval from an operations officer.'', gc_expected = False\<rparr>"

definition fabricated_case :: groundedness_case where
  "fabricated_case = \<lparr>gc_case_id = ''fabricated-citation'',
     gc_answer = ''Refunds above GBP 100 require approval [POL-REF-999#chunk-3].'', gc_expected = False\<rparr>"

definition gate_cases :: "groundedness_case list" where
  "gate_cases = [grounded_case, unrelated_case, uncited_case, fabricated_case]"

record gate_result =
  gt_case_id :: string
  gt_expected :: bool
  gt_actual :: bool
  gt_score :: real
  gt_fabricated :: "string list"
  gt_passed :: bool

definition run_case :: "(real \<Rightarrow> real) \<Rightarrow> real \<Rightarrow> groundedness_case \<Rightarrow> exn + gate_result" where
  "run_case round4 minimum c =
     (case evaluate_groundedness round4 minimum (gc_answer c) gate_evidence of
        Inl e \<Rightarrow> Inl e
      | Inr report \<Rightarrow>
          Inr \<lparr>gt_case_id = gc_case_id c, gt_expected = gc_expected c, gt_actual = gr_is_grounded report,
            gt_score = gr_term_overlap_score report, gt_fabricated = gr_fabricated_citations report,
            gt_passed = (gr_is_grounded report = gc_expected c)\<rparr>)"

section \<open>The sample through the application\<close>

record live_sample =
  ls_query :: string
  ls_evidence_hit_count :: nat
  ls_term_overlap_score :: real
  ls_is_grounded :: bool

definition live_query :: string where
  "live_query = ''Find the delayed payment policy procedure''"

definition live_pipeline_sample ::
  "'x app_params \<Rightarrow> generation_env \<Rightarrow> 'x app \<Rightarrow> (exn + live_sample) \<times> 'x app" where
  "live_pipeline_sample p env a =
     (case retrieve (backend_search (ap_index a)) (embed_text (pa_digest p) 256) (pa_round6 p) live_query
             {''agent.invoke''} 3 (ap_rag a) of
        (Inl e, m) \<Rightarrow> (Inl e, a\<lparr>ap_rag := m\<rparr>)
      | (Inr evidence, m) \<Rightarrow>
          (case synthesize_grounded_answer env ''mock-deterministic'' live_query evidence
                  ''groundedness-evaluation-script'' (ap_model_gateway a) of
             (Inl e, gw) \<Rightarrow> (Inl e, a\<lparr>ap_rag := m, ap_model_gateway := gw\<rparr>)
           | (Inr answer, gw) \<Rightarrow>
               ((case evaluate_groundedness (pa_round4 p) (ap_minimum_overlap a) answer evidence of
                   Inl e \<Rightarrow> Inl e
                 | Inr report \<Rightarrow>
                     Inr \<lparr>ls_query = live_query, ls_evidence_hit_count = length evidence,
                       ls_term_overlap_score = gr_term_overlap_score report,
                       ls_is_grounded = gr_is_grounded report\<rparr>),
                a\<lparr>ap_rag := m, ap_model_gateway := gw\<rparr>)))"

record gate_report =
  gp_results :: "gate_result list"
  gp_passed_count :: nat
  gp_total :: nat
  gp_sample :: live_sample
  gp_passed :: bool

definition groundedness_main ::
  "'x app_params \<Rightarrow> real \<Rightarrow> generation_env \<Rightarrow> exn + 'x app \<Rightarrow> (exn + unit) \<times> gate_report option" where
  "groundedness_main p minimum env application =
     (case map_outcome (run_case (pa_round4 p) minimum) gate_cases of
        Inl e \<Rightarrow> (Inl e, None)
      | Inr results \<Rightarrow>
     (case application of
        Inl e \<Rightarrow> (Inl e, None)
      | Inr a \<Rightarrow>
     (case live_pipeline_sample p env a of
        (Inl e, _) \<Rightarrow> (Inl e, None)
      | (Inr sample, _) \<Rightarrow>
          let ok = list_all gt_passed results in
          ((if ok then Inr ()
            else Inl (RuntimeError ''groundedness evaluator misclassified one or more known cases'')),
           Some \<lparr>gp_results = results, gp_passed_count = length (filter gt_passed results),
             gp_total = length results, gp_sample = sample, gp_passed = ok\<rparr>))))"

section \<open>The gate passes\<close>

lemma gate_citations:
  "map (\<lambda>c. sorted_set (citations_in (gc_answer c))) gate_cases =
     [[evidence_chunk_id], [], [], [''POL-REF-999#chunk-3'']]"
  by code_simp

lemma gate_overlap:
  "map (\<lambda>c. let ts = significant_terms (sub_empty citation_pattern (gc_answer c)) in
       (length ts, length (filter (\<lambda>t. t \<in> set (significant_terms evidence_text)) ts))) gate_cases =
     [(8, 8), (6, 0), (8, 8), (6, 6)]"
  by code_simp

lemma sort_Nil_iff: "sort xs = [] \<longleftrightarrow> xs = []"
  by (metis length_0_conv length_sort)

lemma run_case_eq:
  assumes "sorted_set (citations_in (gc_answer c)) = cited"
    and "(let ts = significant_terms (sub_empty citation_pattern (gc_answer c)) in
       (length ts, length (filter (\<lambda>t. t \<in> set (significant_terms evidence_text)) ts))) = (n, k)"
    and "0 < n" and "0 \<le> round4 (real k / real n)" and "round4 (real k / real n) \<le> 1"
    and "g \<longleftrightarrow> minimum \<le> round4 (real k / real n) \<and> cited \<noteq> [] \<and> filter (\<lambda>x. x \<noteq> evidence_chunk_id) cited = []"
  shows "\<exists>r. run_case round4 minimum c = Inr r \<and> gt_passed r = (g = gc_expected c)"
proof -
  have "concat (map (\<lambda>h. significant_terms (rh_text h)) gate_evidence) = significant_terms evidence_text"
    "(\<lambda>h. ci_chunk_id (rh_citation h)) ` set gate_evidence = {evidence_chunk_id}"
    by (simp_all add: gate_evidence_def)
  moreover have "term_overlap round4 (significant_terms (sub_empty citation_pattern (gc_answer c)))
      (significant_terms evidence_text) = round4 (real k / real n)"
    using assms(2,3) by (auto simp: term_overlap_def Let_def)
  ultimately show ?thesis
    using assms(1,4-6) by (simp add: run_case_def evaluate_groundedness_def Let_def sort_Nil_iff)
qed

text \<open>Rounding keeps zero and one.  With the evaluator's default minimum, one half, every case is
  classified as it should be.\<close>

lemma gate_classifies:
  assumes "round4 0 = 0" and "round4 1 = 1"
  shows "\<exists>results. map_outcome (run_case round4 (1 / 2)) gate_cases = Inr results \<and> list_all gt_passed results"
proof -
  note facts = gate_citations[unfolded gate_cases_def] gate_overlap[unfolded gate_cases_def]
  have "\<exists>r. run_case round4 (1 / 2) grounded_case = Inr r \<and> gt_passed r = (True = gc_expected grounded_case)"
    by (rule run_case_eq[where n = 8 and k = 8 and cited = "[evidence_chunk_id]"]) (use facts assms in simp_all)
  moreover have "\<exists>r. run_case round4 (1 / 2) unrelated_case = Inr r \<and> gt_passed r = (False = gc_expected unrelated_case)"
    by (rule run_case_eq[where n = 6 and k = 0 and cited = "[]"]) (use facts assms in simp_all)
  moreover have "\<exists>r. run_case round4 (1 / 2) uncited_case = Inr r \<and> gt_passed r = (False = gc_expected uncited_case)"
    by (rule run_case_eq[where n = 8 and k = 8 and cited = "[]"]) (use facts assms in simp_all)
  moreover have "\<exists>r. run_case round4 (1 / 2) fabricated_case = Inr r \<and> gt_passed r = (False = gc_expected fabricated_case)"
    by (rule run_case_eq[where n = 6 and k = 6 and cited = "[''POL-REF-999#chunk-3'']"])
      (use facts assms in \<open>simp_all add: evidence_chunk_id_def\<close>)
  ultimately show ?thesis
    by (auto simp: gate_cases_def grounded_case_def unrelated_case_def uncited_case_def fabricated_case_def)
qed

text \<open>The sample through the application asks with the platform role \<open>agent.invoke\<close>.  Every chunk declares
  a role of the entitlement vocabulary and no other, so the sample retrieves nothing: what it exercises
  is the answer for the case without evidence.\<close>

lemma live_sample_blind:
  assumes "ap_index a = LocalIndex idx"
    and "\<forall>(k, c)\<in>set idx. kc_allowed_roles c \<noteq> {} \<and> kc_allowed_roles c \<subseteq> set known_chunk_roles"
    and "live_pipeline_sample p env a = (Inr sample, a')"
  shows "ls_evidence_hit_count sample = 0 \<and> \<not> ls_is_grounded sample \<and> ap_model_gateway a' = ap_model_gateway a"
proof -
  have "\<not> kc_allowed_roles c \<subseteq> {''agent.invoke''}" if "(k, c) \<in> set idx" for k c
    using assms(2) that by (fastforce simp: known_chunk_roles_def)
  then have none: "local_search idx q e {''agent.invoke''} 3 = Inr []" for q e
    by (intro local_search_unentitled) (auto simp: list_ex_iff)
  obtain m where "retrieve (local_search idx) (embed_text (pa_digest p) 256) (pa_round6 p) live_query
      {''agent.invoke''} 3 (ap_rag a) = (Inr [], m)"
    using assms(3) none
    by (auto simp: live_pipeline_sample_def assms(1) retrieve_def split: if_splits sum.splits prod.splits)
  then show ?thesis
    using assms(3)
    by (auto simp: live_pipeline_sample_def assms(1) synthesize_grounded_answer_def evaluate_groundedness_def Let_def
        sort_Nil_iff split: sum.splits if_splits)
qed

end
