(* ===== verification/OperatorDemo.thy ===== *)
theory OperatorDemo
  imports AppRun Sdk DurableState Readiness
begin

text \<open>
  The operator demonstration (scripts/operator-demo.py): the application is assembled, three
  investigations are posted to it, and what they left on the approval store and on the audit trail is
  checked.  It goes through every layer, from the headers of a request to the tools and the store, and
  the property below says that every check passes.

  What each request reads outside (clocks, the uuid of an approval, the uuid of a request without a
  usable id) is a \<open>web_request\<close> of its own.  The report file and the printing are not modelled.
\<close>

section \<open>The requests\<close>

text \<open>The pound sign is one character.\<close>

definition sensitive_query :: string where
  "sensitive_query = ''Send a refund of '' @ [CHR 0xA3] @ ''750 for TXN-5001''"

definition denied_query :: string where
  "denied_query = ''Show customer CUST-1098 account profile''"

definition delayed_query :: string where
  "delayed_query = ''Why is CUST-1098 payment transaction TXN-5001 delayed?''"

definition operator_headers :: "string \<Rightarrow> string \<Rightarrow> (string \<times> string) list" where
  "operator_headers roles request_id =
     [(''X-Local-User'', ''local-operator''), (''X-Local-Roles'', roles),
      (''X-Local-Tenant'', ''payment-disputes''), (''X-Request-ID'', request_id)]"

text \<open>The request as the route sees it: the middleware has chosen its id.\<close>

definition operator_call :: "string \<Rightarrow> string \<Rightarrow> web_request \<Rightarrow> web_request" where
  "operator_call roles request_id q =
     (let hs = operator_headers roles request_id in
      q\<lparr>wr_headers := received_auth hs,
        wr_request_id := choose_request_id (wr_request_id q)
          (received_request hs ''/api/v1/workflows/investigate'' None)\<rparr>)"

text \<open>The response: its status and, when it succeeded, its payload.  The test client raises what the
  application does not turn into a response; the middleware makes a response of a timeout.\<close>

definition post_investigation ::
  "'x app_params \<Rightarrow> string \<Rightarrow> web_request \<Rightarrow> 'x app
    \<Rightarrow> (exn + int \<times> investigation_response option) \<times> 'x app" where
  "post_investigation p query q a =
     (case investigate_workflow p query q a of
        (Inr x, a1) \<Rightarrow> (Inr (200, Some x), a1)
      | (Inl (HTTPException status detail headers), a1) \<Rightarrow> (Inr (status, None), a1)
      | (Inl TimeoutError, a1) \<Rightarrow> (Inr (504, None), a1)
      | (Inl e, a1) \<Rightarrow> (Inl e, a1))"

text \<open>A key of the payload: an error payload has none of those the script reads.\<close>

definition payload_of :: "int \<times> investigation_response option \<Rightarrow> exn + investigation_response" where
  "payload_of r = (case snd r of None \<Rightarrow> Inl (OtherException ''KeyError'') | Some x \<Rightarrow> Inr x)"

section \<open>The demonstration\<close>

definition operator_settings :: settings where
  "operator_settings = default_settings
     \<lparr>st_app_env := TestEnv, st_state_backend := SqliteBackend, st_state_database_path := '':memory:''\<rparr>"

text \<open>\<open>approvals.get\<close>: SQLite finds nothing under a null id.\<close>

definition find_approval ::
  "'x app_params \<Rightarrow> string option \<Rightarrow> 'x app \<Rightarrow> exn + approval_record option" where
  "find_approval p approval_id a =
     (case approval_id of
        None \<Rightarrow> Inr None
      | Some i \<Rightarrow> looked_up (fst (store_step (pa_store p) (GetRecord i ''payment-disputes'') (ap_approvals a))))"

definition first_source :: "agent_result \<Rightarrow> exn + string" where
  "first_source r =
     (case rs_evidence r of [] \<Rightarrow> Inl (OtherException ''IndexError'') | ev # _ \<Rightarrow> Inr (ev_source_id ev))"

definition last_audit :: "'x app \<Rightarrow> exn + audit_record" where
  "last_audit a =
     (if mg_audit (ap_mcp a) = [] then Inl (OtherException ''IndexError'') else Inr (last (mg_audit (ap_mcp a))))"

text \<open>The seven checks on the three responses.\<close>

definition operator_checks ::
  "'x app_params \<Rightarrow> int \<times> investigation_response option \<Rightarrow> int \<times> investigation_response option
    \<Rightarrow> int \<times> investigation_response option \<Rightarrow> 'x app \<Rightarrow> exn + checks" where
  "operator_checks p unauthorised investigation high_risk_response a =
     (case payload_of high_risk_response of
        Inl e \<Rightarrow> Inl e
      | Inr high \<Rightarrow>
     (case find_approval p (ir_approval_id high) a of
        Inl e \<Rightarrow> Inl e
      | Inr approval \<Rightarrow>
     (case last_audit a of
        Inl e \<Rightarrow> Inl e
      | Inr audit \<Rightarrow>
     (case payload_of investigation of
        Inl e \<Rightarrow> Inl e
      | Inr answered \<Rightarrow>
     (case first_source (ir_result answered) of
        Inl e \<Rightarrow> Inl e
      | Inr source \<Rightarrow>
          Inr [(''unauthorised_request_denied'', fst unauthorised = 403),
            (''read_only_investigation_succeeded'',
               fst investigation = 200 \<and> agent_text (rs_agent (ir_result answered)) = ''payments''),
            (''evidence_is_cited'', source = ''TXN-5001''),
            (''high_risk_action_not_executed'',
               fst high_risk_response = 200 \<and> agent_text (rs_agent (ir_result high)) = ''human_review''),
            (''approval_record_created'', still_pending approval),
            (''approval_stores_hash_only'',
               (case approval of None \<Rightarrow> False
                | Some r \<Rightarrow> ar_query_sha256 r = sp_sha256 (pa_store p) sensitive_query)),
            (''tool_call_is_audited'',
               au_request_id audit = ''demo-investigation'' \<and> length (au_argument_fingerprint audit) = 64)])))))"

definition operator_demo ::
  "'x app_params \<Rightarrow> web_request \<times> web_request \<times> web_request \<Rightarrow> 'x app \<Rightarrow> exn + checks" where
  "operator_demo p readings a =
     (case readings of (q1, q2, q3) \<Rightarrow>
      case post_investigation p denied_query (operator_call ''platform.viewer'' ''demo-denied'' q1) a of
        (Inl e, _) \<Rightarrow> Inl e
      | (Inr unauthorised, a1) \<Rightarrow>
     (case post_investigation p delayed_query (operator_call ''agent.invoke'' ''demo-investigation'' q2) a1 of
        (Inl e, _) \<Rightarrow> Inl e
      | (Inr investigation, a2) \<Rightarrow>
     (case post_investigation p sensitive_query (operator_call ''agent.invoke'' ''demo-human-review'' q3) a2 of
        (Inl e, _) \<Rightarrow> Inl e
      | (Inr high, a3) \<Rightarrow> operator_checks p unauthorised investigation high a3)))"

text \<open>\<open>None\<close> when building the index does not return.\<close>

definition operator_main ::
  "'x app_params \<Rightarrow> ('x, 'k) app_world \<Rightarrow> web_request \<times> web_request \<times> web_request
    \<Rightarrow> ((exn + unit) \<times> checks option) option" where
  "operator_main p w readings =
     map_option (\<lambda>r. case r of
         Inl e \<Rightarrow> (Inl e, None)
       | Inr a \<Rightarrow> (case operator_demo p readings a of
             Inl e \<Rightarrow> (Inl e, None)
           | Inr checks \<Rightarrow>
               ((if all_passed checks then Inr () else Inl (RuntimeError ''operator demonstration failed'')),
                Some checks)))
       (create_app p w operator_settings)"

section \<open>Texts\<close>

lemma sensitive_high_risk: "high_risk sensitive_query"
  by code_simp

lemma delayed_facts:
  "\<not> high_risk delayed_query"
  "route_scores delayed_query = [(PaymentsRoute, 2), (CustomerRoute, 0), (PolicyRoute, 0)]"
  "transaction_id_from delayed_query = Some ''TXN-5001''" "customer_id_from delayed_query = Some ''CUST-1098''"
  by code_simp+

lemma queries_valid:
  "new_route_request delayed_query = Inr delayed_query" "new_route_request sensitive_query = Inr sensitive_query"
  by code_simp+

section \<open>The run of the payments agent\<close>

lemma mcp_invoke_audit:
  assumes "mcp_invoke sha rnd ct tool args c g = (r, g')"
  shows "\<exists>rec. mg_audit g' = mg_audit g @ [rec] \<and> au_request_id rec = field_strip (cc_request_id c) \<and>
    au_argument_fingerprint rec = field_strip (sha (json_dumps (PDict args)))"
proof -
  obtain y g1 where "invoke_body (ct_now ct) tool args c g = (y, g1)" by fastforce
  moreover obtain x oc n where "y = (x, oc, n)" by (cases y) auto
  ultimately have b: "invoke_body (ct_now ct) tool args c g = ((x, oc, n), g1)" by simp
  have "mg_audit g1 = mg_audit g"
    using invoke_body_state[of "ct_now ct" tool args c g] unfolding b by (simp split: if_splits)
  with assms b show ?thesis by (auto simp: mcp_invoke_def Let_def)
qed

lemma payments_audit:
  assumes "transaction_id_from q = Some i" and "payments_investigate (local_invoke sha rnd clock) q c g = (r, g')"
  shows "\<exists>rec. mg_audit g' = mg_audit g @ [rec] \<and> au_request_id rec = field_strip (cc_request_id c) \<and>
    au_argument_fingerprint rec = field_strip (sha (json_dumps (PDict [(''transaction_id'', PStr i)])))"
proof -
  obtain x where "mcp_invoke sha rnd (clock (length (mg_audit g))) ''payments.get_transaction''
      [(''transaction_id'', PStr i)] c g = (x, g')"
    using assms by (auto simp: payments_investigate_def invoke_as_def local_invoke_def
        split: prod.splits sum.splits option.splits if_splits)
  then show ?thesis by (rule mcp_invoke_audit)
qed

lemma payments_evidence:
  assumes "payments_investigate call q c g = (Inr r, g')" and "rs_evidence r \<noteq> []"
  shows "rs_agent r = PaymentsAgent \<and> \<not> rs_requires_human_approval r"
proof -
  have "rs_evidence x = []" if "payments_failure = Inr x \<or> payments_mismatch = Inr x" for x
    using that by (auto simp: payments_failure_def payments_mismatch_def new_agent_result_def)
  moreover obtain i where i: "transaction_id_from q = Some i"
    using assms by (cases "transaction_id_from q") (auto simp: payments_investigate_def new_agent_result_def)
  obtain t g1 where "invoke_as call as_transaction ''payments.get_transaction'' [(''transaction_id'', PStr i)] c g = (t, g1)"
    by fastforce
  with i assms(1) have "(\<exists>e. tool_failed payments_failure e = Inr r) \<or> (\<exists>t. payments_answer t = Inr r) \<or> payments_mismatch = Inr r"
    by (cases t) (auto simp: payments_investigate_def split: option.splits if_splits)
  ultimately obtain t where "payments_answer t = Inr r"
    using assms(2) by (auto simp: tool_failed_def split: if_splits)
  then show ?thesis
    by (auto simp: payments_answer_def new_agent_result_def split: sum.splits if_splits)
qed

lemma delayed_decision:
  "\<exists>d. mock_classify delayed_query = Inr d \<and> rd_route d = PaymentsRoute"
  using delayed_facts(1) by (simp add: mock_classify_def delayed_facts(2) new_routing_decision_def Let_def)

definition operator_scope :: "tenant_context \<Rightarrow> string set" where
  "operator_scope tc = {''agent.invoke''} \<union> tb_entitlements (tc_bundle tc)"

lemma operator_caller:
  "new_caller_context ''local-operator'' roles ''payments'' ''demo-investigation'' =
     Inr \<lparr>cc_subject = ''local-operator'', cc_roles = field_strip ` roles, cc_agent = ''payments'',
       cc_request_id = ''demo-investigation''\<rparr>"
  by (simp add: new_caller_context_def agent_names_def field_strip_def is_white_space_def code_def Let_def)

lemma delayed_run:
  assumes "op_model w = mock_classify" and "op_allows w (op_max_steps w) 1" and "op_allows w (op_max_steps w) 2"
    and "op_call w = local_invoke sha rnd clock"
    and "build_local_mcp_gateway retr timeout mx rl rw = Inr g" and "1 \<le> rl" and "''agent.invoke'' \<in> roles"
  shows "\<exists>x g' m' rec. operations_investigate w delayed_query ''local-operator'' roles ''demo-investigation'' (g, m) =
      (Inr x, g', m') \<and>
    rs_agent (or_result x) = PaymentsAgent \<and> map ev_source_id (rs_evidence (or_result x)) = [''TXN-5001''] \<and>
    \<not> rs_requires_human_approval (or_result x) \<and> mg_audit g' = [rec] \<and> au_request_id rec = ''demo-investigation'' \<and>
    au_argument_fingerprint rec \<in> range (field_strip \<circ> sha)"
proof -
  obtain d where d: "mock_classify delayed_query = Inr d" "rd_route d = PaymentsRoute"
    using delayed_decision by blast
  define c where "c = \<lparr>cc_subject = ''local-operator'', cc_roles = field_strip ` roles, cc_agent = ''payments'',
       cc_request_id = ''demo-investigation''\<rparr>"
  have c: "''agent.invoke'' \<in> cc_roles c" "cc_agent c = ''payments''" using image_eqI[OF _ assms(7), of "''agent.invoke''" field_strip]
    by (simp_all add: c_def field_strip_def is_white_space_def code_def)
  obtain t where t: "get_transaction ''TXN-5001'' = Some t" "tx_customer_id t = ''CUST-1098''"
    by (simp add: get_transaction_def bank_transactions_def)
  then have "customer_id_from delayed_query = None \<or> customer_id_from delayed_query = Some (tx_customer_id t)"
    using delayed_facts(4) by simp
  from payments_agent_answers_aux[OF assms(5,6) c delayed_facts(3) t(1) this, where sha = sha and rnd = rnd and clock = clock]
  obtain r g' where p: "payments_investigate (local_invoke sha rnd clock) delayed_query c g = (Inr r, g')"
    "map ev_source_id (rs_evidence r) = [''TXN-5001'']"
    by (elim exE conjE)
  have r: "rs_agent r = PaymentsAgent" "\<not> rs_requires_human_approval r"
    using payments_evidence[OF p(1)] p(2) by auto
  obtain rec where rec: "mg_audit g' = [rec]" "au_request_id rec = ''demo-investigation''"
    "au_argument_fingerprint rec = field_strip (sha (json_dumps (PDict [(''transaction_id'', PStr ''TXN-5001'')])))"
    using payments_audit[OF delayed_facts(3) p(1)] build_local_good(2)[OF assms(5)]
    by (auto simp: c_def field_strip_def is_white_space_def code_def)
  have "run_specialist (payments_investigate (op_call w)) ''payments'' delayed_query ''local-operator'' roles
      ''demo-investigation'' g = (Inr r, g')"
    using p(1) by (simp add: run_specialist_def operator_caller assms(4) c_def)
  then have "\<exists>x m'. operations_investigate w delayed_query ''local-operator'' roles ''demo-investigation'' (g, m) =
      (Inr x, g', m') \<and> or_result x = r"
    using assms(1-3) d by (simp add: operations_defs supervisor_route_def supervisor_classify_def)
  then obtain x m' where "operations_investigate w delayed_query ''local-operator'' roles ''demo-investigation'' (g, m) =
      (Inr x, g', m')" "or_result x = r"
    by (elim exE conjE)
  with r p(2) rec show ?thesis
    by (intro exI[of _ x] exI[of _ g'] exI[of _ m'] exI[of _ rec] conjI) simp_all
qed

section \<open>Admission\<close>

definition operator_identity :: "string \<Rightarrow> principal" where
  "operator_identity roles = \<lparr>p_subject = ''local-operator'',
     p_roles = set (filter (\<lambda>r. r \<noteq> []) (map strip (split_on (CHR '','') roles)))\<rparr>"

text \<open>An application that can serve \<open>n\<close> more requests of the operator.\<close>

definition operator_ready :: "'x app_params \<Rightarrow> 'x app \<Rightarrow> nat \<Rightarrow> bool" where
  "operator_ready p a n \<longleftrightarrow>
     app_inv p a \<and> local_env (ap_settings a) \<and> ''payment-disputes'' \<in> tr_names (ap_tenants a) \<and>
     int (length (rl_requests (ap_limiter a) ''local-operator'') + n) \<le> rl_limit (ap_limiter a) \<and>
     op_allows (ap_operations a) (op_max_steps (ap_operations a)) 1 \<and>
     op_allows (ap_operations a) (op_max_steps (ap_operations a)) 2"

lemma ready_touched:
  assumes "operator_ready p a n" and "touched p t a b" and "ap_limiter b = ap_limiter a"
  shows "operator_ready p b n"
  using assms by (simp add: operator_ready_def touched_def same_app_def)

lemma operator_received:
  "received_auth (operator_headers roles rid) = \<lparr>ah_user = Some ''local-operator'', ah_roles = roles,
      ah_authorization = None, ah_tenant = Some ''payment-disputes''\<rparr>"
  "rq_request_id (received_request (operator_headers roles rid) path len) = Some rid"
  by (simp_all add: received_auth_def operator_headers_def header_value_def received_request_def)

lemma operator_let_in:
  assumes "operator_ready p a (Suc n)"
  shows "\<exists>l tc. operator_ready p (a\<lparr>ap_limiter := l\<rparr>) n \<and> tc_tenant tc = ''payment-disputes'' \<and>
    admit_tenant {''agent.invoke''} (operator_call roles rid q) a =
      (if ''agent.invoke'' \<in> p_roles (operator_identity roles) then Inr (operator_identity roles, tc)
       else Inl (HTTPException 403 ''Caller does not have the required role'' []), a\<lparr>ap_limiter := l\<rparr>)"
proof -
  have loc: "local_env (ap_settings a)" and room: "int (length (rl_requests (ap_limiter a) ''local-operator'') + Suc n) \<le> rl_limit (ap_limiter a)"
    using assms by (simp_all add: operator_ready_def)
  obtain b where b: "tr_get (ap_tenants a) ''payment-disputes'' = Inr b"
    using assms tr_get_known by (auto simp: operator_ready_def)
  have strips: "strip ''local-operator'' = ''local-operator''" "strip ''payment-disputes'' = ''payment-disputes''"
    by (simp_all add: strip_def lstrip_def is_space_def code_def)
  have hs: "wr_headers (operator_call roles rid q) = \<lparr>ah_user = Some ''local-operator'', ah_roles = roles,
      ah_authorization = None, ah_tenant = Some ''payment-disputes''\<rparr>"
    by (simp add: operator_call_def Let_def operator_received)
  have pr: "get_principal (ap_settings a) (ap_resolver a) (wr_headers (operator_call roles rid q)) None =
      (Inr (operator_identity roles), None)"
    using loc by (simp add: get_principal_def hs strips operator_identity_def)
  have ctx: "get_tenant_context (ap_settings a) (ap_tenants a) (wr_headers (operator_call roles rid q)) None =
      Inr \<lparr>tc_tenant = ''payment-disputes'', tc_bundle = b\<rparr>"
    using loc b by (simp add: get_tenant_context_def hs strips)
  define l where "l = snd (rl_check (wr_now (operator_call roles rid q)) ''local-operator'' (ap_limiter a))"
  have l: "enforce_rate_limit (wr_now (operator_call roles rid q)) (operator_identity roles) (ap_limiter a) =
      (Inr (operator_identity roles), l)" "rl_limit l = rl_limit (ap_limiter a)"
    "length (rl_requests l ''local-operator'') \<le> Suc (length (rl_requests (ap_limiter a) ''local-operator''))"
    using room length_dropWhile_le[of "\<lambda>t. t \<le> wr_now (operator_call roles rid q) - of_int (rl_window (ap_limiter a))"
        "rl_requests (ap_limiter a) ''local-operator''"]
    by (auto simp: enforce_rate_limit_def rl_check_def l_def operator_identity_def Let_def)
  have "operator_ready p (a\<lparr>ap_limiter := l\<rparr>) n"
    using assms room l(2,3) by (simp add: operator_ready_def app_inv_def)
  with pr ctx l(1) show ?thesis
    by (intro exI[of _ l] exI[of _ "\<lparr>tc_tenant = ''payment-disputes'', tc_bundle = b\<rparr>"])
      (simp add: admit_tenant_def admit_def require_roles_def)
qed

lemma operator_roles:
  "p_roles (operator_identity ''agent.invoke'') = {''agent.invoke''}"
  "p_roles (operator_identity ''platform.viewer'') = {''platform.viewer''}"
  by (simp_all add: operator_identity_def strip_def lstrip_def is_space_def code_def)

lemma operator_ids:
  "wr_request_id (operator_call roles ''demo-investigation'' q) = ''demo-investigation''"
  "wr_request_id (operator_call roles ''demo-human-review'' q) = ''demo-human-review''"
proof -
  have "full_match request_id_pattern ''demo-investigation''" "full_match request_id_pattern ''demo-human-review''"
    by code_simp+
  then show "wr_request_id (operator_call roles ''demo-investigation'' q) = ''demo-investigation''"
    "wr_request_id (operator_call roles ''demo-human-review'' q) = ''demo-human-review''"
    by (simp_all add: operator_call_def choose_request_id_def operator_received Let_def)
qed

section \<open>The three responses\<close>

lemma denied_response:
  assumes "operator_ready p a (Suc n)"
  obtains l where "post_investigation p query (operator_call ''platform.viewer'' rid q) a = (Inr (403, None), a\<lparr>ap_limiter := l\<rparr>)"
    and "operator_ready p (a\<lparr>ap_limiter := l\<rparr>) n"
  using operator_let_in[OF assms, of "''platform.viewer''" rid q]
  by (auto simp: operator_roles post_investigation_def investigate_workflow_def)

lemma admitted_response:
  assumes "admit_tenant {''agent.invoke''} q a = (Inr (who, tc), a1)" and "new_route_request query = Inr query"
  shows "investigate_workflow p query q a = investigate_for p query who tc q a1"
  using assms by (simp add: investigate_workflow_def)

lemma run_operations_limiter: "run_operations query subject roles q a = (r, a2) \<Longrightarrow> ap_limiter a2 = ap_limiter a"
  by (auto simp: run_operations_def split: prod.splits)

lemma completed_parts [simp]:
  "ap_limiter (completed t res q a) = ap_limiter a" "ap_mcp (completed t res q a) = ap_mcp a"
  "ap_approvals (completed t res q a) = ap_approvals a"
  by (simp_all add: completed_def Let_def)

lemma delayed_response:
  assumes "operator_ready p a (Suc n)" and "op_call (ap_operations a) = local_invoke sha rnd clock"
    and "build_local_mcp_gateway retr timeout mx rl rw = Inr (ap_mcp a)" and "1 \<le> rl"
  obtains x a2 rec where
    "post_investigation p delayed_query (operator_call ''agent.invoke'' ''demo-investigation'' q) a = (Inr (200, Some x), a2)"
    and "rs_agent (ir_result x) = PaymentsAgent" and "map ev_source_id (rs_evidence (ir_result x)) = [''TXN-5001'']"
    and "mg_audit (ap_mcp a2) = [rec]" and "au_request_id rec = ''demo-investigation''"
    and "au_argument_fingerprint rec \<in> range (field_strip \<circ> sha)"
    and "operator_ready p a2 n" and "ap_approvals a2 = ap_approvals a"
proof -
  let ?q = "operator_call ''agent.invoke'' ''demo-investigation'' q"
  obtain l tc where l: "operator_ready p (a\<lparr>ap_limiter := l\<rparr>) n"
    "admit_tenant {''agent.invoke''} ?q a = (Inr (operator_identity ''agent.invoke'', tc), a\<lparr>ap_limiter := l\<rparr>)"
    using operator_let_in[OF assms(1), of "''agent.invoke''" "''demo-investigation''" q] by (auto simp: operator_roles)
  let ?a = "a\<lparr>ap_limiter := l\<rparr>"
  let ?scope = "document_scope (operator_identity ''agent.invoke'') tc"
  have w: "op_model (ap_operations a) = mock_classify" "op_allows (ap_operations a) (op_max_steps (ap_operations a)) 1"
    "op_allows (ap_operations a) (op_max_steps (ap_operations a)) 2"
    using assms(1) by (simp_all add: operator_ready_def app_inv_def)
  have roles: "''agent.invoke'' \<in> ?scope" by (simp add: document_scope_def operator_roles)
  from delayed_run[OF w assms(2-4) roles, where m = "mgw_metrics (ap_model_gateway a)"]
  obtain x g' m' rec where run: "operations_investigate (ap_operations a) delayed_query ''local-operator'' ?scope
      ''demo-investigation'' (ap_mcp a, mgw_metrics (ap_model_gateway a)) = (Inr x, g', m')"
    and x: "rs_agent (or_result x) = PaymentsAgent" "map ev_source_id (rs_evidence (or_result x)) = [''TXN-5001'']"
      "\<not> rs_requires_human_approval (or_result x)"
    and rec: "mg_audit g' = [rec]" "au_request_id rec = ''demo-investigation''"
      "au_argument_fingerprint rec \<in> range (field_strip \<circ> sha)"
    by (elim exE conjE)
  obtain a2 where ops: "run_operations delayed_query (p_subject (operator_identity ''agent.invoke'')) ?scope ?q ?a = (Inr x, a2)"
    and a2: "ap_mcp a2 = g'" "ap_limiter a2 = l" "ap_approvals a2 = ap_approvals a"
    using run by (simp add: run_operations_def operator_ids operator_identity_def)
  have inv: "app_inv p ?a" using l(1) by (simp add: operator_ready_def)
  let ?b = "completed (tc_tenant tc) x ?q a2"
  let ?x = "\<lparr>ir_decision = or_decision x, ir_result = or_result x, ir_steps = or_steps x, ir_approval_id = None\<rparr>"
  have "touched p None ?a ?b"
    by (rule touched_trans[OF run_operations_frame[OF inv ops, THEN conjunct1]]) simp
  then have "operator_ready p ?b n" by (rule ready_touched[OF l(1)]) (simp add: a2)
  moreover have "post_investigation p delayed_query ?q a = (Inr (200, Some ?x), ?b)"
    using ops x(3) by (simp add: post_investigation_def admitted_response[OF l(2) queries_valid(1)] investigate_for_def)
  ultimately show thesis using x rec a2 by (intro that[of ?x ?b rec]) simp_all
qed

lemma reviewed_response:
  assumes "operator_ready p a (Suc n)" and "request_usable p q" and "content p a = Map.empty"
  obtains x a2 who where
    "post_investigation p sensitive_query (operator_call ''agent.invoke'' ''demo-human-review'' q) a = (Inr (200, Some x), a2)"
    and "rs_agent (ir_result x) = HumanReviewAgent" and "ir_approval_id x = Some (wr_uid q)"
    and "app_inv p a2" and "ap_mcp a2 = ap_mcp a"
    and "content p a2 (wr_uid q) = Some (pending_for p who sensitive_query ''payment-disputes''
      (operator_call ''agent.invoke'' ''demo-human-review'' q))"
proof -
  let ?q = "operator_call ''agent.invoke'' ''demo-human-review'' q"
  obtain l tc where l: "operator_ready p (a\<lparr>ap_limiter := l\<rparr>) n" "tc_tenant tc = ''payment-disputes''"
    "admit_tenant {''agent.invoke''} ?q a = (Inr (operator_identity ''agent.invoke'', tc), a\<lparr>ap_limiter := l\<rparr>)"
    using operator_let_in[OF assms(1), of "''agent.invoke''" "''demo-human-review''" q] by (auto simp: operator_roles)
  let ?a = "a\<lparr>ap_limiter := l\<rparr>"
  let ?who = "operator_identity ''agent.invoke''"
  have w: "op_model (ap_operations a) = mock_classify" "op_allows (ap_operations a) (op_max_steps (ap_operations a)) 1"
    "op_allows (ap_operations a) (op_max_steps (ap_operations a)) 2"
    using assms(1) by (simp_all add: operator_ready_def app_inv_def)
  from high_risk_run[OF sensitive_high_risk w, where subject = "p_subject ?who" and roles = "document_scope ?who tc"
      and request_id = "wr_request_id ?q" and g = "ap_mcp a" and m = "mgw_metrics (ap_model_gateway a)"]
  obtain x m' where run: "operations_investigate (ap_operations a) sensitive_query (p_subject ?who) (document_scope ?who tc)
      (wr_request_id ?q) (ap_mcp a, mgw_metrics (ap_model_gateway a)) = (Inr x, ap_mcp a, m')"
    and x: "rs_agent (or_result x) = HumanReviewAgent" "rs_requires_human_approval (or_result x)"
    by (elim exE conjE)
  obtain a2 where ops: "run_operations sensitive_query (p_subject ?who) (document_scope ?who tc) ?q ?a = (Inr x, a2)"
    and a2: "ap_mcp a2 = ap_mcp a" "ap_approvals a2 = ap_approvals a"
    using run by (simp add: run_operations_def)
  have inv: "app_inv p ?a" using l(1) by (simp add: operator_ready_def)
  have inv2: "app_inv p a2" by (rule touched_inv[OF run_operations_frame[OF inv ops, THEN conjunct1] inv])
  have u: "request_usable p ?q" "wr_uid ?q = wr_uid q"
    using assms(2) by (simp_all add: request_usable_def operator_call_def Let_def)
  obtain r st where ask: "request_approval p (p_subject ?who) sensitive_query (tc_tenant tc) ?q (ap_approvals a2) = (r, st)"
    by fastforce
  have "store_inv (pa_store p) (ap_approvals a2)" using inv2 by (simp add: app_inv_def)
  note g = request_approval_frame[OF this u(1) ask]
  have "store_content (pa_store p) (ap_approvals a2) = Map.empty" using assms(3) by (simp add: a2 content_def)
  with g u(2) have r: "r = Inr (wr_uid q)" "store_content (pa_store p) st (wr_uid q) =
      Some (pending_for p (p_subject ?who) sensitive_query (tc_tenant tc) ?q)"
    by (cases r; simp)+
  let ?b = "completed (tc_tenant tc) x ?q (a2\<lparr>ap_approvals := st\<rparr>)"
  let ?x = "\<lparr>ir_decision = or_decision x, ir_result = or_result x, ir_steps = or_steps x,
      ir_approval_id = Some (wr_uid q)\<rparr>"
  have "touched p (Some (tc_tenant tc)) a2 ?b"
    by (rule touched_trans[OF touched_approval[OF inv2 u(1) ask]]) simp
  then have "app_inv p ?b" using inv2 by (rule touched_inv)
  moreover have "post_investigation p sensitive_query ?q a = (Inr (200, Some ?x), ?b)"
    using ops x(2) ask r(1)
    by (simp add: post_investigation_def admitted_response[OF l(3) queries_valid(2)] investigate_for_def)
  ultimately show thesis using x(1) r(2) a2(1) l(2) by (intro that[of ?x ?b "p_subject ?who"]) (simp_all add: content_def)
qed

lemma approval_found:
  assumes "app_inv p a" and "request_usable p q" and "content p a (wr_uid q) = Some r"
    and "ar_tenant r = ''payment-disputes''"
  shows "find_approval p (Some (wr_uid q)) a = Inr (Some r)"
proof -
  let ?x = "GetRecord (wr_uid q) ''payment-disputes''"
  have inv: "store_inv (pa_store p) (ap_approvals a)" using assms(1) by (simp add: app_inv_def)
  have u: "op_usable (pa_store p) ?x"
    using assms(2) by (simp add: request_usable_def op_usable_def op_times_valid_def pg_usable_def redis_usable_def)
  have "fst (store_step (pa_store p) ?x (ap_approvals a)) = Inr (Looked_up (Some r))"
    using opened.refines[OF inv u] assms(3,4)
    by (elim get_stepE) (auto simp: visible_to_def content_def)
  then show ?thesis by (simp add: find_approval_def)
qed

section \<open>The demonstration passes\<close>

definition hex_digest :: "string \<Rightarrow> bool" where
  "hex_digest d \<longleftrightarrow> length d = 64 \<and> set d \<subseteq> set ''0123456789abcdef''"

lemma hex_digest_stripped: "hex_digest d \<Longrightarrow> length (field_strip d) = 64"
proof -
  assume d: "hex_digest d"
  have "\<forall>c\<in>set ''0123456789abcdef''. \<not> is_white_space c" by (simp add: is_white_space_def code_def)
  with d have "\<forall>c\<in>set d. \<not> is_white_space c" by (auto simp: hex_digest_def)
  with d show ?thesis by (simp add: field_strip_plain hex_digest_def)
qed

lemma operator_started:
  assumes "create_app p w operator_settings = Some (Inr a)" and "world_ok w" and "params_ok (pa_store p)"
    and "aw_tenants w = Inr r" and "''payment-disputes'' \<in> tr_names r"
    and "aw_allows w 8 1" and "aw_allows w 8 2"
  shows "operator_ready p a 60" and "content p a = Map.empty"
    and "op_call (ap_operations a) = local_invoke (aw_sha256 w) (aw_round3 w) (aw_clock w)"
    and "\<exists>retr. build_local_mcp_gateway retr 2 2 30 60 = Inr (ap_mcp a)"
proof -
  obtain idx where "assemble_app p w operator_settings idx = Inr a" by (rule create_app_Inr[OF assms(1)])
  note f = assemble_app_Inr[OF this]
  note ops = new_operations_Inr[OF f(4)]
  note inv = create_app_inv[OF assms(1-3)]
  have "local_env (ap_settings a)" by (simp add: f(7) operator_settings_def local_env_def)
  then show "operator_ready p a 60"
    using inv f(2,9) ops assms(4-7)
    by (simp add: operator_ready_def new_rate_limiter_def operator_settings_def default_settings_def)
  show "content p a = Map.empty" using inv by simp
  show "op_call (ap_operations a) = local_invoke (aw_sha256 w) (aw_round3 w) (aw_clock w)" using ops by simp
  show "\<exists>retr. build_local_mcp_gateway retr 2 2 30 60 = Inr (ap_mcp a)"
    using f(1) by (auto simp: operator_settings_def default_settings_def)
qed

text \<open>C29: whenever the application starts, the demonstration passes: the caller without the role is
  turned away, the payments agent answers with the transaction as its evidence, the refund is not
  executed but recorded for approval under the digest of the request alone, and the only tool call is
  on the audit trail under its request id.  This holds for every clock, every knowledge base and every
  tenant registry with the tenant in it.\<close>

theorem operator_demo_passes:
  assumes "create_app p w operator_settings = Some (Inr a)" and "world_ok w" and "params_ok (pa_store p)"
    and "aw_tenants w = Inr r" and "''payment-disputes'' \<in> tr_names r"
    and "aw_allows w 8 1" and "aw_allows w 8 2" and "\<forall>s. hex_digest (aw_sha256 w s)"
    and "request_usable p q3"
  shows "\<exists>checks. operator_main p w (q1, q2, q3) = Some (Inr (), Some checks) \<and>
    length checks = 7 \<and> all_passed checks"
proof -
  note start = operator_started[OF assms(1-7)]
  have "(1 :: int) \<le> 30" by simp
  obtain retr where g: "build_local_mcp_gateway retr 2 2 30 60 = Inr (ap_mcp a)" using start(4) by blast
  obtain l where r1: "post_investigation p denied_query (operator_call ''platform.viewer'' ''demo-denied'' q1) a =
      (Inr (403, None), a\<lparr>ap_limiter := l\<rparr>)" and a1: "operator_ready p (a\<lparr>ap_limiter := l\<rparr>) 59"
    by (rule denied_response[where n = 59]) (use start(1) in simp_all)
  obtain x2 a2 rec where r2: "post_investigation p delayed_query
      (operator_call ''agent.invoke'' ''demo-investigation'' q2) (a\<lparr>ap_limiter := l\<rparr>) = (Inr (200, Some x2), a2)"
    and x2: "rs_agent (ir_result x2) = PaymentsAgent" "map ev_source_id (rs_evidence (ir_result x2)) = [''TXN-5001'']"
    and rec: "mg_audit (ap_mcp a2) = [rec]" "au_request_id rec = ''demo-investigation''"
      "au_argument_fingerprint rec \<in> range (field_strip \<circ> aw_sha256 w)"
    and a2: "operator_ready p a2 58" "ap_approvals a2 = ap_approvals a"
    by (rule delayed_response[where n = 58 and a = "a\<lparr>ap_limiter := l\<rparr>" and sha = "aw_sha256 w" and
          rnd = "aw_round3 w" and clock = "aw_clock w" and retr = retr and timeout = 2 and mx = 2 and rl = 30 and rw = 60])
      (use a1 start(3) g in simp_all)
  have "content p a2 = Map.empty" using start(2) a2(2) by (simp add: content_def)
  from reviewed_response[where n = 57, OF _ assms(9) this] a2(1)
  obtain x3 a3 who where r3: "post_investigation p sensitive_query
      (operator_call ''agent.invoke'' ''demo-human-review'' q3) a2 = (Inr (200, Some x3), a3)"
    and x3: "rs_agent (ir_result x3) = HumanReviewAgent" "ir_approval_id x3 = Some (wr_uid q3)"
    and a3: "app_inv p a3" "ap_mcp a3 = ap_mcp a2" "content p a3 (wr_uid q3) = Some (pending_for p who sensitive_query
        ''payment-disputes'' (operator_call ''agent.invoke'' ''demo-human-review'' q3))"
    by (auto simp: numeral_eq_Suc)
  have approval: "find_approval p (ir_approval_id x3) a3 = Inr (Some (pending_for p who sensitive_query
        ''payment-disputes'' (operator_call ''agent.invoke'' ''demo-human-review'' q3)))"
    unfolding x3(2) by (rule approval_found[OF a3(1) assms(9) a3(3)]) (simp add: pending_for_def)
  have audit: "last_audit a3 = Inr rec" by (simp add: last_audit_def a3(2) rec(1))
  have source: "first_source (ir_result x2) = Inr ''TXN-5001''" using x2(2) by (auto simp: first_source_def)
  have "length (au_argument_fingerprint rec) = 64" using rec(3) assms(8) hex_digest_stripped by auto
  with approval audit source x2(1) x3(1) rec(2)
  obtain checks where "operator_checks p (403, None) (200, Some x2) (200, Some x3) a3 = Inr checks"
    "length checks = 7" "all_passed checks"
    by (simp add: operator_checks_def payload_of_def still_pending_def pending_for_def all_passed_def)
  with r1 r2 r3 assms(1) show ?thesis by (simp add: operator_main_def operator_demo_def)
qed

definition operator_world :: "(json_doc, unit) app_world" where
  "operator_world = start_world
     \<lparr>aw_tenants := Inr [(''payment-disputes'', sample_bundle ''payment-disputes'')],
       aw_sha256 := (\<lambda>_. replicate 64 CHR ''0'')\<rparr>"

lemma disputes_bundle_valid: "bundle_valid (sample_bundle ''payment-disputes'')"
  by (simp add: bundle_valid_def sample_bundle_def memory_policy_valid_def slug_pattern_def full_match_def
      many_bound_def slug_char_def is_lower_az_def is_digit_def code_def)

lemma operator_world_ok: "world_ok operator_world"
  using start_world_ok disputes_bundle_valid
  by (simp add: world_ok_def operator_world_def registry_wf_def sample_bundle_def)

lemma operator_app: "\<exists>a. create_app start_params operator_world operator_settings = Some (Inr a)"
proof -
  have s: "load_settings operator_settings = Inr operator_settings"
    by (simp add: load_settings_def fields_valid_def validate_security_boundaries_def operator_settings_def
        default_settings_def deployed_def starts_with_def)
  have d: "st_rag_provider operator_settings = LocalRag" "st_state_backend operator_settings = SqliteBackend"
    "\<not> jwt_configured operator_settings" "st_azure_openai_api_version operator_settings \<noteq> []"
    "is_ok (new_content_safety_policy (st_content_safety_thresholds operator_settings))"
    using default_starts by (simp_all add: operator_settings_def jwt_configured_def)
  have w: "aw_files operator_world = []" "aw_skills operator_world = Inr []"
    "aw_tenants operator_world = Inr [(''payment-disputes'', sample_bundle ''payment-disputes'')]"
    by (simp_all add: operator_world_def start_world_def)
  from app_starts[OF s d w, where p = start_params] show ?thesis using disputes_bundle_valid by auto
qed

theorem operator_demo_passes_witness:
  "\<exists>checks. operator_main start_params operator_world (operator_request, operator_request, operator_request) =
     Some (Inr (), Some checks) \<and> all_passed checks"
proof -
  obtain a where a: "create_app start_params operator_world operator_settings = Some (Inr a)"
    using operator_app by blast
  have t: "aw_tenants operator_world = Inr [(''payment-disputes'', sample_bundle ''payment-disputes'')]"
    "''payment-disputes'' \<in> tr_names [(''payment-disputes'', sample_bundle ''payment-disputes'')]"
    by (simp_all add: operator_world_def tr_names_def)
  have l: "aw_allows operator_world 8 1" "aw_allows operator_world 8 2" "\<forall>s. hex_digest (aw_sha256 operator_world s)"
    by (simp_all add: operator_world_def start_world_def step_limit_def hex_digest_def)
  from operator_demo_passes[OF a operator_world_ok start_params_ok t l operator_usable,
      where ?q1.0 = operator_request and ?q2.0 = operator_request]
  show ?thesis by blast
qed

end
