(* ===== verification/Edge.thy ===== *)
theory Edge
  imports AppRun
begin

text \<open>
  The application behind its middleware (gateway/app.py with gateway/middleware.py): every route, the
  health routes and the metrics among them, as an HTTP exchange.  \<open>serve_http\<close> runs \<open>dispatch\<close> around a
  route and passes it the request id that the middleware chose; a body that is too large never
  reaches the application.

  FastAPI turns the result of a handler into JSON and an \<open>HTTPException\<close> into a response; any other
  exception leaves the middleware.  The JSON text of a reply and the text of \<open>generate_latest()\<close> are
  parameters, the CORS middleware between the two is not modelled, and a timeout is an outcome of a
  handler (what a cancelled handler had done until then is not modelled).
\<close>

section \<open>Exchanges\<close>

datatype site_call = GetLive | GetReady | GetMetrics | Api web_call

fun call_method :: "site_call \<Rightarrow> string" where
  "call_method (Api (PostRoute _)) = ''POST''"
| "call_method (Api (PostInvestigate _)) = ''POST''"
| "call_method (Api (PostGenerate _)) = ''POST''"
| "call_method (Api (PostAnswer _)) = ''POST''"
| "call_method (Api (PostDemoInvestigate _ _ _)) = ''POST''"
| "call_method (Api (PostDemoRag _ _ _)) = ''POST''"
| "call_method _ = ''GET''"

fun api_path :: "web_call \<Rightarrow> string" where
  "api_path GetInfo = ''/platform/info''"
| "api_path (PostRoute _) = ''/workflows/route''"
| "api_path (PostInvestigate _) = ''/workflows/investigate''"
| "api_path GetSkills = ''/skills''"
| "api_path (PostGenerate _) = ''/model-gateway/generate''"
| "api_path (PostAnswer _) = ''/rag/answer''"
| "api_path GetDemo = ''/demo''"
| "api_path (PostDemoInvestigate _ _ _) = ''/demo/investigate''"
| "api_path (PostDemoRag _ _ _) = ''/demo/rag''"

fun call_path :: "settings \<Rightarrow> site_call \<Rightarrow> string" where
  "call_path s GetLive = ''/health/live''"
| "call_path s GetReady = ''/health/ready''"
| "call_path s GetMetrics = ''/metrics''"
| "call_path s (Api c) = st_api_prefix s @ api_path c"

record edge_world =
  ew_render :: "web_response \<Rightarrow> string \<times> string"
  ew_metrics :: "string \<times> string"
  ew_round2 :: "real \<Rightarrow> real"
  ew_repr :: "real \<Rightarrow> string"

text \<open>A content type with a text, and the replies of a route.\<close>

definition page_of :: "string \<times> string \<Rightarrow> http_response" where
  "page_of x = \<lparr>rs_status = 200, rs_headers = [(''content-type'', fst x)], rs_body = snd x\<rparr>"

definition json_page :: "pyval \<Rightarrow> http_response" where
  "json_page v = page_of (''application/json'', json_dumps v)"

definition route_reply :: "edge_world \<Rightarrow> exn + web_response \<Rightarrow> exn + http_response" where
  "route_reply ew r =
     (case r of
        Inr x \<Rightarrow> Inr (page_of (ew_render ew x))
      | Inl (HTTPException status detail headers) \<Rightarrow>
          Inr ((json_response status detail)
            \<lparr>rs_headers := rs_headers (json_response status detail) @ map (\<lambda>(k, v). (str_lower k, v)) headers\<rparr>)
      | Inl e \<Rightarrow> Inl e)"

fun answer_call ::
  "edge_world \<Rightarrow> 'x app_params \<Rightarrow> page_text \<Rightarrow> site_call \<Rightarrow> web_request \<Rightarrow> 'x app
    \<Rightarrow> (exn + http_response) \<times> 'x app" where
  "answer_call ew p t GetLive q a = (Inr (json_page (PDict [(''status'', PStr ''ok'')])), a)"
| "answer_call ew p t GetReady q a =
     (Inr (json_page (PDict [(''status'', PStr ''ready''), (''checks'', PDict [(''gateway'', PStr ''ready'')])])), a)"
| "answer_call ew p t GetMetrics q a =
     (Inr (if st_metrics_enabled (ap_settings a) then page_of (ew_metrics ew) else json_response 404 ''Not Found''), a)"
| "answer_call ew p t (Api c) q a = map_prod (route_reply ew) id (handle p t c q a)"

text \<open>A call with the \<open>X-Request-ID\<close> and \<open>Content-Length\<close> it declares.\<close>

definition request_of :: "settings \<Rightarrow> site_call \<Rightarrow> string option \<Rightarrow> string option \<Rightarrow> http_request" where
  "request_of s c given_id body_length =
     \<lparr>rq_method = call_method c, rq_path = call_path s c, rq_request_id = given_id,
      rq_content_length = body_length\<rparr>"

definition refused :: "int \<Rightarrow> string option \<Rightarrow> bool" where
  "refused max_body_bytes body_length \<longleftrightarrow>
     (case body_length of None \<Rightarrow> False | Some n \<Rightarrow> n \<noteq> [] \<and> body_too_large max_body_bytes n)"

text \<open>\<open>q\<close> holds what the handler reads outside, with the fresh uuid as its request id.\<close>

definition serve_http ::
  "edge_world \<Rightarrow> 'x app_params \<Rightarrow> page_text \<Rightarrow> site_call \<Rightarrow> string option \<Rightarrow> string option \<Rightarrow> web_request
    \<Rightarrow> real \<Rightarrow> real \<Rightarrow> 'x app \<times> edge_log \<Rightarrow> (exn + http_response) \<times> 'x app \<times> edge_log" where
  "serve_http ew p t c given_id body_length q started ended st =
     (case st of (a, el) \<Rightarrow>
        let s = ap_settings a; rq = request_of s c given_id body_length;
            answered = (\<lambda>rid. answer_call ew p t c (q\<lparr>wr_request_id := rid\<rparr>) a);
            (r, el') = dispatch (st_max_request_body_bytes s) (ew_round2 ew) (ew_repr ew) (wr_request_id q)
              started ended (\<lambda>_ rid. fst (answered rid)) rq el
        in (r, if refused (st_max_request_body_bytes s) body_length then a
               else snd (answered (choose_request_id (wr_request_id q) rq)), el'))"

section \<open>What a request leaves under its id\<close>

definition traced :: "'x app_params \<Rightarrow> string \<Rightarrow> 'x app \<Rightarrow> 'x app \<Rightarrow> bool" where
  "traced p rid a a' \<longleftrightarrow>
     (\<exists>recs. mg_audit (ap_mcp a') = mg_audit (ap_mcp a) @ recs \<and> length recs \<le> 2 \<and>
        list_all (\<lambda>r. au_request_id r = field_strip rid) recs) \<and>
     (\<forall>i. content p a' i = content p a i \<or>
        content p a i = None \<and> (\<exists>r. content p a' i = Some r \<and> ar_request_id r = rid))"

definition kept :: "'x app \<Rightarrow> 'x app \<Rightarrow> bool" where
  "kept a a' \<longleftrightarrow> ap_mcp a' = ap_mcp a \<and> ap_approvals a' = ap_approvals a"

lemma kept_refl [simp]: "kept a a"
  by (simp add: kept_def)

lemma kept_traced: "kept a a' \<Longrightarrow> traced p rid a a'"
  by (auto simp: kept_def traced_def content_def)

lemma kept_start: "kept a a1 \<Longrightarrow> traced p rid a1 a' \<Longrightarrow> traced p rid a a'"
  by (simp add: kept_def traced_def content_def)

lemma admit_kept: "admit required q a = (r, a1) \<Longrightarrow> kept a a1"
  by (auto simp: admit_def kept_def split: prod.splits sum.splits)

lemma admit_tenant_kept: "admit_tenant required q a = (r, a1) \<Longrightarrow> kept a a1"
  using admit_kept by (auto simp: admit_tenant_def split: prod.splits sum.splits)

lemma admit_demo_kept: "admit_demo host q a = (r, a1) \<Longrightarrow> kept a a1"
  by (auto simp: admit_demo_def kept_def split: prod.splits)

text \<open>A run of the workflow, after which an approval may be asked for.\<close>

lemma run_traced:
  assumes "app_inv p a" and "request_usable p q" and "run_operations query subject roles q a = (r, a2)"
    and "ap_mcp a' = ap_mcp a2"
    and "ap_approvals a' = ap_approvals a2 \<or>
      (\<exists>requester asked tenant r2. request_approval p requester asked tenant q (ap_approvals a2) = (r2, ap_approvals a'))"
  shows "traced p (wr_request_id q) a a'"
proof -
  note f = run_operations_frame[OF assms(1,3), where t = None]
  have i2: "app_inv p a2" using f touched_inv[OF _ assms(1)] by blast
  obtain route recs where recs: "mg_audit (ap_mcp a2) = mg_audit (ap_mcp a) @ recs" "length recs \<le> 2"
    "\<forall>r\<in>set recs. au_request_id r = field_strip (cc_request_id (as_caller subject roles (wr_request_id q) route))"
    using f by (auto simp: recorded_def)
  have "content p a' i = content p a i \<or>
      content p a i = None \<and> (\<exists>r. content p a' i = Some r \<and> ar_request_id r = wr_request_id q)" for i
    using assms(5)
  proof
    assume "ap_approvals a' = ap_approvals a2"
    with f show ?thesis by (simp add: content_def)
  next
    assume "\<exists>requester asked tenant r2. request_approval p requester asked tenant q (ap_approvals a2) = (r2, ap_approvals a')"
    then obtain requester asked tenant r2 where
      ask: "request_approval p requester asked tenant q (ap_approvals a2) = (r2, ap_approvals a')" by blast
    have "store_inv (pa_store p) (ap_approvals a2)" using i2 by (simp add: app_inv_def)
    from request_approval_frame[OF this assms(2) ask] f show ?thesis
      by (cases r2) (auto simp: content_def pending_for_def build_pending_record_def)
  qed
  with recs assms(4) show ?thesis
    by (auto simp: traced_def as_caller_def list_all_iff)
qed

lemma investigate_for_traced:
  assumes "app_inv p a" and "request_usable p q" and "investigate_for p query who tc q a = (r, a')"
  shows "traced p (wr_request_id q) a a'"
proof -
  obtain r1 a2 where run: "run_operations query (p_subject who) (document_scope who tc) q a = (r1, a2)" by fastforce
  obtain r2 st where ask: "request_approval p (p_subject who) query (tc_tenant tc) q (ap_approvals a2) = (r2, st)"
    by fastforce
  have "ap_mcp a' = ap_mcp a2 \<and> (ap_approvals a' = ap_approvals a2 \<or> ap_approvals a' = st)"
    using assms(3) run ask
    by (auto simp: investigate_for_def completed_def Let_def split: sum.splits if_splits prod.splits)
  with ask run_traced[OF assms(1,2) run] show ?thesis by metis
qed

lemma demo_investigate_for_traced:
  assumes "app_inv p a" and "request_usable p q" and "demo_investigate_for p t query tc q a = (r, a')"
  shows "traced p (wr_request_id q) a a'"
proof -
  obtain r1 a2 where run: "run_operations query (p_subject demo_principal) (document_scope demo_principal tc) q a = (r1, a2)"
    by fastforce
  obtain r2 st where ask: "request_approval p (p_subject demo_principal) query (tc_tenant tc) q (ap_approvals a2) = (r2, st)"
    by fastforce
  have "ap_mcp a' = ap_mcp a2 \<and> (ap_approvals a' = ap_approvals a2 \<or> ap_approvals a' = st)"
    using assms(3) run ask
    by (auto simp: demo_investigate_for_def split: sum.splits if_splits prod.splits)
  with ask run_traced[OF assms(1,2) run] show ?thesis by metis
qed

text \<open>The other handlers call neither the tools nor the store.\<close>

lemma retrieve_for_kept: "retrieve_for p query tc a = (r, a') \<Longrightarrow> kept a a'"
  by (auto simp: retrieve_for_def kept_def split: prod.splits)

lemma synthesize_for_kept: "synthesize_for query evidence tenant q a = (r, a') \<Longrightarrow> kept a a'"
  by (auto simp: synthesize_for_def kept_def split: prod.splits)

lemma kept_trans: "kept a b \<Longrightarrow> kept b c \<Longrightarrow> kept a c"
  by (simp add: kept_def)

lemma rag_answer_for_kept: "rag_answer_for p query tc q a = (r, a') \<Longrightarrow> kept a a'"
  by (auto simp: rag_answer_for_def split: prod.splits sum.splits
      dest!: retrieve_for_kept synthesize_for_kept intro: kept_trans)

lemma demo_rag_for_kept: "demo_rag_for p t query tc q a = (r, a') \<Longrightarrow> kept a a'"
  by (auto simp: demo_rag_for_def split: prod.splits sum.splits option.splits
      dest!: retrieve_for_kept synthesize_for_kept intro: kept_trans)

lemma generate_for_kept: "generate_for payload tenant q a = (r, a') \<Longrightarrow> kept a a'"
  by (auto simp: generate_for_def kept_def split: prod.splits sum.splits)

lemma kept_handlers:
  "platform_info q a = (r1, a') \<Longrightarrow> kept a a'"
  "route_workflow query q a = (r2, a') \<Longrightarrow> kept a a'"
  "list_skills q a = (r3, a') \<Longrightarrow> kept a a'"
  "generate_route payload q a = (r4, a') \<Longrightarrow> kept a a'"
  "rag_answer p query q a = (r5, a') \<Longrightarrow> kept a a'"
  "demo_rag p t host query tenant q a = (r6, a') \<Longrightarrow> kept a a'"
proof -
  show "platform_info q a = (r1, a') \<Longrightarrow> kept a a'"
    by (auto simp: platform_info_def split: prod.splits sum.splits dest: admit_kept)
  show "route_workflow query q a = (r2, a') \<Longrightarrow> kept a a'"
    by (auto simp: route_workflow_def Let_def kept_def split: prod.splits sum.splits dest!: admit_kept)
  show "list_skills q a = (r3, a') \<Longrightarrow> kept a a'"
    by (auto simp: list_skills_def split: prod.splits sum.splits dest: admit_tenant_kept)
  show "generate_route payload q a = (r4, a') \<Longrightarrow> kept a a'"
    by (auto simp: generate_route_def split: prod.splits sum.splits
        dest!: admit_tenant_kept generate_for_kept intro: kept_trans)
  show "rag_answer p query q a = (r5, a') \<Longrightarrow> kept a a'"
    by (auto simp: rag_answer_def split: prod.splits sum.splits
        dest!: admit_tenant_kept rag_answer_for_kept intro: kept_trans)
  show "demo_rag p t host query tenant q a = (r6, a') \<Longrightarrow> kept a a'"
    by (auto simp: demo_rag_def split: prod.splits sum.splits if_splits
        dest!: admit_demo_kept demo_rag_for_kept intro: kept_trans)
qed

lemma investigate_traced:
  assumes "app_inv p a" and "request_usable p q" and "investigate_workflow p query q a = (r, a')"
  shows "traced p (wr_request_id q) a a'"
proof -
  obtain r1 a1 where ad: "admit_tenant {''agent.invoke''} q a = (r1, a1)" by fastforce
  have i1: "app_inv p a1" by (rule touched_inv[OF admit_tenant_touched[OF ad] assms(1)])
  have "a' = a1 \<or> (\<exists>query' who tc r'. investigate_for p query' who tc q a1 = (r', a'))"
    using assms(3) ad by (auto simp: investigate_workflow_def split: sum.splits prod.splits)
  then have "traced p (wr_request_id q) a1 a'"
    using investigate_for_traced[OF i1 assms(2)] kept_traced[OF kept_refl] by blast
  with admit_tenant_kept[OF ad] show ?thesis by (rule kept_start)
qed

lemma demo_investigate_traced:
  assumes "app_inv p a" and "request_usable p q" and "demo_investigate p t host query tenant q a = (r, a')"
  shows "traced p (wr_request_id q) a a'"
proof -
  obtain r1 a1 where ad: "admit_demo host q a = (r1, a1)" by fastforce
  have "touched p None a a1" using ad by (auto simp: admit_demo_def split: prod.splits)
  then have i1: "app_inv p a1" using assms(1) by (rule touched_inv)
  have "a' = a1 \<or> (\<exists>tc r'. demo_investigate_for p t query tc q a1 = (r', a'))"
    using assms(3) ad by (auto simp: demo_investigate_def split: sum.splits prod.splits if_splits)
  then have "traced p (wr_request_id q) a1 a'"
    using demo_investigate_for_traced[OF i1 assms(2)] kept_traced[OF kept_refl] by blast
  with admit_demo_kept[OF ad] show ?thesis by (rule kept_start)
qed

lemma handle_traced:
  assumes "app_inv p a" and "request_usable p q" and "handle p t c q a = (r, a')"
  shows "traced p (wr_request_id q) a a'"
  using assms(3) investigate_traced[OF assms(1,2)] demo_investigate_traced[OF assms(1,2)]
  by (cases c) (auto simp: map_prod_def split: prod.splits dest: kept_handlers intro: kept_traced)

lemma answer_call_traced:
  assumes "app_inv p a" and "request_usable p q" and "answer_call ew p t c q a = (r, a')"
  shows "traced p (wr_request_id q) a a'"
proof (cases c)
  case (Api c')
  then obtain r0 where "handle p t c' q a = (r0, a')" using assms(3) by (auto simp: map_prod_def split: prod.splits)
  then show ?thesis by (rule handle_traced[OF assms(1,2)])
qed (use assms(3) in \<open>simp_all add: kept_traced\<close>)

section \<open>One id for everything a request leaves\<close>

lemma safe_id_stripped: "full_match request_id_pattern rid \<Longrightarrow> field_strip rid = rid"
  by (rule field_strip_plain)
    (auto simp: request_id_pattern_def full_match_Many id_char_def is_upper_az_def is_lower_az_def is_digit_def
      is_white_space_def code_def list_all_iff Let_def)

lemma dispatch_response:
  assumes "dispatch max_body round2 repr uuid t0 t1 call_next rq el = (Inr response, el')"
  shows "\<exists>r0. response = secure_response r0 (choose_request_id uuid rq)"
    and "refused max_body (rq_content_length rq) \<Longrightarrow> rs_status response = 413 \<and> el' = el"
    and "\<not> refused max_body (rq_content_length rq) \<Longrightarrow> \<exists>duration. el_events el' = el_events el @
      [completed_event (choose_request_id uuid rq) rq (rs_status response) duration]"
  using assms
  by (auto simp: dispatch_def refused_def json_response_def Let_def split: option.splits sum.splits exn.splits if_splits)

lemma dispatch_answers:
  assumes "call_next rq (choose_request_id uuid rq) = Inr r0" and "rq_content_length rq = None"
  shows "\<exists>response el'. dispatch max_body round2 repr uuid t0 t1 call_next rq el = (Inr response, el')"
  unfolding dispatch_def Let_def assms option.case if_False sum.case by blast

text \<open>C3: whatever request reaches the application, on any route and in any state, its response carries
  one well-formed request id, the caller's own if that is well-formed, with every security header; and
  everything the request left behind is under this id: at most two records on the audit trail of the
  tools, an approval if one was filed, and the log record, of the status returned.  A body that is too
  large is refused and leaves nothing.  An exception that a handler lets escape gets no response here
  (\<open>unhandled_escapes\<close>).\<close>

theorem edge_traceable:
  assumes "reachable p t w s a" and "world_ok w" and "params_ok (pa_store p)" and "request_usable p q"
    and "full_match request_id_pattern (wr_request_id q)"
    and "serve_http ew p t c given_id body_length q t0 t1 (a, el) = (Inr response, a', el')"
  shows "\<exists>rid. full_match request_id_pattern rid \<and>
    (\<forall>h. given_id = Some h \<and> full_match request_id_pattern h \<longrightarrow> rid = h) \<and>
    headers_of ''x-request-id'' (rs_headers response) = [rid] \<and>
    (\<forall>(k, v)\<in>set security_headers. headers_of k (rs_headers response) = [v]) \<and>
    (\<exists>recs. mg_audit (ap_mcp a') = mg_audit (ap_mcp a) @ recs \<and> length recs \<le> 2 \<and>
       list_all (\<lambda>r. au_request_id r = rid) recs) \<and>
    (\<forall>i. content p a' i = content p a i \<or>
       content p a i = None \<and> (\<exists>r. content p a' i = Some r \<and> ar_request_id r = rid)) \<and>
    (if refused (st_max_request_body_bytes s) body_length then rs_status response = 413 \<and> a' = a \<and> el' = el
     else \<exists>ev. el_events el' = el_events el @ [ev] \<and> map_of ev ''request_id'' = Some (PStr rid) \<and>
       map_of ev ''status_code'' = Some (PInt (rs_status response)))"
proof -
  note inv = reachable_inv[OF assms(1-3)]
  define rq where "rq = request_of s c given_id body_length"
  define rid where "rid = choose_request_id (wr_request_id q) rq"
  have len: "rq_content_length rq = body_length" by (simp add: rq_def request_of_def)
  obtain r1 a1 where h: "answer_call ew p t c (q\<lparr>wr_request_id := rid\<rparr>) a = (r1, a1)" by fastforce
  have a': "a' = (if refused (st_max_request_body_bytes s) body_length then a else a1)"
    and d: "dispatch (st_max_request_body_bytes s) (ew_round2 ew) (ew_repr ew) (wr_request_id q) t0 t1
      (\<lambda>_ rid. fst (answer_call ew p t c (q\<lparr>wr_request_id := rid\<rparr>) a)) rq el = (Inr response, el')"
    using assms(6) h[unfolded rid_def rq_def] inv by (auto simp: serve_http_def rq_def Let_def split: prod.splits)
  have rid: "full_match request_id_pattern rid"
    "given_id = Some h \<and> full_match request_id_pattern h \<Longrightarrow> rid = h" for h
    using assms(5) by (auto simp: rid_def rq_def choose_request_id_def request_of_def Let_def)
  obtain r0 where r0: "response = secure_response r0 rid"
    using dispatch_response(1)[OF d] by (auto simp: rid_def)
  have u: "request_usable p (q\<lparr>wr_request_id := rid\<rparr>)" using assms(4) by (simp add: request_usable_def)
  have "traced p rid a a1"
    using answer_call_traced[OF conjunct1[OF inv] u h] by simp
  then have tr: "traced p rid a a'" by (simp add: a' kept_traced)
  have "\<exists>recs. mg_audit (ap_mcp a') = mg_audit (ap_mcp a) @ recs \<and> length recs \<le> 2 \<and>
       list_all (\<lambda>r. au_request_id r = rid) recs"
    and "\<forall>i. content p a' i = content p a i \<or>
       content p a i = None \<and> (\<exists>r. content p a' i = Some r \<and> ar_request_id r = rid)"
    using tr safe_id_stripped[OF rid(1)] by (simp_all add: traced_def)
  moreover have "headers_of ''x-request-id'' (rs_headers response) = [rid]"
    "\<forall>(k, v)\<in>set security_headers. headers_of k (rs_headers response) = [v]"
    using headers_of_secure[of _ _ rid r0] by (auto simp: r0)
  moreover have "if refused (st_max_request_body_bytes s) body_length then rs_status response = 413 \<and> a' = a \<and> el' = el
     else \<exists>ev. el_events el' = el_events el @ [ev] \<and> map_of ev ''request_id'' = Some (PStr rid) \<and>
       map_of ev ''status_code'' = Some (PInt (rs_status response))"
    using dispatch_response(2,3)[OF d] by (auto simp: len a' rid_def[symmetric] completed_event_def)
  ultimately show ?thesis using rid by blast
qed

definition plain_edge :: edge_world where
  "plain_edge = \<lparr>ew_render = (\<lambda>_. (''application/json'', ''{}'')), ew_metrics = (''text/plain'', []),
     ew_round2 = id, ew_repr = (\<lambda>_. ''0'')\<rparr>"

definition quiet_log :: edge_log where
  "quiet_log = \<lparr>el_requests = (\<lambda>_. 0), el_duration = (\<lambda>_. []), el_events = []\<rparr>"

theorem edge_traceable_witness:
  "\<exists>a response a' el'. create_app start_params start_world default_settings = Some (Inr a) \<and>
     serve_http plain_edge start_params plain_text GetLive (Some ''trace-7'') None operator_request 0 1 (a, quiet_log) =
       (Inr response, a', el') \<and>
     headers_of ''x-request-id'' (rs_headers response) = [''trace-7'']"
proof -
  obtain a where a: "create_app start_params start_world default_settings = Some (Inr a)" by (rule started_app)
  have ids: "full_match request_id_pattern (wr_request_id operator_request)" "full_match request_id_pattern ''trace-7''"
    unfolding operator_request_def by code_simp+
  obtain response a' el' where s: "serve_http plain_edge start_params plain_text GetLive (Some ''trace-7'') None
      operator_request 0 1 (a, quiet_log) = (Inr response, a', el')"
  proof -
    let ?rq = "request_of (ap_settings a) GetLive (Some ''trace-7'') None"
    let ?next = "\<lambda>_ rid. fst (answer_call plain_edge start_params plain_text GetLive (operator_request\<lparr>wr_request_id := rid\<rparr>) a)"
    have n: "?next ?rq (choose_request_id (wr_request_id operator_request) ?rq) = Inr (json_page (PDict [(''status'', PStr ''ok'')]))"
      by simp
    have l: "rq_content_length ?rq = None" by (simp add: request_of_def)
    obtain response el' where "dispatch (st_max_request_body_bytes (ap_settings a)) (ew_round2 plain_edge) (ew_repr plain_edge)
        (wr_request_id operator_request) 0 1 ?next ?rq quiet_log = (Inr response, el')"
      using dispatch_answers[of ?next, OF n l] by blast
    then show thesis by (intro that) (simp add: serve_http_def Let_def)
  qed
  from edge_traceable[OF reachable.started[OF a] start_world_ok start_params_ok operator_usable ids(1) s]
  obtain rid where r: "\<forall>h. Some ''trace-7'' = Some h \<and> full_match request_id_pattern h \<longrightarrow> rid = h"
    "headers_of ''x-request-id'' (rs_headers response) = [rid]"
    by (elim exE conjE) (rule that)
  have "rid = ''trace-7''" using r(1) ids(2) by simp
  with a s r(2) show ?thesis
    by (intro exI[of _ a] exI[of _ response] exI[of _ a'] exI[of _ el'] conjI) simp_all
qed

text \<open>An exception that is neither an \<open>HTTPException\<close> nor a timeout leaves the middleware as it is: its
  response is made outside, without the headers, and the exchange is neither counted nor logged.\<close>

lemma unhandled_escapes:
  assumes "answer_call ew p t c (q\<lparr>wr_request_id := choose_request_id (wr_request_id q)
        (request_of (ap_settings a) c given_id body_length)\<rparr>) a = (Inl e, a')"
    and "e \<noteq> TimeoutError" and "\<not> refused (st_max_request_body_bytes (ap_settings a)) body_length"
  shows "serve_http ew p t c given_id body_length q t0 t1 (a, el) = (Inl e, a', el)"
proof -
  have "\<not> (case body_length of None \<Rightarrow> False
      | Some cl \<Rightarrow> cl \<noteq> [] \<and> body_too_large (st_max_request_body_bytes (ap_settings a)) cl)"
    using assms(3) by (simp add: refused_def)
  then have "dispatch (st_max_request_body_bytes (ap_settings a)) (ew_round2 ew) (ew_repr ew) (wr_request_id q) t0 t1
      (\<lambda>_ rid. fst (answer_call ew p t c (q\<lparr>wr_request_id := rid\<rparr>) a))
      (request_of (ap_settings a) c given_id body_length) el = (Inl e, el)"
    using assms(1,2) by (cases e) (simp_all add: dispatch_def request_of_def Let_def)
  with assms(1,3) show ?thesis by (simp add: serve_http_def Let_def)
qed

end
