(* ===== verification/Metrics.thy ===== *)
theory Metrics
  imports Http
begin

text \<open>
  The metrics of the platform (metrics.py): for each its kind, name, help text, label names and, for a
  histogram that declares them, its buckets.  \<open>prometheus_client\<close> refuses \<open>labels(...)\<close> with another
  number of values than the declaration has names.  A label list is well typed against a schema, a list of
  label names with the set of values each may take, when it has as many values as the schema has names
  and every value is in the set of its name; \<open>well_typed\<close> is the set of these label lists.
\<close>

section \<open>Declarations\<close>

datatype metric =
    HTTP_REQUESTS | HTTP_DURATION | WORKFLOW_COMPLETIONS | WORKFLOW_DURATION | MCP_CALLS | MCP_DURATION
  | RAG_RETRIEVALS | RAG_HITS | MODEL_TOKENS | MODEL_ESTIMATED_COST_GBP | MODEL_GATEWAY_CALLS
  | MODEL_GATEWAY_DURATION | PII_FINDINGS | CONTENT_SAFETY_FINDINGS | PENDING_APPROVALS

datatype metric_kind = Counter | Gauge | Histogram "real list option"

record metric_declaration =
  md_kind :: metric_kind
  md_name :: string
  md_help :: string
  md_labels :: "string list"

definition metric_of :: "metric_kind \<Rightarrow> string \<Rightarrow> string \<Rightarrow> string list \<Rightarrow> metric_declaration" where
  "metric_of k n h ls = \<lparr>md_kind = k, md_name = n, md_help = h, md_labels = ls\<rparr>"

fun declared :: "metric \<Rightarrow> metric_declaration" where
  "declared HTTP_REQUESTS = metric_of Counter ''agent_platform_http_requests_total''
     ''Gateway HTTP requests'' [''method'', ''route'', ''status'']"
| "declared HTTP_DURATION = metric_of
     (Histogram (Some [1 / 100, 25 / 1000, 5 / 100, 1 / 10, 1 / 4, 1 / 2, 1, 5 / 2, 5, 10]))
     ''agent_platform_http_request_duration_seconds''
     ''Gateway HTTP request latency'' [''method'', ''route'']"
| "declared WORKFLOW_COMPLETIONS = metric_of Counter ''agent_platform_workflow_completions_total''
     ''Completed workflow routes and outcomes by tenant''
     [''tenant'', ''route'', ''agent'', ''approval_required'', ''error_code'']"
| "declared WORKFLOW_DURATION = metric_of (Histogram None) ''agent_platform_workflow_duration_seconds''
     ''End-to-end workflow latency by tenant and route'' [''tenant'', ''route'']"
| "declared MCP_CALLS = metric_of Counter ''agent_platform_mcp_calls_total''
     ''Governed MCP calls'' [''tool'', ''outcome'']"
| "declared MCP_DURATION = metric_of (Histogram None) ''agent_platform_mcp_duration_seconds''
     ''Governed MCP call latency'' [''tool'']"
| "declared RAG_RETRIEVALS = metric_of Counter ''agent_platform_rag_retrievals_total''
     ''Authorized RAG retrieval operations'' [''result'']"
| "declared RAG_HITS = metric_of (Histogram (Some [0, 1, 2, 3, 5])) ''agent_platform_rag_hits''
     ''Number of authorized RAG hits'' []"
| "declared MODEL_TOKENS = metric_of Counter ''agent_platform_model_tokens_total''
     ''Estimated tokens processed by tenant, provider and direction'' [''tenant'', ''provider'', ''direction'']"
| "declared MODEL_ESTIMATED_COST_GBP = metric_of Counter ''agent_platform_model_estimated_cost_gbp_total''
     ''Estimated model cost in GBP by tenant; deterministic mock remains zero'' [''tenant'', ''provider'']"
| "declared MODEL_GATEWAY_CALLS = metric_of Counter ''agent_platform_model_gateway_calls_total''
     ''Model gateway generation calls by tenant, model, provider and outcome''
     [''tenant'', ''model'', ''provider'', ''outcome'']"
| "declared MODEL_GATEWAY_DURATION = metric_of (Histogram None) ''agent_platform_model_gateway_duration_seconds''
     ''Model gateway generation latency by tenant, model and provider'' [''tenant'', ''model'', ''provider'']"
| "declared PII_FINDINGS = metric_of Counter ''agent_platform_pii_findings_total''
     ''PII entities detected in model gateway traffic, by entity type and action'' [''entity_type'', ''action'']"
| "declared CONTENT_SAFETY_FINDINGS = metric_of Counter ''agent_platform_content_safety_findings_total''
     ''Content-safety findings acted on, by category and action'' [''category'', ''action'']"
| "declared PENDING_APPROVALS = metric_of Gauge ''agent_platform_pending_approvals''
     ''Human approvals created minus decisions in this process, by tenant'' [''tenant'']"

section \<open>Label lists and schemas\<close>

type_synonym schema = "(string \<times> string set) list"

definition well_typed :: "schema \<Rightarrow> string list set" where
  "well_typed sc = {ls. list_all2 (\<lambda>x (l, V). x \<in> V) ls sc}"

lemma well_typed_Nil [simp]: "[] \<in> well_typed sc \<longleftrightarrow> sc = []"
  by (simp add: well_typed_def)

lemma well_typed_Cons [simp]: "x # xs \<in> well_typed sc \<longleftrightarrow> (\<exists>l V sc'. sc = (l, V) # sc' \<and> x \<in> V \<and> xs \<in> well_typed sc')"
  by (cases sc) (auto simp: well_typed_def)

lemma well_typed_length: "ls \<in> well_typed sc \<Longrightarrow> length ls = length sc"
  by (auto simp: well_typed_def dest: list_all2_lengthD)

lemma well_typed_finite:
  assumes "list_all (\<lambda>(l, V). finite V) sc"
  shows "finite (well_typed sc)"
  using assms
proof (induction sc)
  case Nil
  have "well_typed [] = {[]}" by (auto simp: well_typed_def)
  then show ?case by simp
next
  case (Cons c sc)
  obtain l V where c: "c = (l, V)" by fastforce
  have "well_typed (c # sc) = (\<lambda>(x, xs). x # xs) ` (V \<times> well_typed sc)"
    by (auto simp: c well_typed_def list_all2_Cons2 image_iff)
  with Cons show ?case by (simp add: c)
qed

text \<open>The label lists under which a counter has counted, or a histogram observed, something.\<close>

definition counted :: "(string list \<Rightarrow> 'n::zero) \<Rightarrow> string list set" where
  "counted c = {ls. c ls \<noteq> 0}"

definition observed :: "histogram \<Rightarrow> string list set" where
  "observed h = {ls. h ls \<noteq> []}"

lemma counted_zero [simp]: "counted (\<lambda>_. 0) = {}"
  by (simp add: counted_def)

lemma observed_none [simp]: "observed (\<lambda>_. []) = {}"
  by (simp add: observed_def)

lemma counted_inc [simp]: "counted (inc ls c) = insert ls (counted c)"
  by (auto simp: counted_def inc_def)

lemma observed_observe [simp]: "observed (observe ls v h) = insert ls (observed h)"
  by (auto simp: observed_def observe_def)

lemma counted_upd: "counted (c(ls := v)) \<subseteq> insert ls (counted c)"
  by (auto simp: counted_def)

lemma counted_fold_inc [simp]: "counted (fold (\<lambda>x. inc (f x)) xs c) = f ` set xs \<union> counted c"
  by (induction xs arbitrary: c) auto

end
