(* ===== verification/MetricLabels.thy ===== *)
theory MetricLabels
  imports Metrics Edge
begin

text \<open>
  The labels that the running site gives to its metrics.  \<open>label_schema\<close> fixes the values of every label
  from the settings, the tenants and the models that the provider reports; \<open>site\<close> is reachability of the
  application behind its middleware, and \<open>series\<close> are the label lists a metric has counted under.  A series
  created with the value 0 is not seen, and the retrievals made inside a tool call, which count under
  the same two results, are not carried by the model.
\<close>

section \<open>The vocabulary of the labels\<close>

definition provider_labels :: "string set" where
  "provider_labels = {''mock'', ''azure_openai''}"

definition model_labels :: "settings \<Rightarrow> string set \<Rightarrow> string set" where
  "model_labels s M = set (st_model_gateway_allowlist s) \<union> {''mock-deterministic''} \<union> M"

definition route_labels :: "string set" where
  "route_labels = {''customer'', ''payments'', ''policy'', ''human_review''}"

definition tool_labels :: "string set" where
  "tool_labels = {''customer.get_customer'', ''customer.get_accounts'', ''payments.get_transaction'',
     ''policy.search'', ''unapproved''}"

definition entity_labels :: "settings \<Rightarrow> string set" where
  "entity_labels s = set (st_pii_mask_entities s) \<union> set (st_pii_block_entities s)"

definition generation_outcomes :: "string set" where
  "generation_outcomes =
     {''success'', ''error'', ''timeout'', ''pii_blocked'', ''content_safety_blocked'', ''provider_error''}"

fun label_schema :: "settings \<Rightarrow> string set \<Rightarrow> string set \<Rightarrow> string set \<Rightarrow> metric \<Rightarrow> schema" where
  "label_schema s N T M HTTP_REQUESTS = [(''method'', N \<union> {''GET'', ''POST''}), (''route'', set known_metric_routes \<union> {''unmatched''}),
     (''status'', range show_int)]"
| "label_schema s N T M HTTP_DURATION =
     [(''method'', N \<union> {''GET'', ''POST''}), (''route'', set known_metric_routes \<union> {''unmatched''})]"
| "label_schema s N T M WORKFLOW_COMPLETIONS = [(''tenant'', T), (''route'', route_labels), (''agent'', route_labels),
     (''approval_required'', {''true'', ''false''}), (''error_code'', set safe_error_codes \<union> {''other''})]"
| "label_schema s N T M WORKFLOW_DURATION = [(''tenant'', T), (''route'', route_labels)]"
| "label_schema s N T M MCP_CALLS = [(''tool'', tool_labels),
     (''outcome'', {''success'', ''denied'', ''invalid'', ''timeout'', ''error''})]"
| "label_schema s N T M MCP_DURATION = [(''tool'', tool_labels)]"
| "label_schema s N T M RAG_RETRIEVALS = [(''result'', {''hit'', ''empty''})]"
| "label_schema s N T M RAG_HITS = []"
| "label_schema s N T M MODEL_TOKENS = [(''tenant'', T \<union> {''unscoped''}), (''provider'', provider_labels),
     (''direction'', {''input'', ''output''})]"
| "label_schema s N T M MODEL_ESTIMATED_COST_GBP = [(''tenant'', T \<union> {''unscoped''}), (''provider'', provider_labels)]"
| "label_schema s N T M MODEL_GATEWAY_CALLS = [(''tenant'', T), (''model'', model_labels s M),
     (''provider'', provider_labels), (''outcome'', generation_outcomes)]"
| "label_schema s N T M MODEL_GATEWAY_DURATION = [(''tenant'', T), (''model'', model_labels s M),
     (''provider'', provider_labels)]"
| "label_schema s N T M PII_FINDINGS = [(''entity_type'', entity_labels s), (''action'', {''blocked'', ''masked''})]"
| "label_schema s N T M CONTENT_SAFETY_FINDINGS = [(''category'', set (map fst mock_signals) \<union> {''_unavailable''}),
     (''action'', {''blocked'', ''provider_error''})]"
| "label_schema s N T M PENDING_APPROVALS = [(''tenant'', T)]"

lemmas label_sets = provider_labels_def model_labels_def route_labels_def tool_labels_def entity_labels_def
  generation_outcomes_def

lemma label_schema_declared: "map fst (label_schema s N T M k) = md_labels (declared k)"
  by (cases k) (simp_all add: metric_of_def)

section \<open>The model gateway\<close>

definition gateway_typed :: "(metric \<Rightarrow> schema) \<Rightarrow> gateway_metrics \<Rightarrow> bool" where
  "gateway_typed S m \<longleftrightarrow>
     counted (gm_pii m) \<subseteq> well_typed (S PII_FINDINGS) \<and>
     counted (gm_safety m) \<subseteq> well_typed (S CONTENT_SAFETY_FINDINGS) \<and>
     counted (gm_calls m) \<subseteq> well_typed (S MODEL_GATEWAY_CALLS) \<and>
     observed (gm_duration m) \<subseteq> well_typed (S MODEL_GATEWAY_DURATION) \<and>
     counted (gm_tokens m) \<subseteq> well_typed (S MODEL_TOKENS) \<and>
     counted (gm_cost m) \<subseteq> well_typed (S MODEL_ESTIMATED_COST_GBP)"

text \<open>What the gateway is made of: the services it calls name no other models, providers, entity types and
  categories than those of the vocabulary.\<close>

definition analyzer_documented :: "analyzer \<Rightarrow> bool" where
  "analyzer_documented d \<longleftrightarrow>
     (\<forall>x es th rs. d x es th = Inr rs \<longrightarrow> rr_entity_type ` set rs \<subseteq> set es) \<and>
     (\<forall>x es th msg ts. d x es th \<noteq> Inl (PiiBlockedError msg ts))"

definition gateway_wired :: "settings \<Rightarrow> string set \<Rightarrow> model_gateway \<Rightarrow> bool" where
  "gateway_wired s M gw \<longleftrightarrow>
     mgw_allowlist gw = set (st_model_gateway_allowlist s) \<and> mgw_provider_name gw \<in> provider_labels \<and>
     (\<forall>timeout n q r. mgw_provider gw timeout n q = Inr r \<longrightarrow>
        gs_model r \<in> model_labels s M \<and> gs_provider r \<in> provider_labels) \<and>
     (\<forall>d pol. mgw_pii_detector gw = Some d \<longrightarrow> mgw_pii_policy gw = Some pol \<longrightarrow>
        set (all_entities pol) \<subseteq> entity_labels s \<and>
        analyzer_documented d) \<and>
     (\<forall>prov timeout k x fs. mgw_safety_provider gw = Some prov \<longrightarrow> prov timeout k x = Inr fs \<longrightarrow>
        sf_category ` set fs \<subseteq> set (map fst mock_signals))"

lemma gateway_wired_upd [simp]:
  "gateway_wired s M (gw\<lparr>mgw_metrics := m, mgw_budget := b\<rparr>) = gateway_wired s M gw"
  "gateway_wired s M (gw\<lparr>mgw_metrics := m\<rparr>) = gateway_wired s M gw"
  by (simp_all add: gateway_wired_def)

lemma typed_findings:
  assumes "gateway_typed (label_schema s N T M) m"
  shows "set ts \<subseteq> entity_labels s \<Longrightarrow> act \<in> {''blocked'', ''masked''} \<Longrightarrow>
      gateway_typed (label_schema s N T M) (record_pii_findings ts act m)"
    and "set cs \<subseteq> set (map fst mock_signals) \<union> {''_unavailable''} \<Longrightarrow> act' \<in> {''blocked'', ''provider_error''} \<Longrightarrow>
      gateway_typed (label_schema s N T M) (record_content_safety_findings cs act' m)"
  using assms by (auto simp: gateway_typed_def record_pii_findings_def record_content_safety_findings_def
      simp del: set_map list.set)

lemma pii_scan_types:
  assumes "analyzer_documented d"
  shows "pii_scan d x pol = Inr res \<Longrightarrow> set (map pf_entity_type (ps_findings res)) \<subseteq> set (all_entities pol)"
    and "pii_scan d x pol = Inl (PiiBlockedError msg ts) \<Longrightarrow> set ts \<subseteq> set (all_entities pol)"
proof -
  have within: "rr_entity_type ` set rs \<subseteq> set (all_entities pol)"
    if "d x (all_entities pol) (pp_score_threshold pol) = Inr rs" for rs
    using assms that by (simp add: analyzer_documented_def)
  show "set (map pf_entity_type (ps_findings res)) \<subseteq> set (all_entities pol)" if "pii_scan d x pol = Inr res"
  proof -
    have "ps_findings res = [] \<or> (\<exists>rs. d x (all_entities pol) (pp_score_threshold pol) = Inr rs \<and>
        pf_entity_type ` set (ps_findings res) = rr_entity_type ` set (select_spans (-1) (order_results rs)))"
      using that by (auto simp: pii_scan_def Let_def image_image split: if_splits sum.splits)
    moreover have "rr_entity_type ` set (select_spans (-1) (order_results rs)) \<subseteq> rr_entity_type ` set rs" for rs
      using select_spans_subset[of "-1" "order_results rs"] by (auto simp: order_results_def)
    ultimately show ?thesis using within by fastforce
  qed
  show "set ts \<subseteq> set (all_entities pol)" if "pii_scan d x pol = Inl (PiiBlockedError msg ts)"
  proof -
    have "d x (all_entities pol) (pp_score_threshold pol) \<noteq> Inl (PiiBlockedError msg ts)"
      using assms by (simp add: analyzer_documented_def)
    then show ?thesis
      using that by (auto simp: pii_scan_def Let_def all_entities_def split: if_splits sum.splits)
  qed
qed

lemma pii_guard_text_typed:
  assumes "pii_guard_text gw x m = (r, m')" and "gateway_wired s M gw" and "gateway_typed (label_schema s N T M) m"
  shows "gateway_typed (label_schema s N T M) m'"
proof (cases "\<exists>d pol. mgw_pii_detector gw = Some d \<and> mgw_pii_policy gw = Some pol")
  case True
  then obtain d pol where g: "mgw_pii_detector gw = Some d" "mgw_pii_policy gw = Some pol" by blast
  then have w: "analyzer_documented d" "set (all_entities pol) \<subseteq> entity_labels s"
    using assms(2) by (auto simp: gateway_wired_def)
  note types = pii_scan_types[OF w(1), where x = x and pol = pol]
  have m': "m' = snd (scan_and_record d pol x m)" using assms(1) g by (simp add: pii_guard_text_def)
  show ?thesis
  proof (cases "pii_scan d x pol")
    case (Inr res)
    with typed_findings(1)[OF assms(3) order_trans[OF types(1)[OF Inr] w(2)], of "''masked''"] assms(3)
    show ?thesis by (simp add: m' scan_and_record_def)
  next
    case (Inl e)
    with typed_findings(1)[OF assms(3) order_trans[OF types(2) w(2)], of _ _ "''blocked''"] assms(3)
    show ?thesis by (cases e) (simp_all add: m' scan_and_record_def)
  qed
qed (use assms in \<open>auto simp: pii_guard_text_def split: option.splits\<close>)

lemma pii_guard_messages_typed:
  assumes "pii_guard_messages gw cs m = (r, m')" and "gateway_wired s M gw" and "gateway_typed (label_schema s N T M) m"
  shows "gateway_typed (label_schema s N T M) m'"
  using assms
proof (induction gw cs m arbitrary: r m' rule: pii_guard_messages.induct)
  case (2 gw c cs m)
  obtain r1 m1 where t: "pii_guard_text gw (cm_content c) m = (r1, m1)" by fastforce
  have m1: "gateway_typed (label_schema s N T M) m1" by (rule pii_guard_text_typed[OF t "2.prems"(2,3)])
  show ?case
  proof (cases r1)
    case (Inr x)
    obtain r2 m2 where "pii_guard_messages gw cs m1 = (r2, m2)" by fastforce
    with "2.IH"[OF t[symmetric] Inr this "2.prems"(2) m1] "2.prems"(1) t Inr show ?thesis
      by (auto split: sum.splits)
  qed (use "2.prems"(1) t m1 in simp)
qed simp

lemma check_texts_typed:
  assumes "check_texts prov pol timeout k xs m = (r, m')" and "gateway_typed (label_schema s N T M) m"
    and "\<forall>timeout k x fs. prov timeout k x = Inr fs \<longrightarrow> sf_category ` set fs \<subseteq> set (map fst mock_signals)"
  shows "gateway_typed (label_schema s N T M) m'"
  using assms
proof (induction prov pol timeout k xs m rule: check_texts.induct)
  case (2 prov pol timeout k x xs m)
  show ?case
  proof (cases "prov timeout k x")
    case (Inl e)
    with 2 typed_findings(2)[OF "2.prems"(2)] show ?thesis by (auto split: if_splits)
  next
    case (Inr fs)
    have "set (map sf_category (blocked_findings pol fs)) \<subseteq> set (map fst mock_signals) \<union> {''_unavailable''}"
      using "2.prems"(3)[rule_format, OF Inr] by (auto simp: blocked_findings_def)
    with 2 Inr typed_findings(2)[OF "2.prems"(2)] show ?thesis by (auto simp: Let_def split: if_splits)
  qed
qed simp

lemma safety_guard_typed:
  assumes "safety_guard gw k xs m = (r, m')" and "gateway_wired s M gw" and "gateway_typed (label_schema s N T M) m"
  shows "gateway_typed (label_schema s N T M) m'"
proof (cases "\<exists>prov pol. mgw_safety_provider gw = Some prov \<and> mgw_safety_policy gw = Some pol")
  case True
  then obtain prov pol where g: "mgw_safety_provider gw = Some prov" "mgw_safety_policy gw = Some pol" by blast
  then have "check_texts prov pol (mgw_timeout gw) k xs m = (r, m')" using assms(1) by (simp add: safety_guard_def)
  from check_texts_typed[OF this assms(3)] assms(2) g show ?thesis by (auto simp: gateway_wired_def)
qed (use assms in \<open>auto simp: safety_guard_def split: option.splits\<close>)

lemma generate_attempt_typed:
  assumes "generate_attempt round8 gw q n m = (r, m')" and "gateway_wired s M gw"
    and "gateway_typed (label_schema s N T M) m"
  shows "gateway_typed (label_schema s N T M) m' \<and>
    (\<forall>x. r = Inr x \<longrightarrow> gs_model x \<in> model_labels s M \<and> gs_provider x \<in> provider_labels)"
proof (cases "mgw_provider gw (mgw_timeout gw) n q")
  case (Inl e)
  with assms show ?thesis by (auto simp: generate_attempt_def)
next
  case (Inr raw)
  then have raw: "gs_model raw \<in> model_labels s M \<and> gs_provider raw \<in> provider_labels"
    using assms(2) by (auto simp: gateway_wired_def)
  obtain r1 m1 where g1: "pii_guard_text gw (gs_content raw) m = (r1, m1)" by fastforce
  note t1 = pii_guard_text_typed[OF g1 assms(2,3)]
  show ?thesis
  proof (cases r1)
    case (Inr content)
    obtain r2 m2 where g2: "safety_guard gw (length (gq_messages q) + n) [content] m1 = (r2, m2)" by fastforce
    note t2 = safety_guard_typed[OF g2 assms(2) t1]
    show ?thesis
      using assms(1) \<open>mgw_provider gw (mgw_timeout gw) n q = Inr raw\<close> g1 Inr g2 t2 raw
      by (cases r2) (auto simp: generate_attempt_def)
  qed (use assms(1) Inr g1 t1 in \<open>auto simp: generate_attempt_def\<close>)
qed

lemma generate_loop_typed:
  assumes "generate_loop round8 gw q ns oc m = (r, oc', m')" and "gateway_wired s M gw"
    and "gateway_typed (label_schema s N T M) m" and "oc \<in> generation_outcomes"
  shows "gateway_typed (label_schema s N T M) m' \<and> oc' \<in> generation_outcomes \<and>
    (\<forall>x. r = Inr x \<longrightarrow> gs_model x \<in> model_labels s M \<and> gs_provider x \<in> provider_labels)"
  using assms
proof (induction ns arbitrary: oc m)
  case Nil
  then show ?case by auto
next
  case (Cons n ns)
  obtain r1 m1 where a: "generate_attempt round8 gw q n m = (r1, m1)" by fastforce
  note t = generate_attempt_typed[OF a Cons.prems(2,3)]
  have again: "gateway_typed (label_schema s N T M) m' \<and> oc' \<in> generation_outcomes \<and>
      (\<forall>x. r = Inr x \<longrightarrow> gs_model x \<in> model_labels s M \<and> gs_provider x \<in> provider_labels)"
    if "generate_loop round8 gw q ns o1 m1 = (r, oc', m')" "o1 \<in> generation_outcomes" for o1
    using Cons.IH[OF that(1) Cons.prems(2) conjunct1[OF t] that(2)] .
  have outcomes: "{''success'', ''timeout'', ''pii_blocked'', ''content_safety_blocked'', ''provider_error''} \<subseteq> generation_outcomes"
    by (simp add: generation_outcomes_def)
  show ?case
  proof (cases r1)
    case (Inr x)
    with Cons.prems(1) a t outcomes show ?thesis by simp
  next
    case (Inl e)
    with Cons.prems(1,4) a t outcomes again show ?thesis
      by (cases e) (auto split: if_splits)
  qed
qed

lemma generate_reserved_typed:
  assumes "generate_reserved env q sq b m gw = (r, gw')" and "gateway_wired s M gw"
    and "gateway_typed (label_schema s N T M) m" and "gq_tenant sq \<in> T" and "gq_tenant q \<in> T"
    and "gq_model q \<in> mgw_allowlist gw"
  shows "gateway_typed (label_schema s N T M) (mgw_metrics gw')"
proof -
  obtain r1 oc m1 where l: "generate_loop (ge_round8 env) gw sq [1..<Suc (mgw_max_attempts gw)] ''error'' m = (r1, oc, m1)"
    by (metis prod_cases3)
  have t: "gateway_typed (label_schema s N T M) m1 \<and> oc \<in> generation_outcomes \<and>
      (\<forall>x. r1 = Inr x \<longrightarrow> gs_model x \<in> model_labels s M \<and> gs_provider x \<in> provider_labels)"
    by (rule generate_loop_typed[OF l assms(2,3)]) (simp add: generation_outcomes_def)
  show ?thesis
  proof (cases r1)
    case (Inr x)
    have ok: "''success'' \<in> generation_outcomes" by (simp add: generation_outcomes_def)
    have "gateway_typed (label_schema s N T M) (record_success x (gq_tenant sq) m1)"
      using t Inr assms(4) ok
      by (auto simp: gateway_typed_def record_success_def Let_def dest!: subsetD[OF counted_upd])
    with assms(1) l Inr show ?thesis by (auto simp: generate_reserved_def simp del: upt_Suc)
  next
    case (Inl e)
    have "gq_model q \<in> model_labels s M" "mgw_provider_name gw \<in> provider_labels"
      using assms(2,6) by (auto simp: gateway_wired_def model_labels_def)
    with t assms(5) have "gateway_typed (label_schema s N T M)
        (record_failure (gq_model q) (mgw_provider_name gw) oc (ge_duration env) (gq_tenant q) m1)"
      by (auto simp: gateway_typed_def record_failure_def)
    with assms(1) l Inl show ?thesis by (auto simp: generate_reserved_def simp del: upt_Suc)
  qed
qed

lemma generate_static:
  assumes "generate env q gw = (r, gw')"
  shows "\<exists>m b. gw' = gw\<lparr>mgw_metrics := m, mgw_budget := b\<rparr>"
proof -
  have m: "gw\<lparr>mgw_metrics := m\<rparr> = gw\<lparr>mgw_metrics := m, mgw_budget := mgw_budget gw\<rparr>" for m by simp
  have s: "gw = gw\<lparr>mgw_metrics := mgw_metrics gw, mgw_budget := mgw_budget gw\<rparr>" by simp
  have "(\<exists>m. gw' = gw\<lparr>mgw_metrics := m\<rparr>) \<or> gw' = gw \<or> (\<exists>m b. gw' = gw\<lparr>mgw_metrics := m, mgw_budget := b\<rparr>)"
    using assms
    by (auto simp: generate_def generate_sanitized_def generate_reserved_def simp del: upt_Suc
        split: sum.splits prod.splits)
  then show ?thesis using m s by metis
qed

lemma generate_typed:
  assumes "generate env q gw = (r, gw')" and "gateway_wired s M gw"
    and "gateway_typed (label_schema s N T M) (mgw_metrics gw)" and "gq_tenant q \<in> T"
  shows "gateway_wired s M gw' \<and> gateway_typed (label_schema s N T M) (mgw_metrics gw')"
proof
  obtain m b where "gw' = gw\<lparr>mgw_metrics := m, mgw_budget := b\<rparr>" using generate_static[OF assms(1)] by blast
  with assms(2) show "gateway_wired s M gw'" by simp
  show "gateway_typed (label_schema s N T M) (mgw_metrics gw')"
  proof (cases "allowlist_check (mgw_allowlist gw) (gq_model q)")
    case (Inl e)
    with assms(1,3) show ?thesis by (simp add: generate_def)
  next
    case (Inr u)
    then have allowed: "gq_model q \<in> mgw_allowlist gw" by (simp add: allowlist_check_def split: if_splits)
    obtain r1 m1 where p: "pii_guard_messages gw (gq_messages q) (mgw_metrics gw) = (r1, m1)" by fastforce
    note t1 = pii_guard_messages_typed[OF p assms(2,3)]
    show ?thesis
    proof (cases r1)
      case (Inl e)
      with assms(1) Inr p t1 show ?thesis by (auto simp: generate_def)
    next
      case msgs: (Inr messages)
      let ?sq = "q\<lparr>gq_messages := messages\<rparr>"
      have g: "generate_sanitized env q ?sq m1 gw = (r, gw')" using assms(1) Inr p msgs by (simp add: generate_def)
      obtain r2 m2 where sg: "safety_guard gw 0 (map cm_content (gq_messages ?sq)) m1 = (r2, m2)" by fastforce
      note t2 = safety_guard_typed[OF sg assms(2) t1]
      have "?thesis" if "generate_reserved env q ?sq b m2 gw = (r, gw')" for b
        using generate_reserved_typed[OF that assms(2) t2 _ assms(4) allowed] assms(4) by simp
      with g sg t2 show ?thesis by (auto simp: generate_sanitized_def split: sum.splits prod.splits)
    qed
  qed
qed

lemma mock_categories: "mock_content_safety x = Inr fs \<Longrightarrow> sf_category ` set fs \<subseteq> set (map fst mock_signals)"
  by (auto simp: mock_content_safety_def Let_def rev_image_eqI)

lemma azure_categories:
  assumes "azure_content_safety analyze x = Inr fs"
  shows "sf_category ` set fs \<subseteq> set (map fst mock_signals)"
proof -
  define C where "C = set (map fst mock_signals)"
  obtain xs where "map_outcome (\<lambda>(c, s). let v = (case s of None \<Rightarrow> 7 | Some n \<Rightarrow> n) in
      if 0 \<le> v \<and> v \<le> 7 \<and> c \<in> C then Inr \<lparr>sf_category = c, sf_severity = v\<rparr> else Inl ValidationError) xs = Inr fs"
    using assms unfolding azure_content_safety_def C_def[symmetric] by (auto split: sum.splits)
  then have "sf_category ` set fs \<subseteq> C"
    by (induction xs arbitrary: fs) (auto simp: Let_def image_subset_iff split: if_splits sum.splits)
  then show ?thesis by (simp add: C_def)
qed

section \<open>Tools and workflow\<close>

definition tools_typed :: "(metric \<Rightarrow> schema) \<Rightarrow> local_gateway \<Rightarrow> bool" where
  "tools_typed S g \<longleftrightarrow> counted (mg_calls g) \<subseteq> well_typed (S MCP_CALLS) \<and>
     observed (mg_duration g) \<subseteq> well_typed (S MCP_DURATION)"

lemma local_invoke_typed:
  assumes "local_invoke sha256 round3 clock t args c g = (r, g')" and "local_good retr g"
    and "tools_typed (label_schema s N T M) g"
  shows "tools_typed (label_schema s N T M) g'"
proof -
  obtain res oc n g1 where b: "invoke_body (ct_now (clock (length (mg_audit g)))) t args c g = ((res, oc, n), g1)"
    by (metis prod.exhaust)
  have f: "mg_tools g1 = mg_tools g" "mg_calls g1 = mg_calls g" "mg_duration g1 = mg_duration g"
    using invoke_body_state[of "ct_now (clock (length (mg_audit g)))" t args c g] b
    by (simp_all add: mcp_admit_def Let_def)
  have names: "set (map fst (mg_tools g)) \<subseteq> tool_labels"
    using assms(2) by (auto simp: local_good_def local_tools_def tool_labels_def)
  have g': "g' = snd (local_invoke sha256 round3 clock t args c g)" using assms(1) by simp
  let ?l = "if t \<in> set (map fst (mg_tools g)) then t else ''unapproved''"
  have "?l \<in> tool_labels" using names by (auto simp: tool_labels_def)
  moreover have "outcome_name oc \<in> {''success'', ''denied'', ''invalid'', ''timeout'', ''error''}"
    by (cases oc) simp_all
  moreover have "mg_calls g' = inc [?l, outcome_name oc] (mg_calls g)"
    and "mg_duration g' = observe [?l]
      (ct_ended (clock (length (mg_audit g))) - ct_started (clock (length (mg_audit g)))) (mg_duration g)"
    unfolding g' local_invoke_def mcp_invoke_def Let_def b prod.case snd_conv by (simp_all add: f)
  ultimately show ?thesis using assms(3) by (auto simp: tools_typed_def)
qed

text \<open>A local gateway with typed metrics meets the contract of a tool gateway too, so what the agents
  and the operations workflow keep of a gateway holds of its metrics.\<close>

interpretation metered: tool_gateway "local_invoke sha256 round3 clock" mg_audit
  "\<lambda>g. local_good retr g \<and> tools_typed (label_schema s N T M) g" "local_answers retr"
  for sha256 round3 clock retr s N T M
proof (unfold_locales, goal_cases)
  case (1 g t a c)
  obtain r g' where i: "local_invoke sha256 round3 clock t a c g = (r, g')" by fastforce
  from 1 have g: "local_good retr g" "tools_typed (label_schema s N T M) g" by simp_all
  have "local_good retr (snd (local_invoke sha256 round3 clock t a c g))" by (rule local.good_inv[OF g(1)])
  with local_invoke_typed[OF i g] i show ?case by simp
next
  case (4 g t a c out)
  then show ?case by (intro local.inv_answers[where g = g]) simp_all
qed (use local.trail_inv local.inv_errors in blast)+

lemma run_operations_typed:
  assumes "operations_investigate w q subject roles request_id (g, m) = (r, g', m')"
    and "op_call w = local_invoke sha256 round3 clock" and "local_good retr g"
    and "tools_typed (label_schema s N T M) g" and "gateway_typed (label_schema s N T M) m"
  shows "tools_typed (label_schema s N T M) g' \<and> gateway_typed (label_schema s N T M) m'"
proof
  have sup: "gateway_typed (label_schema s N T M) (supervisor_metrics q m)"
    using assms(5) by (auto simp: gateway_typed_def supervisor_metrics_def Let_def provider_labels_def
        dest!: subsetD[OF counted_upd])
  show "gateway_typed (label_schema s N T M) m'"
    using assms(1,5) sup
    by (auto simp: operations_defs supervisor_route_def supervisor_classify_def split: if_splits sum.splits prod.splits)
  show "tools_typed (label_schema s N T M) g'"
  proof (cases "op_allows w (op_max_steps w) 1 \<and> op_allows w (op_max_steps w) 2")
    case False
    have "g' = g"
      using assms(1) False
      by (auto simp: operations_defs supervisor_route_def supervisor_classify_def split: if_splits sum.splits)
    with assms(4) show ?thesis by simp
  next
    case True
    then have al: "op_allows w (op_max_steps w) 2" "op_allows w (op_max_steps w) 1" by simp_all
    show ?thesis
    proof (rule operations_investigate_cases[OF assms(1) al], goal_cases)
      case (2 d res)
      from metered.run_node_frame[OF conjI[OF assms(3,4)] 2(2)[unfolded assms(2)]] show ?case by blast
    qed (use assms(4) in simp)
  qed
qed

section \<open>The application\<close>

definition app_typed :: "settings \<Rightarrow> string set \<Rightarrow> string set \<Rightarrow> string set \<Rightarrow> 'x app \<Rightarrow> bool" where
  "app_typed s N T M a \<longleftrightarrow>
     tr_names (ap_tenants a) = T \<and> gateway_wired s M (ap_model_gateway a) \<and>
     gateway_typed (label_schema s N T M) (mgw_metrics (ap_model_gateway a)) \<and>
     tools_typed (label_schema s N T M) (ap_mcp a) \<and>
     counted (rm_retrievals (ap_rag a)) \<subseteq> well_typed (label_schema s N T M RAG_RETRIEVALS) \<and>
     counted (ap_completions a) \<subseteq> well_typed (label_schema s N T M WORKFLOW_COMPLETIONS) \<and>
     observed (ap_durations a) \<subseteq> well_typed (label_schema s N T M WORKFLOW_DURATION) \<and>
     {[t] | t. store_gauge (ap_approvals a) t \<noteq> 0} \<subseteq> well_typed (label_schema s N T M PENDING_APPROVALS)"

lemma app_typed_limiter [simp]: "app_typed s N T M (a\<lparr>ap_limiter := l\<rparr>) = app_typed s N T M a"
  by (simp add: app_typed_def)

lemma admit_typed: "admit required q a = (r, a1) \<Longrightarrow> app_typed s N T M a \<Longrightarrow> app_typed s N T M a1"
  by (auto simp: admit_def split: prod.splits sum.splits)

lemma admit_tenant_typed: "admit_tenant required q a = (r, a1) \<Longrightarrow> app_typed s N T M a \<Longrightarrow> app_typed s N T M a1"
  by (auto simp: admit_tenant_def split: prod.splits sum.splits dest: admit_typed)

lemma admit_demo_typed: "admit_demo host q a = (r, a1) \<Longrightarrow> app_typed s N T M a \<Longrightarrow> app_typed s N T M a1"
  by (auto simp: admit_demo_def split: prod.splits)

lemma known_tenant: "tr_get r t = Inr b \<Longrightarrow> t \<in> tr_names r"
  by (auto simp: tr_get_Inr tr_names_def dest!: map_of_SomeD intro: rev_image_eqI)

lemma admitted_tenant:
  assumes "admit_tenant required q a = (Inr (who, tc), a1)" and "app_typed s N T M a" and "app_inv p a"
  shows "tc_tenant tc \<in> T \<and> field_strip (tc_tenant tc) = tc_tenant tc"
proof -
  obtain b where "tr_get (ap_tenants a) (tc_tenant tc) = Inr b"
    using admit_tenant_Inr[OF assms(1)] tenant_known by blast
  with assms(2) known_tenant registered_plain[OF assms(3)] show ?thesis by (auto simp: app_typed_def)
qed

lemma demo_tenant_known:
  assumes "demo_tenant (ap_tenants a) tenant = Inr tc" and "app_typed s N T M a" and "app_inv p a"
  shows "tc_tenant tc \<in> T \<and> field_strip (tc_tenant tc) = tc_tenant tc"
proof -
  obtain b where "tr_get (ap_tenants a) (tc_tenant tc) = Inr b"
    using assms(1) by (auto simp: demo_tenant_def split: sum.splits exn.splits)
  with assms(2) known_tenant registered_plain[OF assms(3)] show ?thesis by (auto simp: app_typed_def)
qed

lemma run_typed:
  assumes "run_operations query subject roles q a = (r, a')" and "app_typed s N T M a" and "app_inv p a"
  shows "app_typed s N T M a'"
proof -
  obtain r0 g m where o: "operations_investigate (ap_operations a) query subject roles (wr_request_id q)
      (ap_mcp a, mgw_metrics (ap_model_gateway a)) = (r0, g, m)"
    by (metis prod_cases3)
  obtain sha256 round3 clock where call: "op_call (ap_operations a) = local_invoke sha256 round3 clock"
    using assms(3) by (auto simp: app_inv_def)
  have good: "local_good (backend_retriever (ap_index a) (pa_digest p) (pa_round6 p)) (ap_mcp a)"
    using assms(3) by (simp add: app_inv_def)
  have "tools_typed (label_schema s N T M) g \<and> gateway_typed (label_schema s N T M) m"
    by (rule run_operations_typed[OF o call good]) (use assms(2) in \<open>simp_all add: app_typed_def\<close>)
  moreover have "a' = a\<lparr>ap_mcp := g, ap_model_gateway := (ap_model_gateway a)\<lparr>mgw_metrics := m\<rparr>\<rparr>"
    using assms(1) o by (simp add: run_operations_def)
  ultimately show ?thesis using assms(2) by (simp add: app_typed_def)
qed

lemma approval_typed:
  assumes "request_approval p requester query tenant q (ap_approvals a) = (r, st)" and "app_typed s N T M a"
    and "app_inv p a" and "request_usable p q" and "tenant \<in> T"
  shows "app_typed s N T M (a\<lparr>ap_approvals := st\<rparr>)"
proof -
  define x where "x = CreatePending (wr_uid q) (wr_stamp q) (wr_request_id q) requester query tenant"
  obtain r0 st0 where s: "store_step (pa_store p) x (ap_approvals a) = (r0, st0)" by fastforce
  have "store_inv (pa_store p) (ap_approvals a)" using assms(3) by (simp add: app_inv_def)
  moreover have "op_usable (pa_store p) x" unfolding x_def by (rule create_usable[OF assms(4)])
  ultimately have "store_gauge st0 = gauge_after x r0 (store_gauge (ap_approvals a))"
    using opened.counts[of "pa_store p" "ap_approvals a" x] s by simp
  moreover have "st = st0"
    using assms(1) s by (auto simp: request_approval_def x_def split: sum.splits approval_reply.splits)
  ultimately have "store_gauge st t \<noteq> 0 \<Longrightarrow> store_gauge (ap_approvals a) t \<noteq> 0 \<or> t = tenant" for t
    by (cases r0) (auto simp: x_def split: if_splits)
  with assms(2,5) show ?thesis by (fastforce simp: app_typed_def)
qed

lemma completed_typed:
  assumes "app_typed s N T M a" and "tenant \<in> T"
  shows "app_typed s N T M (completed tenant res q a)"
proof -
  have "route_name r \<in> route_labels" "agent_text n \<in> route_labels" "bool_text b \<in> {''true'', ''false''}"
    "safe_error_code v \<in> set safe_error_codes \<union> {''other''}" for r n b v
    by (cases r, simp_all add: route_labels_def) (cases n, simp_all add: bool_text_def safe_error_code_def split: option.splits)
  with assms show ?thesis by (auto simp: app_typed_def completed_def Let_def)
qed

lemma investigate_for_typed:
  assumes "investigate_for p query who tc q a = (r, a')" and "app_typed s N T M a" and "app_inv p a"
    and "request_usable p q" and "tc_tenant tc \<in> T"
  shows "app_typed s N T M a'"
proof -
  obtain r1 a2 where run: "run_operations query (p_subject who) (document_scope who tc) q a = (r1, a2)"
    by fastforce
  have t2: "app_typed s N T M a2" by (rule run_typed[OF run assms(2,3)])
  have i2: "app_inv p a2" using run_operations_frame[OF assms(3) run] touched_inv[OF _ assms(3)] by blast
  obtain r2 st where ask: "request_approval p (p_subject who) query (tc_tenant tc) q (ap_approvals a2) = (r2, st)"
    by fastforce
  have t3: "app_typed s N T M (a2\<lparr>ap_approvals := st\<rparr>)" by (rule approval_typed[OF ask t2 i2 assms(4,5)])
  have "a' \<in> {a2, a2\<lparr>ap_approvals := st\<rparr>} \<or>
      (\<exists>res b. b \<in> {a2, a2\<lparr>ap_approvals := st\<rparr>} \<and> a' = completed (tc_tenant tc) res q b)"
    using assms(1) run ask by (cases r2) (auto simp: investigate_for_def split: sum.splits if_splits)
  with t2 t3 completed_typed[OF _ assms(5)] show ?thesis by blast
qed

lemma demo_investigate_for_typed:
  assumes "demo_investigate_for p t query tc q a = (r, a')" and "app_typed s N T M a" and "app_inv p a"
    and "request_usable p q" and "tc_tenant tc \<in> T"
  shows "app_typed s N T M a'"
proof -
  obtain r1 a2 where run: "run_operations query (p_subject demo_principal) (document_scope demo_principal tc) q a = (r1, a2)"
    by fastforce
  have t2: "app_typed s N T M a2" by (rule run_typed[OF run assms(2,3)])
  have i2: "app_inv p a2" using run_operations_frame[OF assms(3) run] touched_inv[OF _ assms(3)] by blast
  obtain r2 st where ask: "request_approval p (p_subject demo_principal) query (tc_tenant tc) q (ap_approvals a2) = (r2, st)"
    by fastforce
  have t3: "app_typed s N T M (a2\<lparr>ap_approvals := st\<rparr>)" by (rule approval_typed[OF ask t2 i2 assms(4,5)])
  have "a' \<in> {a2, a2\<lparr>ap_approvals := st\<rparr>}"
    using assms(1) run ask by (cases r2) (auto simp: demo_investigate_for_def split: sum.splits if_splits)
  with t2 t3 show ?thesis by blast
qed

lemma retrieve_for_typed:
  assumes "retrieve_for p query tc a = (r, a')" and "app_typed s N T M a"
  shows "app_typed s N T M a'"
  using assms by (auto simp: retrieve_for_def retrieve_def app_typed_def Let_def split: if_splits sum.splits)

lemma gateway_step_typed:
  assumes "generate env gq (ap_model_gateway a) = (r, gw)" and "app_typed s N T M a" and "gq_tenant gq \<in> T"
  shows "app_typed s N T M (a\<lparr>ap_model_gateway := gw\<rparr>)"
proof -
  have "gateway_wired s M gw \<and> gateway_typed (label_schema s N T M) (mgw_metrics gw)"
    by (rule generate_typed[OF assms(1)]) (use assms(2,3) in \<open>simp_all add: app_typed_def\<close>)
  with assms(2) show ?thesis by (simp add: app_typed_def)
qed

lemma synthesize_for_typed:
  assumes "synthesize_for query evidence tenant q a = (r, a')" and "app_typed s N T M a" and "tenant \<in> T"
    and "field_strip tenant = tenant"
  shows "app_typed s N T M a'"
proof -
  obtain r1 gw where g: "synthesize_grounded_answer (wr_generation q) (st_rag_synthesis_model (ap_settings a))
      query evidence tenant (ap_model_gateway a) = (r1, gw)" by fastforce
  have "gw = ap_model_gateway a \<or>
      (\<exists>gq r2. generate (wr_generation q) gq (ap_model_gateway a) = (r2, gw) \<and> gq_tenant gq = tenant)"
    using g assms(4)
    by (auto simp: synthesize_grounded_answer_def new_generation_request_def Let_def
        split: if_splits sum.splits prod.splits)
  moreover have "a' = a\<lparr>ap_model_gateway := gw\<rparr>" using assms(1) g by (simp add: synthesize_for_def)
  ultimately show ?thesis using gateway_step_typed[OF _ assms(2)] assms(2,3) by auto
qed

lemma answers_typed:
  assumes "app_typed s N T M a" and "tc_tenant tc \<in> T" and "field_strip (tc_tenant tc) = tc_tenant tc"
  shows "rag_answer_for p query tc q a = (r1, a1) \<Longrightarrow> app_typed s N T M a1"
    and "demo_rag_for p t query tc q a = (r2, a2) \<Longrightarrow> app_typed s N T M a2"
proof -
  obtain r3 b where e: "retrieve_for p query tc a = (r3, b)" by fastforce
  have tb: "app_typed s N T M b" by (rule retrieve_for_typed[OF e assms(1)])
  have syn: "app_typed s N T M c" if "synthesize_for query evidence (tc_tenant tc) q b = (r4, c)" for evidence r4 c
    by (rule synthesize_for_typed[OF that tb assms(2,3)])
  show "rag_answer_for p query tc q a = (r1, a1) \<Longrightarrow> app_typed s N T M a1"
    using e tb syn by (auto simp: rag_answer_for_def split: sum.splits prod.splits)
  show "demo_rag_for p t query tc q a = (r2, a2) \<Longrightarrow> app_typed s N T M a2"
    using e tb syn by (auto simp: demo_rag_for_def split: sum.splits prod.splits option.splits)
qed

lemma generate_for_typed:
  assumes "generate_for payload tenant q a = (r, a')" and "app_typed s N T M a" and "tenant \<in> T"
    and "field_strip tenant = tenant"
  shows "app_typed s N T M a'"
proof -
  have "gq_tenant gq = tenant"
    if "new_generation_request model messages tenant agent mt temp = Inr gq" for model messages agent mt temp gq
    using that assms(4) by (auto simp: new_generation_request_def Let_def split: if_splits)
  then show ?thesis
    using assms(1-3)
    by (auto simp: generate_for_def split: sum.splits prod.splits intro: gateway_step_typed)
qed

lemma admitted_typed:
  assumes "(case admit_tenant required q a of (Inl e, a1) \<Rightarrow> (Inl e, a1) | (Inr (who, tc), a1) \<Rightarrow> act who tc a1) = (r, a')"
    and "app_typed s N T M a" and "app_inv p a"
    and "\<And>who tc a1. app_typed s N T M a1 \<Longrightarrow> app_inv p a1 \<Longrightarrow> tc_tenant tc \<in> T \<Longrightarrow>
      field_strip (tc_tenant tc) = tc_tenant tc \<Longrightarrow> act who tc a1 = (r, a') \<Longrightarrow> app_typed s N T M a'"
  shows "app_typed s N T M a'"
proof -
  obtain r1 a1 where ad: "admit_tenant required q a = (r1, a1)" by fastforce
  note t1 = admit_tenant_typed[OF ad assms(2)] and i1 = touched_inv[OF admit_tenant_touched[OF ad] assms(3)]
  show ?thesis
  proof (cases r1)
    case (Inl e)
    with assms(1) ad t1 show ?thesis by simp
  next
    case (Inr x)
    then obtain who tc where x: "r1 = Inr (who, tc)" by (cases x) auto
    with assms(1) ad have "act who tc a1 = (r, a')" by simp
    with assms(4)[OF t1 i1] admitted_tenant[OF ad[unfolded x] assms(2,3)] show ?thesis by blast
  qed
qed

lemma demo_typed:
  assumes "(case admit_demo host q a of (Inl e, a1) \<Rightarrow> (Inl e, a1)
      | (Inr _, a1) \<Rightarrow> if query = [] \<or> tenant = [] then (Inl request_invalid, a1)
          else (case demo_tenant (ap_tenants a1) tenant of Inl e \<Rightarrow> (Inl e, a1) | Inr tc \<Rightarrow> act tc a1)) = (r, a')"
    and "app_typed s N T M a" and "app_inv p a"
    and "\<And>tc a1. app_typed s N T M a1 \<Longrightarrow> app_inv p a1 \<Longrightarrow> tc_tenant tc \<in> T \<Longrightarrow>
      field_strip (tc_tenant tc) = tc_tenant tc \<Longrightarrow> act tc a1 = (r, a') \<Longrightarrow> app_typed s N T M a'"
  shows "app_typed s N T M a'"
proof -
  obtain r1 a1 where ad: "admit_demo host q a = (r1, a1)" by fastforce
  have "touched p None a a1" using ad by (auto simp: admit_demo_def split: prod.splits)
  then have i1: "app_inv p a1" using assms(3) by (rule touched_inv)
  note t1 = admit_demo_typed[OF ad assms(2)]
  have "a' = a1 \<or> (\<exists>tc. demo_tenant (ap_tenants a1) tenant = Inr tc \<and> act tc a1 = (r, a'))"
    using assms(1) ad by (auto split: sum.splits if_splits)
  with t1 demo_tenant_known[OF _ t1 i1] assms(4)[OF t1 i1] show ?thesis by blast
qed

lemma route_workflow_typed:
  assumes "route_workflow query q a = (r, a')" and "app_typed s N T M a"
  shows "app_typed s N T M a'"
proof -
  obtain r1 a1 where ad: "admit {''agent.invoke''} q a = (r1, a1)" by fastforce
  note t1 = admit_typed[OF ad assms(2)]
  have "gateway_typed (label_schema s N T M) (supervisor_metrics x (mgw_metrics (ap_model_gateway a1)))" for x
    using t1 by (auto simp: app_typed_def gateway_typed_def supervisor_metrics_def Let_def provider_labels_def
        dest!: subsetD[OF counted_upd])
  then have m: "gateway_typed (label_schema s N T M) m"
    if "supervisor_route al n model x (mgw_metrics (ap_model_gateway a1)) = (r2, m)" for al n model x r2 m
    using t1 that
    by (auto simp: app_typed_def supervisor_route_def supervisor_classify_def split: sum.splits if_splits)
  have "app_typed s N T M (a1\<lparr>ap_model_gateway := (ap_model_gateway a1)\<lparr>mgw_metrics := m\<rparr>\<rparr>)"
    if "gateway_typed (label_schema s N T M) m" for m
    using t1 that by (simp add: app_typed_def)
  with m assms(1) ad t1 show ?thesis
    by (auto simp: route_workflow_def Let_def split: prod.splits sum.splits)
qed

lemma handle_typed:
  assumes "handle p t c q a = (r, a')" and "app_typed s N T M a" and "app_inv p a" and "request_usable p q"
  shows "app_typed s N T M a'"
proof (cases c)
  case (PostInvestigate query)
  obtain r0 where h: "investigate_workflow p query q a = (r0, a')"
    using assms(1) PostInvestigate by (auto simp: map_prod_def split: prod.splits)
  show ?thesis
    by (rule admitted_typed[OF h[unfolded investigate_workflow_def] assms(2,3)])
      (auto split: sum.splits intro: investigate_for_typed[OF _ _ _ assms(4)])
next
  case (PostAnswer query)
  obtain r0 where h: "rag_answer p query q a = (r0, a')"
    using assms(1) PostAnswer by (auto simp: map_prod_def split: prod.splits)
  show ?thesis
    by (rule admitted_typed[OF h[unfolded rag_answer_def] assms(2,3)])
      (auto split: sum.splits intro: answers_typed(1))
next
  case (PostGenerate payload)
  obtain r0 where h: "generate_route payload q a = (r0, a')"
    using assms(1) PostGenerate by (auto simp: map_prod_def split: prod.splits)
  show ?thesis
    by (rule admitted_typed[OF h[unfolded generate_route_def] assms(2,3)]) (rule generate_for_typed)
next
  case (PostDemoInvestigate host query tenant)
  obtain r0 where h: "demo_investigate p t host query tenant q a = (r0, a')"
    using assms(1) PostDemoInvestigate by (auto simp: map_prod_def split: prod.splits)
  show ?thesis
    by (rule demo_typed[OF h[unfolded demo_investigate_def] assms(2,3)])
      (rule demo_investigate_for_typed[OF _ _ _ assms(4)])
next
  case (PostDemoRag host query tenant)
  obtain r0 where h: "demo_rag p t host query tenant q a = (r0, a')"
    using assms(1) PostDemoRag by (auto simp: map_prod_def split: prod.splits)
  show ?thesis
    by (rule demo_typed[OF h[unfolded demo_rag_def] assms(2,3)]) (rule answers_typed(2))
qed (use assms in \<open>auto simp: map_prod_def platform_info_def list_skills_def split: prod.splits sum.splits
      dest: admit_typed admit_tenant_typed route_workflow_typed\<close>)

section \<open>The site\<close>

text \<open>The completion client reports models of \<open>M\<close>, and the PII analyzer only entity types it was asked for.\<close>

definition services_documented :: "string set \<Rightarrow> model_services \<Rightarrow> bool" where
  "services_documented M sv \<longleftrightarrow>
     (\<forall>timeout n model msgs k temp x. ms_complete sv timeout n model msgs k temp = Inr x \<longrightarrow> co_model x \<in> M) \<and>
     analyzer_documented (ms_detector sv)"

lemma built_gateway_wired:
  assumes "build_model_gateway sv s registry m = Inr gw" and "services_documented M sv"
  shows "gateway_wired s M gw \<and> mgw_metrics gw = m"
proof -
  obtain prov name det pol sprov spol b where
    sel: "select_provider sv s = Inr (prov, name)" "select_pii sv s = Inr (det, pol)"
      "select_safety sv s = Inr (sprov, spol)"
    and new: "new_model_gateway prov name (set (st_model_gateway_allowlist s)) b default_pricing
      (st_model_gateway_timeout_seconds s) (st_model_gateway_max_attempts s) det pol sprov spol m = Inr gw"
    using assms(1) by (auto simp: build_model_gateway_def new_model_allowlist_def split: sum.splits prod.splits if_splits)
  have gw: "mgw_provider gw = prov" "mgw_provider_name gw = name" "mgw_allowlist gw = set (st_model_gateway_allowlist s)"
    "mgw_pii_detector gw = det" "mgw_pii_policy gw = pol" "mgw_safety_provider gw = sprov" "mgw_metrics gw = m"
    using new by (auto simp: new_model_gateway_def split: if_splits)
  have "gs_model r \<in> model_labels s M \<and> gs_provider r \<in> provider_labels" if "prov timeout n q = Inr r" for timeout n q r
    using sel(1) that assms(2)
    by (auto simp: select_provider_def azure_generate_def mock_generate_def Let_def services_documented_def label_sets
        split: if_splits sum.splits option.splits list.splits prod.splits)
  moreover have "name \<in> provider_labels"
    using sel(1) by (auto simp: select_provider_def provider_labels_def split: if_splits sum.splits)
  moreover have "set (all_entities pl) \<subseteq> entity_labels s \<and> analyzer_documented d" if "det = Some d" "pol = Some pl" for d pl
    using sel(2) that assms(2)
    by (auto simp: select_pii_def new_pii_policy_def services_documented_def all_entities_def entity_labels_def
        split: if_splits sum.splits)
  moreover have "sf_category ` set fs \<subseteq> set (map fst mock_signals)"
    if "sprov = Some pr" "pr timeout k x = Inr fs" for pr timeout k x fs
  proof -
    have "pr = (\<lambda>timeout k. azure_content_safety (ms_analyze sv timeout k)) \<or> pr = (\<lambda>timeout k. mock_content_safety)"
      using sel(3) that(1) by (auto simp: select_safety_def Let_def split: if_splits sum.splits)
    then show ?thesis using that(2) azure_categories mock_categories by (elim disjE) simp_all
  qed
  ultimately show ?thesis by (simp add: gateway_wired_def gw)
qed

lemma started_typed:
  assumes "create_app p w s = Some (Inr a)" and "world_ok w" and "params_ok (pa_store p)"
    and "services_documented M (aw_models w)"
  shows "app_typed s N (tr_names (ap_tenants a)) M a"
proof -
  obtain idx where idx: "assemble_app p w s idx = Inr a" by (rule create_app_Inr[OF assms(1)])
  note f = assemble_app_Inr[OF idx]
  have "mg_calls (ap_mcp a) = (\<lambda>_. 0) \<and> mg_duration (ap_mcp a) = (\<lambda>_. [])"
  proof -
    obtain g0 where "new_mcp_gateway (st_mcp_tool_timeout_seconds s) (st_mcp_max_attempts s) (st_mcp_rate_limit s)
        (st_mcp_rate_window_seconds s) [] = Inr g0" "ap_mcp a = g0\<lparr>mg_tools := mg_tools (ap_mcp a)\<rparr>"
      using f(1) mcp_register_all_Inr by (fastforce simp: build_local_mcp_gateway_def split: sum.splits)
    then show ?thesis by (auto simp: new_mcp_gateway_def split: if_splits) (metis mcp_gateway.select_convs mcp_gateway.simps)+
  qed
  moreover have "ap_completions a = (\<lambda>_. 0)" "ap_durations a = (\<lambda>_. [])" "ap_rag a = no_rag_metrics"
    using idx by (auto simp: assemble_app_def split: sum.splits)
  moreover have "store_gauge (ap_approvals a) = (\<lambda>_. 0)"
    using build_approval_store_empty[OF f(3) _ assms(3)] assms(2) by (simp add: world_ok_def)
  ultimately show ?thesis
    using built_gateway_wired[OF f(5) assms(4)]
    by (simp add: app_typed_def gateway_typed_def tools_typed_def no_metrics_def no_rag_metrics_def)
qed

text \<open>The site serves the routes of the application, and answers any other request that the HTTP server
  accepts, of a method of \<open>N\<close>, with a reply of the framework.\<close>

inductive site ::
  "'x app_params \<Rightarrow> page_text \<Rightarrow> ('x, 'k) app_world \<Rightarrow> settings \<Rightarrow> edge_world \<Rightarrow> string set
    \<Rightarrow> 'x app \<Rightarrow> edge_log \<Rightarrow> bool"
  for p t w s ew N where
  opened: "create_app p w s = Some (Inr a) \<Longrightarrow> site p t w s ew N a quiet_log"
| routed: "site p t w s ew N a el \<Longrightarrow> request_usable p q \<Longrightarrow>
    serve_http ew p t c given_id body_length q t0 t1 (a, el) = (r, a', el') \<Longrightarrow> site p t w s ew N a' el'"
| unrouted: "site p t w s ew N a el \<Longrightarrow> rq_method rq \<in> N \<Longrightarrow>
    dispatch (st_max_request_body_bytes (ap_settings a)) (ew_round2 ew) (ew_repr ew) uuid t0 t1 (\<lambda>_ _. Inr reply) rq el =
      (r, el') \<Longrightarrow> site p t w s ew N a el'"

fun series :: "metric \<Rightarrow> 'x app \<Rightarrow> edge_log \<Rightarrow> string list set" where
  "series HTTP_REQUESTS a el = counted (el_requests el)"
| "series HTTP_DURATION a el = observed (el_duration el)"
| "series WORKFLOW_COMPLETIONS a el = counted (ap_completions a)"
| "series WORKFLOW_DURATION a el = observed (ap_durations a)"
| "series MCP_CALLS a el = counted (mg_calls (ap_mcp a))"
| "series MCP_DURATION a el = observed (mg_duration (ap_mcp a))"
| "series RAG_RETRIEVALS a el = counted (rm_retrievals (ap_rag a))"
| "series RAG_HITS a el = (if rm_hits (ap_rag a) = [] then {} else {[]})"
| "series MODEL_TOKENS a el = counted (gm_tokens (mgw_metrics (ap_model_gateway a)))"
| "series MODEL_ESTIMATED_COST_GBP a el = counted (gm_cost (mgw_metrics (ap_model_gateway a)))"
| "series MODEL_GATEWAY_CALLS a el = counted (gm_calls (mgw_metrics (ap_model_gateway a)))"
| "series MODEL_GATEWAY_DURATION a el = observed (gm_duration (mgw_metrics (ap_model_gateway a)))"
| "series PII_FINDINGS a el = counted (gm_pii (mgw_metrics (ap_model_gateway a)))"
| "series CONTENT_SAFETY_FINDINGS a el = counted (gm_safety (mgw_metrics (ap_model_gateway a)))"
| "series PENDING_APPROVALS a el = {[t] | t. store_gauge (ap_approvals a) t \<noteq> 0}"

definition edge_typed :: "(metric \<Rightarrow> schema) \<Rightarrow> edge_log \<Rightarrow> bool" where
  "edge_typed S el \<longleftrightarrow> counted (el_requests el) \<subseteq> well_typed (S HTTP_REQUESTS) \<and>
     observed (el_duration el) \<subseteq> well_typed (S HTTP_DURATION)"

lemma dispatch_typed:
  assumes "dispatch max_body round2 repr uuid t0 t1 call_next rq el = (r, el')"
    and "rq_method rq \<in> N \<union> {''GET'', ''POST''}" and "edge_typed (label_schema s N T M) el"
  shows "edge_typed (label_schema s N T M) el'"
proof -
  define route where "route = (if rq_path rq \<in> set known_metric_routes then rq_path rq else ''unmatched'')"
  have route: "route \<in> set known_metric_routes \<union> {''unmatched''}" by (simp add: route_def)
  have el': "el' = snd (dispatch max_body round2 repr uuid t0 t1 call_next rq el)" using assms(1) by simp
  have "(el_requests el' = el_requests el \<and> el_duration el' = el_duration el) \<or>
      (\<exists>n v. el_requests el' = inc [rq_method rq, route, show_int n] (el_requests el) \<and>
        el_duration el' = observe [rq_method rq, route] v (el_duration el))"
    unfolding el' dispatch_def Let_def route_def[symmetric] by (simp split: sum.split exn.split) blast
  with assms(2,3) route show ?thesis by (auto simp: edge_typed_def)
qed

lemma series_typed:
  assumes "app_typed s N T M a" and "edge_typed (label_schema s N T M) el"
  shows "series k a el \<subseteq> well_typed (label_schema s N T M k)"
  using assms by (cases k) (simp_all add: app_typed_def edge_typed_def gateway_typed_def tools_typed_def)

lemma site_typed:
  assumes "site p t w s ew N a el" and "world_ok w" and "params_ok (pa_store p)"
    and "services_documented M (aw_models w)" and "aw_tenants w = Inr registry"
  shows "app_inv p a \<and> app_typed s N (tr_names registry) M a \<and> edge_typed (label_schema s N (tr_names registry) M) el"
  using assms
proof (induction rule: site.induct)
  case (opened a)
  obtain idx where "assemble_app p w s idx = Inr a" by (rule create_app_Inr[OF opened(1)])
  then have "ap_tenants a = registry" using assemble_app_Inr(2) opened.prems(4) by fastforce
  moreover have "edge_typed S quiet_log" for S by (simp add: edge_typed_def quiet_log_def)
  ultimately show ?case
    using create_app_inv[OF opened(1) opened.prems(1,2)] started_typed[OF opened(1) opened.prems(1-3)] by blast
next
  case (routed a el q c given_id body_length t0 t1 r a' el')
  have IH: "app_inv p a" "app_typed s N (tr_names registry) M a" "edge_typed (label_schema s N (tr_names registry) M) el"
    using routed.IH[OF routed.prems] by simp_all
  define rq where "rq = request_of (ap_settings a) c given_id body_length"
  obtain rid r1 a1 where h: "answer_call ew p t c (q\<lparr>wr_request_id := rid\<rparr>) a = (r1, a1)" and a': "a' = a \<or> a' = a1"
    and d: "dispatch (st_max_request_body_bytes (ap_settings a)) (ew_round2 ew) (ew_repr ew) (wr_request_id q) t0 t1
      (\<lambda>_ rid. fst (answer_call ew p t c (q\<lparr>wr_request_id := rid\<rparr>) a)) rq el = (r, el')"
    using routed.hyps(3)
    by (cases "answer_call ew p t c (q\<lparr>wr_request_id := choose_request_id (wr_request_id q) rq\<rparr>) a")
      (auto simp: serve_http_def rq_def Let_def split: prod.splits if_splits)
  have u: "request_usable p (q\<lparr>wr_request_id := rid\<rparr>)" using routed.hyps(2) by (simp add: request_usable_def)
  have "call_method c \<in> {''GET'', ''POST''}" by (cases c rule: call_method.cases) simp_all
  then have "edge_typed (label_schema s N (tr_names registry) M) el'"
    by (intro dispatch_typed[OF d _ IH(3)]) (auto simp: rq_def request_of_def)
  moreover have "app_inv p a1 \<and> app_typed s N (tr_names registry) M a1"
  proof (cases c)
    case (Api c')
    then obtain r0 where "handle p t c' (q\<lparr>wr_request_id := rid\<rparr>) a = (r0, a1)"
      using h by (auto simp: map_prod_def split: prod.splits)
    with handle_typed[OF this IH(2,1) u] handle_touched[OF IH(1) u this] touched_inv IH(1) show ?thesis by blast
  qed (use h IH in auto)
  ultimately show ?case using IH a' by blast
next
  case (unrouted a el rq uuid t0 t1 reply r el')
  from unrouted.IH[OF unrouted.prems] dispatch_typed[OF unrouted.hyps(3)] unrouted.hyps(2) show ?case by blast
qed

lemma label_schema_finite:
  assumes "k \<noteq> HTTP_REQUESTS" and "finite N" and "finite T" and "finite M"
  shows "finite (well_typed (label_schema s N T M k))"
  using assms by (intro well_typed_finite) (cases k; simp add: label_sets)

text \<open>C8: metrics.py promises labels of low cardinality that hold no content of a request.  Whatever requests
  the site has served, every label list a metric has counted under has the declared arity, and each
  value is in the vocabulary that its name has for the settings, the tenants and the models the
  provider reports: a known route, a tenant of the registry, an approved tool or \<open>unapproved\<close>, a safe
  error code, a configured entity type.  Apart from the status of a response every vocabulary is
  finite, if the HTTP server accepts finitely many methods and the provider reports finitely many models; so a
  metric has finitely many series however long the site runs.\<close>

theorem metric_labels_typed:
  assumes "site p t w s ew N a el" and "world_ok w" and "params_ok (pa_store p)"
    and "services_documented M (aw_models w)" and "aw_tenants w = Inr registry"
  shows "map fst (label_schema s N (tr_names registry) M k) = md_labels (declared k) \<and>
    series k a el \<subseteq> well_typed (label_schema s N (tr_names registry) M k) \<and>
    (k \<noteq> HTTP_REQUESTS \<and> finite N \<and> finite M \<longrightarrow> finite (well_typed (label_schema s N (tr_names registry) M k)))"
proof -
  have "app_typed s N (tr_names registry) M a" "edge_typed (label_schema s N (tr_names registry) M) el"
    using site_typed[OF assms] by simp_all
  from series_typed[OF this] label_schema_declared label_schema_finite show ?thesis
    by (simp add: tr_names_def)
qed

theorem metric_labels_typed_witness:
  "\<exists>a el. site start_params plain_text start_world default_settings plain_edge {''PUT''} a el \<and>
     [''PUT'', ''unmatched'', ''404''] \<in> series HTTP_REQUESTS a el \<and>
     series HTTP_REQUESTS a el \<subseteq>
       well_typed (label_schema default_settings {''PUT''} {''retail-banking'', ''wealth''} {} HTTP_REQUESTS)"
proof -
  obtain a where a: "create_app start_params start_world default_settings = Some (Inr a)"
    "ap_settings a = default_settings" by (rule started_app)
  define rq where "rq = \<lparr>rq_method = ''PUT'', rq_path = ''/none'', rq_request_id = None, rq_content_length = None\<rparr>"
  obtain r el where d: "dispatch (st_max_request_body_bytes (ap_settings a)) (ew_round2 plain_edge) (ew_repr plain_edge)
      ''u'' 0 1 (\<lambda>_ _. Inr (json_response 404 ''Not Found'')) rq quiet_log = (r, el)" by fastforce
  have "site start_params plain_text start_world default_settings plain_edge {''PUT''} a el"
    by (rule site.unrouted[OF site.opened[OF a(1)] _ d]) (simp add: rq_def)
  moreover have "services_documented {} (aw_models start_world)"
    by (simp add: services_documented_def start_world_def sample_services_def analyzer_documented_def)
  moreover have reg: "aw_tenants start_world = Inr sample_registry" "tr_names sample_registry = {''retail-banking'', ''wealth''}"
    by (simp_all add: start_world_def tr_names_def sample_registry_def)
  moreover have "el_requests el = inc [''PUT'', ''unmatched'', ''404''] (\<lambda>_. 0)"
  proof -
    have "show_int 404 = ''404''" by code_simp
    with d show ?thesis
      by (auto simp: dispatch_def rq_def json_response_def quiet_log_def known_metric_routes_def Let_def)
  qed
  ultimately show ?thesis
    using metric_labels_typed[OF _ start_world_ok start_params_ok, where k = HTTP_REQUESTS] by fastforce
qed

end
