(* ===== verification/McpConcurrent.thy ===== *)
theory McpConcurrent
  imports McpLocal
begin

text \<open>
  Overlapping calls of the tool gateway.  \<open>invoke\<close> (mcp\_boundary/gateway.py) is a coroutine: it awaits the
  tool's handler, and other calls run meanwhile.  Between two awaits nothing else runs, so a call is two
  atomic steps on the gateway: \<open>begin_call\<close>, everything up to the handler (authorization, the rate limit, the
  validation of the arguments), and \<open>finish_call\<close>, the \<open>finally\<close> clause (metrics and audit).  What the
  handler's attempts return does not depend on the gateway.  \<open>schedule\<close> are the interleavings of these
  steps, in any order in which calls begin and finish.
\<close>

section \<open>A call in two steps\<close>

datatype ('i, 'o) begun = Settled "(exn + 'o) \<times> audit_outcome \<times> nat" | Handling "('i, 'o) tool_registration" 'i

definition begin_call ::
  "real \<Rightarrow> string \<Rightarrow> tool_args \<Rightarrow> caller_context \<Rightarrow> ('i, 'o) mcp_gateway
    \<Rightarrow> ('i, 'o) begun \<times> ('i, 'o) mcp_gateway" where
  "begin_call now tool_name args caller g =
     (case map_of (mg_tools g) tool_name of
        None \<Rightarrow> (Settled (Inl (MCPToolNotFound ''Tool is not approved''), Denied, 0), g)
      | Some reg \<Rightarrow>
          if cc_agent caller \<notin> tg_allowed_agents reg
          then (Settled (Inl (MCPAccessDenied ''Agent is not permitted to use this tool''), Denied, 0), g)
          else if \<not> tg_required_roles reg \<subseteq> cc_roles caller
          then (Settled (Inl (MCPAccessDenied ''Caller lacks the required tool role''), Denied, 0), g)
          else (case mcp_check_rate_limit now (cc_subject caller) tool_name g of
                  (Inl e, g') \<Rightarrow> (Settled (Inl e, Denied, 0), g')
                | (Inr _, g') \<Rightarrow>
                    (case tg_input_model reg args of
                       Inl _ \<Rightarrow>
                         (Settled (Inl (MCPInvalidArguments ''Tool arguments failed schema validation''),
                           Invalid, 0), g')
                     | Inr validated \<Rightarrow> (Handling reg validated, g'))))"

fun call_outcome ::
  "real \<Rightarrow> nat \<Rightarrow> caller_context \<Rightarrow> ('i, 'o) begun \<Rightarrow> (exn + 'o) \<times> audit_outcome \<times> nat" where
  "call_outcome timeout mx caller (Settled x) = x"
| "call_outcome timeout mx caller (Handling reg validated) =
     attempt_loop (\<lambda>n. tg_handler reg timeout n validated caller) (tg_output_model reg) mx [1..<Suc mx] 0 Errored"

definition finish_call ::
  "(string \<Rightarrow> string) \<Rightarrow> (real \<Rightarrow> real) \<Rightarrow> mcp_call \<Rightarrow> audit_outcome \<Rightarrow> nat \<Rightarrow> ('i, 'o) mcp_gateway
    \<Rightarrow> ('i, 'o) mcp_gateway" where
  "finish_call sha256 round3 c outcome attempts g =
     (case c of (ct, tool_name, args, caller) \<Rightarrow>
        let duration_seconds = ct_ended ct - ct_started ct;
            label = (if tool_name \<in> set (map fst (mg_tools g)) then tool_name else ''unapproved'')
        in g\<lparr>mg_calls := inc [label, outcome_name outcome] (mg_calls g),
             mg_duration := observe [label] duration_seconds (mg_duration g),
             mg_audit := mg_audit g @
               [\<lparr>au_timestamp = ct_stamp ct,
                 au_request_id = field_strip (cc_request_id caller),
                 au_subject = field_strip (cc_subject caller),
                 au_agent = field_strip (cc_agent caller),
                 au_tool = field_strip tool_name,
                 au_argument_fingerprint = field_strip (sha256 (json_dumps (PDict args))),
                 au_outcome = outcome,
                 au_duration_ms = round3 (duration_seconds * 1000),
                 au_attempt_count = attempts\<rparr>]\<rparr>)"

definition outcome_of :: "mcp_call \<Rightarrow> ('i, 'o) begun \<Rightarrow> ('i, 'o) mcp_gateway \<Rightarrow> (exn + 'o) \<times> audit_outcome \<times> nat" where
  "outcome_of c b g = (case c of (ct, tool, args, caller) \<Rightarrow> call_outcome (mg_timeout g) (mg_max_attempts g) caller b)"

text \<open>One after the other, the two steps are \<open>invoke\<close>.\<close>

lemma invoke_steps:
  "mcp_invoke sha256 round3 ct tool args caller g =
     (case begin_call (ct_now ct) tool args caller g of
        (b, g1) \<Rightarrow> case outcome_of (ct, tool, args, caller) b g of
          (result, outcome, attempts) \<Rightarrow> (result, finish_call sha256 round3 (ct, tool, args, caller) outcome attempts g1))"
proof -
  have body: "invoke_body (ct_now ct) tool args caller g =
      (outcome_of (ct, tool, args, caller) (fst (begin_call (ct_now ct) tool args caller g)) g,
       snd (begin_call (ct_now ct) tool args caller g))"
    by (simp add: invoke_body_def begin_call_def outcome_of_def split: option.split sum.split prod.split del: upt_Suc)
  show ?thesis
    unfolding mcp_invoke_def Let_def body by (simp add: finish_call_def Let_def split_beta)
qed

section \<open>Schedules\<close>

text \<open>\<open>schedule g0 begun running answers g\<close>: from \<open>g0\<close> the calls of \<open>begun\<close> began in this order, those of
  \<open>running\<close> await their handler, the others were answered in the order of \<open>answers\<close>.\<close>

inductive schedule ::
  "(string \<Rightarrow> string) \<Rightarrow> (real \<Rightarrow> real) \<Rightarrow> ('i, 'o) mcp_gateway \<Rightarrow> (mcp_call \<times> ('i, 'o) begun) list
    \<Rightarrow> (mcp_call \<times> ('i, 'o) begun) list \<Rightarrow> (mcp_call \<times> (exn + 'o)) list \<Rightarrow> ('i, 'o) mcp_gateway \<Rightarrow> bool"
  for sha256 round3 g0 where
  idle: "schedule sha256 round3 g0 [] [] [] g0"
| begins: "schedule sha256 round3 g0 begun running answers g \<Longrightarrow>
    begin_call (ct_now ct) tool args caller g = (b, g') \<Longrightarrow>
    schedule sha256 round3 g0 (begun @ [((ct, tool, args, caller), b)]) (running @ [((ct, tool, args, caller), b)])
      answers g'"
| finishes: "schedule sha256 round3 g0 begun (before @ (c, b) # after) answers g \<Longrightarrow>
    outcome_of c b g = (result, outcome, attempts) \<Longrightarrow>
    schedule sha256 round3 g0 begun (before @ after) (answers @ [(c, result)])
      (finish_call sha256 round3 c outcome attempts g)"

text \<open>The calls one after the other, with their results.\<close>

fun mcp_serve ::
  "(string \<Rightarrow> string) \<Rightarrow> (real \<Rightarrow> real) \<Rightarrow> mcp_call list \<Rightarrow> ('i, 'o) mcp_gateway
    \<Rightarrow> (mcp_call \<times> (exn + 'o)) list \<times> ('i, 'o) mcp_gateway" where
  "mcp_serve sha256 round3 [] g = ([], g)"
| "mcp_serve sha256 round3 ((ct, tool, args, caller) # calls) g =
     (let (r, g1) = mcp_invoke sha256 round3 ct tool args caller g;
          (rs, g2) = mcp_serve sha256 round3 calls g1
      in (((ct, tool, args, caller), r) # rs, g2))"

section \<open>Beginnings and endings commute\<close>

type_synonym 'o finished = "mcp_call \<times> (exn + 'o) \<times> audit_outcome \<times> nat"

definition finish_all ::
  "(string \<Rightarrow> string) \<Rightarrow> (real \<Rightarrow> real) \<Rightarrow> 'o finished list \<Rightarrow> ('i, 'o) mcp_gateway \<Rightarrow> ('i, 'o) mcp_gateway" where
  "finish_all sha256 round3 fs g = fold (\<lambda>(c, result, outcome, attempts). finish_call sha256 round3 c outcome attempts) fs g"

definition answer :: "'o finished \<Rightarrow> mcp_call \<times> (exn + 'o)" where
  "answer f = (case f of (c, result, _) \<Rightarrow> (c, result))"

lemma finish_all_simps [simp]:
  "finish_all sha256 round3 [] g = g"
  "finish_all sha256 round3 (fs @ [f]) g =
     finish_call sha256 round3 (fst f) (fst (snd (snd f))) (snd (snd (snd f))) (finish_all sha256 round3 fs g)"
  by (simp_all add: finish_all_def split_beta)

lemma finish_call_frame [simp]:
  "mg_timeout (finish_call sha256 round3 c outcome attempts g) = mg_timeout g"
  "mg_max_attempts (finish_call sha256 round3 c outcome attempts g) = mg_max_attempts g"
  "mg_tools (finish_call sha256 round3 c outcome attempts g) = mg_tools g"
  "mg_requests (finish_call sha256 round3 c outcome attempts g) = mg_requests g"
  by (simp_all add: finish_call_def Let_def split: prod.splits)

lemma finish_all_frame [simp]:
  "mg_timeout (finish_all sha256 round3 fs g) = mg_timeout g"
  "mg_max_attempts (finish_all sha256 round3 fs g) = mg_max_attempts g"
  "mg_tools (finish_all sha256 round3 fs g) = mg_tools g"
  "mg_requests (finish_all sha256 round3 fs g) = mg_requests g"
  by (induction fs rule: rev_induct) simp_all

lemma mcp_admit_finish:
  "mcp_admit now key (finish_call sha256 round3 c outcome attempts g) =
     map_prod id (finish_call sha256 round3 c outcome attempts) (mcp_admit now key g)"
  by (simp add: mcp_admit_def finish_call_def Let_def split: prod.splits)

lemma begin_call_finish:
  "begin_call now tool args caller (finish_call sha256 round3 c outcome attempts g) =
     map_prod id (finish_call sha256 round3 c outcome attempts) (begin_call now tool args caller g)"
  by (simp add: begin_call_def mcp_check_rate_limit_def mcp_admit_finish split: option.split sum.split prod.split)

lemma begin_call_finish_all:
  "begin_call now tool args caller (finish_all sha256 round3 fs g) =
     map_prod id (finish_all sha256 round3 fs) (begin_call now tool args caller g)"
  by (cases "begin_call now tool args caller g"; induction fs rule: rev_induct) (simp_all add: begin_call_finish)

lemma begin_call_frame:
  assumes "begin_call now tool args caller g = (b, g')"
  shows "mg_timeout g' = mg_timeout g" "mg_max_attempts g' = mg_max_attempts g" "mg_tools g' = mg_tools g"
    "mg_audit g' = mg_audit g"
proof -
  have "g' \<in> {g, snd (mcp_admit now (tool_key tool caller) g)}"
    using assms by (auto simp: begin_call_def mcp_check_rate_limit_def tool_key_def
        split: option.splits sum.splits prod.splits if_splits)
  then show "mg_timeout g' = mg_timeout g" "mg_max_attempts g' = mg_max_attempts g" "mg_tools g' = mg_tools g"
    "mg_audit g' = mg_audit g"
    by auto
qed

lemma outcome_of_frame:
  "mg_timeout g' = mg_timeout g \<Longrightarrow> mg_max_attempts g' = mg_max_attempts g \<Longrightarrow> outcome_of c b g' = outcome_of c b g"
  by (simp add: outcome_of_def split: prod.split)

section \<open>Every schedule is a sequence\<close>

definition item_of :: "('i, 'o) mcp_gateway \<Rightarrow> mcp_call \<times> ('i, 'o) begun \<Rightarrow> 'o finished" where
  "item_of g x = (fst x, outcome_of (fst x) (snd x) g)"

text \<open>The gateway after the beginnings alone.\<close>

fun begin_all :: "mcp_call list \<Rightarrow> ('i, 'o) mcp_gateway \<Rightarrow> ('i, 'o) mcp_gateway" where
  "begin_all [] g = g"
| "begin_all ((ct, tool, args, caller) # calls) g = begin_all calls (snd (begin_call (ct_now ct) tool args caller g))"

lemma begin_all_snoc:
  "begin_all (calls @ [(ct, tool, args, caller)]) g = snd (begin_call (ct_now ct) tool args caller (begin_all calls g))"
  by (induction calls g rule: begin_all.induct) simp_all

lemma begin_all_frame [simp]:
  "mg_timeout (begin_all calls g) = mg_timeout g"
  "mg_max_attempts (begin_all calls g) = mg_max_attempts g"
  "mg_tools (begin_all calls g) = mg_tools g"
  by (induction calls g rule: begin_all.induct) (simp_all add: begin_call_frame[OF surjective_pairing])

lemma begin_all_audit: "mg_audit (begin_all calls g) = mg_audit g"
  by (induction calls g rule: begin_all.induct) (simp_all add: begin_call_frame(4)[OF surjective_pairing])

lemma mcp_serve_snoc:
  "mcp_serve sha256 round3 (calls @ [(ct, tool, args, caller)]) g =
     (let (rs, g1) = mcp_serve sha256 round3 calls g;
          (r, g2) = mcp_invoke sha256 round3 ct tool args caller g1
      in (rs @ [((ct, tool, args, caller), r)], g2))"
proof (induction calls arbitrary: g)
  case (Cons c calls)
  then show ?case by (cases c) (simp add: split_beta Let_def)
qed (simp add: split_beta Let_def)

lemma schedule_sequence:
  assumes "schedule sha256 round3 g0 begun running answers g"
  shows "\<exists>fs. g = finish_all sha256 round3 fs (begin_all (map fst begun) g0) \<and> answers = map answer fs \<and>
      mset fs + mset (map (item_of g0) running) = mset (map (item_of g0) begun)"
    and "mcp_serve sha256 round3 (map fst begun) g0 =
      (map (answer \<circ> item_of g0) begun,
       finish_all sha256 round3 (map (item_of g0) begun) (begin_all (map fst begun) g0))"
  using assms
proof (induction rule: schedule.induct)
  case idle
  {
    case 1
    show ?case by (intro exI[of _ "[]"]) simp
  next
    case 2
    show ?case by simp
  }
next
  case (begins begun running answers g ct tool args caller b g')
  let ?c = "(ct, tool, args, caller)" and ?gb = "begin_all (map fst begun) g0"
  obtain fs where fs: "g = finish_all sha256 round3 fs ?gb" "answers = map answer fs"
    "mset fs + mset (map (item_of g0) running) = mset (map (item_of g0) begun)"
    using begins.IH(1) by blast
  obtain gb' where gb': "begin_call (ct_now ct) tool args caller ?gb = (b, gb')" "g' = finish_all sha256 round3 fs gb'"
    using begins.hyps(2) by (auto simp: fs(1) begin_call_finish_all map_prod_def split: prod.splits)
  {
    case 1
    show ?case using fs gb' by (intro exI[of _ fs]) (simp add: begin_all_snoc)
  next
    case 2
    obtain res oc n where o: "outcome_of ?c b g0 = (res, oc, n)" by (metis prod_cases3)
    have o': "outcome_of ?c b (finish_all sha256 round3 items ?gb) = (res, oc, n)" for items
      using o by (simp add: outcome_of_frame[of "finish_all sha256 round3 items ?gb" g0])
    show ?case
      using begins.IH(2) gb'(1) o
      by (simp add: mcp_serve_snoc invoke_steps begin_call_finish_all o' begin_all_snoc item_of_def answer_def)
  }
next
  case (finishes begun before c b after answers g result outcome attempts)
  {
    case 1
    obtain fs where fs: "g = finish_all sha256 round3 fs (begin_all (map fst begun) g0)" "answers = map answer fs"
      "mset fs + mset (map (item_of g0) (before @ (c, b) # after)) = mset (map (item_of g0) begun)"
      using finishes.IH(1) by blast
    have "outcome_of c b g = outcome_of c b g0" by (rule outcome_of_frame) (simp_all add: fs(1))
    then have "item_of g0 (c, b) = (c, result, outcome, attempts)" using finishes.hyps(2) by (simp add: item_of_def)
    then show ?case
      using fs by (intro exI[of _ "fs @ [(c, result, outcome, attempts)]"]) (simp add: answer_def)
  next
    case 2
    show ?case by (rule finishes.IH(2))
  }
qed

section \<open>What finished calls add up to\<close>

definition item_label :: "('i, 'o) mcp_gateway \<Rightarrow> mcp_call \<Rightarrow> string" where
  "item_label g c = (case c of (ct, tool, args, caller) \<Rightarrow>
     if tool \<in> set (map fst (mg_tools g)) then tool else ''unapproved'')"

definition item_record :: "(string \<Rightarrow> string) \<Rightarrow> (real \<Rightarrow> real) \<Rightarrow> 'o finished \<Rightarrow> audit_record" where
  "item_record sha256 round3 f = (case f of ((ct, tool, args, caller), result, outcome, attempts) \<Rightarrow>
     \<lparr>au_timestamp = ct_stamp ct, au_request_id = field_strip (cc_request_id caller),
      au_subject = field_strip (cc_subject caller), au_agent = field_strip (cc_agent caller),
      au_tool = field_strip tool, au_argument_fingerprint = field_strip (sha256 (json_dumps (PDict args))),
      au_outcome = outcome, au_duration_ms = round3 ((ct_ended ct - ct_started ct) * 1000),
      au_attempt_count = attempts\<rparr>)"

definition item_calls :: "('i, 'o) mcp_gateway \<Rightarrow> 'o finished \<Rightarrow> string list" where
  "item_calls g f = [item_label g (fst f), outcome_name (fst (snd (snd f)))]"

definition item_seconds :: "'o finished \<Rightarrow> real" where
  "item_seconds f = (case f of ((ct, _), _) \<Rightarrow> ct_ended ct - ct_started ct)"

lemma finish_all_adds:
  "mg_audit (finish_all sha256 round3 fs g) = mg_audit g @ map (item_record sha256 round3) fs"
  "mg_calls (finish_all sha256 round3 fs g) ls = mg_calls g ls + length (filter (\<lambda>f. item_calls g f = ls) fs)"
  "mg_duration (finish_all sha256 round3 fs g) ls =
     mg_duration g ls @ map item_seconds (filter (\<lambda>f. [item_label g (fst f)] = ls) fs)"
proof (induction fs rule: rev_induct)
  case (snoc f fs)
  obtain ct tool args caller result outcome attempts where f: "f = ((ct, tool, args, caller), result, outcome, attempts)"
    by (metis prod.exhaust)
  let ?g = "finish_all sha256 round3 fs g"
  have step: "mg_audit (finish_call sha256 round3 (ct, tool, args, caller) outcome attempts ?g) =
        mg_audit ?g @ [item_record sha256 round3 f]"
    "mg_calls (finish_call sha256 round3 (ct, tool, args, caller) outcome attempts ?g) = inc (item_calls g f) (mg_calls ?g)"
    "mg_duration (finish_call sha256 round3 (ct, tool, args, caller) outcome attempts ?g) =
        observe [item_label g (fst f)] (item_seconds f) (mg_duration ?g)"
    by (simp_all add: finish_call_def f item_record_def item_calls_def item_label_def item_seconds_def Let_def)
  {
    case 1
    show ?case using step(1) snoc.IH(1) by (simp add: f)
  next
    case 2
    show ?case using step(2) snoc.IH(2) by (cases "item_calls g f = ls") (auto simp: f inc_def)
  next
    case 3
    show ?case using step(3) snoc.IH(3) by (cases "[item_label g (fst f)] = ls") (auto simp: f observe_def)
  }
qed simp_all

lemma finish_all_reorder:
  assumes "mset fs = mset fs'"
  shows "mset (mg_audit (finish_all sha256 round3 fs g)) = mset (mg_audit (finish_all sha256 round3 fs' g))"
    and "mg_calls (finish_all sha256 round3 fs g) = mg_calls (finish_all sha256 round3 fs' g)"
    and "mset (mg_duration (finish_all sha256 round3 fs g) ls) = mset (mg_duration (finish_all sha256 round3 fs' g) ls)"
proof -
  have len: "length (filter P fs) = length (filter P fs')" for P
    using assms by (metis mset_filter size_mset)
  have sec: "mset (map item_seconds (filter P fs)) = mset (map item_seconds (filter P fs'))" for P
    using assms by (simp add: mset_filter)
  show "mset (mg_audit (finish_all sha256 round3 fs g)) = mset (mg_audit (finish_all sha256 round3 fs' g))"
    using assms by (simp add: finish_all_adds mset_map)
  show "mg_calls (finish_all sha256 round3 fs g) = mg_calls (finish_all sha256 round3 fs' g)"
    by (simp add: fun_eq_iff finish_all_adds len)
  show "mset (mg_duration (finish_all sha256 round3 fs g) ls) = mset (mg_duration (finish_all sha256 round3 fs' g) ls)"
    unfolding finish_all_adds mset_append sec ..
qed

section \<open>The handlers that run\<close>

fun handling :: "('i, 'o) begun \<Rightarrow> bool" where
  "handling (Settled x) = False"
| "handling (Handling reg v) = True"

definition call_key :: "mcp_call \<Rightarrow> string" where
  "call_key c = (case c of (ct, tool, args, caller) \<Rightarrow> tool_key tool caller)"

definition call_now :: "mcp_call \<Rightarrow> real" where
  "call_now c = ct_now (fst c)"

text \<open>The handlers that began to run for a key at the times of \<open>Q\<close>.\<close>

definition begun_for :: "string \<Rightarrow> (real \<Rightarrow> bool) \<Rightarrow> (mcp_call \<times> ('i, 'o) begun) list \<Rightarrow> nat" where
  "begun_for key Q begun = length (filter (\<lambda>(c, b). call_key c = key \<and> Q (call_now c) \<and> handling b) begun)"

lemma mcp_run_snoc:
  "mcp_run sha256 round3 (calls @ [(ct, tool, args, caller)]) g =
     (let (xs, g1) = mcp_run sha256 round3 calls g;
          (r, g2) = mcp_invoke sha256 round3 ct tool args caller g1
      in (xs @ [(tool_key tool caller, ct_now ct, au_attempt_count (call_record g2))], g2))"
proof (induction calls arbitrary: g)
  case (Cons c calls)
  then show ?case by (cases c) (simp add: split_beta Let_def)
qed (simp add: split_beta Let_def)

lemma mcp_run_serve: "snd (mcp_run sha256 round3 calls g) = snd (mcp_serve sha256 round3 calls g)"
proof (induction calls arbitrary: g)
  case (Cons c calls)
  then show ?case by (cases c) (simp add: split_beta Let_def)
qed simp

lemma handling_attempts:
  assumes "handling b" and "1 \<le> mg_max_attempts g" and "outcome_of c b g = (result, outcome, attempts)"
  shows "0 < attempts"
proof -
  obtain ct tool args caller where c: "c = (ct, tool, args, caller)" by (metis prod.exhaust)
  obtain reg v where "b = Handling reg v" using assms(1) by (cases b) auto
  with assms(3) attempt_loop_started[OF _ assms(2)] show ?thesis
    by (fastforce simp: outcome_of_def c simp del: upt_Suc)
qed

lemma schedule_run:
  assumes "schedule sha256 round3 g0 begun running answers g" and "1 \<le> mg_max_attempts g0"
  shows "begun_for key Q begun \<le> runs_of key Q (fst (mcp_run sha256 round3 (map fst begun) g0))"
  using assms
proof (induction rule: schedule.induct)
  case (begins begun running answers g ct tool args caller b g')
  let ?c = "(ct, tool, args, caller)" and ?gb = "begin_all (map fst begun) g0"
  obtain fs where fs: "g = finish_all sha256 round3 fs ?gb"
    using schedule_sequence(1)[OF begins.hyps(1)] by blast
  obtain gb' where gb': "begin_call (ct_now ct) tool args caller ?gb = (b, gb')"
    using begins.hyps(2) by (auto simp: fs begin_call_finish_all map_prod_def split: prod.splits)
  define gs where "gs = finish_all sha256 round3 (map (item_of g0) begun) ?gb"
  have gs: "snd (mcp_run sha256 round3 (map fst begun) g0) = gs"
    using schedule_sequence(2)[OF begins.hyps(1)] by (simp add: mcp_run_serve gs_def)
  obtain res oc n where o: "outcome_of ?c b gs = (res, oc, n)" by (metis prod_cases3)
  have "au_attempt_count (call_record (snd (mcp_invoke sha256 round3 ct tool args caller gs))) = n"
    using gb' o by (simp add: invoke_steps gs_def begin_call_finish_all call_record_def finish_call_def Let_def)
  moreover have "handling b \<Longrightarrow> 0 < n"
    using handling_attempts[OF _ _ o] begins.prems by (simp add: gs_def)
  ultimately show ?case
    using begins.IH[OF begins.prems] gs
    by (auto simp: begun_for_def runs_of_def mcp_run_snoc split_beta Let_def call_key_def call_now_def)
qed (simp_all add: begun_for_def runs_of_def)

text \<open>C12: calls of a gateway may overlap in any way.  In any window of \<open>rate_window_seconds\<close> at most
  \<open>rate_limit\<close> calls of one subject begin to run the handler of one tool, and every answer has left one
  audit record.  Once no call is running, the overlap has left no trace: the answers are those that the
  calls get one after the other in the order in which they began, the audit trail holds the same records
  in some order, and the metrics and the limiter are the same.  The clock is monotonic.\<close>

theorem mcp_interleavings_sound:
  assumes "new_mcp_gateway timeout mx limit window audit = Inr g0" and "mcp_register_all tools g0 = Inr g"
    and "schedule sha256 round3 g begun running answers g'" and "sorted (map (\<lambda>x. call_now (fst x)) begun)"
  shows "int (begun_for (tool_key tool caller) (\<lambda>u. t - of_int window < u \<and> u \<le> t) begun) \<le> limit \<and>
    length (mg_audit g') = length (mg_audit g) + length answers \<and>
    (running = [] \<longrightarrow>
       (\<exists>results gs. mcp_serve sha256 round3 (map fst begun) g = (results, gs) \<and> mset answers = mset results \<and>
          mset (mg_audit g') = mset (mg_audit gs) \<and> mg_calls g' = mg_calls gs \<and>
          (\<forall>ls. mset (mg_duration g' ls) = mset (mg_duration gs ls)) \<and> mg_requests g' = mg_requests gs))"
proof (intro conjI impI)
  have mx: "1 \<le> mg_max_attempts g"
    using assms(1) mcp_register_all_Inr[OF assms(2)]
    by (cases g) (auto simp: new_mcp_gateway_def split: if_splits)
  have "sorted (map (\<lambda>(ct, _). ct_now ct) (map fst begun))"
    using assms(4) by (simp add: call_now_def comp_def split_beta)
  from mcp_calls_bounded[OF assms(1,2) this] schedule_run[OF assms(3) mx]
  show "int (begun_for (tool_key tool caller) (\<lambda>u. t - of_int window < u \<and> u \<le> t) begun) \<le> limit"
    by (meson of_nat_le_iff order_trans)
  obtain fs where fs: "g' = finish_all sha256 round3 fs (begin_all (map fst begun) g)" "answers = map answer fs"
    "mset fs + mset (map (item_of g) running) = mset (map (item_of g) begun)"
    using schedule_sequence(1)[OF assms(3)] by blast
  show "length (mg_audit g') = length (mg_audit g) + length answers"
    by (simp add: fs finish_all_adds begin_all_audit)
  assume "running = []"
  then have perm: "mset fs = mset (map (item_of g) begun)" using fs(3) by simp
  then have "mset answers = mset (map (answer \<circ> item_of g) begun)"
    by (simp add: fs(2) mset_map image_mset.compositionality)
  with schedule_sequence(2)[OF assms(3)]
  show "\<exists>results gs. mcp_serve sha256 round3 (map fst begun) g = (results, gs) \<and> mset answers = mset results \<and>
      mset (mg_audit g') = mset (mg_audit gs) \<and> mg_calls g' = mg_calls gs \<and>
      (\<forall>ls. mset (mg_duration g' ls) = mset (mg_duration gs ls)) \<and> mg_requests g' = mg_requests gs"
    using finish_all_reorder[OF perm] by (intro exI conjI allI) (assumption | simp add: fs(1))+
qed

theorem mcp_interleavings_sound_witness:
  "\<exists>(g :: local_gateway) begun answers g'. schedule id id g begun [] answers g' \<and>
     map fst begun = take 2 sample_calls \<and> map fst answers = rev (take 2 sample_calls) \<and>
     int (begun_for (tool_key ''customer.get_customer'' sample_caller) (\<lambda>u. 2 - of_int 60 < u \<and> u \<le> 2) begun) \<le> 2 \<and>
     length (mg_audit g') = length (mg_audit g) + 2"
proof -
  obtain g0 g where g: "new_mcp_gateway 2 2 2 60 [] = Inr g0"
    "mcp_register_all (local_tools sample_retriever) g0 = Inr g" "local_good sample_retriever g"
    by (rule sample_local_gateway)
  define c where "c t = (sample_times t, ''customer.get_customer'', sample_args, sample_caller)" for t
  obtain b1 g1 where b1: "begin_call (ct_now (sample_times 0)) ''customer.get_customer'' sample_args sample_caller g = (b1, g1)"
    by fastforce
  obtain b2 g2 where b2: "begin_call (ct_now (sample_times 1)) ''customer.get_customer'' sample_args sample_caller g1 = (b2, g2)"
    by fastforce
  have s2: "schedule id id g [(c 0, b1), (c 1, b2)] [(c 0, b1), (c 1, b2)] [] g2"
    using schedule.begins[OF schedule.begins[OF schedule.idle b1] b2] by (simp add: c_def)
  obtain r2 o2 n2 where o2: "outcome_of (c 1) b2 g2 = (r2, o2, n2)" by (metis prod_cases3)
  define g3 where "g3 = finish_call id id (c 1) o2 n2 g2"
  obtain r1 o1 n1 where o1: "outcome_of (c 0) b1 g3 = (r1, o1, n1)" by (metis prod_cases3)
  have s3: "schedule id id g [(c 0, b1), (c 1, b2)] [(c 0, b1)] [(c 1, r2)] g3"
    using schedule.finishes[of id id g _ "[(c 0, b1)]" "c 1" b2 "[]" "[]" g2, OF _ o2] s2 by (simp add: g3_def)
  have s4: "schedule id id g [(c 0, b1), (c 1, b2)] [] [(c 1, r2), (c 0, r1)] (finish_call id id (c 0) o1 n1 g3)"
    using schedule.finishes[of id id g _ "[]" "c 0" b1 "[]" "[(c 1, r2)]" g3, OF _ o1] s3 by simp
  have "sorted (map (\<lambda>x. call_now (fst x)) [(c 0, b1), (c 1, b2)])"
    by (simp add: c_def call_now_def sample_times_def)
  note sound = mcp_interleavings_sound[OF g(1,2) s4 this, of "''customer.get_customer''" sample_caller 2]
  have b: "int (begun_for (tool_key ''customer.get_customer'' sample_caller) (\<lambda>u. 2 - of_int 60 < u \<and> u \<le> 2)
      [(c 0, b1), (c 1, b2)]) \<le> 2"
    using sound by (rule conjunct1)
  have n: "length (mg_audit (finish_call id id (c 0) o1 n1 g3)) = length (mg_audit g) + 2"
    using conjunct1[OF conjunct2[OF sound]] by simp
  have calls: "map fst [(c 0, b1), (c 1, b2)] = take 2 sample_calls"
    "map fst [(c 1, r2), (c 0, r1)] = rev (take 2 sample_calls)"
    by (simp_all add: sample_calls_def c_def)
  show ?thesis using s4 calls b n by blast
qed

end
