(* ===== verification/Observability.thy ===== *)
theory Observability
  imports App
begin

text \<open>
  What the platform shows of itself and to browsers: the tracing of the model gateway
  (model\_gateway/telemetry.py), the tracer that observability.py sets up, the logging configuration
  (gateway/logging.py) and the shell that \<open>create_app\<close> puts around the routes (documentation pages, CORS,
  security middleware).  \<open>generation_trace\<close> is the span that one call of \<open>generate\<close> leaves; the event that
  OpenTelemetry adds by itself when an exception passes through a span is not part of it.  FastAPI,
  Starlette and OpenTelemetry get these values and are not modelled.
\<close>

section \<open>Spans of the model gateway\<close>

datatype attribute = AString string | AInt int | AFloat real | AStrings "string list"

datatype span_status = Unset | StatusOk | StatusError string

record span =
  tn_name :: string
  tn_kind :: string
  tn_attributes :: "(string \<times> attribute) list"
  tn_status :: span_status

definition generation_span :: "generation_request \<Rightarrow> string \<Rightarrow> span" where
  "generation_span request provider =
     \<lparr>tn_name = ''chat '' @ gq_model request, tn_kind = ''CLIENT'',
      tn_attributes =
        [(''gen_ai.system'', AString provider),
         (''gen_ai.request.model'', AString (gq_model request)),
         (''gen_ai.request.max_tokens'', AInt (gq_max_tokens request)),
         (''gen_ai.request.temperature'', AFloat (gq_temperature request)),
         (''enterprise.tenant'', AString (gq_tenant request)),
         (''enterprise.agent'', AString (gq_agent request))],
      tn_status = Unset\<rparr>"

definition set_attribute :: "string \<Rightarrow> attribute \<Rightarrow> span \<Rightarrow> span" where
  "set_attribute k v sp = sp\<lparr>tn_attributes := AList.update k v (tn_attributes sp)\<rparr>"

text \<open>The first halves of \<open>record_success\<close> and \<open>record_failure\<close>; the metrics are in ModelGateway.\<close>

definition span_success :: "generation_result \<Rightarrow> span \<Rightarrow> span" where
  "span_success r sp =
     (set_attribute ''gen_ai.usage.output_tokens'' (AInt (tu_completion_tokens (gs_usage r)))
      (set_attribute ''gen_ai.usage.input_tokens'' (AInt (tu_prompt_tokens (gs_usage r)))
       (set_attribute ''gen_ai.response.finish_reasons'' (AStrings [gs_finish_reason r])
        (set_attribute ''gen_ai.response.model'' (AString (gs_model r)) sp))))\<lparr>tn_status := StatusOk\<rparr>"

definition span_failure :: "string \<Rightarrow> span \<Rightarrow> span" where
  "span_failure outcome sp = sp\<lparr>tn_status := StatusError outcome\<rparr>"

text \<open>The span of a call: none for a request that the allowlist, a guard or the budget refuses.\<close>

definition generation_trace :: "generation_env \<Rightarrow> generation_request \<Rightarrow> model_gateway \<Rightarrow> span option" where
  "generation_trace env q gw =
     (case allowlist_check (mgw_allowlist gw) (gq_model q) of
        Inl e \<Rightarrow> None
      | Inr _ \<Rightarrow>
     (case pii_guard_messages gw (gq_messages q) (mgw_metrics gw) of
        (Inl e, m1) \<Rightarrow> None
      | (Inr messages, m1) \<Rightarrow>
          let sq = q\<lparr>gq_messages := messages\<rparr> in
     (case safety_guard gw 0 (map cm_content messages) m1 of
        (Inl e, m2) \<Rightarrow> None
      | (Inr _, m2) \<Rightarrow>
     (case check_and_reserve (ge_show_g env) (ge_now env) (gq_tenant q) (preflight_cost env q sq gw) (mgw_budget gw) of
        (Inl e, b) \<Rightarrow> None
      | (Inr _, b) \<Rightarrow>
          let sp = generation_span sq (mgw_provider_name gw) in
     (case generate_loop (ge_round8 env) gw sq [1..<Suc (mgw_max_attempts gw)] ''error'' m2 of
        (Inr r, outcome, m3) \<Rightarrow> Some (span_success r sp)
      | (Inl e, outcome, m3) \<Rightarrow> Some (span_failure outcome sp))))))"

section \<open>The tracer and the log\<close>

record span_exporter =
  xp_endpoint :: string
  xp_insecure :: bool

record tracer_provider =
  tp_resource :: "(string \<times> string) list"
  tp_exporters :: "span_exporter list"

record tracing =
  tr_provider :: tracer_provider
  tr_excluded_urls :: string

fun env_text :: "app_env \<Rightarrow> string" where
  "env_text LocalEnv = ''local''"
| "env_text TestEnv = ''test''"
| "env_text DevelopmentEnv = ''development''"
| "env_text StagingEnv = ''staging''"
| "env_text ProductionEnv = ''production''"

definition configure_observability :: "string \<Rightarrow> app_env \<Rightarrow> bool \<Rightarrow> string \<Rightarrow> tracing" where
  "configure_observability version environment export_enabled endpoint =
     \<lparr>tr_provider =
        \<lparr>tp_resource = [(''service.name'', ''enterprise-agent-gateway''), (''service.version'', version),
           (''deployment.environment'', env_text environment)],
         tp_exporters =
           (if export_enabled
            then [\<lparr>xp_endpoint = endpoint, xp_insecure = starts_with ''http://'' endpoint\<rparr>] else [])\<rparr>,
      tr_excluded_urls = ''/health/live,/health/ready''\<rparr>"

record logging_config =
  lc_level :: log_level
  lc_handlers :: "string list"
  lc_force :: bool

definition configure_logging :: "log_level \<Rightarrow> logging_config" where
  "configure_logging level = \<lparr>lc_level = level, lc_handlers = [''JsonFormatter''], lc_force = True\<rparr>"

section \<open>The shell of the application\<close>

definition platform_version :: string where
  "platform_version = ''0.1.0''"

record cors_policy =
  co_allow_origins :: "string list"
  co_allow_credentials :: bool
  co_allow_methods :: "string list"
  co_allow_headers :: "string list"

record app_shell =
  sh_logging :: logging_config
  sh_title :: string
  sh_version :: string
  sh_docs_url :: "string option"
  sh_redoc_url :: "string option"
  sh_openapi_url :: "string option"
  sh_cors :: cors_policy
  sh_max_body_bytes :: int
  sh_timeout_seconds :: real
  sh_tracing :: tracing

definition local_or_test :: "app_env \<Rightarrow> bool" where
  "local_or_test e \<longleftrightarrow> e = LocalEnv \<or> e = TestEnv"

definition build_shell :: "settings \<Rightarrow> app_shell" where
  "build_shell s =
     \<lparr>sh_logging = configure_logging (st_log_level s),
      sh_title = st_app_name s,
      sh_version = platform_version,
      sh_docs_url = (if local_or_test (st_app_env s) then Some ''/docs'' else None),
      sh_redoc_url = None,
      sh_openapi_url = (if local_or_test (st_app_env s) then Some ''/openapi.json'' else None),
      sh_cors = \<lparr>co_allow_origins = st_cors_allowed_origins s, co_allow_credentials = False,
        co_allow_methods = [''GET'', ''POST''],
        co_allow_headers = [''Content-Type'', ''X-Local-User'', ''X-Local-Roles'', ''X-Request-ID'']\<rparr>,
      sh_max_body_bytes = st_max_request_body_bytes s,
      sh_timeout_seconds = st_request_timeout_seconds s,
      sh_tracing = configure_observability platform_version (st_app_env s) (st_otel_export_enabled s)
        (st_otel_exporter_otlp_endpoint s)\<rparr>"

section \<open>What the shell guarantees\<close>

text \<open>Settings that the validator accepts: a deployed site has no documentation pages and no schema, no
  origin is a wildcard and no credentials are shared across origins; nothing is exported unless it is
  switched on, and then in the clear only to an endpoint that says so.\<close>

lemma shell_closed:
  assumes "load_settings s = Inr s"
  shows "deployed (st_app_env s) \<longrightarrow> sh_docs_url (build_shell s) = None \<and> sh_openapi_url (build_shell s) = None"
    and "''*'' \<notin> set (co_allow_origins (sh_cors (build_shell s)))"
    and "\<not> co_allow_credentials (sh_cors (build_shell s))"
    and "tp_exporters (tr_provider (sh_tracing (build_shell s))) \<noteq> [] \<longleftrightarrow> st_otel_export_enabled s"
    and "x \<in> set (tp_exporters (tr_provider (sh_tracing (build_shell s)))) \<Longrightarrow>
      xp_insecure x \<longleftrightarrow> starts_with ''http://'' (st_otel_exporter_otlp_endpoint s)"
  using load_settings_secure[OF assms]
  by (auto simp: build_shell_def configure_observability_def deployed_def local_or_test_def secure_def split: if_splits)

text \<open>A page of another origin, even an allowed one, may not send the headers that say who is calling: with
  tokens the \<open>Authorization\<close> header, locally the tenant.\<close>

lemma cors_omits_identity:
  "''Authorization'' \<notin> set (co_allow_headers (sh_cors (build_shell s)))"
  "''X-Local-Tenant'' \<notin> set (co_allow_headers (sh_cors (build_shell s)))"
  by (simp_all add: build_shell_def)

section \<open>What a span shows\<close>

fun attribute_texts :: "attribute \<Rightarrow> string set" where
  "attribute_texts (AString x) = {x}"
| "attribute_texts (AStrings xs) = set xs"
| "attribute_texts _ = {}"

definition span_texts :: "span \<Rightarrow> string set" where
  "span_texts sp = (\<Union>(k, v)\<in>set (tn_attributes sp). attribute_texts v) \<union>
     (case tn_status sp of StatusError x \<Rightarrow> {x} | _ \<Rightarrow> {})"

lemma generate_loop_names:
  "generate_loop round8 gw q ns oc m = (r, oc', m') \<Longrightarrow> oc' = oc \<or>
     oc' \<in> {''success'', ''timeout'', ''pii_blocked'', ''content_safety_blocked'', ''provider_error''}"
proof (induction ns arbitrary: oc m)
  case (Cons n ns)
  obtain r1 m1 where a: "generate_attempt round8 gw q n m = (r1, m1)" by fastforce
  show ?case
  proof (cases r1)
    case (Inr x)
    with Cons.prems a show ?thesis by simp
  next
    case (Inl e)
    with Cons.prems a Cons.IH show ?thesis by (cases e) (fastforce split: if_splits)+
  qed
qed simp

text \<open>Only the end of a call is counted.\<close>

lemma guards_uncounted:
  "pii_guard_text gw x m = (r1, m1) \<Longrightarrow> gm_calls m1 = gm_calls m"
  "check_texts prov pol timeout k xs m = (r2, m2) \<Longrightarrow> gm_calls m2 = gm_calls m"
proof -
  show "pii_guard_text gw x m = (r1, m1) \<Longrightarrow> gm_calls m1 = gm_calls m"
    by (auto simp: pii_guard_text_def scan_and_record_def record_pii_findings_def
        split: option.splits sum.splits exn.splits if_splits)
  show "check_texts prov pol timeout k xs m = (r2, m2) \<Longrightarrow> gm_calls m2 = gm_calls m"
    by (induction prov pol timeout k xs m arbitrary: r2 m2 rule: check_texts.induct)
      (auto simp: record_content_safety_findings_def Let_def split: sum.splits if_splits)
qed

lemma messages_uncounted: "pii_guard_messages gw cs m = (r, m') \<Longrightarrow> gm_calls m' = gm_calls m"
proof (induction gw cs m arbitrary: r m' rule: pii_guard_messages.induct)
  case (2 gw c cs m)
  obtain r1 m1 where t: "pii_guard_text gw (cm_content c) m = (r1, m1)" by fastforce
  obtain r2 m2 where n: "pii_guard_messages gw cs m1 = (r2, m2)" by fastforce
  show ?case
  proof (cases r1)
    case (Inr x)
    with "2.IH"[OF t[symmetric] Inr n] "2.prems" t n guards_uncounted(1)[OF t] show ?thesis
      by (auto split: sum.splits)
  qed (use "2.prems" t guards_uncounted(1)[OF t] in simp)
qed simp

lemma safety_uncounted: "safety_guard gw k xs m = (r, m') \<Longrightarrow> gm_calls m' = gm_calls m"
  by (auto simp: safety_guard_def dest: guards_uncounted(2) split: option.splits)

lemma attempt_uncounted:
  assumes "generate_attempt round8 gw q n m = (r, m')"
  shows "gm_calls m' = gm_calls m"
proof (cases "mgw_provider gw (mgw_timeout gw) n q")
  case (Inr raw)
  obtain r1 m1 where t: "pii_guard_text gw (gs_content raw) m = (r1, m1)" by fastforce
  show ?thesis
  proof (cases r1)
    case content: (Inr content)
    obtain r2 m2 where g: "safety_guard gw (length (gq_messages q) + n) [content] m1 = (r2, m2)" by fastforce
    with assms Inr t content guards_uncounted(1)[OF t] safety_uncounted[OF g] show ?thesis
      by (cases r2) (auto simp: generate_attempt_def)
  qed (use assms Inr t guards_uncounted(1)[OF t] in \<open>auto simp: generate_attempt_def\<close>)
qed (use assms in \<open>auto simp: generate_attempt_def\<close>)

lemma loop_uncounted:
  "generate_loop round8 gw q ns oc m = (r, oc', m') \<Longrightarrow> gm_calls m' = gm_calls m \<and> (is_ok r \<longrightarrow> oc' = ''success'')"
proof (induction ns arbitrary: oc m)
  case (Cons n ns)
  obtain r1 m1 where a: "generate_attempt round8 gw q n m = (r1, m1)" by fastforce
  show ?case
  proof (cases r1)
    case (Inr x)
    with Cons.prems a attempt_uncounted[OF a] show ?thesis by auto
  next
    case (Inl e)
    with Cons.prems a attempt_uncounted[OF a] Cons.IH show ?thesis by (cases e) (auto split: if_splits)
  qed
qed auto

lemma loop_not_success:
  "generate_loop round8 gw q ns oc m = (Inl e, oc', m') \<Longrightarrow> oc \<noteq> ''success'' \<Longrightarrow> oc' \<noteq> ''success''"
proof (induction ns arbitrary: oc m)
  case (Cons n ns)
  obtain r1 m1 where a: "generate_attempt round8 gw q n m = (r1, m1)" by fastforce
  show ?case
  proof (cases r1)
    case (Inr x)
    with Cons.prems a show ?thesis by simp
  next
    case (Inl e1)
    with Cons.prems a Cons.IH show ?thesis by (cases e1) (auto split: if_splits)
  qed
qed simp

lemma span_success_shows:
  "tn_name (span_success x (generation_span q p)) = ''chat '' @ gq_model q"
  "tn_status (span_success x (generation_span q p)) = StatusOk"
  "span_texts (span_success x (generation_span q p)) =
     {p, gq_model q, gq_tenant q, gq_agent q, gs_model x, gs_finish_reason x}"
  by (auto simp: span_success_def set_attribute_def generation_span_def span_texts_def)

lemma span_failure_shows:
  "tn_name (span_failure oc (generation_span q p)) = ''chat '' @ gq_model q"
  "tn_status (span_failure oc (generation_span q p)) = StatusError oc"
  "span_texts (span_failure oc (generation_span q p)) = {p, gq_model q, gq_tenant q, gq_agent q, oc}"
  by (auto simp: span_failure_def generation_span_def span_texts_def)

lemma generate_cases:
  assumes "generate env q gw = (r, gw')"
  obtains (refused) "generation_trace env q gw = None" "\<not> is_ok r"
      "gm_calls (mgw_metrics gw') = gm_calls (mgw_metrics gw)"
  | (reserved) messages b m res oc last_m where
      "generation_trace env q gw = Some (case res of
         Inr x \<Rightarrow> span_success x (generation_span (q\<lparr>gq_messages := messages\<rparr>) (mgw_provider_name gw))
       | Inl e \<Rightarrow> span_failure oc (generation_span (q\<lparr>gq_messages := messages\<rparr>) (mgw_provider_name gw)))"
      "generate_reserved env q (q\<lparr>gq_messages := messages\<rparr>) b m gw = (r, gw')"
      "generate_loop (ge_round8 env) gw (q\<lparr>gq_messages := messages\<rparr>) [1..<Suc (mgw_max_attempts gw)] ''error'' m =
        (res, oc, last_m)"
      "gm_calls m = gm_calls (mgw_metrics gw)"
proof (cases "allowlist_check (mgw_allowlist gw) (gq_model q)")
  case (Inl e)
  with assms show thesis by (intro refused) (auto simp: generate_def generation_trace_def)
next
  case (Inr u)
  obtain rm m1 where p: "pii_guard_messages gw (gq_messages q) (mgw_metrics gw) = (rm, m1)" by fastforce
  show thesis
  proof (cases rm)
    case (Inl e)
    with assms \<open>allowlist_check (mgw_allowlist gw) (gq_model q) = Inr u\<close> p messages_uncounted[OF p] show thesis
      by (intro refused) (auto simp: generate_def generation_trace_def)
  next
    case msgs: (Inr messages)
    let ?sq = "q\<lparr>gq_messages := messages\<rparr>"
    have g: "generate_sanitized env q ?sq m1 gw = (r, gw')" using assms Inr p msgs by (simp add: generate_def)
    obtain rs m2 where sg: "safety_guard gw 0 (map cm_content messages) m1 = (rs, m2)" by fastforce
    note counted = messages_uncounted[OF p] safety_uncounted[OF sg]
    obtain rb b where cr: "check_and_reserve (ge_show_g env) (ge_now env) (gq_tenant q) (preflight_cost env q ?sq gw)
        (mgw_budget gw) = (rb, b)" by fastforce
    obtain r1 oc m3 where l: "generate_loop (ge_round8 env) gw ?sq [1..<Suc (mgw_max_attempts gw)] ''error'' m2 = (r1, oc, m3)"
      by (metis prod_cases3)
    show thesis
    proof (cases "is_ok rs \<and> is_ok rb")
      case False
      with g sg cr counted Inr p msgs show thesis
        by (intro refused; cases rs; cases rb) (auto simp: generate_sanitized_def generation_trace_def Let_def)
    next
      case True
      then obtain u1 u2 where "rs = Inr u1" "rb = Inr u2" by (auto simp: is_ok_iff)
      with g sg cr counted Inr p msgs l show thesis
        by (intro reserved[where messages = messages and b = b and m = m2 and res = r1 and oc = oc and last_m = m3]; cases r1)
          (simp_all add: generate_sanitized_def generation_trace_def Let_def del: upt_Suc)
    qed
  qed
qed

text \<open>Tracing and counting agree: a call is traced exactly when it is counted, with the outcome that is
  counted, and the span is marked as good exactly when the call returned a result.  The texts of the
  span are names: the provider, the model, the tenant, the agent, the outcome and, of the result, the
  model and the finish reason; neither the prompt nor the completion is one of them.\<close>

theorem generation_traced:
  assumes "generate env q gw = (r, gw')"
  shows "case generation_trace env q gw of
      None \<Rightarrow> \<not> is_ok r \<and> gm_calls (mgw_metrics gw') = gm_calls (mgw_metrics gw)
    | Some sp \<Rightarrow>
        (is_ok r \<longleftrightarrow> tn_status sp = StatusOk) \<and> tn_name sp = ''chat '' @ gq_model q \<and>
        (\<exists>outcome model provider. gm_calls (mgw_metrics gw') =
            inc [gq_tenant q, model, provider, outcome] (gm_calls (mgw_metrics gw)) \<and>
          (case r of
             Inl e \<Rightarrow> tn_status sp = StatusError outcome \<and> model = gq_model q \<and> provider = mgw_provider_name gw
           | Inr x \<Rightarrow> outcome = ''success'' \<and> model = gs_model x \<and> provider = gs_provider x)) \<and>
        span_texts sp \<subseteq> {mgw_provider_name gw, gq_model q, gq_tenant q, gq_agent q} \<union>
          (case r of
             Inl e \<Rightarrow> {''error'', ''timeout'', ''pii_blocked'', ''content_safety_blocked'', ''provider_error''}
           | Inr x \<Rightarrow> {gs_model x, gs_finish_reason x})"
  using assms
proof (cases rule: generate_cases)
  case refused
  then show ?thesis by simp
next
  case (reserved messages b m r1 oc m1)
  note loop = loop_uncounted[OF reserved(3)] generate_loop_names[OF reserved(3)]
  show ?thesis
  proof (cases r1)
    case (Inr x)
    then have "r = Inr x" "mgw_metrics gw' = record_success x (gq_tenant q) m1"
      using reserved(2,3) by (simp_all add: generate_reserved_def del: upt_Suc) (auto simp del: upt_Suc)
    with reserved(1,4) loop Inr show ?thesis
      by (auto simp: span_success_shows record_success_def Let_def)
  next
    case (Inl e)
    then have "r = Inl e" "mgw_metrics gw' =
        record_failure (gq_model q) (mgw_provider_name gw) oc (ge_duration env) (gq_tenant q) m1"
      using reserved(2,3) by (simp_all add: generate_reserved_def del: upt_Suc) (auto simp del: upt_Suc)
    then have r: "r = Inl e" and calls: "gm_calls (mgw_metrics gw') =
        inc [gq_tenant q, gq_model q, mgw_provider_name gw, oc] (gm_calls (mgw_metrics gw))"
      using loop(1) reserved(4) by (simp_all add: record_failure_def)
    have tr: "generation_trace env q gw =
        Some (span_failure oc (generation_span (q\<lparr>gq_messages := messages\<rparr>) (mgw_provider_name gw)))"
      using reserved(1) Inl by simp
    have oc: "oc \<in> {''error'', ''timeout'', ''pii_blocked'', ''content_safety_blocked'', ''provider_error''}"
    proof -
      have "''error'' \<noteq> ''success''" by simp
      from loop_not_success[OF reserved(3)[unfolded Inl] this] loop(2) show ?thesis by (elim disjE insertE) simp_all
    qed
    have ex: "\<exists>outcome model provider. gm_calls (mgw_metrics gw') =
          inc [gq_tenant q, model, provider, outcome] (gm_calls (mgw_metrics gw)) \<and>
        StatusError oc = StatusError outcome \<and> model = gq_model q \<and> provider = mgw_provider_name gw"
      using calls by blast
    define F where "F = {''error'', ''timeout'', ''pii_blocked'', ''content_safety_blocked'', ''provider_error''}"
    show ?thesis
      using ex oc unfolding r tr option.case sum.case span_failure_shows F_def[symmetric] by simp
  qed
qed

end
