(* ===== verification/SortCode.thy ===== *)
theory SortCode
  imports PyRegex ModelFactory
begin

text \<open>
  The recognizer that \<open>PresidioPiiDetector\<close> (safety/pii.py) adds to Presidio for UK sort codes, and what the
  model gateway that the settings build makes of it.  Presidio is a parameter; \<open>installed\<close> is what its
  registry promises of a \<open>PatternRecognizer\<close>: asked for its entity with a threshold its score reaches, it
  reports a text that its pattern is found in.
\<close>

section \<open>The recognizer\<close>

definition uk_sort_code_pattern :: regex where
  "uk_sort_code_pattern =
     (let dd = Many is_digit 2 (Some 2)
      in Cat WordB (Cat (Cat dd (Cat (Lit ''-'') (Cat dd (Cat (Lit ''-'') dd)))) WordB))"

record pattern_recognizer =
  pr_supported_entity :: string
  pr_regex :: regex
  pr_score :: real

definition sort_code_recognizer :: pattern_recognizer where
  "sort_code_recognizer = \<lparr>pr_supported_entity = ''UK_SORT_CODE'', pr_regex = uk_sort_code_pattern, pr_score = 7 / 10\<rparr>"

definition installed :: "pattern_recognizer \<Rightarrow> analyzer \<Rightarrow> bool" where
  "installed p d \<longleftrightarrow>
     (\<forall>s es threshold rs. d s es threshold = Inr rs \<longrightarrow> pr_supported_entity p \<in> set es \<longrightarrow>
        threshold \<le> pr_score p \<longrightarrow> found (pr_regex p) s \<longrightarrow> pr_supported_entity p \<in> rr_entity_type ` set rs)"

section \<open>What the pattern finds\<close>

definition two_digits :: "string \<Rightarrow> bool" where
  "two_digits s \<longleftrightarrow> list_all is_digit s \<and> length s = 2"

definition sort_code :: "string \<Rightarrow> bool" where
  "sort_code s \<longleftrightarrow> (\<exists>a b c. two_digits a \<and> two_digits b \<and> two_digits c \<and> s = a @ ''-'' @ b @ ''-'' @ c)"

lemma digit_is_word: "is_digit c \<Longrightarrow> is_word c"
  by (simp add: is_word_def Let_def)

lemma reads_two_digits: "reads (Many is_digit 2 (Some 2)) two_digits"
proof -
  have eq: "two_digits = (\<lambda>u. list_all is_digit u \<and> 2 \<le> length u \<and> (case Some 2 of None \<Rightarrow> True | Some k \<Rightarrow> length u \<le> k))"
    by (rule ext) (auto simp: two_digits_def)
  show ?thesis unfolding eq by (rule reads_Many)
qed

lemma reads_bounded:
  assumes "reads r P"
  shows "(rev u @ b, a) \<in> set (rmatch (Cat WordB (Cat r WordB)) (b, u @ a)) \<longleftrightarrow>
    P u \<and> word_at b \<noteq> word_at (u @ a) \<and> word_at (rev u @ b) \<noteq> word_at a"
proof -
  have "(rev u @ b, a) \<in> set (rmatch r (b, u @ a)) \<longleftrightarrow> P u"
    using assms by (auto simp: reads_def advances_def)
  moreover have "q \<in> set (rmatch (Cat r WordB) p) \<longleftrightarrow> q \<in> set (rmatch r p) \<and> word_at (fst q) \<noteq> word_at (snd q)" for p q
    by (cases q) (fastforce split: if_splits)
  moreover have "q \<in> set (rmatch (Cat WordB s) (b, x)) \<longleftrightarrow> word_at b \<noteq> word_at x \<and> q \<in> set (rmatch s (b, x))" for s q x
    by simp
  ultimately show ?thesis by (metis fst_conv snd_conv)
qed

lemma sort_code_ends:
  assumes "sort_code u"
  shows "word_at (u @ post)" and "word_at (rev u @ pre)"
proof -
  obtain a b c where u: "two_digits a" "two_digits b" "two_digits c" "u = a @ ''-'' @ b @ ''-'' @ c"
    using assms by (auto simp: sort_code_def)
  then obtain x y v w where "a = [x, y]" "c = [v, w]" "is_digit x" "is_digit w"
    by (auto simp: two_digits_def numeral_2_eq_2 length_Suc_conv)
  with u(4) show "word_at (u @ post)" "word_at (rev u @ pre)"
    by (simp_all add: word_at_def digit_is_word)
qed

text \<open>A text holds a sort code exactly when it has two digits, a hyphen, two digits, a hyphen and two
  digits with no letter, digit or underscore next to them.\<close>

lemma sort_code_found_iff:
  "found uk_sort_code_pattern s \<longleftrightarrow>
     (\<exists>pre u post. s = pre @ u @ post \<and> sort_code u \<and> \<not> word_at (rev pre) \<and> \<not> word_at post)"
proof -
  let ?dd = "Many is_digit 2 (Some 2)"
  have "reads (Cat ?dd (Cat (Lit ''-'') (Cat ?dd (Cat (Lit ''-'') ?dd)))) sort_code"
  proof -
    have eq: "sort_code = (\<lambda>w. \<exists>u v. w = u @ v \<and> two_digits u \<and> (\<exists>l x. v = l @ x \<and> ''-'' = l \<and>
        (\<exists>u v. x = u @ v \<and> two_digits u \<and> (\<exists>l x. v = l @ x \<and> ''-'' = l \<and> two_digits x))))"
      by (rule ext) (simp add: sort_code_def, blast)
    show ?thesis
      unfolding eq by (intro reads_Cat reads_two_digits reads_Lit)
  qed
  from reads_bounded[OF this] show ?thesis
    unfolding found_iff uk_sort_code_pattern_def Let_def by (metis sort_code_ends)
qed

section \<open>What the gateway refuses\<close>

definition blocks :: "pattern_recognizer \<Rightarrow> model_gateway \<Rightarrow> bool" where
  "blocks p gw \<longleftrightarrow> (\<exists>d pol. mgw_pii_detector gw = Some d \<and> mgw_pii_policy gw = Some pol \<and> installed p d \<and>
     pr_supported_entity p \<in> set (pp_block_entities pol) \<and> pp_score_threshold pol \<le> pr_score p)"

lemma scan_refuses:
  assumes "installed p d" and "pr_supported_entity p \<in> set (pp_block_entities pol)"
    and "pp_score_threshold pol \<le> pr_score p" and "found (pr_regex p) s" and "s \<noteq> []"
  shows "\<exists>e. pii_scan d s pol = Inl e"
proof -
  have e: "pr_supported_entity p \<in> set (all_entities pol)"
    using assms(2) by (simp add: all_entities_def)
  then have ne: "all_entities pol \<noteq> []" by auto
  show ?thesis
  proof (cases "d s (all_entities pol) (pp_score_threshold pol)")
    case (Inl x)
    with assms(5) ne show ?thesis by (simp add: pii_scan_def)
  next
    case (Inr rs)
    with assms(1,3,4) e have "pr_supported_entity p \<in> rr_entity_type ` set rs"
      by (simp add: installed_def)
    with assms(2) have "sorted_set (filter (\<lambda>t. t \<in> set (pp_block_entities pol)) (map rr_entity_type rs)) \<noteq> []"
      by (auto simp flip: set_empty2)
    with Inr assms(5) ne show ?thesis by (simp add: pii_scan_def Let_def)
  qed
qed

lemma sort_code_text: "found uk_sort_code_pattern s \<Longrightarrow> s \<noteq> []"
  unfolding sort_code_found_iff by (auto simp: sort_code_def)

lemma guard_refuses_text:
  assumes "blocks sort_code_recognizer gw" and "found uk_sort_code_pattern s"
  shows "\<exists>e. fst (pii_guard_text gw s m) = Inl e"
  using assms scan_refuses[of sort_code_recognizer] sort_code_text[OF assms(2)]
  by (fastforce simp: blocks_def sort_code_recognizer_def pii_guard_text_def scan_and_record_def split: exn.splits)

lemma guard_refuses_messages:
  assumes "blocks sort_code_recognizer gw" and "c \<in> set cs" and "found uk_sort_code_pattern (cm_content c)"
  shows "\<exists>e. fst (pii_guard_messages gw cs m) = Inl e"
  using assms(2)
proof (induction cs arbitrary: m)
  case (Cons x cs)
  obtain r m1 where g: "pii_guard_text gw (cm_content x) m = (r, m1)" by fastforce
  obtain r2 m2 where g2: "pii_guard_messages gw cs m1 = (r2, m2)" by fastforce
  show ?case
  proof (cases "x = c")
    case True
    with g guard_refuses_text[OF assms(1,3), of m] show ?thesis by auto
  next
    case False
    with Cons.prems Cons.IH[of m1] g2 obtain e where "r2 = Inl e" by auto
    with g g2 show ?thesis by (cases r) auto
  qed
qed simp

lemma guard_ignores_provider:
  "pii_guard_messages (gw\<lparr>mgw_provider := provider, mgw_budget := budget\<rparr>) cs m = pii_guard_messages gw cs m"
proof (induction cs arbitrary: m)
  case (Cons x cs)
  have "pii_guard_text (gw\<lparr>mgw_provider := provider, mgw_budget := budget\<rparr>) s m = pii_guard_text gw s m" for s
    by (simp add: pii_guard_text_def)
  with Cons show ?case by (auto split: prod.splits sum.splits)
qed simp

text \<open>The settings that block sort codes build a gateway that refuses them, unless the score threshold is
  above that of the recognizer: up to 1 is a valid setting.\<close>

lemma built_blocks:
  assumes "build_model_gateway sv s registry metrics = Inr gw" and "st_pii_protection_enabled s"
    and "''UK_SORT_CODE'' \<in> set (st_pii_block_entities s)" and "st_pii_score_threshold s \<le> 7 / 10"
    and "installed sort_code_recognizer (ms_detector sv)"
  shows "blocks sort_code_recognizer gw"
  using assms
  by (auto simp: build_model_gateway_def select_pii_def new_pii_policy_def new_model_gateway_def blocks_def
      sort_code_recognizer_def split: sum.splits if_splits)

text \<open>A request with a sort code in any of its messages is refused whatever the provider, the environment
  and the budget are; nothing is reserved.\<close>

theorem sort_codes_never_sent:
  assumes "blocks sort_code_recognizer gw" and "c \<in> set (gq_messages q)"
    and "found uk_sort_code_pattern (cm_content c)"
  shows "\<exists>e m. \<forall>env provider budget. generate env q (gw\<lparr>mgw_provider := provider, mgw_budget := budget\<rparr>) =
    (Inl e, gw\<lparr>mgw_provider := provider, mgw_budget := budget, mgw_metrics := m\<rparr>)"
proof (cases "allowlist_check (mgw_allowlist gw) (gq_model q)")
  case (Inl e)
  then show ?thesis by (auto simp: generate_def intro!: exI[of _ "mgw_metrics gw"])
next
  case (Inr u)
  obtain e m where "pii_guard_messages gw (gq_messages q) (mgw_metrics gw) = (Inl e, m)"
    using guard_refuses_messages[OF assms, of "mgw_metrics gw"] by (metis prod.collapse)
  with Inr show ?thesis by (auto simp: generate_def guard_ignores_provider)
qed

text \<open>A recognizer that is installed, and what its threshold does.\<close>

definition sort_code_detector :: analyzer where
  "sort_code_detector s es threshold =
     Inr (if ''UK_SORT_CODE'' \<in> set es \<and> threshold \<le> 7 / 10 \<and> found uk_sort_code_pattern s
          then [\<lparr>rr_entity_type = ''UK_SORT_CODE'', rr_start = 0, rr_end = length s, rr_score = 7 / 10\<rparr>] else [])"

lemma sort_code_detector_installed: "installed sort_code_recognizer sort_code_detector"
  by (simp add: installed_def sort_code_detector_def sort_code_recognizer_def)

text \<open>The recognizer looks for hyphens: the six digits alone, or with blanks between them, pass.\<close>

lemma sort_code_examples:
  "found uk_sort_code_pattern ''pay 12-34-56 now''" "\<not> found uk_sort_code_pattern ''pay 123456 now''"
  "\<not> found uk_sort_code_pattern ''pay 12 34 56 now''" "\<not> found uk_sort_code_pattern ''ref112-34-56''"
  by code_simp+

end
