(* ===== verification/Spec2Isabelle.thy ===== *)
theory Spec2Isabelle
  imports RateLimit RemoteAuth Http Auth Groundedness AzureSearch ModelFactory Orchestration Skills Evaluation
    ApprovalStores AppRun Sdk DurableState LoadTest Readiness IngestAzure RemoteServer GroundednessGate OperatorDemo Edge
    MetricLabels McpConcurrent Observability SortCode
begin

text \<open>
  Enterprise GenAI agent platform: a verification development of the Python package
  src/enterprise\_genai\_platform and of the scripts and entry points around it.  Paths below are
  relative to that package unless they start with scripts/ or mcp/.

  \<^bold>\<open>The program.\<close>  A FastAPI gateway (gateway/) authenticates a caller, resolves its tenant and serves
  investigations, retrieval-augmented answers, text generation and a demonstration page.  An
  investigation goes to the operations workflow (orchestration/), which classifies the query
  (models/mock.py) and runs one specialist agent (agents/); an agent reaches the data of the bank
  (domain/) and the policies (rag/) only through the governed tool gateway (mcp\_boundary/), which
  authorizes, limits, validates, retries and audits every call.  What must not be decided by the
  program becomes a pending approval in a store (state/) with three backends.  Generation goes through
  the model gateway (model\_gateway/) with its PII and content-safety guards (safety/) and the budget of
  the tenant (tenancy/).

  \<^bold>\<open>Layout.\<close>  Each theory opens with a note on its sources and parameters.

  \<^item> Shared: \<open>Prelude\<close> (the exception classes as the datatype \<open>exn\<close>, results as \<open>exn + 'a\<close>, association
    lists, counters), \<open>PyStr\<close>, \<open>PyRegex\<close> and \<open>PyVal\<close> (the operations of \<open>str\<close>, a backtracking matcher for
    the patterns in use, dynamically typed values and \<open>json.dumps\<close>).
  \<^item> \<open>SlidingWindow\<close>: the locale \<open>sliding_window\<close> of a queue of charges per key, with the abstract history
    \<open>window_spec\<close>.  It is interpreted by the three controls of the program: \<open>rl\<close> in \<open>RateLimit\<close>
    (gateway/auth.py), \<open>mcp\<close> in \<open>McpGateway\<close> (mcp\_boundary/gateway.py), \<open>budget\<close> in \<open>ModelPolicy\<close>
    (model\_gateway/policy.py, contracts.py, pricing.py).
  \<^item> The edge: \<open>Http\<close> (gateway/middleware.py, logging.py, the HTTP counters), \<open>Metrics\<close> (metrics.py: the
    declared metrics, their labels and what a sample needs), \<open>Config\<close> (gateway/config.py),
    \<open>Tenancy\<close> (tenancy/), \<open>Auth\<close> (gateway/jwt\_identity.py, auth.py), \<open>RemoteAuth\<close>
    (mcp\_boundary/remote\_auth.py).
  \<^item> Knowledge: \<open>Ingestion\<close>, \<open>Chunking\<close>, \<open>Retrieval\<close>, \<open>AzureSearch\<close>, \<open>Groundedness\<close> (rag/).  The locale
    \<open>vector_index\<close> is what the retriever relies on; it is interpreted by the local index, the Azure index
    and the choice between them.
  \<^item> Models: \<open>ModelPolicy\<close>, \<open>Pii\<close>, \<open>ModelGateway\<close>, \<open>ModelFactory\<close> (model\_gateway/, safety/,
    rag/synthesis.py), \<open>SortCode\<close> (the recognizer that safety/pii.py adds to Presidio).
  \<^item> Tools and agents: \<open>McpGateway\<close>, \<open>Domain\<close>, \<open>McpLocal\<close> (mcp\_boundary/, domain/), \<open>McpConcurrent\<close> (the same
    calls in flight together), \<open>Agents\<close> (agents/),
    \<open>Orchestration\<close> (models/, orchestration/), \<open>Skills\<close> (skills/), \<open>Evaluation\<close> (evaluation/).  The locale
    \<open>tool_gateway\<close> is what an agent relies on (an audit record for every call, and only certain errors);
    \<open>local\<close> interprets it on the gateway with the local tools, \<open>metered\<close> in \<open>MetricLabels\<close> with records whose
    labels are checked as well.
  \<^item> Approvals: \<open>Approvals\<close> holds the contract, the step relation \<open>approval_step\<close> on a map from ids to
    records and the locale \<open>approval_store\<close>; \<open>SqliteStore\<close>, \<open>PostgresStore\<close>, \<open>RedisStore\<close> (state/store.py,
    postgres.py, redis.py) interpret it, and \<open>ApprovalStores\<close> (state/factory.py) interprets it on the
    store in use.
  \<^item> The application: \<open>App\<close> and \<open>Demo\<close> (gateway/app.py, models.py) assemble the components and model one
    function per route; \<open>AppSafety\<close> has the routing table, the reachable states and their invariant,
    \<open>Edge\<close> the same behind the middleware; \<open>MetricLabels\<close> follows the time series a process creates;
    \<open>Observability\<close> (observability.py, model\_gateway/telemetry.py, gateway/logging.py, the shell around the
    routes in gateway/app.py) has tracing, logging and the CORS and OpenAPI switches; \<open>AppRun\<close> builds an
    application that starts, for the witnesses.
  \<^item> Around it: \<open>Sdk\<close> (sdk/client.py), \<open>RemoteServer\<close> (the four entry points under mcp/), \<open>IngestAzure\<close>, \<open>LoadTest\<close>,
    \<open>Readiness\<close> (with cost\_control.py), \<open>GroundednessGate\<close>, \<open>OperatorDemo\<close> (scripts/), and \<open>DurableState\<close>,
    which extends \<open>approval_store\<close> to the locale \<open>durable_store\<close> of stores that outlive a process.

  \<^bold>\<open>Correspondence.\<close>  A class with state is a record, a method a function that takes the state and
  returns the result with the new state; a raise is \<open>Inl\<close> of an \<open>exn\<close>, an early return a branch.  A
  definition has the name of the function it models, with a prefix where that name is taken or not
  unique (\<open>rl_check\<close>, \<open>tr_get\<close>, \<open>mcp_invoke\<close>).  A coroutine runs to its end in one
  step, except in \<open>McpConcurrent\<close>: there a tool call is the two uninterrupted stretches before and after it
  waits for its handler, any schedule may interleave them, and C12 shows that the gateway ends up as if the
  calls had come one after the other.  In scripts/load-failure-test.py, which gathers calls, the statement
  does not depend on the order.

  \<^bold>\<open>What is shown.\<close>

  \<^item> Admission: the rate limits and the tenant budgets hold in every window, over any sequence of requests
    (C1, C21, and \<open>mcp_calls_bounded\<close>, which C12 carries over to calls that overlap); \<open>RateLimit\<close> also has
    exactness and isolation.
  \<^item> Identity: tenants and roles come from verified claims, in a deployed environment from nothing else
    (C6, C7, C10); registries and skills that load are sound (C5, C37), and the model gateway is the one the
    settings describe, where its constructors accept them (C23).
  \<^item> Confinement: a chunk reaches nobody who lacks one of its roles, locally and through the filter sent to
    Azure, which agrees with the local index on everything that can be added to it (C4, C16, C17); what the
    tools and the workflow can call (C11, C32); that the agents show the records of the bank and
    nothing else (C27, C28); what they never do (C33); and the scope that is wider than its comment says (C24).
  \<^item> Text: what redaction leaves at every place of a value, tuples apart (C9); ingestion, masking and escaping
    lose nothing and let nothing through (C13, C19, C26); chunking covers the text where it returns and may not return (C14, C15); the report on
    an answer is determined by its citations and terms (C18); the model gateway guards both directions (C22) and sends no sort code
    (\<open>sort_codes_never_sent\<close>).
  \<^item> Approvals: each backend refines the contract over any sequence of operations, errors included (C34);
    what follows for every backend (C35, C36), also across a reconnection (C25).
  \<^item> The whole: what a successful investigation implies (C39), that tenants do not affect each other on any
    routes (C40), that everything a request leaves is under the id its response carries (C3), that the
    client's identity is the one the gateway reads (C20), and runs of the whole program that succeed (C2,
    C29, C38).  Every sample fits the declaration of its metric, with labels from a closed vocabulary (C8);
    routing decides and fails closed (C30, C31).

  The text before a property names it; its witness is the theorem of the same name with \<open>_witness\<close>.

  \<^bold>\<open>Parameters and bounds.\<close>  Clocks, uuids, rounding, hashes, the JWT library, YAML, JSON and ISO parsing,
  Presidio, the Azure and OpenAI clients, the database servers and LangGraph's step limit are arguments of
  the definitions; where a property relies on their documented behaviour (\<open>service_documented\<close>, \<open>codec_ok\<close>,
  \<open>reads_iso\<close>, \<open>hex_digest\<close>) it says so in a hypothesis, which its witness meets with a concrete function.
  Strings are over the characters of Latin-1, floats are real numbers, amounts of the bank are hundredths.
  No fuel is used: the chunking loop, which may run for ever, is a partial function with an option, and every
  other loop is structural or has a measure.

  \<^bold>\<open>Not modelled.\<close>  The environment reading of pydantic-settings; what the CORS middleware does with a
  request (its configuration is modelled) and the exception events OpenTelemetry adds to a span; the event
  loop beyond \<open>McpConcurrent\<close>, with the partial effects of a cancelled handler; thread locks and connection
  set-up; the counters of a retrieval that runs inside a tool call; the files the scripts write and what they
  print.  These are the work of libraries or of the interpreter, with nothing of the program's own to state.
  Terraform, Helm, container and CI files are not Python.
\<close>

end
